(* ===== verification/Prelude.thy ===== *)
theory Prelude
  imports Main "HOL-Library.Word" "HOL-Library.List_Lexorder" "HOL-Library.Char_ord"
    "HOL-Library.Multiset" "HOL-Library.Code_Target_Numeral"
begin

text \<open>
  Shared vocabulary of the development: the types that stand for Go's machine integers, byte
  slices, strings and \<open>(value, error)\<close> results, the collections of simplification facts the
  component theories add to, and the generic list, word and option lemmas they share.

  A Go function that returns a value and an \<open>error\<close> is modelled by a function into
  \<open>'a result\<close>: \<open>Inl msg\<close> is the error (\<open>msg\<close> is the text given to \<open>errors.New\<close> or
  \<open>fmt.Errorf\<close>), \<open>Inr x\<close> is the value. \<open>rbind\<close> is the \<open>if err != nil { return err }\<close> idiom, for this and for other
  early returns.
\<close>

section \<open>Types\<close>

type_synonym byte = "8 word"
type_synonym bytes = "byte list"
type_synonym u32 = "32 word"
type_synonym u64 = "64 word"
type_synonym 'a result = "string + 'a"

text \<open>Instants and durations are in nanoseconds; the zero time of Go is \<open>0\<close>.\<close>

type_synonym time = int

abbreviation second :: int where "second \<equiv> 1000000000"

text \<open>The outcome of reading one object of the API server.\<close>

datatype 'a get = Got 'a | NotFound | GetFailed string

text \<open>Facts about codecs, guarded results and state updates, used as \<open>simp add:\<close> bundles.\<close>

named_theorems codec_simps
named_theorems result_simps

section \<open>Results\<close>

definition rbind :: "'e + 'a \<Rightarrow> ('a \<Rightarrow> 'e + 'b) \<Rightarrow> 'e + 'b" where
  "rbind m f = (case m of Inl e \<Rightarrow> Inl e | Inr x \<Rightarrow> f x)"

definition rguard :: "bool \<Rightarrow> string \<Rightarrow> 'b result \<Rightarrow> 'b result" where
  "rguard refused msg k = (if refused then Inl msg else k)"

definition is_ok :: "'a result \<Rightarrow> bool" where
  "is_ok r = (case r of Inl _ \<Rightarrow> False | Inr _ \<Rightarrow> True)"

lemma rbind_simps [simp]:
  "rbind (Inl e) f = Inl e"
  "rbind (Inr x) f = f x"
  by (simp_all add: rbind_def)

lemma rbind_Inr_iff [result_simps]: "rbind m f = Inr y \<longleftrightarrow> (\<exists>x. m = Inr x \<and> f x = Inr y)"
  by (cases m) auto

lemma rbind_cong [fundef_cong]:
  "m = m' \<Longrightarrow> (\<And>x. m' = Inr x \<Longrightarrow> f x = g x) \<Longrightarrow> rbind m f = rbind m' g"
  by (cases m') auto

lemma rguard_simps [simp]:
  "rguard True msg k = Inl msg"
  "rguard False msg k = k"
  by (simp_all add: rguard_def)

lemma rguard_Inr_iff [result_simps]: "rguard c msg k = Inr y \<longleftrightarrow> \<not> c \<and> k = Inr y"
  by (cases c) auto

lemma rguard_cong [fundef_cong]:
  "c = c' \<Longrightarrow> msg = msg' \<Longrightarrow> (\<not> c' \<Longrightarrow> k = k') \<Longrightarrow> rguard c msg k = rguard c' msg' k'"
  by (cases c') auto

lemma is_ok_simps [simp]: "is_ok (Inl e) = False" "is_ok (Inr x) = True"
  by (simp_all add: is_ok_def)

lemma is_ok_iff: "is_ok r \<longleftrightarrow> (\<exists>x. r = Inr x)"
  by (cases r) auto

lemma is_okE: "is_ok r \<Longrightarrow> (\<And>x. r = Inr x \<Longrightarrow> P) \<Longrightarrow> P"
  by (cases r) auto

section \<open>Strings as byte sequences\<close>

text \<open>
  A Go string is a sequence of bytes; so is HOL's \<^typ>\<open>string\<close>, whose characters have exactly
  256 values. \<open>str_bytes\<close> is the conversion \<open>[]byte(s)\<close> and \<open>bytes_str\<close> is \<open>string(b)\<close>.
\<close>

definition str_bytes :: "string \<Rightarrow> bytes" where
  "str_bytes s = map (\<lambda>c. of_nat (of_char c)) s"

definition bytes_str :: "bytes \<Rightarrow> string" where
  "bytes_str b = map (\<lambda>w. char_of (unat w)) b"

lemma of_char_less_256: "(of_char c :: nat) < 256"
  using nat_of_char_less_256 [of c] by simp

lemma char_byte_char [simp]: "char_of (unat (of_nat (of_char c) :: byte)) = (c::char)"
  by (simp add: unat_of_nat of_char_less_256)

lemma byte_char_byte [simp]: "of_nat (of_char (char_of (unat (w::byte)) :: char)) = w"
proof -
  have "unat w < 256" using unsigned_less [of w, where ?'a = nat] by simp
  then show ?thesis by simp
qed

lemma bytes_str_str_bytes [simp, codec_simps]: "bytes_str (str_bytes s) = s"
  by (simp add: bytes_str_def str_bytes_def comp_def)

lemma str_bytes_bytes_str [simp, codec_simps]: "str_bytes (bytes_str b) = b"
  unfolding bytes_str_def str_bytes_def map_map comp_def byte_char_byte by simp

lemma length_str_bytes [simp]: "length (str_bytes s) = length s"
  by (simp add: str_bytes_def)

lemma length_bytes_str [simp]: "length (bytes_str b) = length b"
  by (simp add: bytes_str_def)

lemma str_bytes_append: "str_bytes (s @ t) = str_bytes s @ str_bytes t"
  by (simp add: str_bytes_def)

lemma str_bytes_eq_iff [simp]: "str_bytes s = str_bytes t \<longleftrightarrow> s = t"
  by (metis bytes_str_str_bytes)

lemma bytes_str_eq_iff [simp]: "bytes_str s = bytes_str t \<longleftrightarrow> s = t"
  by (metis str_bytes_bytes_str)

section \<open>Big-endian integers\<close>

text \<open>\<open>be_val\<close> is \<open>big.Int.SetBytes\<close> and \<open>binary.BigEndian.Uint*\<close>; \<open>be_bytes n\<close> is
  \<open>FillBytes\<close> into \<open>n\<close> bytes and \<open>binary.BigEndian.AppendUint*\<close>.\<close>

definition be_val :: "bytes \<Rightarrow> nat" where
  "be_val b = foldl (\<lambda>n w. n * 256 + unat w) 0 b"

primrec be_bytes :: "nat \<Rightarrow> nat \<Rightarrow> bytes" where
  "be_bytes 0 x = []"
| "be_bytes (Suc n) x = be_bytes n (x div 256) @ [of_nat (x mod 256)]"

lemma be_val_Nil [simp]: "be_val [] = 0"
  by (simp add: be_val_def)

lemma be_val_snoc [simp]: "be_val (b @ [w]) = be_val b * 256 + unat w"
  by (simp add: be_val_def)

lemma length_be_bytes [simp]: "length (be_bytes n x) = n"
  by (induction n arbitrary: x) auto

lemma be_val_be_bytes_mod: "be_val (be_bytes n x) = x mod 256 ^ n"
proof (induction n arbitrary: x)
  case 0
  then show ?case by simp
next
  case (Suc n)
  have "x mod 256 < 256" by simp
  then have "unat (of_nat (x mod 256) :: byte) = x mod 256"
    by (simp add: unat_of_nat)
  with Suc show ?case
    by (simp add: mod_mult2_eq mult.commute)
qed

lemma be_val_be_bytes [simp, codec_simps]: "x < 256 ^ n \<Longrightarrow> be_val (be_bytes n x) = x"
  by (simp add: be_val_be_bytes_mod)

lemma byte_less_256: "unat (w :: byte) < 256"
  using unsigned_less [of w, where ?'a = nat] by simp

lemma be_val_less: "be_val b < 256 ^ length b"
proof (induction b rule: rev_induct)
  case Nil
  then show ?case by simp
next
  case (snoc w b)
  have "be_val b * 256 + unat w < (be_val b + 1) * 256"
    using byte_less_256 [of w] by simp
  also have "\<dots> \<le> 256 ^ length b * 256"
    using snoc by (intro mult_right_mono) auto
  finally show ?case by (simp add: mult.commute)
qed

lemma be_bytes_be_val [simp, codec_simps]: "be_bytes (length b) (be_val b) = b"
proof (induction b rule: rev_induct)
  case Nil
  then show ?case by simp
next
  case (snoc w b)
  have w: "unat w < 256" by (rule byte_less_256)
  have "(be_val b * 256 + unat w) div 256 = be_val b"
    and "(be_val b * 256 + unat w) mod 256 = unat w"
    using w by simp_all
  with snoc show ?case by simp
qed

lemma be_bytes_inj: "x < 256 ^ n \<Longrightarrow> y < 256 ^ n \<Longrightarrow> be_bytes n x = be_bytes n y \<longleftrightarrow> x = y"
  by (metis be_val_be_bytes)

lemma be_val_Cons: "be_val (w # b) = unat w * 256 ^ length b + be_val b"
proof (induction b rule: rev_induct)
  case Nil
  then show ?case by (simp add: be_val_def)
next
  case (snoc v b)
  then have "be_val (w # b @ [v]) = (unat w * 256 ^ length b + be_val b) * 256 + unat v"
    using be_val_snoc [of "w # b" v] by simp
  then show ?case by (simp add: algebra_simps)
qed

lemma be_val_replicate_0 [simp]: "be_val (replicate n 0 @ b) = be_val b"
  by (induction n) (auto simp: be_val_Cons)

lemma be_val_zeros [simp]: "be_val (replicate n 0) = 0"
  using be_val_replicate_0 [of n "[]"] by simp

section \<open>Association lists as Go maps\<close>

text \<open>
  A Go map with string keys whose iteration order the code removes by sorting is an association
  list; \<open>distinct_keys\<close> is the invariant that makes it a finite map.
\<close>

definition distinct_keys :: "('k \<times> 'v) list \<Rightarrow> bool" where
  "distinct_keys m = distinct (map fst m)"

lemma distinct_keys_simps [simp]:
  "distinct_keys []"
  "distinct_keys ((k, v) # m) \<longleftrightarrow> k \<notin> fst ` set m \<and> distinct_keys m"
  by (auto simp: distinct_keys_def)

lemma sort_key_fst_id:
  "sorted_wrt (<) (map fst m) \<Longrightarrow> sort_key fst m = (m :: ('k::linorder \<times> 'v) list)"
proof (induction m)
  case Nil
  then show ?case by simp
next
  case (Cons p m)
  then have "sort_key fst m = m" by simp
  moreover have "\<forall>q \<in> set m. fst p \<le> fst q"
    using Cons.prems by (auto simp: less_imp_le)
  ultimately show ?case
    by (cases m) (auto simp: insort_key.simps)
qed

lemma distinct_sort_key_fst:
  assumes "distinct_keys m"
  shows "sorted_wrt (<) (map fst (sort_key fst m))"
proof -
  have "distinct (map fst (sort_key fst m))"
    using assms unfolding distinct_keys_def
    by (metis (no_types, lifting) mset_map mset_sort mset_eq_imp_distinct_iff)
  moreover have "sorted (map fst (sort_key fst m))" by simp
  ultimately show ?thesis by (simp add: strict_sorted_iff)
qed

end
