(* ===== verification/Go_Encoding.thy ===== *)
theory Go_Encoding
  imports Prelude
begin

text \<open>
  The parts of Go's standard library the protocol libraries call: \<open>encoding/hex\<close>,
  \<open>unicode/utf8.Valid\<close>, the decimal parsers \<open>big.Int.SetString(s, 10)\<close> and
  \<open>strconv.ParseUint(s, 10, 64)\<close>, and the \<open>strings\<close> helpers \<open>Split\<close>, \<open>HasPrefix\<close>,
  \<open>HasSuffix\<close>, \<open>TrimPrefix\<close> and \<open>IndexByte\<close>. The lemmas are the round trips and bounds the
  codecs rest on.
\<close>

section \<open>encoding/hex\<close>

definition hex_alphabet :: string where
  "hex_alphabet = ''0123456789abcdef''"

definition hex_digit :: "nat \<Rightarrow> char" where
  "hex_digit n = hex_alphabet ! n"

definition hex_value :: "char \<Rightarrow> nat option" where
  "hex_value c =
     (if CHR ''0'' \<le> c \<and> c \<le> CHR ''9'' then Some (of_char c - 48)
      else if CHR ''a'' \<le> c \<and> c \<le> CHR ''f'' then Some (of_char c - 87)
      else if CHR ''A'' \<le> c \<and> c \<le> CHR ''F'' then Some (of_char c - 55)
      else None)"

definition hex_encode :: "bytes \<Rightarrow> string" where
  "hex_encode b = concat (map (\<lambda>w. [hex_digit (unat w div 16), hex_digit (unat w mod 16)]) b)"

fun hex_decode :: "string \<Rightarrow> bytes result" where
  "hex_decode [] = Inr []"
| "hex_decode [c] = Inl ''encoding/hex: odd length hex string''"
| "hex_decode (c # d # s) =
     (case (hex_value c, hex_value d) of
        (Some h, Some l) \<Rightarrow> rbind (hex_decode s) (\<lambda>b. Inr (of_nat (h * 16 + l) # b))
      | _ \<Rightarrow> Inl ''encoding/hex: invalid byte'')"

lemma hex_digit_cases:
  assumes "n < 16"
  shows "hex_value (hex_digit n) = Some n"
proof -
  have "n \<in> set [0..<16]" using assms by simp
  then have "\<forall>n \<in> set [0..<16]. hex_value (hex_digit n) = Some n \<Longrightarrow> ?thesis" by blast
  moreover have "\<forall>n \<in> set [0..<16]. hex_value (hex_digit n) = Some n"
    by code_simp
  ultimately show ?thesis by blast
qed

lemma hex_encode_Nil [simp]: "hex_encode [] = []"
  by (simp add: hex_encode_def)

lemma hex_encode_Cons:
  "hex_encode (w # b) = hex_digit (unat w div 16) # hex_digit (unat w mod 16) # hex_encode b"
  by (simp add: hex_encode_def)

lemma hex_decode_encode [simp, codec_simps]: "hex_decode (hex_encode b) = Inr b"
proof (induction b)
  case Nil
  then show ?case by simp
next
  case (Cons w b)
  have "unat w < 256" by (rule byte_less_256)
  then have "unat w div 16 < 16" by auto
  moreover have "of_nat (unat w div 16 * 16 + unat w mod 16) = w"
    by (simp only: div_mult_mod_eq) simp
  ultimately show ?case
    using Cons by (simp add: hex_encode_Cons hex_digit_cases)
qed

lemma length_hex_encode [simp]: "length (hex_encode b) = 2 * length b"
  by (induction b) (auto simp: hex_encode_Cons)

lemma hex_encode_inj [simp]: "hex_encode a = hex_encode b \<longleftrightarrow> a = b"
  by (metis hex_decode_encode sum.inject(2))

lemma hex_decode_length: "hex_decode s = Inr b \<Longrightarrow> length s = 2 * length b"
  by (induction s arbitrary: b rule: hex_decode.induct)
    (auto simp: result_simps split: option.splits)

section \<open>unicode/utf8\<close>

definition utf8_cont :: "byte \<Rightarrow> bool" where
  "utf8_cont b \<longleftrightarrow> 0x80 \<le> b \<and> b \<le> 0xBF"

text \<open>\<open>utf8.Valid\<close>: the accept ranges of the second byte exclude overlong forms, surrogates and
  code points above U+10FFFF.\<close>

definition utf8_second :: "byte \<Rightarrow> byte \<Rightarrow> bool" where
  "utf8_second b0 b1 \<longleftrightarrow>
     (if b0 = 0xE0 then 0xA0 \<le> b1 \<and> b1 \<le> 0xBF
      else if b0 = 0xED then 0x80 \<le> b1 \<and> b1 \<le> 0x9F
      else if b0 = 0xF0 then 0x90 \<le> b1 \<and> b1 \<le> 0xBF
      else if b0 = 0xF4 then 0x80 \<le> b1 \<and> b1 \<le> 0x8F
      else utf8_cont b1)"

fun utf8_valid :: "bytes \<Rightarrow> bool" where
  "utf8_valid [] = True"
| "utf8_valid (b0 # r) =
     (if b0 < 0x80 then utf8_valid r
      else if 0xC2 \<le> b0 \<and> b0 \<le> 0xDF
        then (case r of b1 # r' \<Rightarrow> utf8_second b0 b1 \<and> utf8_valid r' | _ \<Rightarrow> False)
      else if 0xE0 \<le> b0 \<and> b0 \<le> 0xEF
        then (case r of b1 # b2 # r' \<Rightarrow> utf8_second b0 b1 \<and> utf8_cont b2 \<and> utf8_valid r'
              | _ \<Rightarrow> False)
      else if 0xF0 \<le> b0 \<and> b0 \<le> 0xF4
        then (case r of b1 # b2 # b3 # r' \<Rightarrow>
                utf8_second b0 b1 \<and> utf8_cont b2 \<and> utf8_cont b3 \<and> utf8_valid r'
              | _ \<Rightarrow> False)
      else False)"

lemma utf8_valid_ascii: "list_all (\<lambda>b. b < 0x80) s \<Longrightarrow> utf8_valid s"
  by (induction s) auto

section \<open>Decimal numbers\<close>

definition digit_value :: "char \<Rightarrow> nat option" where
  "digit_value c = (if CHR ''0'' \<le> c \<and> c \<le> CHR ''9'' then Some (of_char c - 48) else None)"

fun decimal_digits :: "nat \<Rightarrow> string \<Rightarrow> nat option" where
  "decimal_digits n [] = Some n"
| "decimal_digits n (c # s) =
     (case digit_value c of None \<Rightarrow> None | Some d \<Rightarrow> decimal_digits (n * 10 + d) s)"

definition parse_digits :: "string \<Rightarrow> nat option" where
  "parse_digits s = (if s = [] then None else decimal_digits 0 s)"

text \<open>\<open>big.Int.SetString(s, 10)\<close>: an optional sign, then at least one decimal digit.\<close>

definition big_set_string :: "string \<Rightarrow> int option" where
  "big_set_string s =
     (case s of
        [] \<Rightarrow> None
      | c # r \<Rightarrow>
          if c = CHR ''-'' then map_option (\<lambda>n. - int n) (parse_digits r)
          else if c = CHR ''+'' then map_option int (parse_digits r)
          else map_option int (parse_digits s))"

text \<open>\<open>strconv.ParseUint(s, 10, 64)\<close>: unsigned digits only, refused outside 64 bits.\<close>

definition parse_uint64 :: "string \<Rightarrow> u64 result" where
  "parse_uint64 s =
     (case parse_digits s of
        None \<Rightarrow> Inl ''strconv.ParseUint: invalid syntax''
      | Some n \<Rightarrow> if n < 2 ^ 64 then Inr (of_nat n)
                  else Inl ''strconv.ParseUint: value out of range'')"

lemma parse_uint64_exact:
  "parse_uint64 s = Inr w \<Longrightarrow> parse_digits s = Some (unat w)"
  by (auto simp: parse_uint64_def unat_of_nat split: option.splits if_splits)

section \<open>strings\<close>

fun split_on :: "'a \<Rightarrow> 'a list \<Rightarrow> 'a list list" where
  "split_on c [] = [[]]"
| "split_on c (x # xs) =
     (if x = c then [] # split_on c xs
      else (case split_on c xs of [] \<Rightarrow> [[x]] | p # ps \<Rightarrow> (x # p) # ps))"

lemma split_on_none [simp]: "c \<notin> set s \<Longrightarrow> split_on c s = [s]"
  by (induction s) auto

lemma split_on_one [simp]:
  "c \<notin> set a \<Longrightarrow> c \<notin> set b \<Longrightarrow> split_on c (a @ c # b) = [a, b]"
  by (induction a) auto

lemma split_on_not_Nil [simp]: "split_on c s \<noteq> []"
  by (induction s) (auto split: list.splits)

lemma split_on_singleton: "split_on c s = [p] \<Longrightarrow> p = s \<and> c \<notin> set s"
  by (induction s arbitrary: p) (auto split: if_splits list.splits)

lemma split_on_pair:
  "split_on c s = [p, q] \<Longrightarrow> s = p @ c # q \<and> c \<notin> set p \<and> c \<notin> set q"
proof (induction s arbitrary: p)
  case Nil
  then show ?case by simp
next
  case (Cons x xs)
  then show ?case
    by (auto split: if_splits list.splits dest: split_on_singleton)
qed

definition has_prefix :: "'a list \<Rightarrow> 'a list \<Rightarrow> bool" where
  "has_prefix s p = (take (length p) s = p)"

definition has_suffix :: "'a list \<Rightarrow> 'a list \<Rightarrow> bool" where
  "has_suffix s p = (length p \<le> length s \<and> drop (length s - length p) s = p)"

definition trim_prefix :: "'a list \<Rightarrow> 'a list \<Rightarrow> 'a list" where
  "trim_prefix s p = (if has_prefix s p then drop (length p) s else s)"

lemma has_prefix_append [simp]: "has_prefix (p @ s) p"
  by (simp add: has_prefix_def)

lemma trim_prefix_append [simp]: "trim_prefix (p @ s) p = s"
  by (simp add: trim_prefix_def)

lemma has_prefixE: "has_prefix s p \<Longrightarrow> s = p @ trim_prefix s p"
  unfolding has_prefix_def trim_prefix_def by (metis append_take_drop_id)

text \<open>\<open>strings.IndexByte\<close>: the first index, or \<open>None\<close> for \<open>-1\<close>.\<close>

fun index_byte :: "'a list \<Rightarrow> 'a \<Rightarrow> nat option" where
  "index_byte [] c = None"
| "index_byte (x # xs) c = (if x = c then Some 0 else map_option Suc (index_byte xs c))"

lemma index_byte_Some: "index_byte s c = Some i \<Longrightarrow> i < length s \<and> s ! i = c"
  by (induction s arbitrary: i) (auto split: if_splits)

lemma index_byte_nth: "distinct s \<Longrightarrow> i < length s \<Longrightarrow> index_byte s (s ! i) = Some i"
proof (induction s arbitrary: i)
  case Nil
  then show ?case by simp
next
  case (Cons x xs)
  then show ?case by (cases i) auto
qed

end
