(* ===== verification/Sha2.thy ===== *)
theory Sha2
  imports Prelude
begin

text \<open>
  SHA-256 (\<open>crypto/sha256.Sum256\<close>) and SHA-512/256 (\<open>crypto/sha512.Sum512_256\<close>) as FIPS 180-4
  defines them, over words of 32 and 64 bits. The two hashes share the message schedule and the
  round function, which are polymorphic in the word length; they differ in the rotation amounts,
  the constants and the padding. The libraries above only rely on the digests having 32 bytes.
\<close>

unbundle bit_operations_syntax

section \<open>Shared round structure\<close>

type_synonym 'w sha2_state =
  "'w word \<times> 'w word \<times> 'w word \<times> 'w word \<times> 'w word \<times> 'w word \<times> 'w word \<times> 'w word"

fun sha2_schedule ::
  "('w::len word \<Rightarrow> 'w word) \<Rightarrow> ('w word \<Rightarrow> 'w word) \<Rightarrow> nat \<Rightarrow> 'w word list \<Rightarrow> 'w word list" where
  "sha2_schedule s0 s1 0 ws = rev ws"
| "sha2_schedule s0 s1 (Suc n) ws =
     sha2_schedule s0 s1 n ((s1 (ws ! 1) + ws ! 6 + s0 (ws ! 14) + ws ! 15) # ws)"

definition sha2_round ::
  "('w::len word \<Rightarrow> 'w word) \<Rightarrow> ('w word \<Rightarrow> 'w word) \<Rightarrow> 'w sha2_state \<Rightarrow> 'w word \<times> 'w word \<Rightarrow> 'w sha2_state" where
  "sha2_round S0 S1 st kw =
     (case st of (a, b, c, d, e, f, g, h) \<Rightarrow>
        let t1 = h + S1 e + ((e AND f) XOR (NOT e AND g)) + fst kw + snd kw;
            t2 = S0 a + ((a AND b) XOR (a AND c) XOR (b AND c))
        in (t1 + t2, a, b, c, d + t1, e, f, g))"

definition sha2_add :: "'w::len sha2_state \<Rightarrow> 'w sha2_state \<Rightarrow> 'w sha2_state" where
  "sha2_add x y =
     (case (x, y) of ((a, b, c, d, e, f, g, h), (a', b', c', d', e', f', g', h')) \<Rightarrow>
        (a + a', b + b', c + c', d + d', e + e', f + f', g + g', h + h'))"

function chunks :: "nat \<Rightarrow> 'a list \<Rightarrow> 'a list list" where
  "chunks n xs = (if n = 0 \<or> xs = [] then [] else take n xs # chunks n (drop n xs))"
  by pat_completeness auto
termination
  by (relation "measure (\<lambda>(n, xs). length xs)") auto

declare chunks.simps [simp del]

section \<open>SHA-256\<close>

definition sha256_K :: "u32 list" where
  "sha256_K = [
    0x428A2F98, 0x71374491, 0xB5C0FBCF, 0xE9B5DBA5, 0x3956C25B, 0x59F111F1, 0x923F82A4, 0xAB1C5ED5,
    0xD807AA98, 0x12835B01, 0x243185BE, 0x550C7DC3, 0x72BE5D74, 0x80DEB1FE, 0x9BDC06A7, 0xC19BF174,
    0xE49B69C1, 0xEFBE4786, 0x0FC19DC6, 0x240CA1CC, 0x2DE92C6F, 0x4A7484AA, 0x5CB0A9DC, 0x76F988DA,
    0x983E5152, 0xA831C66D, 0xB00327C8, 0xBF597FC7, 0xC6E00BF3, 0xD5A79147, 0x06CA6351, 0x14292967,
    0x27B70A85, 0x2E1B2138, 0x4D2C6DFC, 0x53380D13, 0x650A7354, 0x766A0ABB, 0x81C2C92E, 0x92722C85,
    0xA2BFE8A1, 0xA81A664B, 0xC24B8B70, 0xC76C51A3, 0xD192E819, 0xD6990624, 0xF40E3585, 0x106AA070,
    0x19A4C116, 0x1E376C08, 0x2748774C, 0x34B0BCB5, 0x391C0CB3, 0x4ED8AA4A, 0x5B9CCA4F, 0x682E6FF3,
    0x748F82EE, 0x78A5636F, 0x84C87814, 0x8CC70208, 0x90BEFFFA, 0xA4506CEB, 0xBEF9A3F7, 0xC67178F2]"

definition sha256_H :: "32 sha2_state" where
  "sha256_H = (
    0x6A09E667, 0xBB67AE85, 0x3C6EF372, 0xA54FF53A,
    0x510E527F, 0x9B05688C, 0x1F83D9AB, 0x5BE0CD19)"

definition sha256_block :: "32 sha2_state \<Rightarrow> bytes \<Rightarrow> 32 sha2_state" where
  "sha256_block st blk =
     (let ws = sha2_schedule
                 (\<lambda>x. word_rotr 7 x XOR word_rotr 18 x XOR drop_bit 3 x)
                 (\<lambda>x. word_rotr 17 x XOR word_rotr 19 x XOR drop_bit 10 x)
                 48 (rev (map (\<lambda>c. of_nat (be_val c)) (chunks 4 blk)))
      in sha2_add st
           (foldl (sha2_round
                     (\<lambda>x. word_rotr 2 x XOR word_rotr 13 x XOR word_rotr 22 x)
                     (\<lambda>x. word_rotr 6 x XOR word_rotr 11 x XOR word_rotr 25 x))
              st (zip sha256_K ws)))"

definition sha256_pad :: "bytes \<Rightarrow> bytes" where
  "sha256_pad m = m @ 0x80 # replicate ((119 - length m mod 64) mod 64) 0 @ be_bytes 8 (8 * length m)"

definition sha256 :: "bytes \<Rightarrow> bytes" where
  "sha256 m =
     (case foldl sha256_block sha256_H (chunks 64 (sha256_pad m)) of
        (a, b, c, d, e, f, g, h) \<Rightarrow>
          concat (map (\<lambda>w. be_bytes 4 (unat w)) [a, b, c, d, e, f, g, h]))"

lemma length_sha256 [simp]: "length (sha256 m) = 32"
  by (simp add: sha256_def split: prod.split)

section \<open>SHA-512/256\<close>

definition sha512_K :: "u64 list" where
  "sha512_K = [
    0x428A2F98D728AE22, 0x7137449123EF65CD, 0xB5C0FBCFEC4D3B2F, 0xE9B5DBA58189DBBC,
    0x3956C25BF348B538, 0x59F111F1B605D019, 0x923F82A4AF194F9B, 0xAB1C5ED5DA6D8118,
    0xD807AA98A3030242, 0x12835B0145706FBE, 0x243185BE4EE4B28C, 0x550C7DC3D5FFB4E2,
    0x72BE5D74F27B896F, 0x80DEB1FE3B1696B1, 0x9BDC06A725C71235, 0xC19BF174CF692694,
    0xE49B69C19EF14AD2, 0xEFBE4786384F25E3, 0x0FC19DC68B8CD5B5, 0x240CA1CC77AC9C65,
    0x2DE92C6F592B0275, 0x4A7484AA6EA6E483, 0x5CB0A9DCBD41FBD4, 0x76F988DA831153B5,
    0x983E5152EE66DFAB, 0xA831C66D2DB43210, 0xB00327C898FB213F, 0xBF597FC7BEEF0EE4,
    0xC6E00BF33DA88FC2, 0xD5A79147930AA725, 0x06CA6351E003826F, 0x142929670A0E6E70,
    0x27B70A8546D22FFC, 0x2E1B21385C26C926, 0x4D2C6DFC5AC42AED, 0x53380D139D95B3DF,
    0x650A73548BAF63DE, 0x766A0ABB3C77B2A8, 0x81C2C92E47EDAEE6, 0x92722C851482353B,
    0xA2BFE8A14CF10364, 0xA81A664BBC423001, 0xC24B8B70D0F89791, 0xC76C51A30654BE30,
    0xD192E819D6EF5218, 0xD69906245565A910, 0xF40E35855771202A, 0x106AA07032BBD1B8,
    0x19A4C116B8D2D0C8, 0x1E376C085141AB53, 0x2748774CDF8EEB99, 0x34B0BCB5E19B48A8,
    0x391C0CB3C5C95A63, 0x4ED8AA4AE3418ACB, 0x5B9CCA4F7763E373, 0x682E6FF3D6B2B8A3,
    0x748F82EE5DEFB2FC, 0x78A5636F43172F60, 0x84C87814A1F0AB72, 0x8CC702081A6439EC,
    0x90BEFFFA23631E28, 0xA4506CEBDE82BDE9, 0xBEF9A3F7B2C67915, 0xC67178F2E372532B,
    0xCA273ECEEA26619C, 0xD186B8C721C0C207, 0xEADA7DD6CDE0EB1E, 0xF57D4F7FEE6ED178,
    0x06F067AA72176FBA, 0x0A637DC5A2C898A6, 0x113F9804BEF90DAE, 0x1B710B35131C471B,
    0x28DB77F523047D84, 0x32CAAB7B40C72493, 0x3C9EBE0A15C9BEBC, 0x431D67C49C100D4C,
    0x4CC5D4BECB3E42B6, 0x597F299CFC657E2A, 0x5FCB6FAB3AD6FAEC, 0x6C44198C4A475817]"

definition sha512_256_H :: "64 sha2_state" where
  "sha512_256_H = (
    0x22312194FC2BF72C, 0x9F555FA3C84C64C2, 0x2393B86B6F53B151, 0x963877195940EABD,
    0x96283EE2A88EFFE3, 0xBE5E1E2553863992, 0x2B0199FC2C85B8AA, 0x0EB72DDC81C52CA2)"

definition sha512_block :: "64 sha2_state \<Rightarrow> bytes \<Rightarrow> 64 sha2_state" where
  "sha512_block st blk =
     (let ws = sha2_schedule
                 (\<lambda>x. word_rotr 1 x XOR word_rotr 8 x XOR drop_bit 7 x)
                 (\<lambda>x. word_rotr 19 x XOR word_rotr 61 x XOR drop_bit 6 x)
                 64 (rev (map (\<lambda>c. of_nat (be_val c)) (chunks 8 blk)))
      in sha2_add st
           (foldl (sha2_round
                     (\<lambda>x. word_rotr 28 x XOR word_rotr 34 x XOR word_rotr 39 x)
                     (\<lambda>x. word_rotr 14 x XOR word_rotr 18 x XOR word_rotr 41 x))
              st (zip sha512_K ws)))"

definition sha512_pad :: "bytes \<Rightarrow> bytes" where
  "sha512_pad m = m @ 0x80 # replicate ((239 - length m mod 128) mod 128) 0 @ be_bytes 16 (8 * length m)"

definition sha512_256 :: "bytes \<Rightarrow> bytes" where
  "sha512_256 m =
     (case foldl sha512_block sha512_256_H (chunks 128 (sha512_pad m)) of
        (a, b, c, d, e, f, g, h) \<Rightarrow> concat (map (\<lambda>w. be_bytes 8 (unat w)) [a, b, c, d]))"

lemma length_sha512_256 [simp]: "length (sha512_256 m) = 32"
  by (simp add: sha512_256_def split: prod.split)

end
