(* ===== verification/Identity.thy ===== *)
theory Identity
  imports Go_Encoding Sha2
begin

text \<open>
  Model of \<open>libs/stacks/identity\<close> and \<open>libs/stacks/internal/keys\<close>: positional encodings of byte
  strings (c32 and base58), checksummed Stacks addresses, and the public encodings of a key.
  The elliptic curve and RIPEMD-160 come from third-party packages and are the record \<open>crypto\<close>
  of functions the definitions take as an argument.
\<close>

section \<open>Third-party cryptography\<close>

record ('sk, 'pk) crypto =
  ripemd160 :: "bytes \<Rightarrow> bytes"
  set_byte_slice :: "bytes \<Rightarrow> 'sk \<times> bool"
  scalar_is_zero :: "'sk \<Rightarrow> bool"
  pub_key :: "'sk \<Rightarrow> 'pk"
  serialize_compressed :: "'pk \<Rightarrow> bytes"
  serialize_uncompressed :: "'pk \<Rightarrow> bytes"
  parse_pub_key :: "bytes \<Rightarrow> 'pk option"
  sign_compact :: "'sk \<Rightarrow> bytes \<Rightarrow> bytes"

section \<open>Positional encodings\<close>

text \<open>The loop of \<open>encode\<close>: least significant digit first. The code only calls it with the radixes
  32 and 58; the guard on the radix makes the recursion total.\<close>

function base_digits :: "nat \<Rightarrow> nat \<Rightarrow> nat list" where
  "base_digits radix n =
     (if n = 0 \<or> radix < 2 then [] else n mod radix # base_digits radix (n div radix))"
  by pat_completeness auto
termination
  by (relation "measure snd") (auto simp: div_less_dividend)

declare base_digits.simps [simp del]

definition leading_zeros :: "bytes \<Rightarrow> nat" where
  "leading_zeros b = length (takeWhile (\<lambda>v. v = 0) b)"

definition base_encode :: "bytes \<Rightarrow> string \<Rightarrow> string" where
  "base_encode b alphabet =
     rev (map (\<lambda>d. alphabet ! d) (base_digits (length alphabet) (be_val b))
          @ replicate (leading_zeros b) (alphabet ! 0))"

text \<open>\<open>big.Int.Bytes\<close>: the minimal big-endian representation.\<close>

definition big_bytes :: "nat \<Rightarrow> bytes" where
  "big_bytes n = map of_nat (rev (base_digits 256 n))"

definition c32 :: string where
  "c32 = ''0123456789ABCDEFGHJKMNPQRSTVWXYZ''"

definition base58 :: string where
  "base58 = ''123456789ABCDEFGHJKLMNPQRSTUVWXYZabcdefghijkmnopqrstuvwxyz''"

section \<open>Addresses\<close>

definition checksum :: "bytes \<Rightarrow> bytes" where
  "checksum b = take 4 (sha256 (sha256 b))"

definition EncodeAddress :: "byte \<Rightarrow> bytes \<Rightarrow> string result" where
  "EncodeAddress version hash =
     (if version \<ge> 32 then Inl ''invalid address version''
      else let payload = hash @ checksum (version # hash)
           in Inr (''S'' @ [c32 ! unat version] @ base_encode payload c32))"

fun c32_value :: "nat \<Rightarrow> string \<Rightarrow> nat result" where
  "c32_value n [] = Inr n"
| "c32_value n (c # s) =
     (case index_byte c32 c of
        None \<Rightarrow> Inl ''invalid c32 digit''
      | Some digit \<Rightarrow> c32_value (n * 32 + digit) s)"

definition DecodeAddress :: "string \<Rightarrow> (byte \<times> bytes) result" where
  "DecodeAddress address =
     (if length address < 3 \<or> length address > 41 \<or> address ! 0 \<noteq> CHR ''S''
      then Inl ''invalid Stacks address''
      else case index_byte c32 (address ! 1) of
        None \<Rightarrow> Inl ''invalid address version''
      | Some v \<Rightarrow>
          if v \<ge> 32 then Inl ''invalid address version''
          else rbind (c32_value 0 (drop 2 address)) (\<lambda>n.
            let raw = big_bytes n;
                version = of_nat v
            in if length raw > 24 then Inl ''oversized address''
               else let payload = replicate (24 - length raw) 0 @ raw;
                        hash = take 20 payload
                    in if drop 20 payload \<noteq> checksum (version # hash)
                       then Inl ''invalid address checksum''
                       else if EncodeAddress version hash \<noteq> Inr address
                       then Inl ''noncanonical address''
                       else Inr (version, hash)))"

section \<open>Keys\<close>

record Public =
  Address :: string
  PublicKey :: string
  MiningPublicKey :: string
  BitcoinAddress :: string
  MiningAddress :: string

definition hash160 :: "('sk, 'pk) crypto \<Rightarrow> bytes \<Rightarrow> bytes" where
  "hash160 C b = ripemd160 C (sha256 b)"

definition bitcoin :: "('sk, 'pk) crypto \<Rightarrow> bytes \<Rightarrow> string" where
  "bitcoin C key = (let b = 111 # hash160 C key in base_encode (b @ checksum b) base58)"

definition public :: "('sk, 'pk) crypto \<Rightarrow> 'pk \<Rightarrow> Public" where
  "public C k =
     (let compressed = serialize_compressed C k;
          uncompressed = serialize_uncompressed C k;
          hash = hash160 C compressed;
          payload = hash @ checksum (26 # hash)
      in \<lparr>Address = ''ST'' @ base_encode payload c32,
          PublicKey = hex_encode compressed,
          MiningPublicKey = hex_encode uncompressed,
          BitcoinAddress = bitcoin C compressed,
          MiningAddress = bitcoin C uncompressed\<rparr>)"

text \<open>\<open>Generate\<close>: the scalar bytes come from the curve package's generator, \<open>None\<close> when it fails.\<close>

definition Generate :: "bytes option \<Rightarrow> string result" where
  "Generate generated =
     (case generated of
        None \<Rightarrow> Inl ''generate secp256k1 identity''
      | Some k \<Rightarrow> Inr (hex_encode k))"

definition FromPrivate :: "('sk, 'pk) crypto \<Rightarrow> string \<Rightarrow> Public result" where
  "FromPrivate C value =
     (let value' = (if length value = 66 \<and> has_suffix value ''01'' then take 64 value else value)
      in case hex_decode value' of
           Inl _ \<Rightarrow> Inl ''private key must encode a 32-byte scalar''
         | Inr raw \<Rightarrow>
             if length raw \<noteq> 32 then Inl ''private key must encode a 32-byte scalar''
             else case set_byte_slice C raw of (scalar, overflow) \<Rightarrow>
               if overflow \<or> scalar_is_zero C scalar then Inl ''private scalar is out of range''
               else Inr (public C (pub_key C scalar)))"

definition FromPublic :: "('sk, 'pk) crypto \<Rightarrow> string \<Rightarrow> Public result" where
  "FromPublic C value =
     (case hex_decode value of
        Inl _ \<Rightarrow> Inl ''public key must be compressed secp256k1''
      | Inr raw \<Rightarrow>
          if length raw \<noteq> 33 then Inl ''public key must be compressed secp256k1''
          else case parse_pub_key C raw of
            None \<Rightarrow> Inl ''invalid secp256k1 public key''
          | Some k \<Rightarrow> Inr (public C k))"

definition FromDescriptor :: "('sk, 'pk) crypto \<Rightarrow> string \<Rightarrow> (Public \<times> string) result" where
  "FromDescriptor C descriptor =
     (if \<not> has_prefix descriptor ''pkh('' \<or> \<not> has_suffix descriptor '')''
      then Inl ''descriptor must be raw public pkh(key)''
      else case hex_decode (take (length descriptor - 5) (drop 4 descriptor)) of
        Inl _ \<Rightarrow> Inl ''invalid descriptor public key''
      | Inr raw \<Rightarrow>
          if \<not> (length raw = 33 \<and> (raw ! 0 = 2 \<or> raw ! 0 = 3) \<or> length raw = 65 \<and> raw ! 0 = 4)
          then Inl ''invalid descriptor public key''
          else case parse_pub_key C raw of
            None \<Rightarrow> Inl ''invalid descriptor curve point''
          | Some key \<Rightarrow> Inr (public C key, bitcoin C raw))"

definition to_lower :: "string \<Rightarrow> string" where
  "to_lower s = map (\<lambda>c. if CHR ''A'' \<le> c \<and> c \<le> CHR ''Z'' then char_of (of_char c + (32::nat)) else c) s"

definition CompressedPrivateKey :: "('sk, 'pk) crypto \<Rightarrow> string \<Rightarrow> string result" where
  "CompressedPrivateKey C value =
     rbind (FromPrivate C value) (\<lambda>_. Inr (to_lower (take 64 value) @ ''01''))"

section \<open>Signing keys (internal/keys)\<close>

definition keys_Parse :: "('sk, 'pk) crypto \<Rightarrow> string \<Rightarrow> ('sk \<times> bool) result" where
  "keys_Parse C s =
     (let compressed = (length s = 66 \<and> has_suffix s ''01'');
          s' = (if compressed then take 64 s else s)
      in case hex_decode s' of
           Inl _ \<Rightarrow> Inl ''private key must encode a 32-byte scalar''
         | Inr raw \<Rightarrow>
             if length raw \<noteq> 32 then Inl ''private key must encode a 32-byte scalar''
             else case set_byte_slice C raw of (scalar, overflow) \<Rightarrow>
               if overflow \<or> scalar_is_zero C scalar then Inl ''private scalar out of range''
               else Inr (scalar, compressed))"

text \<open>\<open>copy(out[:], compact)\<close> into a 65-byte array: truncates or keeps the array's zeros.\<close>

definition copy_into :: "nat \<Rightarrow> bytes \<Rightarrow> bytes" where
  "copy_into n src = take n src @ replicate (n - length src) 0"

definition keys_Sign :: "('sk, 'pk) crypto \<Rightarrow> 'sk \<Rightarrow> bytes \<Rightarrow> bytes" where
  "keys_Sign C key digest =
     (let out = copy_into 65 (sign_compact C key digest) in (out ! 0 - 27) # tl out)"

section \<open>Positional notation: values, lengths, injectivity\<close>

definition digits_val :: "nat \<Rightarrow> nat \<Rightarrow> nat list \<Rightarrow> nat" where
  "digits_val radix n ds = foldl (\<lambda>n d. n * radix + d) n ds"

lemma digits_val_simps [simp]:
  "digits_val r n [] = n"
  "digits_val r n (d # ds) = digits_val r (n * r + d) ds"
  "digits_val r n (ds @ [d]) = digits_val r n ds * r + d"
  by (simp_all add: digits_val_def)

lemma digits_val_zeros [simp]: "digits_val r 0 (replicate z 0 @ ds) = digits_val r 0 ds"
  by (induction z) auto

lemma base_digits_0 [simp]: "base_digits r 0 = []"
  by (simp add: base_digits.simps)

lemma base_digits_pos: "0 < n \<Longrightarrow> 2 \<le> r \<Longrightarrow> base_digits r n = n mod r # base_digits r (n div r)"
  by (simp add: base_digits.simps [of r n])

lemma base_digits_induct [case_names zero step, consumes 1]:
  fixes n r :: nat
  assumes "2 \<le> r" and "P 0" and "\<And>n. 0 < n \<Longrightarrow> 2 \<le> r \<Longrightarrow> P (n div r) \<Longrightarrow> P n"
  shows "P n"
proof (induction n rule: less_induct)
  case (less n)
  show ?case
  proof (cases "n = 0")
    case False
    then have "n div r < n" using assms(1) by (simp add: div_less_dividend)
    with False less assms(1,3) show ?thesis by simp
  qed (simp add: assms(2))
qed

lemma digits_val_base_digits [simp]: "2 \<le> r \<Longrightarrow> digits_val r 0 (rev (base_digits r n)) = n"
  by (induction n rule: base_digits_induct) (auto simp: base_digits_pos)

lemma base_digits_less: "2 \<le> r \<Longrightarrow> d \<in> set (base_digits r n) \<Longrightarrow> d < r"
  by (induction n rule: base_digits_induct) (auto simp: base_digits_pos)

lemma base_digits_eq_Nil_iff: "2 \<le> r \<Longrightarrow> base_digits r n = [] \<longleftrightarrow> n = 0"
  by (cases "n = 0") (auto simp: base_digits_pos)

lemma base_digits_last: "2 \<le> r \<Longrightarrow> 0 < n \<Longrightarrow> last (base_digits r n) \<noteq> 0"
proof (induction n rule: base_digits_induct)
  case (step n)
  show ?case
  proof (cases "n div r = 0")
    case True
    then have "n < r" using step.hyps by (simp add: div_eq_0_iff)
    with step.hyps show ?thesis by (simp add: base_digits_pos)
  next
    case False
    with step show ?thesis
      by (simp add: base_digits_pos base_digits_eq_Nil_iff)
  qed
qed simp

lemma base_digits_length_le: "2 \<le> r \<Longrightarrow> n < r ^ k \<Longrightarrow> length (base_digits r n) \<le> k"
proof (induction k arbitrary: n)
  case 0
  then show ?case by simp
next
  case (Suc k)
  show ?case
  proof (cases "n = 0")
    case False
    have "n div r < r ^ k"
      using Suc.prems by (simp add: less_mult_imp_div_less mult.commute)
    with Suc False show ?thesis by (simp add: base_digits_pos)
  qed simp
qed

lemma base_digits_length_ge:
  "2 \<le> r \<Longrightarrow> 0 < n \<Longrightarrow> r ^ (length (base_digits r n) - 1) \<le> n"
proof (induction n rule: base_digits_induct)
  case (step n)
  show ?case
  proof (cases "n div r = 0")
    case True
    with step.hyps show ?thesis by (simp add: base_digits_pos)
  next
    case False
    then have len: "length (base_digits r (n div r)) \<noteq> 0"
      using step.hyps by (simp add: base_digits_eq_Nil_iff)
    have "r ^ length (base_digits r (n div r)) = r * r ^ (length (base_digits r (n div r)) - 1)"
      using len by (metis One_nat_def Suc_pred length_greater_0_conv list.size(3) power_Suc)
    also have "\<dots> \<le> r * (n div r)"
      using step False by (simp add: mult_le_mono2)
    also have "\<dots> \<le> n" by simp
    finally show ?thesis using step.hyps by (simp add: base_digits_pos)
  qed
qed simp

lemma be_val_map_of_nat:
  "(\<And>d. d \<in> set ds \<Longrightarrow> d < 256) \<Longrightarrow> be_val (map of_nat ds) = digits_val 256 0 ds"
  by (induction ds rule: rev_induct) (auto simp: unat_of_nat)

lemma be_val_big_bytes [simp]: "be_val (big_bytes n) = n"
  unfolding big_bytes_def
  by (subst be_val_map_of_nat) (auto dest: base_digits_less [rotated])

lemma length_big_bytes: "n < 256 ^ k \<Longrightarrow> length (big_bytes n) \<le> k"
  by (simp add: big_bytes_def base_digits_length_le)

lemma big_bytes_pad:
  assumes "n < 256 ^ k"
  shows "replicate (k - length (big_bytes n)) 0 @ big_bytes n = be_bytes k n"
proof -
  let ?p = "replicate (k - length (big_bytes n)) 0 @ big_bytes n"
  have "length ?p = k" using length_big_bytes [OF assms] by simp
  moreover have "be_val ?p = n" by simp
  ultimately show ?thesis using be_bytes_be_val [of ?p] by simp
qed

lemma big_bytes_step:
  "0 < v \<or> w \<noteq> 0 \<Longrightarrow> big_bytes (v * 256 + unat w) = big_bytes v @ [w]" for w :: byte
proof -
  assume "0 < v \<or> w \<noteq> 0"
  then have "0 < v * 256 + unat w"
    by (auto simp: unat_gt_0)
  moreover have "(v * 256 + unat w) mod 256 = unat w" "(v * 256 + unat w) div 256 = v"
    using byte_less_256 [of w] by simp_all
  ultimately show ?thesis by (simp add: big_bytes_def base_digits_pos)
qed

lemma be_val_pos: "b \<noteq> [] \<Longrightarrow> hd b \<noteq> 0 \<Longrightarrow> 0 < be_val b"
  by (cases b) (auto simp: be_val_Cons unat_gt_0)

lemma big_bytes_be_val: "b = [] \<or> hd b \<noteq> 0 \<Longrightarrow> big_bytes (be_val b) = b"
proof (induction b rule: rev_induct)
  case Nil
  then show ?case by (simp add: big_bytes_def)
next
  case (snoc w b)
  have "0 < be_val b \<or> w \<noteq> 0"
    using snoc.prems be_val_pos [of b] by (cases b) auto
  moreover have "big_bytes (be_val b) = b"
    using snoc by (cases b) auto
  ultimately show ?case by (simp add: big_bytes_step)
qed

lemma leading_zeros_split: "replicate (leading_zeros b) 0 @ big_bytes (be_val b) = b"
proof -
  let ?z = "takeWhile (\<lambda>v. v = 0) b" and ?r = "dropWhile (\<lambda>v. v = 0) b"
  have z: "?z = replicate (leading_zeros b) 0"
    unfolding leading_zeros_def
    by (rule replicate_length_same [symmetric]) (auto dest: set_takeWhileD)
  have b: "b = replicate (leading_zeros b) 0 @ ?r"
    by (simp add: z [symmetric])
  have "be_val b = be_val ?r"
    by (subst b) simp
  moreover have "?r = [] \<or> hd ?r \<noteq> 0"
    using hd_dropWhile [of "\<lambda>v. v = 0" b] by auto
  ultimately have "big_bytes (be_val b) = ?r" by (simp add: big_bytes_be_val)
  with b show ?thesis by simp
qed

lemma base_encode_eq:
  "base_encode b a =
     replicate (leading_zeros b) (a ! 0) @ map ((!) a) (rev (base_digits (length a) (be_val b)))"
  by (simp add: base_encode_def rev_map)

text \<open>The leading alphabet symbols of an encoding are exactly its leading zero bytes.\<close>

lemma takeWhile_base_encode:
  assumes "distinct a" and "2 \<le> length a"
  shows "takeWhile (\<lambda>c. c = a ! 0) (base_encode b a) = replicate (leading_zeros b) (a ! 0)"
proof (cases "be_val b = 0")
  case True
  then show ?thesis by (simp add: base_encode_eq takeWhile_eq_all_conv)
next
  case False
  let ?ds = "rev (base_digits (length a) (be_val b))"
  have "?ds \<noteq> []" using False assms by (simp add: base_digits_eq_Nil_iff)
  then obtain d ds where ds: "?ds = d # ds" by (cases ?ds) auto
  have "d = last (base_digits (length a) (be_val b))"
    using ds by (metis hd_rev list.sel(1))
  then have "d \<noteq> 0" using base_digits_last assms False by simp
  moreover have "d < length a"
    using ds base_digits_less [OF assms(2), of d "be_val b"] by (metis list.set_intros(1) set_rev)
  ultimately have "a ! d \<noteq> a ! 0"
    using assms by (metis Suc_le_lessD nat_neq_iff nth_eq_iff_index_eq numeral_2_eq_2 order_less_trans zero_less_Suc)
  with ds show ?thesis
    by (simp add: base_encode_eq takeWhile_append)
qed

lemma base_encode_inj:
  assumes "distinct a" and "2 \<le> length a" and eq: "base_encode b a = base_encode b' a"
  shows "b = b'"
proof -
  have z: "leading_zeros b = leading_zeros b'"
    using takeWhile_base_encode [OF assms(1,2)] eq by (metis length_replicate)
  let ?d = "\<lambda>b. base_digits (length a) (be_val b)"
  have "map ((!) a) (rev (?d b)) = map ((!) a) (rev (?d b'))"
    using eq z by (simp add: base_encode_eq)
  moreover have "inj_on ((!) a) (set (rev (?d b)) \<union> set (rev (?d b')))"
    using assms(1,2) by (auto intro!: inj_on_nth dest: base_digits_less [rotated])
  ultimately have "rev (?d b) = rev (?d b')"
    by (simp add: inj_on_map_eq_map)
  then have "be_val b = be_val b'"
    using digits_val_base_digits [OF assms(2)] by (metis rev_is_rev_conv)
  with z show ?thesis
    using leading_zeros_split [of b] leading_zeros_split [of b'] by metis
qed

lemma distinct_c32 [simp]: "distinct c32" and length_c32 [simp]: "length c32 = 32"
  by (simp_all add: c32_def)

lemma distinct_base58 [simp]: "distinct base58" and length_base58 [simp]: "length base58 = 58"
  by (simp_all add: base58_def)

lemma c32_value_digits:
  "(\<And>d. d \<in> set ds \<Longrightarrow> d < 32) \<Longrightarrow> c32_value n (map ((!) c32) ds) = Inr (digits_val 32 n ds)"
  by (induction ds arbitrary: n) (auto simp: index_byte_nth)

lemma c32_value_base_encode [simp]: "c32_value 0 (base_encode b c32) = Inr (be_val b)"
proof -
  let ?ds = "replicate (leading_zeros b) 0 @ rev (base_digits 32 (be_val b))"
  have "base_encode b c32 = map ((!) c32) ?ds"
    by (simp add: base_encode_eq)
  moreover have "d \<in> set ?ds \<Longrightarrow> d < 32" for d
    by (auto dest: base_digits_less [rotated] split: if_splits)
  ultimately show ?thesis
    using c32_value_digits [of ?ds 0] by simp
qed

lemma be_val_less_leading: "be_val b < 256 ^ (length b - leading_zeros b)"
proof -
  have "length (big_bytes (be_val b)) = length b - leading_zeros b"
    using leading_zeros_split [of b] by (metis add_diff_cancel_left' length_append length_replicate)
  then show ?thesis
    using be_val_less [of "big_bytes (be_val b)"] by simp
qed

lemma leading_zeros_le: "leading_zeros b \<le> length b"
  by (simp add: leading_zeros_def length_takeWhile_le)

lemma length_base_encode_c32:
  assumes "length b = 24"
  shows "1 \<le> length (base_encode b c32)" and "length (base_encode b c32) \<le> 39"
proof -
  let ?z = "leading_zeros b" and ?d = "length (base_digits 32 (be_val b))"
  have len: "length (base_encode b c32) = ?z + ?d" by (simp add: base_encode_eq)
  have z: "?z \<le> 24" using leading_zeros_le [of b] assms by simp
  show "1 \<le> length (base_encode b c32)"
  proof (cases "be_val b = 0")
    case True
    then have "replicate ?z 0 = b"
      using leading_zeros_split [of b] by (simp add: big_bytes_def)
    then have "?z = 24" using assms by (metis length_replicate)
    with len show ?thesis by simp
  next
    case False
    then have "?d \<noteq> 0" by (simp add: base_digits_eq_Nil_iff)
    with len show ?thesis by linarith
  qed
  show "length (base_encode b c32) \<le> 39"
  proof (cases "be_val b = 0")
    case True
    with len z show ?thesis by simp
  next
    case False
    then have "32 ^ (?d - 1) \<le> be_val b"
      by (intro base_digits_length_ge) auto
    also have "\<dots> < 256 ^ (24 - ?z)" using be_val_less_leading [of b] assms by simp
    finally have "(2::nat) ^ (5 * (?d - 1)) < 2 ^ (8 * (24 - ?z))"
      by (simp add: power_mult)
    then have "5 * (?d - 1) < 8 * (24 - ?z)"
      by (simp only: power_strict_increasing_iff)
    with len z show ?thesis by simp
  qed
qed

lemma length_checksum [simp]: "length (checksum b) = 4"
  by (simp add: checksum_def)

lemma DecodeAddress_EncodeAddress_ok:
  assumes "version < 32" and "length hash = 20" and enc: "EncodeAddress version hash = Inr a"
  shows "DecodeAddress a = Inr (version, hash)"
proof -
  let ?p = "hash @ checksum (version # hash)"
  let ?e = "base_encode ?p c32"
  have len: "length ?p = 24" using assms(2) by simp
  note bounds = length_base_encode_c32 [OF len]
  have ne: "?e \<noteq> []" using bounds(1) by auto
  have v: "unat version < 32" using assms(1) by (simp add: word_less_nat_alt)
  have nv: "\<not> 32 \<le> version" using assms(1) by (simp add: not_le)
  have a: "a = CHR ''S'' # c32 ! unat version # ?e"
    using enc nv by (simp add: EncodeAddress_def Let_def)
  have idx: "index_byte c32 (c32 ! unat version) = Some (unat version)"
    using v by (simp add: index_byte_nth)
  have big: "be_val ?p < 256 ^ 24" using be_val_less [of ?p] len by simp
  have "be_bytes (length ?p) (be_val ?p) = ?p" by (rule be_bytes_be_val)
  then have pad: "replicate (24 - length (big_bytes (be_val ?p))) 0 @ big_bytes (be_val ?p) = ?p"
    using big_bytes_pad [OF big] len by simp
  have short: "\<not> 24 < length (big_bytes (be_val ?p))"
    using length_big_bytes [OF big] by simp
  show ?thesis
    unfolding DecodeAddress_def Let_def
    using bounds ne v idx short enc assms(2) a pad by simp
qed

lemma EncodeAddress_total: "version < 32 \<Longrightarrow> \<exists>a. EncodeAddress version hash = Inr a"
  by (simp add: EncodeAddress_def Let_def flip: not_less)

lemma DecodeAddress_canonical:
  assumes "DecodeAddress a = Inr (version, hash)"
  shows "EncodeAddress version hash = Inr a" and "version < 32" and "length hash = 20"
proof -
  show enc: "EncodeAddress version hash = Inr a"
    using assms by (auto simp: DecodeAddress_def Let_def result_simps split: if_splits option.splits)
  then show "version < 32" by (auto simp: EncodeAddress_def split: if_splits)
  show "length hash = 20"
    using assms by (auto simp: DecodeAddress_def Let_def result_simps split: if_splits option.splits)
qed


section \<open>Private key texts\<close>

lemma hex_value_to_lower:
  "hex_value (if CHR ''A'' \<le> c \<and> c \<le> CHR ''Z'' then char_of (of_char c + (32::nat)) else c) = hex_value c"
  using of_char_less_256 [of c]
  by (auto simp: hex_value_def less_eq_char_def of_char_of)

lemma hex_decode_to_lower: "is_ok (hex_decode s) \<Longrightarrow> hex_decode (to_lower s) = hex_decode s"
proof (induction s rule: hex_decode.induct)
  case (3 c d s)
  then show ?case
    by (auto simp: to_lower_def hex_value_to_lower is_ok_iff result_simps split: option.splits)
qed (auto simp: to_lower_def)


lemma length_to_lower [simp]: "length (to_lower s) = length s"
  by (simp add: to_lower_def)

definition scalar_text :: "string \<Rightarrow> string" where
  "scalar_text s = (if length s = 66 \<and> has_suffix s ''01'' then take 64 s else s)"

lemma FromPrivate_eq_Parse:
  "FromPrivate C s =
     (case keys_Parse C s of
        Inl e \<Rightarrow> if e = ''private scalar out of range'' then Inl ''private scalar is out of range''
                  else Inl e
      | Inr (scalar, _) \<Rightarrow> Inr (public C (pub_key C scalar)))"
  by (simp add: FromPrivate_def keys_Parse_def Let_def split: sum.splits prod.splits)

lemma keys_Parse_ok_iff:
  "keys_Parse C s = Inr (scalar, compressed) \<longleftrightarrow>
     compressed = (length s = 66 \<and> has_suffix s ''01'') \<and>
     (\<exists>raw. hex_decode (scalar_text s) = Inr raw \<and> length raw = 32 \<and>
        set_byte_slice C raw = (scalar, False) \<and> \<not> scalar_is_zero C scalar)"
  by (auto simp: keys_Parse_def scalar_text_def Let_def split: sum.splits prod.splits if_splits)

lemma take_64_scalar_text:
  assumes "hex_decode (scalar_text s) = Inr raw" and "length raw = 32"
  shows "take 64 s = scalar_text s"
  using hex_decode_length [OF assms(1)] assms(2) by (auto simp: scalar_text_def)

lemma CompressedPrivateKey_parses:
  assumes "CompressedPrivateKey C s = Inr k"
  shows "\<exists>scalar. keys_Parse C k = Inr (scalar, True)
           \<and> FromPrivate C s = Inr (public C (pub_key C scalar))"
proof -
  obtain scalar c where parse: "keys_Parse C s = Inr (scalar, c)"
    and k: "k = to_lower (take 64 s) @ ''01''"
    using assms by (auto simp: CompressedPrivateKey_def FromPrivate_eq_Parse result_simps split: sum.splits if_splits)
  then obtain raw where raw: "hex_decode (scalar_text s) = Inr raw" "length raw = 32"
    "set_byte_slice C raw = (scalar, False)" "\<not> scalar_is_zero C scalar"
    by (auto simp: keys_Parse_ok_iff)
  have t: "take 64 s = scalar_text s" using raw(1,2) by (rule take_64_scalar_text)
  have len: "length (scalar_text s) = 64" using hex_decode_length [OF raw(1)] raw(2) by simp
  have "scalar_text k = to_lower (scalar_text s)" "length k = 66" "has_suffix k ''01''"
    using k t len by (simp_all add: scalar_text_def has_suffix_def)
  moreover have "hex_decode (to_lower (scalar_text s)) = Inr raw"
    using hex_decode_to_lower [of "scalar_text s"] raw(1) by simp
  ultimately have "keys_Parse C k = Inr (scalar, True)"
    using raw by (simp add: keys_Parse_ok_iff)
  then show ?thesis using parse by (auto simp: FromPrivate_eq_Parse)
qed

lemma public_Address_decodes:
  assumes "length (hash160 C (serialize_compressed C k)) = 20"
  shows "DecodeAddress (Address (public C k)) = Inr (26, hash160 C (serialize_compressed C k))"
proof -
  have "EncodeAddress 26 (hash160 C (serialize_compressed C k)) = Inr (Address (public C k))"
    by (simp add: EncodeAddress_def public_def Let_def c32_def)
  with assms show ?thesis by (intro DecodeAddress_EncodeAddress_ok) auto
qed


section \<open>Properties\<close>

text \<open>C23: \<open>DecodeAddress\<close> accepts a text exactly when it is the c32check encoding that
  \<open>EncodeAddress\<close> produces for a five-bit version and a 20-byte hash, and it returns that version
  and hash: decoding inverts encoding and no second spelling of an address is accepted.\<close>

theorem address_codec_exact:
  "DecodeAddress a = Inr (version, hash) \<longleftrightarrow>
     version < 32 \<and> length hash = 20 \<and> EncodeAddress version hash = Inr a"
  using DecodeAddress_EncodeAddress_ok DecodeAddress_canonical by blast

text \<open>The positional encodings behind Stacks (c32) and Bitcoin (base58) addresses lose nothing:
  two byte strings of any lengths, leading zero bytes included, have the same encoding only if they
  are equal.\<close>

lemma base_encode_injective:
  "(base_encode b c32 = base_encode b' c32 \<longleftrightarrow> b = b')
   \<and> (base_encode b base58 = base_encode b' base58 \<longleftrightarrow> b = b')"
  using base_encode_inj [of c32 b b'] base_encode_inj [of base58 b b'] by auto

text \<open>C19: The key text \<open>CompressedPrivateKey\<close> returns is accepted by the signing-key parser with
  the compressed flag set, names the same scalar as the original text, and therefore has the same
  public encodings.\<close>

lemma compressed_private_key_same_identity:
  assumes "CompressedPrivateKey C s = Inr k"
  shows "\<exists>scalar. keys_Parse C k = Inr (scalar, True)
           \<and> FromPrivate C s = Inr (public C (pub_key C scalar))
           \<and> FromPrivate C k = FromPrivate C s"
  using CompressedPrivateKey_parses [OF assms] by (auto simp: FromPrivate_eq_Parse)

text \<open>A curve with the scalar itself as its public key, for evaluating witnesses.\<close>

definition toy_crypto :: "(nat, nat) crypto" where
  "toy_crypto =
     \<lparr>ripemd160 = copy_into 20, set_byte_slice = (\<lambda>b. (be_val b, 2 ^ 255 \<le> be_val b)),
      scalar_is_zero = (\<lambda>n. n = 0), pub_key = (\<lambda>n. n),
      serialize_compressed = (\<lambda>n. 2 # be_bytes 32 n),
      serialize_uncompressed = (\<lambda>n. 4 # be_bytes 64 n),
      parse_pub_key = (\<lambda>b. if b = [] then None else Some (be_val (tl b))),
      sign_compact = (\<lambda>k d. 31 # be_bytes 32 k @ take 32 d)\<rparr>"

definition toy_key :: string where
  "toy_key = replicate 63 (CHR ''0'') @ ''A''"

lemma hex_decode_toy_key: "hex_decode (replicate 63 (CHR ''0'') @ ''A'') = Inr (replicate 31 0 @ [10])"
  by code_simp

lemma keys_Parse_toy_key: "keys_Parse toy_crypto toy_key = Inr (10, False)"
  by (simp add: keys_Parse_def toy_crypto_def toy_key_def hex_decode_toy_key)

lemma toy_key_compressed:
  "CompressedPrivateKey toy_crypto toy_key = Inr (replicate 63 (CHR ''0'') @ ''a01'')"
proof -
  note hex_decode_toy_key
  moreover have "to_lower toy_key = replicate 63 (CHR ''0'') @ ''a''" by code_simp
  ultimately show ?thesis
    by (simp add: CompressedPrivateKey_def FromPrivate_def toy_crypto_def toy_key_def be_val_Cons)
qed

lemma compressed_private_key_same_identity_sample:
  "\<exists>scalar. keys_Parse toy_crypto (replicate 63 (CHR ''0'') @ ''a01'') = Inr (scalar, True)
     \<and> FromPrivate toy_crypto toy_key = Inr (public toy_crypto (pub_key toy_crypto scalar))
     \<and> FromPrivate toy_crypto (replicate 63 (CHR ''0'') @ ''a01'') = FromPrivate toy_crypto toy_key"
  using compressed_private_key_same_identity [OF toy_key_compressed] .

text \<open>The address published for a key is the canonical version-26 address of the key's
  HASH160, provided HASH160 returns 20 bytes, and it is accepted by \<open>DecodeAddress\<close>.\<close>

lemma public_address_decodes:
  assumes "length (hash160 C (serialize_compressed C k)) = 20"
  shows "DecodeAddress (Address (public C k)) = Inr (26, hash160 C (serialize_compressed C k))"
  using assms by (rule public_Address_decodes)

lemma public_address_decodes_sample:
  "DecodeAddress (Address (public toy_crypto 7))
     = Inr (26, hash160 toy_crypto (serialize_compressed toy_crypto 7))"
  by (rule public_address_decodes) (simp add: hash160_def toy_crypto_def copy_into_def)

end
