(* ===== verification/Clarity_Value.thy ===== *)
theory Clarity_Value
  imports Identity
begin

text \<open>
  Model of \<open>libs/stacks/clarity/value.go\<close>: Clarity consensus values, the identifier grammars and
  the bounded serializer. The Go struct \<open>Value\<close> is a datatype with one constructor whose selectors
  are the struct's fields; which of them a value uses is decided by its type tag, as in the code.
  The \<open>Fields\<close> map is an association list, whose iteration order the serializer removes by sorting.
\<close>

section \<open>Values\<close>

abbreviation T_Int :: byte where "T_Int \<equiv> 0"
abbreviation T_UInt :: byte where "T_UInt \<equiv> 1"
abbreviation T_Buffer :: byte where "T_Buffer \<equiv> 2"
abbreviation T_True :: byte where "T_True \<equiv> 3"
abbreviation T_False :: byte where "T_False \<equiv> 4"
abbreviation T_StandardPrincipal :: byte where "T_StandardPrincipal \<equiv> 5"
abbreviation T_ContractPrincipal :: byte where "T_ContractPrincipal \<equiv> 6"
abbreviation T_ResponseOK :: byte where "T_ResponseOK \<equiv> 7"
abbreviation T_ResponseErr :: byte where "T_ResponseErr \<equiv> 8"
abbreviation T_None :: byte where "T_None \<equiv> 9"
abbreviation T_Some :: byte where "T_Some \<equiv> 10"
abbreviation T_List :: byte where "T_List \<equiv> 11"
abbreviation T_Tuple :: byte where "T_Tuple \<equiv> 12"
abbreviation T_ASCII :: byte where "T_ASCII \<equiv> 13"
abbreviation T_UTF8 :: byte where "T_UTF8 \<equiv> 14"

datatype Value =
  Value (Type: byte) (Integer: "int option") (Bytes: bytes) (Text: string)
    (Items: "Value list") (Fields: "(string \<times> Value) list")

record Limits =
  MaxBytes :: int
  MaxDepth :: int

definition DefaultLimits :: Limits where
  "DefaultLimits = \<lparr>MaxBytes = 2 ^ 20, MaxDepth = 32\<rparr>"

text \<open>Values with every field but one at its zero value.\<close>

definition tag_value :: "byte \<Rightarrow> Value" where
  "tag_value t = Value t None [] [] [] []"

definition int_value :: "byte \<Rightarrow> int \<Rightarrow> Value" where
  "int_value t n = Value t (Some n) [] [] [] []"

definition bytes_value :: "byte \<Rightarrow> bytes \<Rightarrow> Value" where
  "bytes_value t b = Value t None b [] [] []"

definition text_value :: "byte \<Rightarrow> string \<Rightarrow> Value" where
  "text_value t s = Value t None [] s [] []"

definition items_value :: "byte \<Rightarrow> Value list \<Rightarrow> Value" where
  "items_value t vs = Value t None [] [] vs []"

definition tuple_value :: "(string \<times> Value) list \<Rightarrow> Value" where
  "tuple_value fs = Value T_Tuple None [] [] [] fs"

definition Uint :: "u64 \<Rightarrow> Value" where
  "Uint n = int_value T_UInt (uint n)"

text \<open>\<open>n.BitLen() > 128\<close> of a nonnegative integer is \<open>n \<ge> 2 ^ 128\<close>.\<close>

definition Uint128 :: "string \<Rightarrow> Value result" where
  "Uint128 s =
     (case big_set_string s of
        None \<Rightarrow> Inl ''invalid uint128''
      | Some n \<Rightarrow> if n < 0 \<or> n \<ge> 2 ^ 128 then Inl ''invalid uint128'' else Inr (int_value T_UInt n))"

section \<open>Identifiers\<close>

definition byte_between :: "char \<Rightarrow> char \<Rightarrow> char \<Rightarrow> bool" where
  "byte_between lo hi c \<longleftrightarrow> lo \<le> c \<and> c \<le> hi"

definition is_letter :: "char \<Rightarrow> bool" where
  "is_letter c \<longleftrightarrow> byte_between (CHR ''A'') (CHR ''Z'') c \<or> byte_between (CHR ''a'') (CHR ''z'') c"

definition is_digit :: "char \<Rightarrow> bool" where
  "is_digit c \<longleftrightarrow> byte_between (CHR ''0'') (CHR ''9'') c"

text \<open>\<open>namePattern\<close>: the three alternatives of the regular expression.\<close>

definition name_char :: "char \<Rightarrow> bool" where
  "name_char c \<longleftrightarrow> is_letter c \<or> is_digit c \<or> c \<in> set ''_-!?+<>=/*''"

definition name_pattern :: "string \<Rightarrow> bool" where
  "name_pattern s \<longleftrightarrow>
     (case s of [] \<Rightarrow> False | c # r \<Rightarrow> is_letter c \<and> list_all name_char r)
     \<or> s \<in> set [''-'', ''+'', ''='', ''/'', ''*'']
     \<or> s \<in> set [''<'', ''>'', ''<='', ''>='']"

definition ValidName :: "string \<Rightarrow> bool" where
  "ValidName s \<longleftrightarrow> length s > 0 \<and> length s \<le> 128 \<and> name_pattern s"

definition contract_char :: "char \<Rightarrow> bool" where
  "contract_char c \<longleftrightarrow> is_letter c \<or> is_digit c \<or> c = CHR ''-'' \<or> c = CHR ''_''"

definition ValidContractName :: "string \<Rightarrow> bool" where
  "ValidContractName s \<longleftrightarrow>
     \<not> (length s = 0 \<or> length s > 128) \<and> is_letter (s ! 0) \<and> list_all contract_char s"

section \<open>Serialization\<close>

definition append_data :: "Limits \<Rightarrow> bytes \<Rightarrow> bytes \<Rightarrow> bytes result" where
  "append_data l b data =
     (if length data > 2 ^ 32 - 1 \<or> int (length data) > MaxBytes l - int (length b) - 4
      then Inl ''exceeded Clarity byte limit''
      else Inr (b @ be_bytes 4 (length data) @ data))"

definition encode_integer :: "bytes \<Rightarrow> byte \<Rightarrow> int option \<Rightarrow> bytes result" where
  "encode_integer b t i =
     (case i of
        None \<Rightarrow> Inl ''missing Clarity integer''
      | Some n \<Rightarrow>
          if t = T_UInt
          then if n < 0 \<or> n \<ge> 2 ^ 128 then Inl ''uint128 out of range''
               else Inr (b @ be_bytes 16 (nat n))
          else if n < - (2 ^ 127) \<or> n \<ge> 2 ^ 127 then Inl ''int128 out of range''
               else Inr (b @ be_bytes 16 (nat (if n < 0 then n + 2 ^ 128 else n))))"

definition encode_text :: "Limits \<Rightarrow> bytes \<Rightarrow> byte \<Rightarrow> string \<Rightarrow> bytes result" where
  "encode_text l b t s =
     (if \<not> utf8_valid (str_bytes s) then Inl ''invalid UTF-8''
      else if t = T_ASCII \<and> \<not> list_all (\<lambda>c. c \<le> 127) (str_bytes s) then Inl ''invalid ASCII''
      else append_data l b (str_bytes s))"

definition encode_principal :: "bytes \<Rightarrow> byte \<Rightarrow> string \<Rightarrow> bytes result" where
  "encode_principal b t s =
     (let parts = split_on (CHR ''.'') s in
      if length parts \<noteq> 1 \<and> length parts \<noteq> 2 \<or> t = T_StandardPrincipal \<and> length parts \<noteq> 1
         \<or> t = T_ContractPrincipal \<and> length parts \<noteq> 2
      then Inl ''invalid principal''
      else rbind (DecodeAddress (parts ! 0)) (\<lambda>(version, hash).
        let b1 = b @ [version] @ hash in
        if length parts = 2
        then if \<not> ValidContractName (parts ! 1) then Inl ''invalid contract name''
             else Inr (b1 @ [of_nat (length (parts ! 1))] @ str_bytes (parts ! 1))
        else Inr b1))"

lemma size_list_sort_key: "size_list f (sort_key g xs) = size_list f xs"
  by (simp add: size_list_conv_sum_list sum_mset_sum_list [symmetric])

lemma size_Items: "size_list size (Items v) < size v"
  and size_Fields: "size_list (size_prod (\<lambda>_. 0) size) (Fields v) < size v"
  by (cases v; simp)+

lemma size_Items_single: "Items v = [child] \<Longrightarrow> size child < size v"
  using size_Items [of v] by simp

function encode :: "bytes \<Rightarrow> Value \<Rightarrow> Limits \<Rightarrow> int \<Rightarrow> bytes result"
  and encode_items :: "bytes \<Rightarrow> Value list \<Rightarrow> Limits \<Rightarrow> int \<Rightarrow> bytes result"
  and encode_fields :: "bytes \<Rightarrow> (string \<times> Value) list \<Rightarrow> Limits \<Rightarrow> int \<Rightarrow> bytes result"
where
  "encode b v l depth =
     (if depth > MaxDepth l \<or> int (length b) \<ge> MaxBytes l
      then Inl ''exceeded Clarity resource limit''
      else
        let b1 = b @ [Type v] in
        rbind
          (if Type v = T_Int \<or> Type v = T_UInt then encode_integer b1 (Type v) (Integer v)
           else if Type v = T_Buffer then append_data l b1 (Bytes v)
           else if Type v = T_ASCII \<or> Type v = T_UTF8 then encode_text l b1 (Type v) (Text v)
           else if Type v = T_True \<or> Type v = T_False \<or> Type v = T_None then Inr b1
           else if Type v = T_StandardPrincipal \<or> Type v = T_ContractPrincipal
             then encode_principal b1 (Type v) (Text v)
           else if Type v = T_Some \<or> Type v = T_ResponseOK \<or> Type v = T_ResponseErr
             then (case Items v of
                     [child] \<Rightarrow> encode b1 child l (depth + 1)
                   | _ \<Rightarrow> Inl ''expected one wrapped value'')
           else if Type v = T_List
             then if length (Items v) > 2 ^ 32 - 1 \<or> int (length (Items v)) > MaxBytes l
                  then Inl ''list too large''
                  else encode_items (b1 @ be_bytes 4 (length (Items v))) (Items v) l (depth + 1)
           else if Type v = T_Tuple
             then if length (Fields v) > 2 ^ 32 - 1 \<or> int (length (Fields v)) > MaxBytes l div 3
                  then Inl ''tuple too large''
                  else if \<not> list_all (\<lambda>p. ValidName (fst p)) (Fields v) then Inl ''invalid tuple key''
                  else encode_fields (b1 @ be_bytes 4 (length (Fields v)))
                         (sort_key fst (Fields v)) l (depth + 1)
           else Inl ''unsupported Clarity type'')
          (\<lambda>b2. if int (length b2) > MaxBytes l then Inl ''exceeded Clarity byte limit'' else Inr b2))"
| "encode_items b vs l depth =
     (case vs of
        [] \<Rightarrow> Inr b
      | child # rest \<Rightarrow> rbind (encode b child l depth) (\<lambda>b'. encode_items b' rest l depth))"
| "encode_fields b fs l depth =
     (case fs of
        [] \<Rightarrow> Inr b
      | (k, child) # rest \<Rightarrow>
          rbind (encode (b @ [of_nat (length k)] @ str_bytes k) child l depth)
            (\<lambda>b'. encode_fields b' rest l depth))"
  by pat_completeness auto
termination
  by (relation "measure (\<lambda>x. case x of
        Inl (b, v, l, d) \<Rightarrow> size v
      | Inr (Inl (b, vs, l, d)) \<Rightarrow> size_list size vs
      | Inr (Inr (b, fs, l, d)) \<Rightarrow> size_list (size_prod (\<lambda>_. 0) size) fs)")
    (auto simp: size_list_sort_key size_Items size_Fields size_Items_single)

declare encode.simps [simp del] encode_items.simps [simp del] encode_fields.simps [simp del]

definition EncodeWithLimits :: "Value \<Rightarrow> Limits \<Rightarrow> bytes result" where
  "EncodeWithLimits v l =
     (if MaxBytes l < 1 \<or> MaxDepth l < 1 \<or> MaxDepth l > 256 then Inl ''invalid codec limits''
      else encode [] v l 1)"

definition Encode :: "Value \<Rightarrow> bytes result" where
  "Encode v = EncodeWithLimits v DefaultLimits"

definition Principal :: "string \<Rightarrow> Value result" where
  "Principal s =
     (let v = text_value (if CHR ''.'' \<in> set s then T_ContractPrincipal else T_StandardPrincipal) s
      in rbind (Encode v) (\<lambda>_. Inr v))"

end
