(* ===== verification/Clarity_Decode.thy ===== *)
theory Clarity_Decode
  imports Clarity_Value
begin

text \<open>
  Model of \<open>libs/stacks/clarity/decode.go\<close>, and the codec theorems. The decoder's unread slice
  \<open>d.raw\<close> is passed and returned explicitly; \<open>decode_items\<close> and \<open>decode_fields\<close> are the loops of
  the \<open>List\<close> and \<open>Tuple\<close> cases. The recursion ends because the depth limit bounds the nesting and
  each loop counts down.
\<close>

unbundle bit_operations_syntax

section \<open>Decoding\<close>

definition take_bytes :: "nat \<Rightarrow> bytes \<Rightarrow> (bytes \<times> bytes) result" where
  "take_bytes n raw =
     (if n > length raw then Inl ''truncated Clarity value'' else Inr (take n raw, drop n raw))"

definition decode_count :: "bytes \<Rightarrow> (nat \<times> bytes) result" where
  "decode_count raw =
     rbind (take_bytes 4 raw) (\<lambda>(b, raw').
       if be_val b > length raw' then Inl ''invalid Clarity count'' else Inr (be_val b, raw'))"

definition decode_name :: "bytes \<Rightarrow> (string \<times> bytes) result" where
  "decode_name raw =
     rbind (take_bytes 1 raw) (\<lambda>(b, raw1).
       rbind (take_bytes (unat (b ! 0)) raw1) (\<lambda>(name, raw2).
         if \<not> ValidName (bytes_str name) then Inl ''invalid Clarity name''
         else Inr (bytes_str name, raw2)))"

definition decode_integer :: "byte \<Rightarrow> bytes \<Rightarrow> (Value \<times> bytes) result" where
  "decode_integer t raw =
     rbind (take_bytes 16 raw) (\<lambda>(b, raw').
       let n = int (be_val b)
       in Inr (int_value t (if t = T_Int \<and> b ! 0 AND 0x80 \<noteq> 0 then n - 2 ^ 128 else n), raw'))"

definition decode_text :: "byte \<Rightarrow> bytes \<Rightarrow> (Value \<times> bytes) result" where
  "decode_text t raw =
     rbind (decode_count raw) (\<lambda>(n, raw1).
       rbind (take_bytes n raw1) (\<lambda>(b, raw2).
         if t = T_Buffer then Inr (bytes_value t b, raw2)
         else if \<not> utf8_valid b then Inl ''invalid UTF-8''
         else if t = T_ASCII \<and> \<not> list_all (\<lambda>c. c \<le> 127) b then Inl ''invalid ASCII''
         else Inr (text_value t (bytes_str b), raw2)))"

definition decode_principal :: "byte \<Rightarrow> bytes \<Rightarrow> (Value \<times> bytes) result" where
  "decode_principal t raw =
     rbind (take_bytes 21 raw) (\<lambda>(b, raw1).
       rbind (EncodeAddress (b ! 0) (drop 1 b)) (\<lambda>text.
         if t = T_ContractPrincipal
         then rbind (decode_name raw1) (\<lambda>(name, raw2).
           if \<not> ValidContractName name then Inl ''invalid contract name''
           else Inr (text_value t (text @ ''.'' @ name), raw2))
         else Inr (text_value t text, raw1)))"

function decode_value :: "Limits \<Rightarrow> int \<Rightarrow> bytes \<Rightarrow> (Value \<times> bytes) result"
  and decode_items :: "Limits \<Rightarrow> int \<Rightarrow> nat \<Rightarrow> bytes \<Rightarrow> (Value list \<times> bytes) result"
  and decode_fields :: "Limits \<Rightarrow> int \<Rightarrow> nat \<Rightarrow> string \<Rightarrow> bytes \<Rightarrow> ((string \<times> Value) list \<times> bytes) result"
where
  "decode_value l depth raw =
     (if depth > MaxDepth l then Inl ''exceeded Clarity depth limit''
      else rbind (take_bytes 1 raw) (\<lambda>(tag, raw1).
        let t = tag ! 0 in
        if t = T_Int \<or> t = T_UInt then decode_integer t raw1
        else if t = T_Buffer \<or> t = T_ASCII \<or> t = T_UTF8 then decode_text t raw1
        else if t = T_True \<or> t = T_False \<or> t = T_None then Inr (tag_value t, raw1)
        else if t = T_StandardPrincipal \<or> t = T_ContractPrincipal then decode_principal t raw1
        else if t = T_Some \<or> t = T_ResponseOK \<or> t = T_ResponseErr
          then rbind (decode_value l (depth + 1) raw1) (\<lambda>(child, raw2).
                 Inr (items_value t [child], raw2))
        else if t = T_List
          then rbind (decode_count raw1) (\<lambda>(n, raw2).
                 rbind (decode_items l (depth + 1) n raw2) (\<lambda>(vs, raw3).
                   Inr (items_value t vs, raw3)))
        else if t = T_Tuple
          then (case decode_count raw1 of
                  Inl _ \<Rightarrow> Inl ''invalid tuple count''
                | Inr (n, raw2) \<Rightarrow>
                    if n > length raw2 div 3 then Inl ''invalid tuple count''
                    else rbind (decode_fields l (depth + 1) n [] raw2) (\<lambda>(fs, raw3).
                      Inr (tuple_value fs, raw3)))
        else Inl ''unsupported Clarity type''))"
| "decode_items l depth n raw =
     (if n = 0 then Inr ([], raw)
      else rbind (decode_value l depth raw) (\<lambda>(child, raw1).
        rbind (decode_items l depth (n - 1) raw1) (\<lambda>(vs, raw2). Inr (child # vs, raw2))))"
| "decode_fields l depth n previous raw =
     (if n = 0 then Inr ([], raw)
      else rbind (decode_name raw) (\<lambda>(name, raw1).
        if name \<le> previous then Inl ''noncanonical tuple keys''
        else rbind (decode_value l depth raw1) (\<lambda>(child, raw2).
          rbind (decode_fields l depth (n - 1) name raw2) (\<lambda>(fs, raw3).
            Inr ((name, child) # fs, raw3)))))"
  by pat_completeness auto
termination
  by (relation "measures [\<lambda>x. case x of
        Inl (l, d, raw) \<Rightarrow> nat (MaxDepth l + 1 - d)
      | Inr (Inl (l, d, n, raw)) \<Rightarrow> nat (MaxDepth l + 1 - d)
      | Inr (Inr (l, d, n, p, raw)) \<Rightarrow> nat (MaxDepth l + 1 - d),
      \<lambda>x. case x of
        Inl (l, d, raw) \<Rightarrow> 0
      | Inr (Inl (l, d, n, raw)) \<Rightarrow> Suc n
      | Inr (Inr (l, d, n, p, raw)) \<Rightarrow> Suc n]")
    auto

declare decode_value.simps [simp del] decode_items.simps [simp del] decode_fields.simps [simp del]

definition DecodeWithLimits :: "bytes \<Rightarrow> Limits \<Rightarrow> Value result" where
  "DecodeWithLimits raw l =
     (if MaxBytes l < 1 \<or> MaxDepth l < 1 \<or> MaxDepth l > 256 \<or> int (length raw) > MaxBytes l
      then Inl ''exceeded Clarity resource limit''
      else rbind (decode_value l 1 raw) (\<lambda>(v, rest).
        if rest \<noteq> [] then Inl ''trailing Clarity bytes'' else Inr v))"

definition Decode :: "bytes \<Rightarrow> Value result" where
  "Decode raw = DecodeWithLimits raw DefaultLimits"

section \<open>Canonical values\<close>

abbreviation wrapper_tag :: "byte \<Rightarrow> bool" where
  "wrapper_tag t \<equiv> t = T_Some \<or> t = T_ResponseOK \<or> t = T_ResponseErr"

abbreviation text_tag :: "byte \<Rightarrow> bool" where
  "text_tag t \<equiv> t = T_ASCII \<or> t = T_UTF8 \<or> t = T_StandardPrincipal \<or> t = T_ContractPrincipal"

text \<open>\<open>canon v\<close> keeps the fields the tag of \<open>v\<close> selects and lists tuple entries by key: the value a
  decoder can recover. \<open>wf_value v\<close> says that the association lists standing for Go maps have
  distinct keys.\<close>

primrec canon :: "Value \<Rightarrow> Value" where
  "canon (Value t i b s vs fs) =
     Value t
       (if t = T_Int \<or> t = T_UInt then i else None)
       (if t = T_Buffer then b else [])
       (if text_tag t then s else [])
       (if wrapper_tag t \<or> t = T_List then map canon vs else [])
       (if t = T_Tuple then sort_key fst (map (map_prod id canon) fs) else [])"

primrec wf_value :: "Value \<Rightarrow> bool" where
  "wf_value (Value t i b s vs fs) \<longleftrightarrow>
     (wrapper_tag t \<or> t = T_List \<longrightarrow> list_all id (map wf_value vs))
     \<and> (t = T_Tuple \<longrightarrow> distinct_keys fs \<and> list_all snd (map (map_prod id wf_value) fs))"

section \<open>Primitive codecs\<close>

lemma take_bytes_append [simp]: "n = length b \<Longrightarrow> take_bytes n (b @ r) = Inr (b, r)"
  by (simp add: take_bytes_def)

lemma take_bytes_ok: "take_bytes n raw = Inr (b, r) \<longleftrightarrow> raw = b @ r \<and> length b = n"
  by (auto simp: take_bytes_def)

lemma take_bytes_1_Cons [simp]: "take_bytes (Suc 0) (w # r) = Inr ([w], r)"
  by (simp add: take_bytes_def)

lemma byte_sign_bit: "w AND 0x80 \<noteq> 0 \<longleftrightarrow> 128 \<le> unat (w :: byte)"
proof -
  have "w AND 0x80 \<noteq> 0 \<longleftrightarrow> bit w 7"
    using and_exp_eq_0_iff_not_bit [of w 7] by simp
  also have "\<dots> \<longleftrightarrow> bit (unat w) 7" by (simp add: bit_unsigned_iff)
  also have "\<dots> \<longleftrightarrow> odd (unat w div 128)" by (simp add: bit_iff_odd)
  also have "\<dots> \<longleftrightarrow> 128 \<le> unat w"
  proof -
    have "unat w div 128 = (if 128 \<le> unat w then 1 else 0)"
      using byte_less_256 [of w] by (auto simp: div_nat_eqI)
    then show ?thesis by auto
  qed
  finally show ?thesis .
qed

lemma be_val_sign:
  assumes "length b = 16"
  shows "b ! 0 AND 0x80 \<noteq> 0 \<longleftrightarrow> 2 ^ 127 \<le> be_val b"
proof -
  obtain w r where b: "b = w # r" and r: "length r = 15" using assms by (cases b) auto
  have v: "be_val b = unat w * 256 ^ 15 + be_val r" using r b by (simp add: be_val_Cons)
  have "be_val r < 256 ^ 15" using be_val_less [of r] r by simp
  with v have "2 ^ 127 \<le> be_val b \<longleftrightarrow> 128 \<le> unat w" by auto
  then show ?thesis by (simp add: b byte_sign_bit)
qed

lemma encode_integer_decodes:
  assumes "encode_integer pre t i = Inr out" and "t = T_Int \<or> t = T_UInt"
  shows "\<exists>d. out = pre @ d \<and> (\<forall>rest. decode_integer t (d @ rest) = Inr (Value t i [] [] [] [], rest))"
proof -
  from assms obtain n where i: "i = Some n" by (auto simp: encode_integer_def split: option.splits)
  define m where "m = nat (if n < 0 then n + 2 ^ 128 else n)"
  have out: "out = pre @ be_bytes 16 m" and m: "m < 2 ^ 128"
    and n: "n = (if t = T_Int \<and> 2 ^ 127 \<le> m then int m - 2 ^ 128 else int m)"
    using assms i by (auto simp: encode_integer_def m_def split: if_splits)
  have "be_val (be_bytes 16 m) = m" using m by simp
  then have "decode_integer t (be_bytes 16 m @ rest) = Inr (Value t i [] [] [] [], rest)" for rest
    using be_val_sign [of "be_bytes 16 m"] i n by (simp add: decode_integer_def int_value_def Let_def)
  with out show ?thesis by blast
qed

lemma decode_integer_encodes:
  assumes "decode_integer t raw = Inr (v, rest)" and "t = T_Int \<or> t = T_UInt"
  shows "\<exists>d. raw = d @ rest \<and> length d = 16 \<and> Type v = t \<and> canon v = v \<and> wf_value v
    \<and> (\<forall>pre. encode_integer pre t (Integer v) = Inr (pre @ d))"
proof -
  from assms(1) obtain d where raw: "raw = d @ rest" "length d = 16"
    and v: "v = int_value t (if t = T_Int \<and> 2 ^ 127 \<le> be_val d then int (be_val d) - 2 ^ 128
                else int (be_val d))"
    using be_val_sign by (auto simp: decode_integer_def result_simps take_bytes_ok Let_def)
  have small: "be_val d < 2 ^ 128" using be_val_less [of d] raw by simp
  have "be_bytes 16 (be_val d) = d" using be_bytes_be_val [of d] raw by simp
  with assms(2) small have "encode_integer pre t (Integer v) = Inr (pre @ d)" for pre
    by (auto simp: v int_value_def encode_integer_def nat_diff_distrib)
  with raw v assms(2) show ?thesis by (auto simp: int_value_def)
qed

lemma decode_count_append [simp]:
  assumes "n < 2 ^ 32" and "n \<le> length r"
  shows "decode_count (be_bytes 4 n @ r) = Inr (n, r)"
  using assms by (simp add: decode_count_def)

lemma decode_count_ok:
  "decode_count raw = Inr (n, r) \<Longrightarrow> raw = be_bytes 4 n @ r \<and> n \<le> length r \<and> n < 2 ^ 32"
  using be_val_less [of "take 4 raw"] be_bytes_be_val [of "take 4 raw"]
  by (auto simp: decode_count_def result_simps take_bytes_ok split: if_splits)

lemma append_data_ok:
  "append_data l pre data = Inr out \<longleftrightarrow>
     length data \<le> 2 ^ 32 - 1 \<and> int (length pre) + 4 + int (length data) \<le> MaxBytes l
     \<and> out = pre @ be_bytes 4 (length data) @ data"
  by (auto simp: append_data_def)

lemma encode_text_decodes:
  assumes "encode_text l pre t s = Inr out" and "t = T_ASCII \<or> t = T_UTF8"
  shows "\<exists>d. out = pre @ d \<and> (\<forall>rest. decode_text t (d @ rest) = Inr (text_value t s, rest))"
  using assms by (auto simp: encode_text_def append_data_ok decode_text_def split: if_splits)

lemma append_data_decodes:
  assumes "append_data l pre b = Inr out"
  shows "\<exists>d. out = pre @ d \<and> (\<forall>rest. decode_text T_Buffer (d @ rest) = Inr (bytes_value T_Buffer b, rest))"
  using assms by (auto simp: append_data_ok decode_text_def)

lemma decode_text_encodes:
  assumes "decode_text t raw = Inr (v, rest)" and "t = T_ASCII \<or> t = T_UTF8 \<or> t = T_Buffer"
  shows "\<exists>d. raw = d @ rest \<and> Type v = t \<and> canon v = v \<and> wf_value v
    \<and> (\<forall>pre. int (length pre + length d) \<le> MaxBytes l \<longrightarrow>
        (if t = T_Buffer then append_data l pre (Bytes v) else encode_text l pre t (Text v))
          = Inr (pre @ d))"
proof -
  from assms(1) obtain n raw1 b where c: "decode_count raw = Inr (n, raw1)"
    and b: "raw1 = b @ rest" "length b = n"
    and v: "v = (if t = T_Buffer then bytes_value t b else text_value t (bytes_str b))"
    and ok: "t \<noteq> T_Buffer \<longrightarrow> utf8_valid b" "t = T_ASCII \<longrightarrow> list_all (\<lambda>c. c \<le> 127) b"
    by (auto simp: decode_text_def result_simps take_bytes_ok split: if_splits)
  from decode_count_ok [OF c] b have "raw = (be_bytes 4 n @ b) @ rest" and "n < 2 ^ 32" by auto
  moreover have "int (length pre + length (be_bytes 4 n @ b)) \<le> MaxBytes l \<Longrightarrow>
      (if t = T_Buffer then append_data l pre (Bytes v) else encode_text l pre t (Text v))
        = Inr (pre @ be_bytes 4 n @ b)" for pre
    using assms(2) ok b \<open>n < 2 ^ 32\<close>
    by (auto simp: v encode_text_def append_data_ok bytes_value_def text_value_def)
  ultimately show ?thesis
    using assms(2) by (intro exI [of _ "be_bytes 4 n @ b"]) (auto simp: v bytes_value_def text_value_def)
qed


section \<open>Identifiers and principals\<close>

lemma letter_contract_char: "is_letter c \<Longrightarrow> contract_char c"
  by (simp add: contract_char_def)

lemma ValidContractName_ValidName: "ValidContractName s \<Longrightarrow> ValidName s"
proof -
  assume v: "ValidContractName s"
  then obtain c r where s: "s = c # r" by (cases s) (auto simp: ValidContractName_def)
  have "list_all name_char r"
    using v by (auto simp: s ValidContractName_def contract_char_def name_char_def list_all_iff)
  with v show "ValidName s"
    by (simp add: s ValidContractName_def ValidName_def name_pattern_def)
qed

lemma ValidContractName_no_dot: "ValidContractName s \<Longrightarrow> CHR ''.'' \<notin> set s"
proof -
  have "\<not> contract_char (CHR ''.'')" by code_simp
  then show "ValidContractName s \<Longrightarrow> CHR ''.'' \<notin> set s"
    by (auto simp: ValidContractName_def list_all_iff)
qed

lemma ValidName_length: "ValidName s \<Longrightarrow> 1 \<le> length s \<and> length s \<le> 128"
  by (auto simp: ValidName_def Suc_le_eq)

lemma name_length_byte [simp]: "ValidName s \<Longrightarrow> unat (of_nat (length s) :: byte) = length s"
  by (auto simp: ValidName_def unat_of_nat)

lemma decode_name_append [simp]:
  "ValidName k \<Longrightarrow> decode_name (of_nat (length k) # str_bytes k @ r) = Inr (k, r)"
  by (simp add: decode_name_def)

lemma decode_name_ok:
  assumes "decode_name raw = Inr (k, r)"
  shows "raw = of_nat (length k) # str_bytes k @ r" and "ValidName k"
proof -
  from assms obtain b raw1 name where "raw = [b] @ raw1" and raw1: "raw1 = name @ r"
    and len: "length name = unat b" and k: "k = bytes_str name" and "ValidName k"
    by (auto simp: decode_name_def result_simps take_bytes_ok length_Suc_conv split: if_splits)
  then show "ValidName k" by simp
  have "of_nat (length k) = b" using len k by simp
  then show "raw = of_nat (length k) # str_bytes k @ r"
    using k raw1 \<open>raw = [b] @ raw1\<close> by simp
qed

lemma set_base_encode: "2 \<le> length a \<Longrightarrow> set (base_encode b a) \<subseteq> set a"
  by (auto simp: base_encode_eq intro!: nth_mem dest: base_digits_less [rotated])

lemma EncodeAddress_no_dot:
  assumes "EncodeAddress version hash = Inr a"
  shows "CHR ''.'' \<notin> set a"
proof -
  have v: "version < 32" using assms by (auto simp: EncodeAddress_def not_le split: if_splits)
  then have "unat version < 32" by (simp add: word_less_nat_alt)
  then have "c32 ! unat version \<in> set c32" by (intro nth_mem) simp
  with assms v have "set a \<subseteq> insert (CHR ''S'') (set c32)"
    using set_base_encode [of c32 "hash @ checksum (version # hash)"]
    by (auto simp: EncodeAddress_def Let_def split: if_splits)
  moreover have "CHR ''.'' \<notin> insert (CHR ''S'') (set c32)" by (simp add: c32_def)
  ultimately show ?thesis by blast
qed

lemma encode_principal_decodes:
  assumes "encode_principal pre t s = Inr out" and t: "t = T_StandardPrincipal \<or> t = T_ContractPrincipal"
  shows "\<exists>d. out = pre @ d \<and> (\<forall>rest. decode_principal t (d @ rest) = Inr (text_value t s, rest))"
proof -
  let ?p = "split_on (CHR ''.'') s"
  from assms obtain version hash where a: "DecodeAddress (?p ! 0) = Inr (version, hash)"
    and std: "t = T_StandardPrincipal \<Longrightarrow> length ?p = 1 \<and> out = pre @ version # hash"
    and con: "t = T_ContractPrincipal \<Longrightarrow> length ?p = 2 \<and> ValidContractName (?p ! 1)
                \<and> out = pre @ version # hash @ of_nat (length (?p ! 1)) # str_bytes (?p ! 1)"
    by (auto simp: encode_principal_def result_simps Let_def split: if_splits)
  note can = DecodeAddress_canonical [OF a]
  show ?thesis
  proof (cases "t = T_StandardPrincipal")
    case True
    with std have "?p = [s]" by (metis length_0_conv length_Suc_conv One_nat_def split_on_singleton)
    with True std can have "decode_principal t ((version # hash) @ rest) = Inr (text_value t s, rest)" for rest
      by (simp add: decode_principal_def take_bytes_def)
    with True std show ?thesis by blast
  next
    case False
    with t have t: "t = T_ContractPrincipal" by simp
    with con obtain p q where p: "?p = [p, q]" by (metis length_0_conv length_Suc_conv numeral_2_eq_2)
    then have s: "s = p @ ''.'' @ q" by (auto dest: split_on_pair)
    have "decode_principal t ((version # hash @ of_nat (length q) # str_bytes q) @ rest)
            = Inr (text_value t s, rest)" for rest
      using con [OF t] p can s t
      by (simp add: decode_principal_def take_bytes_def ValidContractName_ValidName)
    with con [OF t] p show ?thesis by auto
  qed
qed

lemma decode_principal_encodes:
  assumes "decode_principal t raw = Inr (v, rest)" and t: "t = T_StandardPrincipal \<or> t = T_ContractPrincipal"
  shows "\<exists>d. raw = d @ rest \<and> Type v = t \<and> canon v = v \<and> wf_value v
    \<and> (\<forall>pre. encode_principal pre t (Text v) = Inr (pre @ d))"
proof -
  from assms(1) obtain b raw1 where b: "take_bytes 21 raw = Inr (b, raw1)"
    by (auto simp: decode_principal_def result_simps)
  then obtain version hash where bv: "b = version # hash" and raw: "raw = (version # hash) @ raw1" "length hash = 20"
    by (cases b) (auto simp: take_bytes_ok)
  from assms b bv obtain a where a: "EncodeAddress version hash = Inr a"
    and std: "t = T_StandardPrincipal \<Longrightarrow> v = text_value t a \<and> raw1 = rest"
    and con: "t = T_ContractPrincipal \<Longrightarrow> \<exists>name. decode_name raw1 = Inr (name, rest)
                \<and> ValidContractName name \<and> v = text_value t (a @ ''.'' @ name)"
    by (auto simp: decode_principal_def result_simps split: if_splits)
  have "version < 32" using a by (auto simp: EncodeAddress_def not_le split: if_splits)
  with a raw have dec: "DecodeAddress a = Inr (version, hash)" by (intro DecodeAddress_EncodeAddress_ok)
  note nodot = EncodeAddress_no_dot [OF a]
  show ?thesis
  proof (cases "t = T_StandardPrincipal")
    case True
    with std dec nodot raw show ?thesis
      by (intro exI [of _ "version # hash"]) (simp add: text_value_def encode_principal_def)
  next
    case False
    with t have t: "t = T_ContractPrincipal" by simp
    with con obtain name where n: "decode_name raw1 = Inr (name, rest)" "ValidContractName name"
      "v = text_value t (a @ ''.'' @ name)" by blast
    with dec nodot t raw decode_name_ok [OF n(1)] show ?thesis
      by (intro exI [of _ "version # hash @ of_nat (length name) # str_bytes name"])
        (simp add: text_value_def encode_principal_def ValidContractName_no_dot)
  qed
qed


section \<open>Decoding inverts encoding\<close>

definition recovers :: "Value \<Rightarrow> bool" where
  "recovers v \<longleftrightarrow>
     (\<forall>l d pre out. encode pre v l d = Inr out \<longrightarrow> wf_value v \<longrightarrow>
       (\<exists>b. out = pre @ b \<and> b \<noteq> [] \<and> (\<forall>rest. decode_value l d (b @ rest) = Inr (canon v, rest))))"

lemma recoversD:
  assumes "recovers v" and "encode pre v l d = Inr out" and "wf_value v"
  obtains b where "out = pre @ b" and "b \<noteq> []"
    and "\<And>rest. decode_value l d (b @ rest) = Inr (canon v, rest)"
  using assms unfolding recovers_def by blast

lemma decode_items_0 [simp]: "decode_items l d 0 raw = Inr ([], raw)"
  and decode_fields_0 [simp]: "decode_fields l d 0 prev raw = Inr ([], raw)"
  by (simp_all add: decode_items.simps decode_fields.simps)

lemma decode_items_Suc:
  "decode_items l d (Suc n) raw =
     rbind (decode_value l d raw) (\<lambda>(child, raw1).
       rbind (decode_items l d n raw1) (\<lambda>(vs, raw2). Inr (child # vs, raw2)))"
  by (subst decode_items.simps) (simp only: nat.distinct if_False diff_Suc_1)

lemma decode_fields_Suc:
  "decode_fields l d (Suc n) previous raw =
     rbind (decode_name raw) (\<lambda>(name, raw1).
       if name \<le> previous then Inl ''noncanonical tuple keys''
       else rbind (decode_value l d raw1) (\<lambda>(child, raw2).
         rbind (decode_fields l d n name raw2) (\<lambda>(fs, raw3). Inr ((name, child) # fs, raw3))))"
  by (subst decode_fields.simps) (simp only: nat.distinct if_False diff_Suc_1)

lemma encode_items_simps [simp]:
  "encode_items b [] l d = Inr b"
  "encode_items b (v # vs) l d = rbind (encode b v l d) (\<lambda>b'. encode_items b' vs l d)"
  by (simp_all add: encode_items.simps)

lemma encode_fields_simps [simp]:
  "encode_fields b [] l d = Inr b"
  "encode_fields b ((k, v) # fs) l d =
     rbind (encode (b @ of_nat (length k) # str_bytes k) v l d) (\<lambda>b'. encode_fields b' fs l d)"
  by (simp_all add: encode_fields.simps)

lemma encode_items_decodes:
  assumes "\<And>v. v \<in> set vs \<Longrightarrow> recovers v \<and> wf_value v" and "encode_items pre vs l d = Inr out"
  shows "\<exists>b. out = pre @ b \<and> length vs \<le> length b
    \<and> (\<forall>rest. decode_items l d (length vs) (b @ rest) = Inr (map canon vs, rest))"
  using assms
proof (induction vs arbitrary: pre)
  case Nil
  then show ?case by simp
next
  case (Cons v vs)
  then obtain mid where e: "encode pre v l d = Inr mid" "encode_items mid vs l d = Inr out"
    by (auto simp: result_simps)
  then obtain b1 where b1: "mid = pre @ b1" "b1 \<noteq> []"
      "\<And>rest. decode_value l d (b1 @ rest) = Inr (canon v, rest)"
    using Cons.prems(1) [of v] by (auto elim!: recoversD)
  obtain b2 where b2: "out = mid @ b2" "length vs \<le> length b2"
      "\<And>rest. decode_items l d (length vs) (b2 @ rest) = Inr (map canon vs, rest)"
    using Cons.IH [OF _ e(2)] Cons.prems(1) by auto
  show ?case
    using b1 b2 by (intro exI [of _ "b1 @ b2"]) (cases b1, auto simp: decode_items_Suc)
qed

lemma encode_fields_decodes:
  assumes "\<And>p. p \<in> set fs \<Longrightarrow> recovers (snd p) \<and> wf_value (snd p) \<and> ValidName (fst p) \<and> previous < fst p"
    and "sorted_wrt (<) (map fst fs)" and "encode_fields pre fs l d = Inr out"
  shows "\<exists>b. out = pre @ b \<and> 3 * length fs \<le> length b
    \<and> (\<forall>rest. decode_fields l d (length fs) previous (b @ rest) = Inr (map (map_prod id canon) fs, rest))"
  using assms
proof (induction fs arbitrary: pre previous)
  case Nil
  then show ?case by simp
next
  case (Cons p fs)
  obtain k v where p: "p = (k, v)" by (cases p)
  let ?key = "of_nat (length k) # str_bytes k"
  from Cons.prems(3) p obtain mid where
    e: "encode (pre @ ?key) v l d = Inr mid" "encode_fields mid fs l d = Inr out"
    by (auto simp: result_simps)
  have k: "ValidName k" "previous < k" using Cons.prems(1) [of p] p by auto
  obtain b1 where b1: "mid = (pre @ ?key) @ b1" "b1 \<noteq> []"
      "\<And>rest. decode_value l d (b1 @ rest) = Inr (canon v, rest)"
    using Cons.prems(1) [of p] p e(1) by (auto elim!: recoversD)
  have "recovers (snd q) \<and> wf_value (snd q) \<and> ValidName (fst q) \<and> k < fst q" if "q \<in> set fs" for q
    using Cons.prems(1) [of q] Cons.prems(2) p that by auto
  moreover have "sorted_wrt (<) (map fst fs)" using Cons.prems(2) by simp
  ultimately obtain b2 where b2: "out = mid @ b2" "3 * length fs \<le> length b2"
      "\<And>rest. decode_fields l d (length fs) k (b2 @ rest) = Inr (map (map_prod id canon) fs, rest)"
    using Cons.IH [OF _ _ e(2), of k] by blast
  have "3 \<le> length (?key @ b1)"
    using ValidName_length [OF k(1)] b1(2) by (cases b1) auto
  with b1 b2 k p show ?case
    by (intro exI [of _ "?key @ b1 @ b2"]) (auto simp: decode_fields_Suc not_le)
qed

lemma sort_key_map_prod:
  "sort_key fst (map (map_prod id f) fs) = map (map_prod id f) (sort_key fst fs)"
proof -
  have "insort_key fst (map_prod id f x) (map (map_prod id f) ys) = map (map_prod id f) (insort_key fst x ys)" for x ys
    by (induction ys) auto
  note key = this
  show ?thesis
  proof (induction fs)
    case (Cons x fs)
    then show ?case using key [of x "sort_key fst fs"] by (simp add: id_def)
  qed simp
qed

lemma decode_value_tag:
  "d \<le> MaxDepth l \<Longrightarrow> decode_value l d (t # raw) =
     (if t = T_Int \<or> t = T_UInt then decode_integer t raw
      else if t = T_Buffer \<or> t = T_ASCII \<or> t = T_UTF8 then decode_text t raw
      else if t = T_True \<or> t = T_False \<or> t = T_None then Inr (tag_value t, raw)
      else if t = T_StandardPrincipal \<or> t = T_ContractPrincipal then decode_principal t raw
      else if wrapper_tag t
        then rbind (decode_value l (d + 1) raw) (\<lambda>(child, raw2). Inr (items_value t [child], raw2))
      else if t = T_List
        then rbind (decode_count raw) (\<lambda>(n, raw2).
               rbind (decode_items l (d + 1) n raw2) (\<lambda>(vs, raw3). Inr (items_value t vs, raw3)))
      else if t = T_Tuple
        then (case decode_count raw of
                Inl _ \<Rightarrow> Inl ''invalid tuple count''
              | Inr (n, raw2) \<Rightarrow>
                  if n > length raw2 div 3 then Inl ''invalid tuple count''
                  else rbind (decode_fields l (d + 1) n [] raw2) (\<lambda>(fs, raw3).
                    Inr (tuple_value fs, raw3)))
      else Inl ''unsupported Clarity type'')"
  by (simp add: decode_value.simps [of l d] Let_def)


lemma encode_ok:
  assumes "encode pre v l d = Inr out"
  shows "d \<le> MaxDepth l" and "int (length pre) < MaxBytes l" and "int (length out) \<le> MaxBytes l"
  using assms by (subst (asm) encode.simps, auto simp: Let_def result_simps split: if_splits)+

lemma wf_value_Items: "wf_value v \<Longrightarrow> wrapper_tag (Type v) \<or> Type v = T_List \<Longrightarrow> x \<in> set (Items v) \<Longrightarrow> wf_value x"
  by (cases v) (auto simp: list_all_iff)

lemma wf_value_Fields:
  assumes "wf_value v" and "Type v = T_Tuple"
  shows "distinct_keys (Fields v)" and "p \<in> set (Fields v) \<Longrightarrow> wf_value (snd p)"
  using assms by (cases v; force simp: list_all_iff)+

lemma canon_simps:
  "Type v = T_Int \<or> Type v = T_UInt \<Longrightarrow> canon v = Value (Type v) (Integer v) [] [] [] []"
  "Type v = T_Buffer \<Longrightarrow> canon v = bytes_value (Type v) (Bytes v)"
  "text_tag (Type v) \<Longrightarrow> canon v = text_value (Type v) (Text v)"
  "Type v = T_True \<or> Type v = T_False \<or> Type v = T_None \<Longrightarrow> canon v = tag_value (Type v)"
  "wrapper_tag (Type v) \<or> Type v = T_List \<Longrightarrow> canon v = items_value (Type v) (map canon (Items v))"
  "Type v = T_Tuple \<Longrightarrow> canon v = tuple_value (sort_key fst (map (map_prod id canon) (Fields v)))"
  by (cases v; auto simp: bytes_value_def text_value_def tag_value_def items_value_def tuple_value_def)+

lemma encode_list_decodes:
  assumes "encode pre v l d = Inr out" and "wf_value v" and t: "Type v = T_List"
    and IH: "\<And>x. x \<in> set (Items v) \<Longrightarrow> recovers x"
  shows "\<exists>b. out = pre @ b \<and> b \<noteq> [] \<and> (\<forall>rest. decode_value l d (b @ rest) = Inr (canon v, rest))"
proof -
  let ?n = "length (Items v)"
  from assms(1) t have e: "encode_items ((pre @ [Type v]) @ be_bytes 4 ?n) (Items v) l (d + 1) = Inr out"
    and n: "?n < 2 ^ 32"
    by (subst (asm) encode.simps, auto simp: Let_def result_simps split: if_splits)+
  have "recovers x \<and> wf_value x" if "x \<in> set (Items v)" for x
    using IH [OF that] wf_value_Items [OF assms(2) _ that] t by simp
  from encode_items_decodes [OF this e] obtain b where
    b: "out = ((pre @ [Type v]) @ be_bytes 4 ?n) @ b" "?n \<le> length b"
      "\<And>rest. decode_items l (d + 1) ?n (b @ rest) = Inr (map canon (Items v), rest)" by blast
  have "decode_value l d ((Type v # be_bytes 4 ?n @ b) @ rest) = Inr (canon v, rest)" for rest
    using b n t encode_ok(1) [OF assms(1)] by (simp add: decode_value_tag canon_simps)
  with b show ?thesis by (intro exI [of _ "Type v # be_bytes 4 ?n @ b"]) simp
qed

lemma encode_tuple_decodes:
  assumes "encode pre v l d = Inr out" and wf: "wf_value v" and t: "Type v = T_Tuple"
    and IH: "\<And>p. p \<in> set (Fields v) \<Longrightarrow> recovers (snd p)"
  shows "\<exists>b. out = pre @ b \<and> b \<noteq> [] \<and> (\<forall>rest. decode_value l d (b @ rest) = Inr (canon v, rest))"
proof -
  let ?n = "length (Fields v)" and ?fs = "sort_key fst (Fields v)"
  from assms(1) t have e: "encode_fields ((pre @ [Type v]) @ be_bytes 4 ?n) ?fs l (d + 1) = Inr out"
    and n: "?n < 2 ^ 32" and names: "list_all (\<lambda>p. ValidName (fst p)) (Fields v)"
    by (subst (asm) encode.simps, auto simp: Let_def result_simps split: if_splits)+
  have "recovers (snd p) \<and> wf_value (snd p) \<and> ValidName (fst p) \<and> [] < fst p" if "p \<in> set ?fs" for p
    using IH [of p] wf_value_Fields(2) [OF wf t, of p] names that
    by (auto simp: list_all_iff ValidName_def simp flip: not_le)
  moreover have "sorted_wrt (<) (map fst ?fs)"
    using wf_value_Fields(1) [OF wf t] by (rule distinct_sort_key_fst)
  ultimately obtain b where
    b: "out = ((pre @ [Type v]) @ be_bytes 4 ?n) @ b" "3 * ?n \<le> length b"
      "\<And>rest. decode_fields l (d + 1) ?n [] (b @ rest) = Inr (map (map_prod id canon) ?fs, rest)"
    using encode_fields_decodes [of ?fs "[]", OF _ _ e] by auto
  have "decode_value l d ((Type v # be_bytes 4 ?n @ b) @ rest) = Inr (canon v, rest)" for rest
    using b n t encode_ok(1) [OF assms(1)]
    by (simp add: decode_value_tag canon_simps sort_key_map_prod)
  with b show ?thesis by (intro exI [of _ "Type v # be_bytes 4 ?n @ b"]) simp
qed

lemma encode_wrapper_decodes:
  assumes "encode pre v l d = Inr out" and wf: "wf_value v" and t: "wrapper_tag (Type v)"
    and IH: "\<And>x. x \<in> set (Items v) \<Longrightarrow> recovers x"
  shows "\<exists>b. out = pre @ b \<and> b \<noteq> [] \<and> (\<forall>rest. decode_value l d (b @ rest) = Inr (canon v, rest))"
proof -
  from assms(1) t obtain x where x: "Items v = [x]" and e: "encode (pre @ [Type v]) x l (d + 1) = Inr out"
    by (subst (asm) encode.simps) (auto simp: Let_def result_simps split: if_splits list.splits)
  from x wf t have "recovers x" "wf_value x" using IH wf_value_Items by auto
  then obtain b where b: "out = (pre @ [Type v]) @ b"
      "\<And>rest. decode_value l (d + 1) (b @ rest) = Inr (canon x, rest)"
    using e by (blast elim: recoversD)
  have "decode_value l d ((Type v # b) @ rest) = Inr (canon v, rest)" for rest
    using b x t encode_ok(1) [OF assms(1)] by (auto simp: decode_value_tag canon_simps)
  with b show ?thesis by (intro exI [of _ "Type v # b"]) simp
qed

lemma encode_scalar_decodes:
  assumes "encode pre v l d = Inr out"
    and t: "\<not> wrapper_tag (Type v)" "Type v \<noteq> T_List" "Type v \<noteq> T_Tuple"
  shows "\<exists>b. out = pre @ b \<and> b \<noteq> [] \<and> (\<forall>rest. decode_value l d (b @ rest) = Inr (canon v, rest))"
proof -
  have d: "d \<le> MaxDepth l" using assms(1) by (rule encode_ok)
  have "\<exists>b. out = (pre @ [Type v]) @ b \<and> (\<forall>rest. decode_value l d (Type v # b @ rest) = Inr (canon v, rest))"
    using assms d
    by (subst (asm) encode.simps)
      (auto simp: Let_def result_simps decode_value_tag canon_simps split: if_splits
        dest!: encode_integer_decodes append_data_decodes encode_text_decodes encode_principal_decodes)
  then show ?thesis by auto
qed

lemma all_recover: "recovers v"
proof (induction v)
  case (Value t i bs s vs fs)
  let ?v = "Value t i bs s vs fs"
  have items: "recovers x" if "x \<in> set (Items ?v)" for x using Value that by simp
  have fields: "recovers (snd p)" if "p \<in> set (Fields ?v)" for p
    using Value.IH(2) [of p "snd p"] that by (cases p) auto
  show ?case unfolding recovers_def
    using encode_scalar_decodes [of _ ?v] encode_wrapper_decodes [of _ ?v, OF _ _ _ items]
      encode_list_decodes [of _ ?v, OF _ _ _ items] encode_tuple_decodes [of _ ?v, OF _ _ _ fields]
    by metis
qed


section \<open>Encoding inverts decoding\<close>

definition respells :: "Limits \<Rightarrow> int \<Rightarrow> bytes \<Rightarrow> Value \<Rightarrow> bool" where
  "respells l d b v \<longleftrightarrow> b \<noteq> [] \<and> canon v = v \<and> wf_value v
     \<and> (\<forall>pre. int (length pre + length b) \<le> MaxBytes l \<longrightarrow> encode pre v l d = Inr (pre @ b))"

definition canonical :: "Value \<Rightarrow> bool" where
  "canonical v \<longleftrightarrow>
     (\<forall>l d raw rest. decode_value l d raw = Inr (v, rest) \<longrightarrow> (\<exists>b. raw = b @ rest \<and> respells l d b v))"

lemma canonicalD:
  assumes "canonical v" and "decode_value l d raw = Inr (v, rest)"
  obtains b where "raw = b @ rest" and "respells l d b v"
  using assms unfolding canonical_def by blast

lemma decode_items_canonical:
  assumes "\<And>v. v \<in> set vs \<Longrightarrow> canonical v" and "decode_items l d n raw = Inr (vs, rest)"
  shows "\<exists>b. raw = b @ rest \<and> length vs = n \<and> n \<le> length b \<and> map canon vs = vs
    \<and> (\<forall>v \<in> set vs. wf_value v)
    \<and> (\<forall>pre. int (length pre + length b) \<le> MaxBytes l \<longrightarrow> encode_items pre vs l d = Inr (pre @ b))"
  using assms
proof (induction n arbitrary: raw vs)
  case 0
  then show ?case by simp
next
  case (Suc n)
  then obtain v vs' mid where dec: "decode_value l d raw = Inr (v, mid)"
      "decode_items l d n mid = Inr (vs', rest)" and vs: "vs = v # vs'"
    by (auto simp: decode_items_Suc result_simps)
  then obtain b1 where b1: "raw = b1 @ mid" "respells l d b1 v"
    using Suc.prems(1) by (auto elim!: canonicalD)
  obtain b2 where b2: "mid = b2 @ rest" "length vs' = n" "n \<le> length b2" "map canon vs' = vs'"
      "\<forall>v \<in> set vs'. wf_value v"
      "\<And>pre. int (length pre + length b2) \<le> MaxBytes l \<Longrightarrow> encode_items pre vs' l d = Inr (pre @ b2)"
    using Suc.IH [OF _ dec(2)] Suc.prems(1) vs by auto
  have "1 \<le> length b1" using b1(2) by (cases b1) (auto simp: respells_def)
  moreover have "encode_items pre vs l d = Inr (pre @ b1 @ b2)"
    if "int (length pre + length (b1 @ b2)) \<le> MaxBytes l" for pre
    using that b1(2) b2(6) [of "pre @ b1"] vs by (simp add: respells_def)
  ultimately show ?case
    using b1 b2 vs by (intro exI [of _ "b1 @ b2"]) (auto simp: respells_def)
qed

lemma decode_fields_canonical:
  assumes "\<And>p. p \<in> set fs \<Longrightarrow> canonical (snd p)" and "decode_fields l d n previous raw = Inr (fs, rest)"
  shows "\<exists>b. raw = b @ rest \<and> length fs = n \<and> 3 * n \<le> length b \<and> map (map_prod id canon) fs = fs
    \<and> (\<forall>p \<in> set fs. wf_value (snd p) \<and> ValidName (fst p) \<and> previous < fst p)
    \<and> sorted_wrt (<) (map fst fs)
    \<and> (\<forall>pre. int (length pre + length b) \<le> MaxBytes l \<longrightarrow> encode_fields pre fs l d = Inr (pre @ b))"
  using assms
proof (induction n arbitrary: raw fs previous)
  case 0
  then show ?case by simp
next
  case (Suc n)
  from Suc.prems(2) obtain k v fs' raw1 mid where
    name: "decode_name raw = Inr (k, raw1)" and less: "previous < k"
    and dec: "decode_value l d raw1 = Inr (v, mid)" "decode_fields l d n k mid = Inr (fs', rest)"
    and fs: "fs = (k, v) # fs'"
    by (auto simp: decode_fields_Suc result_simps not_le split: if_splits)
  let ?key = "of_nat (length k) # str_bytes k"
  note nm = decode_name_ok [OF name]
  obtain b1 where b1: "raw1 = b1 @ mid" "respells l d b1 v"
    using Suc.prems(1) [of "(k, v)"] fs dec(1) by (auto elim!: canonicalD)
  obtain b2 where b2: "mid = b2 @ rest" "length fs' = n" "3 * n \<le> length b2"
      "map (map_prod id canon) fs' = fs'"
      "\<forall>p \<in> set fs'. wf_value (snd p) \<and> ValidName (fst p) \<and> k < fst p" "sorted_wrt (<) (map fst fs')"
      "\<And>pre. int (length pre + length b2) \<le> MaxBytes l \<Longrightarrow> encode_fields pre fs' l d = Inr (pre @ b2)"
    using Suc.IH [OF _ dec(2)] Suc.prems(1) fs by (metis list.set_intros(2))
  have "3 \<le> length (?key @ b1)"
    using ValidName_length [OF nm(2)] b1(2) by (cases b1) (auto simp: respells_def)
  moreover have "encode_fields pre fs l d = Inr (pre @ ?key @ b1 @ b2)"
    if "int (length pre + length (?key @ b1 @ b2)) \<le> MaxBytes l" for pre
    using that b1(2) b2(7) [of "pre @ ?key @ b1"] fs by (simp add: respells_def)
  moreover have "map (map_prod id canon) fs = fs" "sorted_wrt (<) (map fst fs)"
    and "\<forall>p \<in> set fs. wf_value (snd p) \<and> ValidName (fst p) \<and> previous < fst p"
    using b1(2) b2(4,5,6) fs nm(2) less by (auto simp: respells_def)
  ultimately show ?case
    using nm b1 b2(1,2,3) fs by (intro exI [of _ "?key @ b1 @ b2"]) (auto simp: id_def)
qed

lemma decode_value_ok:
  assumes "decode_value l d raw = Inr (v, rest)"
  obtains t raw1 where "raw = t # raw1" and "d \<le> MaxDepth l"
  using assms
  by (subst (asm) decode_value.simps)
    (auto simp: result_simps take_bytes_ok length_Suc_conv split: if_splits)


lemma encode_tag:
  assumes "d \<le> MaxDepth l" and "int (length pre) < MaxBytes l"
  shows "encode pre (Value t i bs s vs fs) l d =
     rbind
       (if t = T_Int \<or> t = T_UInt then encode_integer (pre @ [t]) t i
        else if t = T_Buffer then append_data l (pre @ [t]) bs
        else if t = T_ASCII \<or> t = T_UTF8 then encode_text l (pre @ [t]) t s
        else if t = T_True \<or> t = T_False \<or> t = T_None then Inr (pre @ [t])
        else if t = T_StandardPrincipal \<or> t = T_ContractPrincipal then encode_principal (pre @ [t]) t s
        else if wrapper_tag t
          then (case vs of [x] \<Rightarrow> encode (pre @ [t]) x l (d + 1) | _ \<Rightarrow> Inl ''expected one wrapped value'')
        else if t = T_List
          then if length vs > 2 ^ 32 - 1 \<or> int (length vs) > MaxBytes l then Inl ''list too large''
               else encode_items ((pre @ [t]) @ be_bytes 4 (length vs)) vs l (d + 1)
        else if t = T_Tuple
          then if length fs > 2 ^ 32 - 1 \<or> int (length fs) > MaxBytes l div 3 then Inl ''tuple too large''
               else if \<not> list_all (\<lambda>p. ValidName (fst p)) fs then Inl ''invalid tuple key''
               else encode_fields ((pre @ [t]) @ be_bytes 4 (length fs)) (sort_key fst fs) l (d + 1)
        else Inl ''unsupported Clarity type'')
       (\<lambda>b2. if int (length b2) > MaxBytes l then Inl ''exceeded Clarity byte limit'' else Inr b2)"
  using assms by (subst encode.simps) (simp add: Let_def)

lemma decode_scalar_canonical:
  assumes dec: "decode_value l d (t # raw) = Inr (v, rest)"
    and t: "\<not> wrapper_tag t" "t \<noteq> T_List" "t \<noteq> T_Tuple"
  shows "\<exists>b. raw = b @ rest \<and> respells l d (t # b) v"
proof -
  from dec have d: "d \<le> MaxDepth l" by (rule decode_value_ok)
  note body = dec [unfolded decode_value_tag [OF d]]
  consider "t = T_Int \<or> t = T_UInt" | "t = T_Buffer \<or> t = T_ASCII \<or> t = T_UTF8"
    | "t = T_True \<or> t = T_False \<or> t = T_None" | "t = T_StandardPrincipal \<or> t = T_ContractPrincipal"
    using body t by (auto split: if_splits)
  then show ?thesis
  proof cases
    case 1
    with body have "decode_integer t raw = Inr (v, rest)" by auto
    from decode_integer_encodes [OF this 1] obtain b where
      "raw = b @ rest" "Type v = t" "canon v = v" "wf_value v"
      "\<And>pre. encode_integer pre t (Integer v) = Inr (pre @ b)" by blast
    with 1 show ?thesis
      by (intro exI [of _ b], cases v) (auto simp: respells_def encode_tag [OF d])
  next
    case 2
    with body have "decode_text t raw = Inr (v, rest)" by auto
    from decode_text_encodes [OF this, of l] 2 obtain b where b:
      "raw = b @ rest" "Type v = t" "canon v = v" "wf_value v"
      "\<And>pre. int (length pre + length b) \<le> MaxBytes l \<Longrightarrow>
        (if t = T_Buffer then append_data l pre (Bytes v) else encode_text l pre t (Text v)) = Inr (pre @ b)"
      by blast
    have "encode pre v l d = Inr (pre @ t # b)" if le: "int (length pre + length (t # b)) \<le> MaxBytes l" for pre
      using 2 le b(2) b(5) [of "pre @ [t]"] by (cases v; elim disjE; simp add: encode_tag [OF d])
    with b show ?thesis by (auto simp: respells_def)
  next
    case 3
    with body show ?thesis
      by (auto simp: encode_tag [OF d] tag_value_def respells_def)
  next
    case 4
    with body have "decode_principal t raw = Inr (v, rest)" by auto
    from decode_principal_encodes [OF this 4] obtain b where b:
      "raw = b @ rest" "Type v = t" "canon v = v" "wf_value v"
      "\<And>pre. encode_principal pre t (Text v) = Inr (pre @ b)" by blast
    have "encode pre v l d = Inr (pre @ t # b)" if le: "int (length pre + length (t # b)) \<le> MaxBytes l" for pre
      using 4 le b(2) b(5) [of "pre @ [t]"] by (cases v; elim disjE; simp add: encode_tag [OF d])
    with b show ?thesis by (auto simp: respells_def)
  qed
qed

lemma decode_wrapper_canonical:
  assumes dec: "decode_value l d (t # raw) = Inr (v, rest)" and t: "wrapper_tag t"
    and IH: "\<And>x. x \<in> set (Items v) \<Longrightarrow> canonical x"
  shows "\<exists>b. raw = b @ rest \<and> respells l d (t # b) v"
proof -
  from dec have d: "d \<le> MaxDepth l" by (rule decode_value_ok)
  from dec [unfolded decode_value_tag [OF d]] t obtain x where
    x: "decode_value l (d + 1) raw = Inr (x, rest)" and v: "v = items_value t [x]"
    by (auto simp: result_simps)
  from IH v x obtain b where b: "raw = b @ rest" "respells l (d + 1) b x"
    by (auto simp: items_value_def elim!: canonicalD)
  with t v show ?thesis
    by (intro exI [of _ b]) (auto simp: encode_tag [OF d] items_value_def respells_def)
qed

lemma decode_list_canonical:
  assumes dec: "decode_value l d (t # raw) = Inr (v, rest)" and t: "t = T_List"
    and IH: "\<And>x. x \<in> set (Items v) \<Longrightarrow> canonical x"
  shows "\<exists>b. raw = b @ rest \<and> respells l d (t # b) v"
proof -
  from dec have d: "d \<le> MaxDepth l" by (rule decode_value_ok)
  from dec [unfolded decode_value_tag [OF d]] t obtain n raw1 vs where
    c: "decode_count raw = Inr (n, raw1)" and vs: "decode_items l (d + 1) n raw1 = Inr (vs, rest)"
    and v: "v = items_value t vs"
    by (auto simp: result_simps)
  from IH v have "\<And>x. x \<in> set vs \<Longrightarrow> canonical x" by (simp add: items_value_def)
  from decode_items_canonical [OF this vs] obtain b where
    b: "raw1 = b @ rest" "length vs = n" "n \<le> length b" "map canon vs = vs" "\<forall>v \<in> set vs. wf_value v"
      "\<And>pre. int (length pre + length b) \<le> MaxBytes l \<Longrightarrow> encode_items pre vs l (d + 1) = Inr (pre @ b)"
    by blast
  with decode_count_ok [OF c] t v show ?thesis
    by (intro exI [of _ "be_bytes 4 n @ b"])
      (auto simp: respells_def encode_tag [OF d] items_value_def list_all_iff)
qed

lemma decode_tuple_canonical:
  assumes dec: "decode_value l d (t # raw) = Inr (v, rest)" and t: "t = T_Tuple"
    and IH: "\<And>p. p \<in> set (Fields v) \<Longrightarrow> canonical (snd p)"
  shows "\<exists>b. raw = b @ rest \<and> respells l d (t # b) v"
proof -
  from dec have d: "d \<le> MaxDepth l" by (rule decode_value_ok)
  from dec [unfolded decode_value_tag [OF d]] t obtain n raw1 fs where
    c: "decode_count raw = Inr (n, raw1)" and fs: "decode_fields l (d + 1) n [] raw1 = Inr (fs, rest)"
    and v: "v = tuple_value fs"
    by (auto simp: result_simps split: sum.splits if_splits)
  from IH v have "\<And>p. p \<in> set fs \<Longrightarrow> canonical (snd p)" by (simp add: tuple_value_def)
  from decode_fields_canonical [OF this fs] obtain b where
    b: "raw1 = b @ rest" "length fs = n" "3 * n \<le> length b" "map (map_prod id canon) fs = fs"
      "\<forall>p \<in> set fs. wf_value (snd p) \<and> ValidName (fst p) \<and> [] < fst p" "sorted_wrt (<) (map fst fs)"
      "\<And>pre. int (length pre + length b) \<le> MaxBytes l \<Longrightarrow> encode_fields pre fs l (d + 1) = Inr (pre @ b)"
    by blast
  have sorted: "sort_key fst fs = fs" and dist: "distinct_keys fs"
    using b(6) by (simp_all add: sort_key_fst_id distinct_keys_def strict_sorted_iff)
  have canon: "canon v = v" and wf: "wf_value v"
    using b(4,5) sorted dist v by (auto simp: tuple_value_def list_all_iff id_def)
  have "encode pre v l d = Inr (pre @ t # be_bytes 4 n @ b)"
    if "int (length pre + length (t # be_bytes 4 n @ b)) \<le> MaxBytes l" for pre
    using that b(2,3,5) b(7) [of "pre @ t # be_bytes 4 n"] decode_count_ok [OF c] t d v sorted
    by (simp add: encode_tag [OF d] tuple_value_def list_all_iff)
  with canon wf b(1) decode_count_ok [OF c] show ?thesis
    by (intro exI [of _ "be_bytes 4 n @ b"]) (simp add: respells_def)
qed

lemma all_canonical: "canonical v"
proof (induction v)
  case (Value t i bs s vs fs)
  let ?v = "Value t i bs s vs fs"
  have items: "canonical x" if "x \<in> set (Items ?v)" for x using Value that by simp
  have fields: "canonical (snd p)" if "p \<in> set (Fields ?v)" for p
    using Value.IH(2) [of p "snd p"] that by (cases p) auto
  have "\<exists>b. raw = b @ rest \<and> respells l d b ?v" if dec: "decode_value l d raw = Inr (?v, rest)" for l d raw rest
  proof -
    from dec obtain tag raw1 where raw: "raw = tag # raw1" by (rule decode_value_ok)
    note dec = dec [unfolded raw]
    have "\<exists>b. raw1 = b @ rest \<and> respells l d (tag # b) ?v"
      using decode_scalar_canonical [OF dec] decode_wrapper_canonical [OF dec _ items]
        decode_list_canonical [OF dec _ items] decode_tuple_canonical [OF dec _ fields]
      by blast
    then show ?thesis using raw by (metis append_Cons)
  qed
  then show ?case unfolding canonical_def by blast
qed


section \<open>The codec as an interface\<close>

text \<open>What a client that concatenates encodings relies on: an encoder that appends to a buffer, a
  decoder that returns the unread rest, and the law that decoding reads back exactly what was
  appended, up to normalization. Injectivity, prefix freedom and sequences follow once.\<close>

locale prefix_codec =
  fixes enc :: "bytes \<Rightarrow> 'a \<Rightarrow> bytes result"
    and dec :: "bytes \<Rightarrow> ('a \<times> bytes) result"
    and norm :: "'a \<Rightarrow> 'a"
    and valid :: "'a \<Rightarrow> bool"
  assumes enc_dec: "valid v \<Longrightarrow> enc pre v = Inr out \<Longrightarrow>
      \<exists>b. out = pre @ b \<and> b \<noteq> [] \<and> (\<forall>rest. dec (b @ rest) = Inr (norm v, rest))"
begin

lemma dec_enc_Nil: "valid v \<Longrightarrow> enc [] v = Inr b \<Longrightarrow> dec (b @ rest) = Inr (norm v, rest)"
  using enc_dec [of v "[]" b] by auto

lemma enc_inj: "valid v \<Longrightarrow> valid w \<Longrightarrow> enc [] v = Inr b \<Longrightarrow> enc [] w = Inr b \<Longrightarrow> norm v = norm w"
  using dec_enc_Nil [of v b "[]"] dec_enc_Nil [of w b "[]"] by simp

lemma enc_prefix_free:
  assumes "valid v" and "valid w" and "enc [] v = Inr b" and "enc [] w = Inr (b @ c)"
  shows "c = []"
  using dec_enc_Nil [OF assms(1,3), of c] dec_enc_Nil [OF assms(2,4), of "[]"] by simp

fun dec_seq :: "nat \<Rightarrow> bytes \<Rightarrow> ('a list \<times> bytes) result" where
  "dec_seq 0 raw = Inr ([], raw)"
| "dec_seq (Suc n) raw =
     rbind (dec raw) (\<lambda>(x, raw1). rbind (dec_seq n raw1) (\<lambda>(xs, raw2). Inr (x # xs, raw2)))"

lemma dec_seq_concat:
  "list_all2 (\<lambda>v b. valid v \<and> enc [] v = Inr b) vs bs \<Longrightarrow>
     dec_seq (length vs) (concat bs @ rest) = Inr (map norm vs, rest)"
  by (induction vs bs rule: list_all2_induct) (auto simp: dec_enc_Nil)

lemma concat_inj:
  assumes "list_all2 (\<lambda>v b. valid v \<and> enc [] v = Inr b) vs bs"
    and "list_all2 (\<lambda>v b. valid v \<and> enc [] v = Inr b) ws cs"
    and "length vs = length ws" and "concat bs = concat cs"
  shows "map norm vs = map norm ws"
  using dec_seq_concat [OF assms(1), of "[]"] dec_seq_concat [OF assms(2), of "[]"] assms(3,4) by simp

end

locale canonical_codec = prefix_codec +
  fixes limit :: int
  assumes dec_enc: "dec raw = Inr (v, rest) \<Longrightarrow>
      \<exists>b. raw = b @ rest \<and> norm v = v \<and> valid v
        \<and> (\<forall>pre. int (length pre + length b) \<le> limit \<longrightarrow> enc pre v = Inr (pre @ b))"
begin

lemma dec_all_iff:
  assumes "int (length raw) \<le> limit"
  shows "dec raw = Inr (v, []) \<longleftrightarrow> enc [] v = Inr raw \<and> norm v = v \<and> valid v"
proof
  assume "dec raw = Inr (v, [])"
  from dec_enc [OF this] assms show "enc [] v = Inr raw \<and> norm v = v \<and> valid v" by fastforce
next
  assume "enc [] v = Inr raw \<and> norm v = v \<and> valid v"
  then show "dec raw = Inr (v, [])" using dec_enc_Nil [of v raw "[]"] by simp
qed

end

interpretation clarity: canonical_codec
  "\<lambda>pre v. encode pre v l d" "decode_value l d" canon wf_value "MaxBytes l" for l d
proof (unfold_locales, goal_cases)
  case (1 v pre out)
  then show ?case using all_recover [of v] unfolding recovers_def by blast
next
  case (2 raw v rest)
  then show ?case using all_canonical [of v] unfolding canonical_def respells_def by blast
qed

lemma EncodeWithLimits_ok:
  "EncodeWithLimits v l = Inr b \<longleftrightarrow>
     \<not> (MaxBytes l < 1 \<or> MaxDepth l < 1 \<or> MaxDepth l > 256) \<and> encode [] v l 1 = Inr b"
  by (auto simp: EncodeWithLimits_def)

lemma DecodeWithLimits_ok:
  "DecodeWithLimits raw l = Inr v \<longleftrightarrow>
     \<not> (MaxBytes l < 1 \<or> MaxDepth l < 1 \<or> MaxDepth l > 256) \<and> int (length raw) \<le> MaxBytes l
     \<and> decode_value l 1 raw = Inr (v, [])"
  by (auto simp: DecodeWithLimits_def result_simps split: if_splits)

section \<open>Properties\<close>

text \<open>C13: \<open>DecodeWithLimits\<close> accepts a byte string exactly when it is the serialization, under the
  same limits, of a well-formed value in canonical form, and it returns that value: decoding and
  encoding are inverse bijections, so no value has a second accepted serialization (noncanonical
  tuples, addresses and lengths are all refused).\<close>

theorem clarity_decode_exact:
  "DecodeWithLimits raw l = Inr v \<longleftrightarrow>
     EncodeWithLimits v l = Inr raw \<and> canon v = v \<and> wf_value v"
  using clarity.dec_all_iff [of raw l 1 v] encode_ok(3) [of "[]" v l 1 raw]
  by (auto simp: EncodeWithLimits_ok DecodeWithLimits_ok)

text \<open>C22: Whatever \<open>EncodeWithLimits\<close> serializes, \<open>DecodeWithLimits\<close> reads back under the same limits
  as the canonical form of the value: the fields its tags select, with tuple entries in key order,
  independently of the order in which the \<open>Fields\<close> map was iterated.\<close>

theorem clarity_encode_decode:
  assumes "wf_value v" and "EncodeWithLimits v l = Inr b"
  shows "DecodeWithLimits b l = Inr (canon v)"
  using assms clarity.dec_enc_Nil [of v l 1 b "[]"] encode_ok(3) [of "[]" v l 1 b]
  by (simp add: EncodeWithLimits_ok DecodeWithLimits_ok)

definition sample_tuple :: Value where
  "sample_tuple = tuple_value [(''b'', items_value T_Some [Uint 258]), (''a-key'', tag_value T_True)]"

definition sample_bytes :: bytes where
  "sample_bytes = [12, 0, 0, 0, 2, 5, 97, 45, 107, 101, 121, 3, 1, 98, 10, 1,
     0, 0, 0, 0, 0, 0, 0, 0, 0, 0, 0, 0, 0, 0, 1, 2]"

lemma sample_tuple_encodes: "EncodeWithLimits sample_tuple \<lparr>MaxBytes = 32, MaxDepth = 3\<rparr> = Inr sample_bytes"
  by code_simp

theorem clarity_encode_decode_witness:
  "DecodeWithLimits sample_bytes \<lparr>MaxBytes = 32, MaxDepth = 3\<rparr> = Inr (canon sample_tuple)"
  by (rule clarity_encode_decode [OF _ sample_tuple_encodes]) code_simp

text \<open>Serializations are never empty, never exceed the byte limit, and no serialization is a proper
  prefix of another under the same limits, so concatenated values can be told apart.\<close>

lemma clarity_encode_bounded_prefix_free:
  assumes "wf_value v" and "EncodeWithLimits v l = Inr b"
  shows "1 \<le> length b \<and> int (length b) \<le> MaxBytes l
    \<and> (wf_value w \<longrightarrow> EncodeWithLimits w l = Inr (b @ c) \<longrightarrow> c = [])"
proof -
  from assms(2) have e: "encode [] v l 1 = Inr b" by (simp add: EncodeWithLimits_ok)
  then have "b \<noteq> []" using clarity.enc_dec [OF assms(1) e] by auto
  with encode_ok(3) [OF e] clarity.enc_prefix_free [OF assms(1) _ e, of w c] show ?thesis
    by (auto simp: EncodeWithLimits_ok Suc_le_eq)
qed

lemma clarity_encode_bounded_prefix_free_sample:
  "1 \<le> length sample_bytes \<and> int (length sample_bytes) \<le> 32
    \<and> EncodeWithLimits (tag_value T_None) \<lparr>MaxBytes = 32, MaxDepth = 3\<rparr> \<noteq> Inr (sample_bytes @ [0])"
proof -
  have "wf_value sample_tuple" "wf_value (tag_value T_None)" by code_simp+
  from clarity_encode_bounded_prefix_free [OF this(1) sample_tuple_encodes, of "tag_value T_None" "[0]"] this(2)
  show ?thesis by auto
qed

end
