(* ===== verification/Transaction.thy ===== *)
theory Transaction
  imports Clarity_Decode
begin

text \<open>
  Model of \<open>libs/stacks/transaction\<close>: construction and signing of single-signature transactions.
  \<open>sign\<close> follows the code: it serializes the transaction with an empty signature and zero nonce and
  fee, hashes it, signs the digest over the hash, fee and nonce, and then writes signature, nonce
  and fee into the buffer in place. The lemmas show the resulting layout and that the signed bytes
  determine everything the caller asked for.
\<close>

section \<open>Transactions\<close>

abbreviation Mainnet :: byte where "Mainnet \<equiv> 0"
abbreviation Testnet :: byte where "Testnet \<equiv> 0x80"
abbreviation Allow :: byte where "Allow \<equiv> 1"
abbreviation Deny :: byte where "Deny \<equiv> 2"

record Options =
  Version :: byte
  ChainID :: u32
  Nonce :: u64
  Fee :: u64
  PostConditionMode :: byte
  PrivateKey :: string

record Transaction =
  TxBytes :: bytes
  TxID :: string

definition ID :: "bytes \<Rightarrow> string" where
  "ID raw = hex_encode (sha512_256 raw)"

definition Valid :: "Transaction \<Rightarrow> bool" where
  "Valid tx \<longleftrightarrow> length (TxBytes tx) > 0 \<and> length (TxBytes tx) \<le> 2 ^ 20 \<and> ID (TxBytes tx) = TxID tx"

definition appendName :: "bytes \<Rightarrow> string \<Rightarrow> bytes" where
  "appendName b s = b @ of_nat (length s) # str_bytes s"

text \<open>\<open>copy(b[off:], src)\<close> and \<open>PutUint64(b[off:], x)\<close> where the source fits.\<close>

definition put_at :: "nat \<Rightarrow> bytes \<Rightarrow> bytes \<Rightarrow> bytes" where
  "put_at off src b = take off b @ src @ drop (off + length src) b"

definition sign :: "('sk, 'pk) crypto \<Rightarrow> Options \<Rightarrow> bytes \<Rightarrow> Transaction result" where
  "sign C o' payload =
     (if Version o' \<noteq> Mainnet \<and> Version o' \<noteq> Testnet
         \<or> PostConditionMode o' \<noteq> Allow \<and> PostConditionMode o' \<noteq> Deny
      then Inl ''unsupported transaction options''
      else rbind (keys_Parse C (PrivateKey o')) (\<lambda>(key, compressed).
        let pub = (if compressed then serialize_compressed C (pub_key C key)
                   else serialize_uncompressed C (pub_key C key));
            encoding = (if compressed then 0 else 1);
            b0 = [Version o'] @ be_bytes 4 (unat (ChainID o')) @ [4, 0] @ ripemd160 C (sha256 pub)
                 @ replicate 16 0 @ [encoding];
            signatureOffset = length b0;
            b = b0 @ replicate 65 0 @ [3, PostConditionMode o', 0, 0, 0, 0] @ payload
        in if length b > 2 ^ 20 then Inl ''transaction too large''
           else let initial = sha512_256 b;
                    pre = initial @ [4] @ be_bytes 8 (unat (Fee o')) @ be_bytes 8 (unat (Nonce o'));
                    digest = sha512_256 pre;
                    sig = keys_Sign C key digest;
                    b1 = put_at signatureOffset sig b;
                    b2 = put_at 27 (be_bytes 8 (unat (Nonce o'))) b1;
                    b3 = put_at 35 (be_bytes 8 (unat (Fee o'))) b2
                in Inr \<lparr>TxBytes = b3, TxID = ID b3\<rparr>))"

definition Transfer ::
  "('sk, 'pk) crypto \<Rightarrow> Options \<Rightarrow> string \<Rightarrow> u64 \<Rightarrow> string \<Rightarrow> Transaction result" where
  "Transfer C o' recipient amount memo =
     rbind (Principal recipient) (\<lambda>p.
       rbind (Encode p) (\<lambda>b.
         if length memo > 34 \<or> \<not> utf8_valid (str_bytes memo) then Inl ''invalid transfer memo''
         else sign C o' ([0] @ b @ be_bytes 8 (unat amount) @ copy_into 34 (str_bytes memo))))"

fun append_args :: "bytes \<Rightarrow> Value list \<Rightarrow> bytes result" where
  "append_args payload [] = Inr payload"
| "append_args payload (arg # args) =
     rbind (Encode arg) (\<lambda>raw.
       if length payload + length raw > 2 ^ 20 then Inl ''transaction too large''
       else append_args (payload @ raw) args)"

definition Call ::
  "('sk, 'pk) crypto \<Rightarrow> Options \<Rightarrow> string \<Rightarrow> string \<Rightarrow> string \<Rightarrow> Value list \<Rightarrow> Transaction result" where
  "Call C o' address contract function args =
     rbind (DecodeAddress address) (\<lambda>(version, hash).
       if \<not> ValidContractName contract \<or> \<not> ValidName function \<or> length args > 1024
       then Inl ''invalid contract call''
       else rbind
         (append_args
           (appendName (appendName ([2, version] @ hash) contract) function @ be_bytes 4 (length args))
           args)
         (\<lambda>payload. sign C o' payload))"

definition Deploy ::
  "('sk, 'pk) crypto \<Rightarrow> Options \<Rightarrow> string \<Rightarrow> string \<Rightarrow> byte \<Rightarrow> Transaction result" where
  "Deploy C o' name source version =
     (if \<not> ValidContractName name \<or> version < 1 \<or> version > 6 \<or> length source = 0
         \<or> length source > 131072
      then Inl ''invalid contract publication''
      else if \<not> list_all (\<lambda>c. c \<le> 127) (str_bytes source) then Inl ''contract source must be ASCII''
      else sign C o' (appendName [6, version] name @ be_bytes 4 (length source) @ str_bytes source))"

section \<open>Layout of signed bytes\<close>

text \<open>What the third-party packages promise: RIPEMD-160 digests have 20 bytes.\<close>

definition hash_sizes :: "('sk, 'pk) crypto \<Rightarrow> bool" where
  "hash_sizes C \<longleftrightarrow> (\<forall>b. length (ripemd160 C b) = 20)"

definition tx_layout :: "Options \<Rightarrow> bytes \<Rightarrow> byte \<Rightarrow> bytes \<Rightarrow> bytes \<Rightarrow> bytes" where
  "tx_layout o' signer encoding sig payload =
     [Version o'] @ be_bytes 4 (unat (ChainID o')) @ [4, 0] @ signer
     @ be_bytes 8 (unat (Nonce o')) @ be_bytes 8 (unat (Fee o')) @ [encoding] @ sig
     @ [3, PostConditionMode o', 0, 0, 0, 0] @ payload"

lemma length_copy_into [simp]: "length (copy_into n b) = n"
  by (simp add: copy_into_def)

lemma length_keys_Sign [simp]: "length (keys_Sign C k d) = 65"
  by (simp add: keys_Sign_def Let_def)

lemma put_at_append: "off = length a \<Longrightarrow> length src = length c \<Longrightarrow> put_at off src (a @ c @ d) = a @ src @ d"
  by (simp add: put_at_def)

lemma sign_layout:
  assumes sizes: "hash_sizes C" and ok: "sign C o' payload = Inr tx"
  obtains key compressed signer sig where
    "keys_Parse C (PrivateKey o') = Inr (key, compressed)"
    and "signer = ripemd160 C (sha256 (if compressed then serialize_compressed C (pub_key C key)
                   else serialize_uncompressed C (pub_key C key)))"
    and "length signer = 20" and "length sig = 65"
    and "TxBytes tx = tx_layout o' signer (if compressed then 0 else 1) sig payload"
    and "TxID tx = ID (TxBytes tx)" and "length payload + 115 \<le> 2 ^ 20"
proof -
  from ok obtain key compressed where parse: "keys_Parse C (PrivateKey o') = Inr (key, compressed)"
    by (auto simp: sign_def result_simps split: if_splits)
  define signer where "signer = ripemd160 C (sha256 (if compressed then serialize_compressed C (pub_key C key)
                   else serialize_uncompressed C (pub_key C key)))"
  define head where "head = [Version o'] @ be_bytes 4 (unat (ChainID o')) @ [4, 0] @ signer"
  define enc where "enc = (if compressed then 0 else 1 :: byte)"
  define tail where "tail = [3, PostConditionMode o', 0, 0, 0, 0] @ payload"
  define b where "b = head @ replicate 16 0 @ [enc] @ replicate 65 0 @ tail"
  define sig where "sig = keys_Sign C key (sha512_256 (sha512_256 b @ [4] @ be_bytes 8 (unat (Fee o'))
                          @ be_bytes 8 (unat (Nonce o'))))"
  have signer20: "length signer = 20" using sizes by (simp add: signer_def hash_sizes_def)
  then have head27: "length head = 27" by (simp add: head_def)
  have sig65: "length sig = 65" by (simp add: sig_def)
  have steps: "put_at 35 (be_bytes 8 (unat (Fee o'))) (put_at 27 (be_bytes 8 (unat (Nonce o')))
      (put_at 44 sig b)) = head @ be_bytes 8 (unat (Nonce o')) @ be_bytes 8 (unat (Fee o')) @ [enc] @ sig @ tail"
  proof -
    have "put_at 44 sig b = (head @ replicate 16 0 @ [enc]) @ sig @ tail"
      using put_at_append [of 44 "head @ replicate 16 0 @ [enc]" sig "replicate 65 0" tail] head27 sig65
      by (simp add: b_def)
    moreover have "replicate 16 (0::byte) = replicate 8 0 @ replicate 8 0"
      by (simp flip: replicate_add)
    ultimately show ?thesis
      using head27 put_at_append [of 27 head "be_bytes 8 (unat (Nonce o'))" "replicate 8 0"]
        put_at_append [of 35 "head @ be_bytes 8 (unat (Nonce o'))" "be_bytes 8 (unat (Fee o'))" "replicate 8 0"]
      by simp
  qed
  have off: "length (head @ replicate 16 0 @ [enc]) = 44" using head27 by simp
  have tx: "tx = \<lparr>TxBytes = tx_layout o' signer enc sig payload,
      TxID = ID (tx_layout o' signer enc sig payload)\<rparr> \<and> length payload + 115 \<le> 2 ^ 20"
    using ok parse steps off head27
    unfolding sign_def Let_def signer_def [symmetric] enc_def [symmetric]
    by (simp add: tx_layout_def head_def b_def sig_def tail_def signer_def [symmetric] enc_def [symmetric]
        split: if_splits)
  show thesis
    by (rule that [OF parse signer_def signer20 sig65]) (use tx in \<open>auto simp: enc_def\<close>)
qed

section \<open>Signed bytes determine the transaction\<close>

lemma be_u32_eq_iff [simp]: "be_bytes 4 (unat a) = be_bytes 4 (unat b) \<longleftrightarrow> a = (b :: u32)"
  and be_u64_eq_iff [simp]: "be_bytes 8 (unat c) = be_bytes 8 (unat d) \<longleftrightarrow> c = (d :: u64)"
  using unsigned_less [of a, where ?'a = nat] unsigned_less [of b, where ?'a = nat]
    unsigned_less [of c, where ?'a = nat] unsigned_less [of d, where ?'a = nat]
  by (simp_all add: be_bytes_inj word_unat_eq_iff)

lemma tx_layout_inj:
  assumes "length s = 20" and "length s' = 20" and "length g = 65" and "length g' = 65"
    and "tx_layout o1 s e g p = tx_layout o2 s' e' g' p'"
  shows "Version o1 = Version o2 \<and> ChainID o1 = ChainID o2 \<and> Nonce o1 = Nonce o2 \<and> Fee o1 = Fee o2
    \<and> PostConditionMode o1 = PostConditionMode o2 \<and> s = s' \<and> p = p'"
  using assms by (simp add: tx_layout_def)

definition same_terms :: "Options \<Rightarrow> Options \<Rightarrow> bool" where
  "same_terms o1 o2 \<longleftrightarrow> Version o1 = Version o2 \<and> ChainID o1 = ChainID o2 \<and> Nonce o1 = Nonce o2
     \<and> Fee o1 = Fee o2 \<and> PostConditionMode o1 = PostConditionMode o2"

lemma sign_determines:
  assumes "hash_sizes C" and "sign C o1 p = Inr tx" and "sign C o2 p' = Inr tx'"
    and "TxBytes tx = TxBytes tx'"
  shows "same_terms o1 o2 \<and> p = p'"
proof -
  obtain s g e where 1: "length s = 20" "length g = 65" "TxBytes tx = tx_layout o1 s e g p"
    using sign_layout [OF assms(1,2)] by metis
  obtain s' g' e' where 2: "length s' = 20" "length g' = 65" "TxBytes tx' = tx_layout o2 s' e' g' p'"
    using sign_layout [OF assms(1,3)] by metis
  show ?thesis
    using tx_layout_inj [OF 1(1) 2(1) 1(2) 2(2)] 1(3) 2(3) assms(4) unfolding same_terms_def by metis
qed

lemma Principal_ok:
  assumes "Principal s = Inr p"
  obtains t b where "p = text_value t s" and "Encode p = Inr b" and "text_tag t"
  using assms by (auto simp: Principal_def Let_def result_simps split: if_splits)

lemma Encode_text_inj:
  assumes "Encode (text_value t s) = Inr b" and "Encode (text_value t' s') = Inr b"
    and "text_tag t" and "text_tag t'"
  shows "s = s'"
proof -
  have wf: "wf_value (text_value t s)" "wf_value (text_value t' s')"
    using assms(3,4) by (auto simp: text_value_def)
  have "canon (text_value t s) = canon (text_value t' s')"
    using clarity.enc_inj [OF wf, of DefaultLimits 1 b] assms(1,2) by (simp add: Encode_def EncodeWithLimits_ok)
  then show ?thesis using assms(3,4) by (auto simp: text_value_def)
qed

lemma Transfer_ok:
  assumes "Transfer C o' recipient amount memo = Inr tx"
  obtains t b where "text_tag t" and "Encode (text_value t recipient) = Inr b"
    and "sign C o' ([0] @ b @ be_bytes 8 (unat amount) @ copy_into 34 (str_bytes memo)) = Inr tx"
    and "length memo \<le> 34"
  using assms
  by (auto simp: Transfer_def result_simps not_less split: if_splits elim!: Principal_ok)

lemma Transfer_Valid:
  assumes "hash_sizes C" "Transfer C o' recipient amount memo = Inr tx"
  shows "Valid tx"
  using assms(2)
proof (rule Transfer_ok)
  fix t b
  assume "sign C o' ([0] @ b @ be_bytes 8 (unat amount) @ copy_into 34 (str_bytes memo)) = Inr tx"
  with assms(1) show "Valid tx" by (rule sign_layout) (auto simp: Valid_def tx_layout_def)
qed

lemma Transfer_determines:
  assumes "hash_sizes C"
    and "Transfer C o1 r a m = Inr tx" and "Transfer C o2 r' a' m' = Inr tx'"
    and "TxBytes tx = TxBytes tx'"
  shows "same_terms o1 o2 \<and> r = r' \<and> a = a'"
proof -
  obtain t b where 1: "text_tag t" "Encode (text_value t r) = Inr b"
    "sign C o1 ([0] @ b @ be_bytes 8 (unat a) @ copy_into 34 (str_bytes m)) = Inr tx"
    using assms(2) by (rule Transfer_ok)
  obtain t' b' where 2: "text_tag t'" "Encode (text_value t' r') = Inr b'"
    "sign C o2 ([0] @ b' @ be_bytes 8 (unat a') @ copy_into 34 (str_bytes m')) = Inr tx'"
    using assms(3) by (rule Transfer_ok)
  from sign_determines [OF assms(1) 1(3) 2(3) assms(4)] have terms: "same_terms o1 o2"
    and payload: "b @ be_bytes 8 (unat a) @ copy_into 34 (str_bytes m)
      = b' @ be_bytes 8 (unat a') @ copy_into 34 (str_bytes m')" by simp_all
  from arg_cong [OF payload, of length] have "length b = length b'" by simp
  with payload have "b = b'" and "a = a'" by simp_all
  with 1 2 terms show ?thesis using Encode_text_inj by blast
qed

lemma appendName_inj:
  assumes "length s \<le> 128" and "length s' \<le> 128"
    and "(of_nat (length s) :: byte) # str_bytes s @ r = of_nat (length s') # str_bytes s' @ r'"
  shows "s = s'" and "r = r'"
proof -
  have "unat (of_nat (length s) :: byte) = unat (of_nat (length s') :: byte)" using assms(3) by simp
  then have "length s = length s'" using assms(1,2) by (simp add: unat_of_nat)
  with assms(3) show "s = s'" and "r = r'" by auto
qed

lemma append_args_ok:
  assumes "append_args payload args = Inr out"
  shows "\<exists>raws. out = payload @ concat raws \<and> list_all2 (\<lambda>v b. Encode v = Inr b) args raws"
  using assms
proof (induction args arbitrary: payload)
  case Nil
  then show ?case by auto
next
  case (Cons v args)
  then obtain raw where raw: "Encode v = Inr raw" "append_args (payload @ raw) args = Inr out"
    by (auto simp: result_simps split: if_splits)
  from Cons.IH [OF this(2)] obtain raws where
    "out = (payload @ raw) @ concat raws" "list_all2 (\<lambda>v b. Encode v = Inr b) args raws" by blast
  with raw show ?case by (intro exI [of _ "raw # raws"]) simp
qed

lemma Call_ok:
  assumes "Call C o' address contract function args = Inr tx"
  obtains version hash raws where "DecodeAddress address = Inr (version, hash)"
    and "length contract \<le> 128" and "length function \<le> 128" and "length args < 2 ^ 32"
    and "list_all2 (\<lambda>v b. Encode v = Inr b) args raws"
    and "sign C o' ([2, version] @ hash @ of_nat (length contract) # str_bytes contract
           @ of_nat (length function) # str_bytes function @ be_bytes 4 (length args) @ concat raws) = Inr tx"
proof -
  from assms obtain version hash payload where d: "DecodeAddress address = Inr (version, hash)"
    and v: "ValidContractName contract" "ValidName function" "length args \<le> 1024"
    and p: "append_args (appendName (appendName ([2, version] @ hash) contract) function
              @ be_bytes 4 (length args)) args = Inr payload"
    and s: "sign C o' payload = Inr tx"
    by (auto simp: Call_def result_simps not_less split: if_splits)
  from append_args_ok [OF p] obtain raws where
    "payload = (appendName (appendName ([2, version] @ hash) contract) function @ be_bytes 4 (length args)) @ concat raws"
    and l: "list_all2 (\<lambda>v b. Encode v = Inr b) args raws" by blast
  with s v show thesis
    by (intro that [OF d _ _ _ l]) (auto simp: appendName_def ValidContractName_def ValidName_def)
qed

lemma Call_determines:
  assumes "hash_sizes C" and wf: "list_all wf_value args" "list_all wf_value args'"
    and "Call C o1 a c f args = Inr tx" and "Call C o2 a' c' f' args' = Inr tx'"
    and "TxBytes tx = TxBytes tx'"
  shows "same_terms o1 o2 \<and> a = a' \<and> c = c' \<and> f = f' \<and> map canon args = map canon args'"
proof -
  obtain v h raws where 1: "DecodeAddress a = Inr (v, h)" "length c \<le> 128" "length f \<le> 128"
    "length args < 2 ^ 32" "list_all2 (\<lambda>v b. Encode v = Inr b) args raws"
    "sign C o1 ([2, v] @ h @ of_nat (length c) # str_bytes c @ of_nat (length f) # str_bytes f
       @ be_bytes 4 (length args) @ concat raws) = Inr tx"
    using assms(4) by (rule Call_ok)
  obtain v' h' raws' where 2: "DecodeAddress a' = Inr (v', h')" "length c' \<le> 128" "length f' \<le> 128"
    "length args' < 2 ^ 32" "list_all2 (\<lambda>v b. Encode v = Inr b) args' raws'"
    "sign C o2 ([2, v'] @ h' @ of_nat (length c') # str_bytes c' @ of_nat (length f') # str_bytes f'
       @ be_bytes 4 (length args') @ concat raws') = Inr tx'"
    using assms(5) by (rule Call_ok)
  note can = DecodeAddress_canonical [OF 1(1)] and can' = DecodeAddress_canonical [OF 2(1)]
  from sign_determines [OF assms(1) 1(6) 2(6) assms(6)] have terms: "same_terms o1 o2" and "v = v'"
    and rest: "h @ of_nat (length c) # str_bytes c @ of_nat (length f) # str_bytes f
       @ be_bytes 4 (length args) @ concat raws
      = h' @ of_nat (length c') # str_bytes c' @ of_nat (length f') # str_bytes f'
       @ be_bytes 4 (length args') @ concat raws'" by simp_all
  have "h = h'" using rest can(3) can'(3) by simp
  with \<open>v = v'\<close> can(1) can'(1) have "a = a'" by simp
  from rest \<open>h = h'\<close> have r1: "of_nat (length c) # str_bytes c @ of_nat (length f) # str_bytes f
       @ be_bytes 4 (length args) @ concat raws
      = (of_nat (length c') :: byte) # str_bytes c' @ of_nat (length f') # str_bytes f'
       @ be_bytes 4 (length args') @ concat raws'" by simp
  note cc = appendName_inj [OF 1(2) 2(2) r1]
  note ff = appendName_inj [OF 1(3) 2(3) cc(2)]
  have "be_bytes 4 (length args) = be_bytes 4 (length args')" and args: "concat raws = concat raws'"
    using ff(2) by simp_all
  then have len: "length args = length args'" using 1(4) 2(4) by (simp add: be_bytes_inj)
  have enc: "list_all2 (\<lambda>v b. wf_value v \<and> encode [] v DefaultLimits 1 = Inr b) xs bs"
    if "list_all wf_value xs" "list_all2 (\<lambda>v b. Encode v = Inr b) xs bs" for xs bs
    using that(2,1) by (induction rule: list_all2_induct) (auto simp: Encode_def EncodeWithLimits_ok)
  have "map canon args = map canon args'"
    using clarity.concat_inj [OF enc [OF wf(1) 1(5)] enc [OF wf(2) 2(5)] len args] .
  with terms \<open>a = a'\<close> cc(1) ff(1) show ?thesis by simp
qed


section \<open>Properties\<close>

text \<open>C28: A transaction that \<open>sign\<close> returns has the consensus layout, with the requested nonce at byte
  27 and fee at byte 35, the payload unchanged at byte 115, the signer's HASH160, and an identifier that
  \<open>Valid\<close> accepts; it never exceeds one MiB. (RIPEMD-160 digests are assumed to have 20 bytes.)\<close>

theorem signed_transaction_layout:
  assumes "hash_sizes C" and "sign C o' payload = Inr tx"
  shows "Valid tx \<and> length (TxBytes tx) = 115 + length payload
    \<and> take 8 (drop 27 (TxBytes tx)) = be_bytes 8 (unat (Nonce o'))
    \<and> take 8 (drop 35 (TxBytes tx)) = be_bytes 8 (unat (Fee o'))
    \<and> drop 115 (TxBytes tx) = payload
    \<and> (\<exists>key compressed sig. keys_Parse C (PrivateKey o') = Inr (key, compressed) \<and>
        TxBytes tx = tx_layout o'
          (hash160 C (if compressed then serialize_compressed C (pub_key C key)
                      else serialize_uncompressed C (pub_key C key)))
          (if compressed then 0 else 1) sig payload)"
  using assms
proof (rule sign_layout)
  fix key compressed signer sig
  assume parse: "keys_Parse C (PrivateKey o') = Inr (key, compressed)"
    and signer: "signer = ripemd160 C (sha256 (if compressed then serialize_compressed C (pub_key C key)
                   else serialize_uncompressed C (pub_key C key)))"
    and len: "length signer = 20" "length sig = 65"
    and tx: "TxBytes tx = tx_layout o' signer (if compressed then 0 else 1) sig payload"
    and tail: "TxID tx = ID (TxBytes tx)" "length payload + 115 \<le> 2 ^ 20"
  have "\<exists>key compressed sig. keys_Parse C (PrivateKey o') = Inr (key, compressed) \<and>
        TxBytes tx = tx_layout o'
          (hash160 C (if compressed then serialize_compressed C (pub_key C key)
                      else serialize_uncompressed C (pub_key C key)))
          (if compressed then 0 else 1) sig payload"
    using parse tx signer unfolding hash160_def by metis
  with len tx tail show ?thesis by (simp add: Valid_def tx_layout_def)
qed

definition sample_options :: Options where
  "sample_options = \<lparr>Version = Testnet, ChainID = 0x80000000, Nonce = 7, Fee = 3000,
     PostConditionMode = Deny, PrivateKey = toy_key\<rparr>"

lemma hash_sizes_toy: "hash_sizes toy_crypto"
  by (simp add: hash_sizes_def toy_crypto_def)

lemma sign_sample: "length payload \<le> 1000 \<Longrightarrow> \<exists>tx. sign toy_crypto sample_options payload = Inr tx"
  using hash_sizes_toy
  by (simp add: sign_def sample_options_def keys_Parse_toy_key Let_def hash_sizes_def)

theorem signed_transaction_layout_witness:
  "\<exists>tx. sign toy_crypto sample_options [1, 2, 3] = Inr tx \<and> Valid tx
     \<and> length (TxBytes tx) = 118 \<and> take 8 (drop 27 (TxBytes tx)) = [0, 0, 0, 0, 0, 0, 0, 7]
     \<and> take 8 (drop 35 (TxBytes tx)) = [0, 0, 0, 0, 0, 0, 11, 184] \<and> drop 115 (TxBytes tx) = [1, 2, 3]"
proof -
  obtain tx where tx: "sign toy_crypto sample_options [1, 2, 3] = Inr tx"
    using sign_sample [of "[1, 2, 3]"] by auto
  have "be_bytes 8 (unat (7 :: u64)) = [0, 0, 0, 0, 0, 0, 0, 7]"
    and "be_bytes 8 (unat (3000 :: u64)) = [0, 0, 0, 0, 0, 0, 11, 184]" by code_simp+
  with tx signed_transaction_layout [OF hash_sizes_toy tx] show ?thesis
    by (auto simp: sample_options_def)
qed

text \<open>The signed bytes of an STX transfer determine what was authorized: two transfers with equal
  bytes have the same version, chain, nonce, fee and post-condition mode, the same recipient text and
  the same amount.\<close>

lemma transfer_bytes_determine:
  assumes "hash_sizes C"
    and "Transfer C o1 r a m = Inr tx" and "Transfer C o2 r' a' m' = Inr tx'"
    and "TxBytes tx = TxBytes tx'"
  shows "same_terms o1 o2 \<and> r = r' \<and> a = a'"
  using assms by (rule Transfer_determines)

definition sample_address :: string where
  "sample_address = projr (EncodeAddress 26 (replicate 20 0))"

lemma DecodeAddress_sample: "DecodeAddress sample_address = Inr (26, replicate 20 0)"
  and sample_address_no_dot: "CHR ''.'' \<notin> set sample_address"
proof -
  obtain a where a: "EncodeAddress 26 (replicate 20 0) = Inr a"
    using EncodeAddress_total [of 26 "replicate 20 0"] by auto
  then have "sample_address = a" by (simp add: sample_address_def)
  with a show "DecodeAddress sample_address = Inr (26, replicate 20 0)"
    and "CHR ''.'' \<notin> set sample_address"
    using DecodeAddress_EncodeAddress_ok [OF _ _ a] EncodeAddress_no_dot [OF a] by simp_all
qed

lemma Encode_sample_address:
  "Encode (text_value T_StandardPrincipal sample_address) = Inr (5 # 26 # replicate 20 0)"
  by (simp add: Encode_def EncodeWithLimits_def DefaultLimits_def text_value_def encode_tag
      encode_principal_def DecodeAddress_sample sample_address_no_dot)

lemma Transfer_sample: "\<exists>tx. Transfer toy_crypto sample_options sample_address 5 [] = Inr tx"
  by (simp add: Transfer_def Principal_def Encode_sample_address sample_address_no_dot str_bytes_def sign_sample)

lemma transfer_bytes_determine_sample:
  "\<exists>tx. Transfer toy_crypto sample_options sample_address 5 [] = Inr tx
     \<and> (\<forall>tx'. Transfer toy_crypto (sample_options\<lparr>Nonce := 8\<rparr>) sample_address 5 [] = Inr tx' \<longrightarrow>
           TxBytes tx \<noteq> TxBytes tx')"
proof -
  obtain tx where tx: "Transfer toy_crypto sample_options sample_address 5 [] = Inr tx"
    using Transfer_sample by blast
  with transfer_bytes_determine [OF hash_sizes_toy tx, of "sample_options\<lparr>Nonce := 8\<rparr>" sample_address 5 "[]"]
  show ?thesis by (auto simp: same_terms_def sample_options_def)
qed

text \<open>The signed bytes of a contract call determine the called contract, the function and the
  arguments: two calls with equal bytes agree on the terms, the address, both names and, up to the
  canonical form of each value, on the argument list.\<close>

lemma call_bytes_determine:
  assumes "hash_sizes C" and "list_all wf_value args" and "list_all wf_value args'"
    and "Call C o1 a c f args = Inr tx" and "Call C o2 a' c' f' args' = Inr tx'"
    and "TxBytes tx = TxBytes tx'"
  shows "same_terms o1 o2 \<and> a = a' \<and> c = c' \<and> f = f' \<and> map canon args = map canon args'"
  using assms by (rule Call_determines)

lemma Encode_sample_uint: "Encode (Uint 1) = Inr (1 # replicate 15 0 @ [1])"
  by code_simp

lemma Call_sample: "\<exists>tx. Call toy_crypto sample_options sample_address ''pox-4'' ''stack-stx'' [Uint 1] = Inr tx"
proof -
  have "ValidContractName ''pox-4''" "ValidName ''stack-stx''" by code_simp+
  then show ?thesis
    by (simp add: Call_def DecodeAddress_sample Encode_sample_uint appendName_def sign_sample)
qed

lemma call_bytes_determine_sample:
  "\<exists>tx. Call toy_crypto sample_options sample_address ''pox-4'' ''stack-stx'' [Uint 1] = Inr tx
     \<and> (\<forall>tx'. Call toy_crypto sample_options sample_address ''pox-4'' ''stack-stx'' [Uint 2] = Inr tx' \<longrightarrow>
           TxBytes tx \<noteq> TxBytes tx')"
proof -
  obtain tx where tx: "Call toy_crypto sample_options sample_address ''pox-4'' ''stack-stx'' [Uint 1] = Inr tx"
    using Call_sample by blast
  have wf: "list_all wf_value [Uint 1]" "list_all wf_value [Uint 2]" by code_simp+
  have "map canon [Uint 1] \<noteq> map canon [Uint 2]" by code_simp
  with tx call_bytes_determine [OF hash_sizes_toy wf tx] show ?thesis by blast
qed

end
