(* ===== verification/Signing.thy ===== *)
theory Signing
  imports Transaction
begin

text \<open>
  Model of \<open>libs/stacks/signing\<close>: SIP-018 structured messages, the PoX-4 and PoX-5 signer
  authorizations and the argument lists of the PoX-4 calls that carry them.
\<close>

section \<open>Structured data (structured.go)\<close>

definition domain_requires :: "(string \<times> byte) list" where
  "domain_requires = [(''name'', T_ASCII), (''version'', T_ASCII), (''chain-id'', T_UInt)]"

definition domain_field_ok :: "Value \<Rightarrow> string \<times> byte \<Rightarrow> bool" where
  "domain_field_ok domain kt =
     (case map_of (Fields domain) (fst kt) of None \<Rightarrow> False | Some v \<Rightarrow> Type v = snd kt)"

text \<open>The bytes hashed by \<open>StructuredDigest\<close>; the digest is their SHA-256.\<close>

definition structured_preimage :: "bytes \<Rightarrow> bytes \<Rightarrow> bytes" where
  "structured_preimage d m = str_bytes ''SIP018'' @ sha256 d @ sha256 m"

definition StructuredDigest :: "Value \<Rightarrow> Value \<Rightarrow> bytes result" where
  "StructuredDigest domain message =
     (if Type domain \<noteq> T_Tuple then Inl ''SIP-018 domain must be a tuple''
      else if \<not> list_all (domain_field_ok domain) domain_requires then Inl ''invalid SIP-018 domain''
      else rbind (Encode domain) (\<lambda>d.
        rbind (Encode message) (\<lambda>m. Inr (sha256 (structured_preimage d m)))))"

definition Structured :: "('sk, 'pk) crypto \<Rightarrow> string \<Rightarrow> Value \<Rightarrow> Value \<Rightarrow> bytes result" where
  "Structured C privateKey domain message =
     rbind (StructuredDigest domain message) (\<lambda>digest.
       rbind (keys_Parse C privateKey) (\<lambda>(key, _).
         let vrs = keys_Sign C key digest in Inr (take 64 (drop 1 vrs) @ [vrs ! 0])))"

definition Domain :: "string \<Rightarrow> string \<Rightarrow> u32 \<Rightarrow> Value" where
  "Domain name version chainID =
     tuple_value [(''name'', text_value T_ASCII name), (''version'', text_value T_ASCII version),
       (''chain-id'', Uint (ucast chainID))]"

record PoXAddress =
  PoXVersion :: byte
  HashBytes :: bytes

definition PoXAddress_Value :: "PoXAddress \<Rightarrow> Value result" where
  "PoXAddress_Value a =
     (let len = (if PoXVersion a \<ge> 5 then 32 else 20) in
      if PoXVersion a > 6 \<or> length (HashBytes a) \<noteq> len then Inl ''unsupported PoX reward address''
      else Inr (tuple_value [(''version'', bytes_value T_Buffer [PoXVersion a]),
                  (''hashbytes'', bytes_value T_Buffer (HashBytes a))]))"

record PoXAuthorization =
  AuthAddress :: PoXAddress
  RewardCycle :: u64
  Topic :: string
  Period :: u64
  MaxAmount :: Value
  AuthID :: Value
  AuthChainID :: u32

definition PoX_topics :: "string list" where
  "PoX_topics = [''stack-stx'', ''stack-extend'', ''stack-increase'', ''agg-commit'', ''agg-increase'']"

definition pox_message :: "PoXAuthorization \<Rightarrow> Value \<Rightarrow> Value" where
  "pox_message a address =
     tuple_value [(''pox-addr'', address), (''reward-cycle'', Uint (RewardCycle a)),
       (''topic'', text_value T_ASCII (Topic a)), (''period'', Uint (Period a)),
       (''max-amount'', MaxAmount a), (''auth-id'', AuthID a)]"

definition PoX :: "('sk, 'pk) crypto \<Rightarrow> string \<Rightarrow> PoXAuthorization \<Rightarrow> bytes result" where
  "PoX C privateKey a =
     (if Topic a \<notin> set PoX_topics then Inl ''unsupported PoX topic''
      else if Type (MaxAmount a) \<noteq> T_UInt \<or> Type (AuthID a) \<noteq> T_UInt
      then Inl ''PoX amounts require uint128''
      else rbind (PoXAddress_Value (AuthAddress a)) (\<lambda>address.
        Structured C privateKey (Domain ''pox-4-signer'' ''1.0.0'' (AuthChainID a))
          (pox_message a address)))"

definition grant_message :: "Value \<Rightarrow> Value \<Rightarrow> Value" where
  "grant_message manager authID =
     tuple_value [(''signer-manager'', manager),
       (''topic'', text_value T_ASCII ''grant-authorization''), (''auth-id'', authID)]"

definition SignerGrant ::
  "('sk, 'pk) crypto \<Rightarrow> string \<Rightarrow> string \<Rightarrow> Value \<Rightarrow> u32 \<Rightarrow> bytes result" where
  "SignerGrant C privateKey manager authID chainID =
     rbind (Principal manager) (\<lambda>p.
       if Type authID \<noteq> T_UInt then Inl ''grant auth ID requires uint128''
       else Structured C privateKey (Domain ''pox-5-signer'' ''1.0.0'' chainID)
              (grant_message p authID))"

section \<open>PoX-4 call arguments (pox.go)\<close>

record SignerArguments =
  Signature :: "bytes option"
  SignerPublicKey :: string
  SignerMaxAmount :: Value
  SignerAuthID :: Value

definition signer_values :: "('sk, 'pk) crypto \<Rightarrow> SignerArguments \<Rightarrow> Value list result" where
  "signer_values C s =
     rbind (FromPublic C (SignerPublicKey s)) (\<lambda>_.
       if Type (SignerMaxAmount s) \<noteq> T_UInt \<or> Type (SignerAuthID s) \<noteq> T_UInt
       then Inl ''PoX signer amounts require uint128''
       else rbind (Encode (SignerMaxAmount s)) (\<lambda>_. rbind (Encode (SignerAuthID s)) (\<lambda>_.
         rbind
           (case Signature s of
              None \<Rightarrow> Inr (tag_value T_None)
            | Some sig \<Rightarrow>
                if length sig \<noteq> 65 \<or> sig ! 64 > 3 then Inl ''invalid PoX RSV signature''
                else Inr (items_value T_Some [bytes_value T_Buffer sig]))
           (\<lambda>signature.
             rbind (hex_decode (SignerPublicKey s)) (\<lambda>public.
               Inr [signature, bytes_value T_Buffer public, SignerMaxAmount s, SignerAuthID s])))))"

definition StackSTXArguments ::
  "('sk, 'pk) crypto \<Rightarrow> Value \<Rightarrow> PoXAddress \<Rightarrow> u64 \<Rightarrow> u64 \<Rightarrow> SignerArguments \<Rightarrow> Value list result" where
  "StackSTXArguments C amount address burnHeight cycles signer =
     (if Type amount \<noteq> T_UInt then Inl ''stack amount requires uint128''
      else rbind (Encode amount) (\<lambda>_.
        rbind (PoXAddress_Value address) (\<lambda>pox.
          rbind (signer_values C signer) (\<lambda>suffix.
            Inr ([amount, pox, Uint burnHeight, Uint cycles] @ suffix)))))"

definition StackExtendArguments ::
  "('sk, 'pk) crypto \<Rightarrow> PoXAddress \<Rightarrow> u64 \<Rightarrow> SignerArguments \<Rightarrow> Value list result" where
  "StackExtendArguments C address cycles signer =
     rbind (PoXAddress_Value address) (\<lambda>pox.
       rbind (signer_values C signer) (\<lambda>suffix. Inr ([Uint cycles, pox] @ suffix)))"

section \<open>Encodability and injectivity\<close>

lemma Encode_uint:
  assumes "Type v = T_UInt" and "Integer v = Some n" and "0 \<le> n" and "n < 2 ^ 128"
  shows "Encode v = Inr (1 # be_bytes 16 (nat n))"
  using assms
  by (cases v) (simp add: Encode_def EncodeWithLimits_def DefaultLimits_def encode_tag encode_integer_def)

lemma Encode_Uint: "is_ok (Encode (Uint n))"
proof -
  have "uint n < 2 ^ 64" using unsigned_less [of n, where ?'a = int] by simp
  then have "uint n < 2 ^ 128" by simp
  then show ?thesis using Encode_uint [of "Uint n"] by (simp add: Uint_def int_value_def)
qed

lemma encode_buffer:
  assumes "int (length pre + 5 + length b) \<le> MaxBytes l" and "d \<le> MaxDepth l" and "length b < 2 ^ 32"
  shows "encode pre (bytes_value T_Buffer b) l d = Inr (pre @ T_Buffer # be_bytes 4 (length b) @ b)"
  using assms by (simp add: bytes_value_def encode_tag append_data_def)

lemma PoXAddress_Value_encodes:
  assumes "PoXAddress_Value a = Inr v"
  shows "is_ok (Encode v)"
proof -
  have names: "ValidName ''version''" "ValidName ''hashbytes''" by code_simp+
  have v: "v = tuple_value [(''version'', bytes_value T_Buffer [PoXVersion a]),
      (''hashbytes'', bytes_value T_Buffer (HashBytes a))]" and len: "length (HashBytes a) \<le> 32"
    using assms by (auto simp: PoXAddress_Value_def Let_def split: if_splits)
  have "sort_key fst [(''version'', x), (''hashbytes'', y)] = [(''hashbytes'', y), (''version'', x)]"
    for x y :: Value by simp
  then show ?thesis
    using len names
    by (simp add: v Encode_def EncodeWithLimits_def DefaultLimits_def tuple_value_def encode_tag encode_buffer)
qed


lemma Encode_wrapped_buffer: "length b \<le> 1000 \<Longrightarrow> is_ok (Encode (items_value T_Some [bytes_value T_Buffer b]))"
  and Encode_buffer: "length b \<le> 1000 \<Longrightarrow> is_ok (Encode (bytes_value T_Buffer b))"
  and Encode_none: "is_ok (Encode (tag_value T_None))"
  by (simp_all add: Encode_def EncodeWithLimits_def DefaultLimits_def items_value_def tag_value_def
      encode_tag encode_buffer)

lemma signer_values_ok:
  assumes "signer_values C s = Inr vs"
  shows "length vs = 4 \<and> list_all (\<lambda>v. is_ok (Encode v)) vs"
proof -
  from assms obtain signature public where vs:
      "vs = [signature, bytes_value T_Buffer public, SignerMaxAmount s, SignerAuthID s]"
    and sig: "signature = tag_value T_None \<or>
        (\<exists>b. length b = 65 \<and> signature = items_value T_Some [bytes_value T_Buffer b])"
    and public: "hex_decode (SignerPublicKey s) = Inr public" "is_ok (FromPublic C (SignerPublicKey s))"
    and amounts: "is_ok (Encode (SignerMaxAmount s))" "is_ok (Encode (SignerAuthID s))"
    by (cases "Signature s") (fastforce simp: signer_values_def result_simps split: if_splits)+
  have "length public = 33"
    using public by (auto simp: FromPublic_def split: if_splits option.splits)
  with sig amounts vs show ?thesis
    by (auto simp: Encode_none Encode_wrapped_buffer Encode_buffer)
qed

lemma pox_tuple_sorted:
  "sort_key fst [(''pox-addr'', a), (''reward-cycle'', b), (''topic'', c), (''period'', d),
       (''max-amount'', e), (''auth-id'', f)] =
     [(''auth-id'', f), (''max-amount'', e), (''period'', d), (''pox-addr'', a),
       (''reward-cycle'', b), (''topic'', c :: Value)]"
  by simp

lemma domain_tuple_sorted:
  "sort_key fst [(''name'', a), (''version'', b), (''chain-id'', c)] =
     [(''chain-id'', c), (''name'', a), (''version'', b :: Value)]"
  by simp

lemma canon_Uint [simp]: "canon (Uint n) = Uint n" and wf_Uint [simp]: "wf_value (Uint n)"
  by (simp_all add: Uint_def int_value_def)

lemma Uint_eq_iff [simp]: "Uint m = Uint n \<longleftrightarrow> m = n"
  by (simp add: Uint_def int_value_def word_uint_eq_iff)

lemma canon_pox_message:
  "canon (pox_message a v) = tuple_value
     [(''auth-id'', canon (AuthID a)), (''max-amount'', canon (MaxAmount a)), (''period'', Uint (Period a)),
      (''pox-addr'', canon v), (''reward-cycle'', Uint (RewardCycle a)), (''topic'', text_value T_ASCII (Topic a))]"
  by (simp add: pox_message_def tuple_value_def pox_tuple_sorted [simplified] text_value_def)

lemma canon_Domain:
  "canon (Domain n v c) = tuple_value
     [(''chain-id'', Uint (ucast c)), (''name'', text_value T_ASCII n), (''version'', text_value T_ASCII v)]"
  by (simp add: Domain_def tuple_value_def text_value_def)

lemma canon_PoXAddress:
  "PoXAddress_Value a = Inr v \<Longrightarrow> canon v = tuple_value
     [(''hashbytes'', bytes_value T_Buffer (HashBytes a)), (''version'', bytes_value T_Buffer [PoXVersion a])]"
  by (auto simp: PoXAddress_Value_def Let_def tuple_value_def bytes_value_def split: if_splits)

lemma wf_uint: "Type v = T_UInt \<Longrightarrow> wf_value v"
  by (cases v) simp

lemma canon_uint_eq: "Type v = T_UInt \<Longrightarrow> Type w = T_UInt \<Longrightarrow> canon v = canon w \<Longrightarrow> Integer v = Integer w"
  by (cases v; cases w) simp

lemma wf_pox_message:
  "PoXAddress_Value (AuthAddress a) = Inr v \<Longrightarrow> Type (MaxAmount a) = T_UInt \<Longrightarrow> Type (AuthID a) = T_UInt \<Longrightarrow>
     wf_value (pox_message a v)"
  by (auto simp: pox_message_def tuple_value_def text_value_def bytes_value_def wf_uint PoXAddress_Value_def
      Let_def split: if_splits)

lemma Encode_inj: "wf_value v \<Longrightarrow> wf_value w \<Longrightarrow> Encode v = Inr b \<Longrightarrow> Encode w = Inr b \<Longrightarrow> canon v = canon w"
  using clarity.enc_inj [of v w DefaultLimits 1 b] by (simp add: Encode_def EncodeWithLimits_ok)

section \<open>Properties\<close>

text \<open>The PoX-4 argument builders return complete argument lists in contract order (eight for
  \<open>stack-stx\<close>, six for \<open>stack-extend\<close>), and every argument of them can be serialized, so a call
  built from them cannot fail to encode.\<close>

lemma pox4_arguments_encodable:
  "(\<forall>args. StackSTXArguments C amount address burnHeight cycles signer = Inr args \<longrightarrow>
      length args = 8 \<and> take 4 args = [amount, args ! 1, Uint burnHeight, Uint cycles]
      \<and> PoXAddress_Value address = Inr (args ! 1) \<and> signer_values C signer = Inr (drop 4 args)
      \<and> list_all (\<lambda>v. is_ok (Encode v)) args)
   \<and> (\<forall>args. StackExtendArguments C address cycles signer = Inr args \<longrightarrow>
      length args = 6 \<and> args ! 0 = Uint cycles \<and> PoXAddress_Value address = Inr (args ! 1)
      \<and> signer_values C signer = Inr (drop 2 args) \<and> list_all (\<lambda>v. is_ok (Encode v)) args)"
  by (auto simp: StackSTXArguments_def StackExtendArguments_def result_simps Encode_Uint
      PoXAddress_Value_encodes numeral_eq_Suc split: if_splits dest: signer_values_ok)

definition sample_pox_address :: PoXAddress where
  "sample_pox_address = \<lparr>PoXVersion = 4, HashBytes = replicate 20 9\<rparr>"

definition sample_signer :: SignerArguments where
  "sample_signer = \<lparr>Signature = Some (replicate 65 1), SignerPublicKey = hex_encode (2 # replicate 32 7),
     SignerMaxAmount = Uint 10, SignerAuthID = Uint 11\<rparr>"

lemma sample_extend_ok: "is_ok (StackExtendArguments toy_crypto sample_pox_address 12 sample_signer)"
proof -
  have "is_ok (FromPublic toy_crypto (hex_encode (2 # replicate 32 7)))"
    by (simp add: FromPublic_def toy_crypto_def)
  then obtain k where "FromPublic toy_crypto (hex_encode (2 # replicate 32 7)) = Inr k" by (auto simp: is_ok_iff)
  moreover obtain b1 b2 where "Encode (Uint 10) = Inr b1" "Encode (Uint 11) = Inr b2"
    using Encode_Uint [of 10] Encode_Uint [of 11] by (auto simp: is_ok_iff)
  ultimately show ?thesis
    by (simp add: StackExtendArguments_def signer_values_def sample_signer_def sample_pox_address_def
        PoXAddress_Value_def Uint_def int_value_def Let_def nth_replicate)
qed

lemma pox4_arguments_encodable_sample:
  "\<exists>args. StackExtendArguments toy_crypto sample_pox_address 12 sample_signer = Inr args
     \<and> length args = 6 \<and> args ! 0 = Uint 12 \<and> list_all (\<lambda>v. is_ok (Encode v)) args"
proof -
  obtain args where "StackExtendArguments toy_crypto sample_pox_address 12 sample_signer = Inr args"
    using sample_extend_ok by (auto simp: is_ok_iff)
  with pox4_arguments_encodable [of toy_crypto _ sample_pox_address _ 12 sample_signer] show ?thesis by blast
qed

text \<open>The serialized message a PoX-4 signer authorizes determines the authorization: two
  authorizations with the same message bytes and the same domain bytes have the same reward address,
  reward cycle, topic, period, maximum amount, identifier and chain.\<close>

lemma pox4_authorization_bound:
  assumes "PoXAddress_Value (AuthAddress a) = Inr va" and "PoXAddress_Value (AuthAddress b) = Inr vb"
    and "Type (MaxAmount a) = T_UInt" and "Type (AuthID a) = T_UInt"
    and "Type (MaxAmount b) = T_UInt" and "Type (AuthID b) = T_UInt"
    and "Encode (pox_message a va) = Inr m" and "Encode (pox_message b vb) = Inr m"
    and "Encode (Domain ''pox-4-signer'' ''1.0.0'' (AuthChainID a)) = Inr d"
    and "Encode (Domain ''pox-4-signer'' ''1.0.0'' (AuthChainID b)) = Inr d"
  shows "AuthAddress a = AuthAddress b \<and> RewardCycle a = RewardCycle b \<and> Topic a = Topic b
    \<and> Period a = Period b \<and> Integer (MaxAmount a) = Integer (MaxAmount b)
    \<and> Integer (AuthID a) = Integer (AuthID b) \<and> AuthChainID a = AuthChainID b"
proof -
  have "canon (pox_message a va) = canon (pox_message b vb)"
    using Encode_inj [OF wf_pox_message wf_pox_message] assms by blast
  then have msg: "canon (AuthID a) = canon (AuthID b)" "canon (MaxAmount a) = canon (MaxAmount b)"
      "Period a = Period b" "canon va = canon vb" "RewardCycle a = RewardCycle b" "Topic a = Topic b"
    by (simp_all add: canon_pox_message tuple_value_def text_value_def)
  have "wf_value (Domain n v c)" for n v c by (simp add: Domain_def tuple_value_def text_value_def)
  moreover have "take_bit 64 (uint x) = uint x" for x :: u32
    using unsigned_less [of x, where ?'a = int] by (intro take_bit_int_eq_self) auto
  ultimately have "AuthChainID a = AuthChainID b"
    using Encode_inj [OF _ _ assms(9,10)]
    by (simp add: canon_Domain tuple_value_def word_uint_eq_iff unsigned_ucast_eq)
  moreover have "AuthAddress a = AuthAddress b"
    using msg(4) assms(1,2) by (simp add: canon_PoXAddress tuple_value_def bytes_value_def)
  ultimately show ?thesis using msg assms(3-6) canon_uint_eq by blast
qed


definition sample_authorization :: "bytes \<Rightarrow> PoXAuthorization" where
  "sample_authorization unused =
     \<lparr>AuthAddress = sample_pox_address, RewardCycle = 12, Topic = ''stack-stx'', Period = 3,
      MaxAmount = Value T_UInt (Some 1000) unused [] [] [], AuthID = Uint 4, AuthChainID = 0x80000000\<rparr>"

lemma pox4_authorization_bound_sample:
  "AuthAddress (sample_authorization []) = AuthAddress (sample_authorization [1])
    \<and> RewardCycle (sample_authorization []) = RewardCycle (sample_authorization [1])
    \<and> Integer (MaxAmount (sample_authorization [])) = Integer (MaxAmount (sample_authorization [1]))"
proof -
  obtain v where v: "PoXAddress_Value (AuthAddress (sample_authorization u)) = Inr v" for u
    by (simp add: sample_authorization_def sample_pox_address_def PoXAddress_Value_def Let_def)
  have t: "Type (MaxAmount (sample_authorization u)) = T_UInt" "Type (AuthID (sample_authorization u)) = T_UInt"
    for u by (simp_all add: sample_authorization_def Uint_def int_value_def)
  have same: "Encode (pox_message (sample_authorization []) (projr (PoXAddress_Value sample_pox_address)))
      = Encode (pox_message (sample_authorization [1]) (projr (PoXAddress_Value sample_pox_address)))"
    and ok: "is_ok (Encode (pox_message (sample_authorization []) (projr (PoXAddress_Value sample_pox_address))))"
    and dom: "is_ok (Encode (Domain ''pox-4-signer'' ''1.0.0'' 0x80000000))"
    by code_simp+
  have v': "projr (PoXAddress_Value sample_pox_address) = v"
    using v [of "[]"] by (simp add: sample_authorization_def)
  obtain m d where m: "Encode (pox_message (sample_authorization []) v) = Inr m"
      "Encode (pox_message (sample_authorization [1]) v) = Inr m"
    and d: "Encode (Domain ''pox-4-signer'' ''1.0.0'' (AuthChainID (sample_authorization u))) = Inr d" for u
    using same ok dom unfolding v' by (auto simp: is_ok_iff sample_authorization_def)
  show ?thesis
    using pox4_authorization_bound [OF v v t t m d d] by blast
qed

end
