(* ===== verification/Stacks_Rpc.thy ===== *)
theory Stacks_Rpc
  imports Signing
begin

text \<open>
  Model of \<open>libs/stacks/rpc\<close>: what the native Stacks client concludes from one bounded HTTP
  exchange. A definition takes the exchange as an argument: a transport error, or the status code
  with the result of unmarshalling the body into the wire struct of that call (\<open>None\<close> when
  \<open>json.Unmarshal\<close> fails; pointer fields are options). The validation, classification and
  conversion that follow are the code's.
\<close>

type_synonym 'w reply = "(nat \<times> 'w option) result"

section \<open>Primitive validation (client.go)\<close>

definition validHash :: "string \<Rightarrow> bool" where
  "validHash s =
     (case hex_decode s of Inl _ \<Rightarrow> False | Inr raw \<Rightarrow> length raw = 32 \<and> s = to_lower s)"

definition decodeCV :: "string \<Rightarrow> Value result" where
  "decodeCV s =
     (if \<not> has_prefix s ''0x'' \<or> length s > 2 + 2 * 2 ^ 20 then Inl ''invalid Clarity response''
      else case hex_decode (drop 2 s) of
        Inl _ \<Rightarrow> Inl ''invalid Clarity response''
      | Inr raw \<Rightarrow> Decode raw)"

definition hexUint128 :: "string \<Rightarrow> Value result" where
  "hexUint128 s =
     (if \<not> has_prefix s ''0x'' \<or> length s < 3 \<or> length s > 34 then Inl ''invalid uint128 balance''
      else if \<not> list_all (\<lambda>c. hex_value c \<noteq> None) (drop 2 s) then Inl ''invalid balance digit''
      else let raw = (if length (drop 2 s) mod 2 \<noteq> 0 then CHR ''0'' # drop 2 s else drop 2 s);
               decoded = projr (hex_decode raw)
           in Decode (T_UInt # replicate (16 - length decoded) 0 @ decoded))"

definition validateContract :: "string \<Rightarrow> string \<Rightarrow> string \<Rightarrow> unit result" where
  "validateContract address contract name =
     rbind (DecodeAddress address) (\<lambda>_.
       if \<not> ValidContractName contract \<or> \<not> ValidName name then Inl ''invalid contract path'' else Inr ())"

definition rpc_get :: "'w reply \<Rightarrow> 'w result" where
  "rpc_get r =
     rbind r (\<lambda>(code, wire).
       case wire of
         Some w \<Rightarrow> if code \<noteq> 200 then Inl ''native RPC observation unavailable'' else Inr w
       | None \<Rightarrow> Inl ''native RPC observation unavailable'')"

section \<open>Observations\<close>

record Info =
  NetworkID :: u32
  BurnHeight :: u64
  StacksHeight :: u64
  Tip :: string

record info_wire =
  w_network_id :: "u32 option"
  w_burn :: "u64 option"
  w_stacks :: "u64 option"
  w_tip :: string

definition rpc_Info :: "info_wire reply \<Rightarrow> Info result" where
  "rpc_Info r =
     rbind (rpc_get r) (\<lambda>w.
       case (w_network_id w, w_burn w, w_stacks w) of
         (Some n, Some b, Some h) \<Rightarrow>
           if \<not> validHash (w_tip w) then Inl ''incomplete chain identity''
           else Inr \<lparr>NetworkID = n, BurnHeight = b, StacksHeight = h, Tip = w_tip w\<rparr>
       | _ \<Rightarrow> Inl ''incomplete chain identity'')"

record Account =
  AccountNonce :: u64
  Balance :: Value
  Locked :: Value
  UnlockHeight :: u64

record account_wire =
  w_nonce :: "u64 option"
  w_balance :: string
  w_locked :: string
  w_unlock :: "u64 option"

definition rpc_account :: "string \<Rightarrow> account_wire reply \<Rightarrow> Account result" where
  "rpc_account address r =
     rbind (DecodeAddress address) (\<lambda>_.
       rbind (rpc_get r) (\<lambda>w.
         case (hexUint128 (w_balance w), hexUint128 (w_locked w), w_nonce w, w_unlock w) of
           (Inr balance, Inr locked, Some nonce, Some unlock) \<Rightarrow>
             Inr \<lparr>AccountNonce = nonce, Balance = balance, Locked = locked, UnlockHeight = unlock\<rparr>
         | _ \<Rightarrow> Inl ''incomplete account observation''))"

definition rpc_AccountAt :: "string \<Rightarrow> string \<Rightarrow> account_wire reply \<Rightarrow> Account result" where
  "rpc_AccountAt address indexBlockID r =
     (if \<not> validHash indexBlockID then Inl ''invalid canonical tip'' else rpc_account address r)"

text \<open>\<open>AccountAt\<close>, \<open>PoXAt\<close>, \<open>SourceAt\<close> and \<open>ReadOnlyAt\<close> pin a read to one canonical tip: each refuses a
  malformed index block ID before it sends anything.\<close>

record PoXInfo =
  PoXContract :: string
  PoXBurnHeight :: u64
  PoXRewardCycle :: u64
  CycleLength :: u64
  MinThreshold :: Value
  BlocksUntilPrepare :: int

record pox_wire =
  w_contract :: string
  w_pox_burn :: "u64 option"
  w_cycle :: "u64 option"
  w_length :: "u64 option"
  w_threshold :: string
  w_prepare :: "int option"

definition rpc_pox :: "pox_wire reply \<Rightarrow> PoXInfo result" where
  "rpc_pox r =
     rbind (rpc_get r) (\<lambda>w.
       case (Principal (w_contract w), Uint128 (w_threshold w), w_pox_burn w, w_cycle w, w_length w, w_prepare w) of
         (Inr contract, Inr threshold, Some burn, Some cycle, Some len, Some prepare) \<Rightarrow>
           if Type contract \<noteq> T_ContractPrincipal \<or> len = 0 then Inl ''incomplete PoX observation''
           else Inr \<lparr>PoXContract = w_contract w, PoXBurnHeight = burn, PoXRewardCycle = cycle,
                  CycleLength = len, MinThreshold = threshold, BlocksUntilPrepare = prepare\<rparr>
       | _ \<Rightarrow> Inl ''incomplete PoX observation'')"

definition rpc_PoXAt :: "string \<Rightarrow> pox_wire reply \<Rightarrow> PoXInfo result" where
  "rpc_PoXAt indexBlockID r =
     (if \<not> validHash indexBlockID then Inl ''invalid canonical tip'' else rpc_pox r)"

definition rpc_DataVariable :: "string \<Rightarrow> string \<Rightarrow> string \<Rightarrow> string reply \<Rightarrow> Value result" where
  "rpc_DataVariable address contract name r =
     rbind (validateContract address contract name) (\<lambda>_. rbind (rpc_get r) decodeCV)"

text \<open>\<open>source\<close>: \<open>s_text\<close> is the body after \<open>strings.TrimSpace\<close>, for the 404 check, and \<open>s_source\<close> the
  unmarshalled \<open>source\<close> field.\<close>

record source_wire =
  s_code :: nat
  s_text :: string
  s_source :: "string option option"

definition rpc_source :: "string \<Rightarrow> string \<Rightarrow> bool \<Rightarrow> source_wire result \<Rightarrow> (string \<times> bool) result" where
  "rpc_source address contract pinned r =
     rbind (validateContract address contract ''source'') (\<lambda>_.
       rbind r (\<lambda>w.
         if s_code w = 404
         then if pinned \<and> s_text w \<noteq> ''No contract source data found''
              then Inl ''pinned contract source observation unavailable'' else Inr ([], False)
         else case s_source w of
           Some (Some source) \<Rightarrow>
             if s_code w \<noteq> 200 \<or> source = [] then Inl ''contract source observation unavailable''
             else Inr (source, True)
         | _ \<Rightarrow> Inl ''contract source observation unavailable''))"

definition rpc_SourceAt :: "string \<Rightarrow> string \<Rightarrow> string \<Rightarrow> source_wire result \<Rightarrow> (string \<times> bool) result" where
  "rpc_SourceAt address contract indexBlockID r =
     (if \<not> validHash indexBlockID then Inl ''invalid canonical tip''
      else rpc_source address contract True r)"

fun encode_arguments :: "nat \<Rightarrow> Value list \<Rightarrow> string list result" where
  "encode_arguments used [] = Inr []"
| "encode_arguments used (v # vs) =
     rbind (Encode v) (\<lambda>raw.
       if used + length raw > 2 ^ 20 then Inl ''arguments too large''
       else rbind (encode_arguments (used + length raw) vs) (\<lambda>rest. Inr ((''0x'' @ hex_encode raw) # rest)))"

definition rpc_readOnly ::
  "string \<Rightarrow> string \<Rightarrow> string \<Rightarrow> string \<Rightarrow> Value list \<Rightarrow> (string list \<Rightarrow> (bool \<times> string) reply) \<Rightarrow> Value result" where
  "rpc_readOnly sender address contract method args call =
     rbind (Principal sender) (\<lambda>_.
       rbind (validateContract address contract method) (\<lambda>_.
         if length args > 1024 then Inl ''too many arguments''
         else rbind (encode_arguments 0 args) (\<lambda>encoded.
           rbind (call encoded) (\<lambda>(code, wire).
             case wire of
               Some (okay, result) \<Rightarrow>
                 if code \<noteq> 200 \<or> \<not> okay then Inl ''contract read-only result unavailable''
                 else decodeCV result
             | None \<Rightarrow> Inl ''contract read-only result unavailable''))))"

definition rpc_ReadOnlyAt ::
  "string \<Rightarrow> string \<Rightarrow> string \<Rightarrow> string \<Rightarrow> string \<Rightarrow> Value list \<Rightarrow> (string list \<Rightarrow> (bool \<times> string) reply) \<Rightarrow> Value result" where
  "rpc_ReadOnlyAt indexBlockID sender address contract method args call =
     (if \<not> validHash indexBlockID then Inl ''invalid canonical tip''
      else rpc_readOnly sender address contract method args call)"

section \<open>Submission and rejection (client.go, rejection.go)\<close>

record SubmissionRejection =
  rej_reason :: string
  rej_txid :: string

record rejection_wire =
  w_rej_txid :: string
  w_rej_error :: string
  w_rej_reason :: string

definition ValidationRejectionReason :: "string \<Rightarrow> bool" where
  "ValidationRejectionReason reason \<longleftrightarrow>
     reason \<in> set [''FeeTooLow'', ''BadNonce'', ''ConflictingNonceInMempool'', ''NotEnoughFunds'']"

definition ClassifySubmissionRejection ::
  "nat \<Rightarrow> nat \<Rightarrow> rejection_wire option \<Rightarrow> string \<Rightarrow> SubmissionRejection option" where
  "ClassifySubmissionRejection status data_len parsed txid =
     (if status \<noteq> 400 \<or> length txid \<noteq> 64 \<or> data_len > 64 * 2 ^ 20 then None
      else case parsed of
        None \<Rightarrow> None
      | Some w \<Rightarrow>
          if trim_prefix (w_rej_txid w) ''0x'' \<noteq> txid \<or> w_rej_error w \<noteq> ''transaction rejected''
             \<or> w_rej_reason w = []
          then None
          else Some \<lparr>rej_reason = (if ValidationRejectionReason (w_rej_reason w) then w_rej_reason w
                                   else ''Other''),
                     rej_txid = txid\<rparr>)"

definition Definite :: "SubmissionRejection \<Rightarrow> bool" where
  "Definite r = ValidationRejectionReason (rej_reason r)"

text \<open>The error value \<open>Submit\<close> returns: nil, a \<open>*SubmissionRejection\<close> or any other error.\<close>

datatype submit_result = SubmitOk | SubmitRejected SubmissionRejection | SubmitFailed string

record submit_wire =
  sub_code :: nat
  sub_len :: nat
  sub_rejection :: "rejection_wire option"
  sub_id :: "string option"

definition rpc_Submit :: "Transaction \<Rightarrow> submit_wire result \<Rightarrow> submit_result" where
  "rpc_Submit tx r =
     (if \<not> Valid tx then SubmitFailed ''invalid transaction identity''
      else case r of
        Inl _ \<Rightarrow> SubmitFailed ''submission did not acknowledge the exact transaction''
      | Inr w \<Rightarrow>
          (case ClassifySubmissionRejection (sub_code w) (sub_len w) (sub_rejection w) (TxID tx) of
             Some rejection \<Rightarrow> SubmitRejected rejection
           | None \<Rightarrow>
               (case sub_id w of
                  Some i \<Rightarrow> if sub_code w \<noteq> 200 \<or> trim_prefix i ''0x'' \<noteq> TxID tx
                            then SubmitFailed ''submission did not acknowledge the exact transaction''
                            else SubmitOk
                | None \<Rightarrow> SubmitFailed ''submission did not acknowledge the exact transaction'')))"

record Inclusion =
  Found :: bool
  Success :: bool
  BlockID :: string

record inclusion_wire =
  w_bytes :: string
  w_result :: string
  w_block :: string
  w_canonical :: "bool option"

definition not_found :: Inclusion where
  "not_found = \<lparr>Found = False, Success = False, BlockID = []\<rparr>"

definition rpc_Inclusion :: "string \<Rightarrow> inclusion_wire reply \<Rightarrow> Inclusion result" where
  "rpc_Inclusion txid r =
     (if \<not> validHash txid then Inl ''invalid transaction ID''
      else rbind r (\<lambda>(code, wire).
        if code = 404 then Inr not_found
        else case wire of
          None \<Rightarrow> Inl ''execution unavailable''
        | Some w \<Rightarrow>
            if code \<noteq> 200 then Inl ''execution unavailable''
            else case (hex_decode (trim_prefix (w_bytes w) ''0x''), w_canonical w) of
              (Inr raw, Some isCanonical) \<Rightarrow>
                if \<not> Valid \<lparr>TxBytes = raw, TxID = txid\<rparr> \<or> \<not> validHash (w_block w)
                   \<or> \<not> has_prefix (w_result w) ''(ok '' \<and> \<not> has_prefix (w_result w) ''(err ''
                   \<or> \<not> has_suffix (w_result w) '')''
                then Inl ''exact execution identity unavailable''
                else if \<not> isCanonical then Inr not_found
                else Inr \<lparr>Found = True, Success = has_prefix (w_result w) ''(ok '', BlockID = w_block w\<rparr>
            | _ \<Rightarrow> Inl ''exact execution identity unavailable''))"

section \<open>Canonical views and signer sets (stacker_set.go, tenure.go)\<close>

record ChainView = Info +
  ConsensusHash :: string
  BurnConsensusHash :: string
  IndexBlockID :: string
  FullySynced :: bool

record chain_wire =
  c_network_id :: "u32 option"
  c_burn :: "u64 option"
  c_height :: "u64 option"
  c_tip :: string
  c_consensus :: string
  c_burn_consensus :: string
  c_synced :: "bool option"

definition rpc_ChainView :: "chain_wire reply \<Rightarrow> ChainView result" where
  "rpc_ChainView r =
     rbind (rpc_get r) (\<lambda>w.
       case (hex_decode (c_tip w), hex_decode (c_consensus w), hex_decode (c_burn_consensus w),
             c_network_id w, c_burn w, c_height w, c_synced w) of
         (Inr header, Inr consensus, Inr burn, Some n, Some b, Some h, Some synced) \<Rightarrow>
           if length header \<noteq> 32 \<or> length consensus \<noteq> 20 \<or> length burn \<noteq> 20
           then Inl ''complete canonical node identity unavailable''
           else Inr \<lparr>NetworkID = n, BurnHeight = b, StacksHeight = h, Tip = hex_encode header,
                  ConsensusHash = hex_encode consensus, BurnConsensusHash = hex_encode burn,
                  IndexBlockID = hex_encode (sha512_256 (header @ consensus)), FullySynced = synced\<rparr>
       | _ \<Rightarrow> Inl ''complete canonical node identity unavailable'')"

record PreparedSigner =
  SignerKey :: string
  Weight :: u32
  StackedAmount :: Value

record StackerSet =
  Available :: bool
  UnavailableReason :: string
  SetVersion :: u32
  Signers :: "PreparedSigner list"
  Threshold :: Value

record signer_wire =
  w_key :: string
  w_weight :: "u32 option"
  w_amount :: string

record set_wire =
  w_version :: u32
  w_signers :: "signer_wire list option"
  w_set_threshold :: string

text \<open>The loop over the native signer entries: the keys seen so far and the running weight, which the
  code keeps in a \<open>uint64\<close>.\<close>

fun stacker_entries ::
  "('sk, 'pk) crypto \<Rightarrow> string list \<Rightarrow> u64 \<Rightarrow> signer_wire list \<Rightarrow> PreparedSigner list result" where
  "stacker_entries C seen weight [] = Inr []"
| "stacker_entries C seen weight (s # ss) =
     (case (FromPublic C (w_key s), Uint128 (w_amount s), w_weight s) of
        (Inr key, Inr amount, Some w) \<Rightarrow>
          if w = 0 \<or> w_amount s = ''0'' \<or> PublicKey key \<in> set seen
          then Inl ''invalid prepared signer entry''
          else if weight + ucast w > 0xFFFFFFFF then Inl ''prepared signer weight exceeds bound''
          else rbind (stacker_entries C (PublicKey key # seen) (weight + ucast w) ss) (\<lambda>rest.
            Inr (\<lparr>SignerKey = PublicKey key, Weight = w, StackedAmount = amount\<rparr> # rest))
      | _ \<Rightarrow> Inl ''invalid prepared signer entry'')"

definition anchor_message :: string where
  "anchor_message = ''Could not read reward set. Prepare phase may not have started for this cycle yet. Err = PoXAnchorBlockRequired''"

record stacker_reply =
  k_code :: nat
  k_unavailable :: "(string \<times> string) option"
  k_set :: "set_wire option option"

definition rpc_StackerSet ::
  "('sk, 'pk) crypto \<Rightarrow> u64 \<Rightarrow> string \<Rightarrow> stacker_reply result \<Rightarrow> StackerSet result" where
  "rpc_StackerSet C cycle indexBlockID r =
     (if cycle > 9999999999 \<or> \<not> validHash indexBlockID then Inl ''invalid prepared-set request identity''
      else rbind r (\<lambda>w.
        let empty = \<lparr>Available = False, UnavailableReason = [], SetVersion = 0, Signers = [],
                     Threshold = tag_value 0\<rparr>;
            set_case = (case k_set w of
              Some (Some st) \<Rightarrow>
                (case w_signers st of
                   None \<Rightarrow> Inl ''prepared signer set unavailable''
                 | Some entries \<Rightarrow>
                     if k_code w \<noteq> 200 \<or> length entries > 1000 \<or> w_version st > 1
                     then Inl ''prepared signer set unavailable''
                     else case Uint128 (w_set_threshold st) of
                       Inl _ \<Rightarrow> Inl ''prepared signer threshold unavailable''
                     | Inr threshold \<Rightarrow>
                         if w_set_threshold st = ''0'' then Inl ''prepared signer threshold unavailable''
                         else rbind (stacker_entries C [] 0 entries) (\<lambda>signers.
                           Inr \<lparr>Available = True, UnavailableReason = [], SetVersion = w_version st,
                                Signers = signers, Threshold = threshold\<rparr>))
            | _ \<Rightarrow> Inl ''prepared signer set unavailable'')
        in if k_code w = 400
           then (case k_unavailable w of
                   Some (kind, message) \<Rightarrow>
                     if kind = ''not_available_try_again''
                     then Inr (empty\<lparr>UnavailableReason :=
                            (if message = anchor_message then ''PoXAnchorBlockRequired'' else ''Unavailable'')\<rparr>)
                     else set_case
                 | None \<Rightarrow> set_case)
           else set_case))"

text \<open>The tenure metadata reply: its header families, with the legacy header's field count and the
  Nakamoto header's height and consensus hash where they unmarshal.\<close>

record tenure_wire =
  t_families :: "string list"
  t_legacy_fields :: "nat option"
  t_nakamoto :: "(u64 option \<times> string) option"

definition rpc_NakamotoTip :: "ChainView \<Rightarrow> tenure_wire reply \<Rightarrow> bool result" where
  "rpc_NakamotoTip view r =
     (if (case hex_decode (ConsensusHash view) of
            Inl _ \<Rightarrow> True
          | Inr consensus \<Rightarrow> length consensus \<noteq> 20 \<or> ConsensusHash view \<noteq> hex_encode consensus)
         \<or> ConsensusHash view = replicate 40 (CHR ''0'') \<or> StacksHeight view = 0
         \<or> \<not> validHash (IndexBlockID view)
      then Inl ''invalid tenure tip identity''
      else rbind (rpc_get r) (\<lambda>w.
        if length (t_families w) \<noteq> 1 then Inl ''native header family unavailable''
        else if ''Epoch2'' \<in> set (t_families w)
        then (case t_legacy_fields w of
                None \<Rightarrow> Inl ''invalid legacy header''
              | Some n \<Rightarrow> if n = 0 then Inl ''invalid legacy header'' else Inr False)
        else (case t_nakamoto w of
                Some (Some height, consensus) \<Rightarrow>
                  if height \<noteq> StacksHeight view \<or> consensus \<noteq> ConsensusHash view
                  then Inl ''native Nakamoto header differs from canonical tip''
                  else Inr True
              | _ \<Rightarrow> Inl ''native Nakamoto header differs from canonical tip'')))"


section \<open>Balances\<close>

definition hex_number :: "string \<Rightarrow> nat" where
  "hex_number s = foldl (\<lambda>n c. n * 16 + the (hex_value c)) 0 s"

lemma hex_number_foldl:
  "foldl (\<lambda>n c. n * 16 + the (hex_value c)) k s = k * 16 ^ length s + hex_number s"
proof (induction s arbitrary: k)
  case Nil
  then show ?case by (simp add: hex_number_def)
next
  case (Cons c s)
  show ?case
    using Cons [of "k * 16 + the (hex_value c)"] Cons [of "the (hex_value c)"]
    by (simp add: hex_number_def algebra_simps)
qed

lemma hex_number_Cons: "hex_number (c # s) = the (hex_value c) * 16 ^ length s + hex_number s"
  using hex_number_foldl [of "the (hex_value c)" s] by (simp add: hex_number_def)

lemma hex_value_less: "hex_value c = Some n \<Longrightarrow> n < 16"
  by (auto simp: hex_value_def less_eq_char_def split: if_splits)

lemma hex_decode_number:
  assumes "list_all (\<lambda>c. hex_value c \<noteq> None) s" and "length s mod 2 = 0"
  shows "\<exists>b. hex_decode s = Inr b \<and> length s = 2 * length b \<and> be_val b = hex_number s"
  using assms
proof (induction s rule: hex_decode.induct)
  case (3 c d s)
  then obtain h l b where hl: "hex_value c = Some h" "hex_value d = Some l"
    and b: "hex_decode s = Inr b" "length s = 2 * length b" "be_val b = hex_number s"
    by fastforce
  have "h * 16 + l < 256" using hl [THEN hex_value_less] by simp
  then have "unat (of_nat (h * 16 + l) :: byte) = h * 16 + l"
    by (simp only: unat_of_nat) simp
  moreover have "(16::nat) ^ length s = 256 ^ length b"
    using b(2) power_mult [of "16::nat" 2 "length b"] by simp
  ultimately show ?case
    using hl b by (simp add: hex_number_Cons be_val_Cons algebra_simps)
qed (auto simp: hex_number_def)

lemma Decode_uint:
  assumes "length b = 16"
  shows "Decode (T_UInt # b) = Inr (int_value T_UInt (int (be_val b)))"
  using assms take_bytes_append [of 16 b "[]"]
  by (simp add: Decode_def DecodeWithLimits_def DefaultLimits_def decode_value.simps decode_integer_def)

text \<open>The account balances: \<open>hexUint128\<close> accepts exactly the strings \<open>0x\<close> followed by one to
  thirty-two hexadecimal digits of either case, minimal or padded, and returns the unsigned Clarity
  integer they spell, which always fits 128 bits.\<close>

lemma hexUint128_value:
  "hexUint128 s = Inr v \<longleftrightarrow>
     (\<exists>digits. s = ''0x'' @ digits \<and> 1 \<le> length digits \<and> length digits \<le> 32
        \<and> list_all (\<lambda>c. hex_value c \<noteq> None) digits
        \<and> v = int_value T_UInt (int (hex_number digits)) \<and> hex_number digits < 2 ^ 128)"
proof -
  have spelled: "hexUint128 (''0x'' @ digits) = Inr (int_value T_UInt (int (hex_number digits)))
      \<and> hex_number digits < 2 ^ 128"
    if d: "1 \<le> length digits" "length digits \<le> 32" "list_all (\<lambda>c. hex_value c \<noteq> None) digits" for digits
  proof -
    let ?raw = "if length digits mod 2 \<noteq> 0 then CHR ''0'' # digits else digits"
    have zero: "hex_value (CHR ''0'') = Some 0" by code_simp
    have even: "length ?raw mod 2 = 0" by simp presburger
    have all: "list_all (\<lambda>c. hex_value c \<noteq> None) ?raw" using d(3) zero by simp
    have same: "hex_number ?raw = hex_number digits" using zero by (simp add: hex_number_Cons)
    obtain b where b: "hex_decode ?raw = Inr b" "length ?raw = 2 * length b" "be_val b = hex_number ?raw"
      using hex_decode_number [OF all even] by blast
    have len: "length b \<le> 16" using b(2) d(2) by (simp split: if_splits)
    have "hexUint128 (''0x'' @ digits) = Decode (T_UInt # replicate (16 - length b) 0 @ b)"
      using d b(1) by (cases "digits = []") (auto simp: hexUint128_def Let_def has_prefix_def)
    also have "\<dots> = Inr (int_value T_UInt (int (hex_number digits)))"
      using len b(3) same by (simp add: Decode_uint)
    finally have "hexUint128 (''0x'' @ digits) = Inr (int_value T_UInt (int (hex_number digits)))" .
    moreover have "be_val b < 256 ^ 16"
      using be_val_less [of b] power_increasing [OF len, of "256::nat"] by simp
    ultimately show ?thesis using b(3) same by simp
  qed
  show ?thesis
  proof
    assume v: "hexUint128 s = Inr v"
    then have g: "has_prefix s ''0x''" "3 \<le> length s" "length s \<le> 34"
      "list_all (\<lambda>c. hex_value c \<noteq> None) (drop 2 s)"
      by (auto simp: hexUint128_def split: if_splits)
    have s: "s = ''0x'' @ drop 2 s"
      using has_prefixE [OF g(1)] g(1) by (simp add: trim_prefix_def numeral_2_eq_2)
    have "1 \<le> length (drop 2 s)" "length (drop 2 s) \<le> 32" using g by auto
    with spelled [OF this g(4)] v s g(4) show "\<exists>digits. s = ''0x'' @ digits \<and> 1 \<le> length digits
        \<and> length digits \<le> 32 \<and> list_all (\<lambda>c. hex_value c \<noteq> None) digits
        \<and> v = int_value T_UInt (int (hex_number digits)) \<and> hex_number digits < 2 ^ 128"
      by (intro exI [of _ "drop 2 s"]) simp
  next
    assume "\<exists>digits. s = ''0x'' @ digits \<and> 1 \<le> length digits \<and> length digits \<le> 32
        \<and> list_all (\<lambda>c. hex_value c \<noteq> None) digits
        \<and> v = int_value T_UInt (int (hex_number digits)) \<and> hex_number digits < 2 ^ 128"
    with spelled show "hexUint128 s = Inr v" by blast
  qed
qed

section \<open>Submission outcomes\<close>

text \<open>C35: Submission is classified exactly. A nil error means the transaction's identity matches its bytes
  and the node answered 200 with that transaction ID. A \<open>SubmissionRejection\<close> means it answered 400 with
  the rejection envelope naming the same transaction ID; its reason is one of the allowlisted
  validation reasons or \<open>Other\<close>, so no other server text is kept, and it is definite exactly for
  the allowlisted reasons. Everything else is an error that claims neither.\<close>

theorem submit_outcome_exact:
  "(rpc_Submit tx r = SubmitOk \<longleftrightarrow>
      Valid tx \<and> (\<exists>w i. r = Inr w \<and> sub_code w = 200 \<and> sub_id w = Some i
        \<and> (i = TxID tx \<and> \<not> has_prefix i ''0x'' \<or> i = ''0x'' @ TxID tx)))
   \<and> (rpc_Submit tx r = SubmitRejected j \<longleftrightarrow>
      Valid tx \<and> rej_txid j = TxID tx \<and> length (TxID tx) = 64
        \<and> (\<exists>w e. r = Inr w \<and> sub_code w = 400 \<and> sub_len w \<le> 64 * 2 ^ 20 \<and> sub_rejection w = Some e
            \<and> trim_prefix (w_rej_txid e) ''0x'' = TxID tx \<and> w_rej_error e = ''transaction rejected''
            \<and> w_rej_reason e \<noteq> []
            \<and> (if Definite j then rej_reason j = w_rej_reason e
               else rej_reason j = ''Other'' \<and> \<not> ValidationRejectionReason (w_rej_reason e))))"
proof -
  have trim: "trim_prefix i ''0x'' = t \<longleftrightarrow> i = t \<and> \<not> has_prefix i ''0x'' \<or> i = ''0x'' @ t" for i t
    using has_prefixE [of i "''0x''"] by (auto simp: trim_prefix_def has_prefix_def)
  have other: "\<not> ValidationRejectionReason ''Other''" by code_simp
  have j: "j = \<lparr>rej_reason = a, rej_txid = t\<rparr> \<longleftrightarrow> rej_reason j = a \<and> rej_txid j = t" for a t
    by (cases j) auto
  have rej: "ClassifySubmissionRejection c n p t = Some j \<longleftrightarrow>
      c = 400 \<and> length t = 64 \<and> n \<le> 64 * 2 ^ 20 \<and> rej_txid j = t \<and> (\<exists>e. p = Some e
            \<and> trim_prefix (w_rej_txid e) ''0x'' = t \<and> w_rej_error e = ''transaction rejected''
            \<and> w_rej_reason e \<noteq> []
            \<and> (if Definite j then rej_reason j = w_rej_reason e
               else rej_reason j = ''Other'' \<and> \<not> ValidationRejectionReason (w_rej_reason e)))" for c n p t
    using j other by (auto simp: ClassifySubmissionRejection_def Definite_def split: option.splits if_splits)
  have "rpc_Submit tx r = SubmitOk \<longleftrightarrow>
      Valid tx \<and> (\<exists>w i. r = Inr w \<and> sub_code w = 200 \<and> sub_id w = Some i \<and> trim_prefix i ''0x'' = TxID tx)"
    by (auto simp: rpc_Submit_def ClassifySubmissionRejection_def split: sum.splits option.splits if_splits)
  moreover have "rpc_Submit tx r = SubmitRejected j \<longleftrightarrow>
      Valid tx \<and> (\<exists>w. r = Inr w \<and>
        ClassifySubmissionRejection (sub_code w) (sub_len w) (sub_rejection w) (TxID tx) = Some j)"
    by (auto simp: rpc_Submit_def split: sum.splits option.splits if_splits)
  ultimately show ?thesis unfolding trim rej by blast
qed

text \<open>C36: Canonical inclusion is reported only with exact evidence: the node's reply carries bytes that
  hash to the requested transaction ID, a well-formed block ID, the canonical flag and a complete
  \<open>(ok ...)\<close> or \<open>(err ...)\<close> result, which decides \<open>Success\<close>. A missing or non-canonical execution is
  the empty inclusion, never a failed transaction.\<close>

theorem inclusion_exact:
  assumes "rpc_Inclusion txid r = Inr x"
  shows "validHash txid \<and>
    (if Found x
     then \<exists>w raw. r = Inr (200, Some w) \<and> hex_decode (trim_prefix (w_bytes w) ''0x'') = Inr raw
        \<and> raw \<noteq> [] \<and> ID raw = txid \<and> w_canonical w = Some True \<and> validHash (BlockID x)
        \<and> BlockID x = w_block w \<and> has_suffix (w_result w) '')''
        \<and> (if Success x then has_prefix (w_result w) ''(ok '' else has_prefix (w_result w) ''(err '')
     else x = not_found)"
proof -
  have "validHash txid" using assms by (simp add: rpc_Inclusion_def split: if_splits)
  moreover from this assms obtain code wire where r: "r = Inr (code, wire)"
    by (auto simp: rpc_Inclusion_def result_simps split: if_splits)
  ultimately show ?thesis
    using assms
    by (auto simp: rpc_Inclusion_def not_found_def Valid_def
        split: if_splits option.splits sum.splits)
qed

definition sample_txid :: string where
  "sample_txid = replicate 64 (CHR ''a'')"

theorem inclusion_exact_witness:
  "rpc_Inclusion sample_txid (Inr (404, None)) = Inr not_found \<and> validHash sample_txid"
proof -
  have "rpc_Inclusion sample_txid (Inr (404, None)) = Inr not_found" by code_simp
  with inclusion_exact [OF this] show ?thesis by blast
qed

section \<open>Prepared signer sets\<close>

lemma u32_sum_no_wrap:
  assumes "unat (weight :: u64) < 2 ^ 32"
  shows "unat (weight + ucast (w :: u32)) = unat weight + unat w"
proof -
  have w: "unat w < 2 ^ 32" using unsigned_less [of w, where ?'a = nat] by simp
  have "unat (ucast w :: u64) = unat w" using w by (simp add: unsigned_ucast_eq take_bit_nat_eq_self)
  then show ?thesis using assms w by (simp add: unat_word_ariths)
qed

lemma stacker_entries_ok:
  assumes "stacker_entries C seen weight ss = Inr st" and "unat weight < 2 ^ 32"
  shows "distinct (map SignerKey st) \<and> set (map SignerKey st) \<inter> set seen = {}
    \<and> list_all (\<lambda>s. Weight s \<noteq> 0) st \<and> unat weight + (\<Sum>s\<leftarrow>st. unat (Weight s)) < 2 ^ 32
    \<and> map (\<lambda>s. Some (Weight s)) st = map w_weight ss
    \<and> list_all2 (\<lambda>s p. Uint128 (w_amount s) = Inr (StackedAmount p) \<and> w_amount s \<noteq> ''0'') ss st"
  using assms
proof (induction ss arbitrary: seen weight st)
  case Nil
  then show ?case by simp
next
  case (Cons s ss)
  from Cons.prems obtain key amount w rest where
    ok: "FromPublic C (w_key s) = Inr key" "Uint128 (w_amount s) = Inr amount" "w_weight s = Some w"
    "w \<noteq> 0" "w_amount s \<noteq> ''0''" "PublicKey key \<notin> set seen" "\<not> weight + ucast w > 0xFFFFFFFF"
    "stacker_entries C (PublicKey key # seen) (weight + ucast w) ss = Inr rest"
    "st = \<lparr>SignerKey = PublicKey key, Weight = w, StackedAmount = amount\<rparr> # rest"
    by (auto simp: result_simps split: sum.splits option.splits if_splits)
  have sum: "unat (weight + ucast w) = unat weight + unat w"
    by (rule u32_sum_no_wrap [OF Cons.prems(2)])
  with ok(7) have "unat (weight + ucast w) < 2 ^ 32"
    by (simp add: word_less_nat_alt)
  from Cons.IH [OF ok(8) this] ok sum show ?case by auto
qed

text \<open>A prepared signer set the client accepts is well formed: at most a thousand signers with
  pairwise different canonical keys, every weight positive and the node's own, and weights whose
  exact sum fits 32 bits. The 64-bit accumulator of the loop therefore never wraps, and consumers may add
  weights in 32 bits.\<close>

lemma stacker_set_well_formed:
  assumes "rpc_StackerSet C cycle tip r = Inr st" and "Available st"
  shows "distinct (map SignerKey (Signers st)) \<and> length (Signers st) \<le> 1000
    \<and> list_all (\<lambda>s. Weight s \<noteq> 0) (Signers st)
    \<and> (\<Sum>s\<leftarrow>Signers st. unat (Weight s)) < 2 ^ 32
    \<and> (\<exists>w sw entries. r = Inr w \<and> k_code w = 200 \<and> k_set w = Some (Some sw) \<and> w_signers sw = Some entries
        \<and> Uint128 (w_set_threshold sw) = Inr (Threshold st) \<and> w_set_threshold sw \<noteq> ''0''
        \<and> map w_weight entries = map (\<lambda>s. Some (Weight s)) (Signers st))"
proof -
  obtain w where r: "r = Inr w"
    using assms(1) by (cases r) (auto simp: rpc_StackerSet_def split: if_splits)
  with assms obtain sw entries where
    s: "k_set w = Some (Some sw)" "w_signers sw = Some entries" "k_code w = 200" "length entries \<le> 1000"
    "Uint128 (w_set_threshold sw) = Inr (Threshold st)" "w_set_threshold sw \<noteq> ''0''"
    "stacker_entries C [] 0 entries = Inr (Signers st)"
    by (auto simp: rpc_StackerSet_def Let_def result_simps split: if_splits option.splits sum.splits)
  note ok = stacker_entries_ok [OF s(7)]
  have "map (\<lambda>s. Some (Weight s)) (Signers st) = map w_weight entries" using ok by simp
  moreover from this have "length (Signers st) = length entries" by (metis length_map)
  ultimately show ?thesis using ok s r by auto
qed

definition sample_set_reply :: stacker_reply where
  "sample_set_reply =
     \<lparr>k_code = 200, k_unavailable = None,
      k_set = Some (Some \<lparr>w_version = 0,
        w_signers = Some [\<lparr>w_key = ''02'' @ replicate 64 (CHR ''1''), w_weight = Some 0xFFFFFFFF, w_amount = ''7''\<rparr>],
        w_set_threshold = ''50''\<rparr>)\<rparr>"

lemma sample_set_ok:
  "\<exists>st. rpc_StackerSet toy_crypto 12 sample_txid (Inr sample_set_reply) = Inr st \<and> Available st
     \<and> map Weight (Signers st) = [0xFFFFFFFF]"
proof -
  have "hex_decode (''02'' @ replicate 64 (CHR ''1'')) = Inr (2 # replicate 32 17)" by code_simp
  then have key: "FromPublic toy_crypto (''02'' @ replicate 64 (CHR ''1'')) =
      Inr (public toy_crypto (be_val (replicate 32 17)))"
    by (simp add: FromPublic_def toy_crypto_def)
  have "validHash sample_txid" "is_ok (Uint128 ''7'')" "is_ok (Uint128 ''50'')" by code_simp+
  then show ?thesis using key
    by (auto simp: rpc_StackerSet_def sample_set_reply_def is_ok_iff)
qed

lemma stacker_set_well_formed_sample:
  "\<exists>st. rpc_StackerSet toy_crypto 12 sample_txid (Inr sample_set_reply) = Inr st
     \<and> (\<Sum>s\<leftarrow>Signers st. unat (Weight s)) < 2 ^ 32 \<and> distinct (map SignerKey (Signers st))"
  using sample_set_ok stacker_set_well_formed by blast

section \<open>Read-only call arguments\<close>

lemma encode_arguments_ok:
  assumes "encode_arguments used vs = Inr texts" and "list_all wf_value vs"
  shows "\<exists>raws. texts = map (\<lambda>raw. ''0x'' @ hex_encode raw) raws
    \<and> list_all2 (\<lambda>v raw. Decode raw = Inr (canon v)) vs raws
    \<and> (vs = [] \<or> used + (\<Sum>raw\<leftarrow>raws. length raw) \<le> 2 ^ 20)"
  using assms
proof (induction vs arbitrary: used texts)
  case Nil
  then show ?case by simp
next
  case (Cons v vs)
  then obtain raw rest where ok: "Encode v = Inr raw" "used + length raw \<le> 2 ^ 20"
    "encode_arguments (used + length raw) vs = Inr rest" "texts = (''0x'' @ hex_encode raw) # rest"
    by (auto simp: result_simps split: if_splits)
  have dec: "Decode raw = Inr (canon v)"
    using ok(1) Cons.prems(2) clarity.dec_enc_Nil [of v DefaultLimits 1 raw "[]"]
      encode_ok(3) [of "[]" v DefaultLimits 1 raw]
    by (simp add: Encode_def Decode_def EncodeWithLimits_ok DecodeWithLimits_ok)
  from Cons.IH [OF ok(3)] Cons.prems(2) obtain raws where
    "rest = map (\<lambda>raw. ''0x'' @ hex_encode raw) raws"
    "list_all2 (\<lambda>v raw. Decode raw = Inr (canon v)) vs raws"
    "vs = [] \<or> used + length raw + (\<Sum>raw\<leftarrow>raws. length raw) \<le> 2 ^ 20"
    by auto
  with ok dec show ?case by (intro exI [of _ "raw # raws"]) auto
qed

text \<open>The arguments of a read-only call cross the wire unchanged and bounded: every argument that is
  sent is the \<open>0x\<close> hexadecimal form of a serialization that decodes to the canonical form of the
  value given, in order, and the serializations together take at most a mebibyte.\<close>

lemma read_only_arguments_exact:
  assumes "encode_arguments 0 vs = Inr texts" and "list_all wf_value vs"
  shows "\<exists>raws. texts = map (\<lambda>raw. ''0x'' @ hex_encode raw) raws
    \<and> list_all2 (\<lambda>v raw. Decode raw = Inr (canon v)) vs raws
    \<and> (\<Sum>raw\<leftarrow>raws. length raw) \<le> 2 ^ 20"
  using encode_arguments_ok [OF assms] by (auto simp: list_all2_Cons1)

lemma read_only_arguments_exact_sample:
  "\<exists>raws texts. encode_arguments 0 [Uint 258, tag_value T_None] = Inr texts
    \<and> texts = map (\<lambda>raw. ''0x'' @ hex_encode raw) raws
    \<and> list_all2 (\<lambda>v raw. Decode raw = Inr (canon v)) [Uint 258, tag_value T_None] raws"
proof -
  have "is_ok (encode_arguments 0 [Uint 258, tag_value T_None])"
    and "list_all wf_value [Uint 258, tag_value T_None]" by code_simp+
  then obtain texts where ok: "encode_arguments 0 [Uint 258, tag_value T_None] = Inr texts"
    and wf: "list_all wf_value [Uint 258, tag_value T_None]" unfolding is_ok_iff by blast
  from read_only_arguments_exact [OF ok wf] ok show ?thesis by metis
qed

end
