(* ===== verification/Runs.thy ===== *)
theory Runs
  imports Prelude
begin

text \<open>
  Executions of the stateful components. A component is given by its possible initial states and a
  labelled step; \<open>runs\<close> are its finite executions with the labels in order. The locales carry the two
  arguments used for them: an invariant of the state, and an invariant that relates the state to
  the history of labels. Components interpret them on their own step functions.
\<close>

inductive runs :: "('s \<Rightarrow> bool) \<Rightarrow> ('s \<Rightarrow> 'e \<Rightarrow> 's \<Rightarrow> bool) \<Rightarrow> 's \<Rightarrow> 'e list \<Rightarrow> bool"
  for start step where
  runs_start: "start s \<Longrightarrow> runs start step s []"
| runs_step: "runs start step s es \<Longrightarrow> step s e s' \<Longrightarrow> runs start step s' (es @ [e])"

inductive_cases runs_NilE: "runs start step s []"

locale history_system =
  fixes start :: "'s \<Rightarrow> bool"
    and step :: "'s \<Rightarrow> 'e \<Rightarrow> 's \<Rightarrow> bool"
    and hinv :: "'s \<Rightarrow> 'e list \<Rightarrow> bool"
  assumes hinv_start: "start s \<Longrightarrow> hinv s []"
    and hinv_step: "runs start step s es \<Longrightarrow> hinv s es \<Longrightarrow> step s e s' \<Longrightarrow> hinv s' (es @ [e])"
begin

lemma hinv_runs: "runs start step s es \<Longrightarrow> hinv s es"
  by (induction rule: runs.induct) (auto intro: hinv_start hinv_step)

end

locale invariant_system =
  fixes start :: "'s \<Rightarrow> bool"
    and step :: "'s \<Rightarrow> 'e \<Rightarrow> 's \<Rightarrow> bool"
    and inv :: "'s \<Rightarrow> bool"
  assumes inv_start: "start s \<Longrightarrow> inv s"
    and inv_step: "inv s \<Longrightarrow> step s e s' \<Longrightarrow> inv s'"
begin

lemma inv_runs: "runs start step s es \<Longrightarrow> inv s"
  by (induction rule: runs.induct) (auto intro: inv_start inv_step)

text \<open>Every step of an execution starts in a state that satisfies the invariant.\<close>

lemma step_in_runs:
  assumes "runs start step s (es @ [e])"
  obtains t where "runs start step t es" "inv t" "step t e s"
  using assms by (cases rule: runs.cases) (auto intro: inv_runs)

lemma prefix_runs:
  "runs start step s (es @ fs) \<Longrightarrow> \<exists>t. runs start step t es \<and> inv t"
proof (induction fs arbitrary: s rule: rev_induct)
  case Nil
  then show ?case using inv_runs by auto
next
  case (snoc f fs)
  from snoc.prems have "runs start step s ((es @ fs) @ [f])" by simp
  then obtain t where "runs start step t (es @ fs)" by (rule step_in_runs)
  with snoc.IH show ?case by blast
qed

end

sublocale invariant_system \<subseteq> history_system start step "\<lambda>s es. inv s"
  by unfold_locales (auto intro: inv_start inv_step)

text \<open>Paths: several steps of a component made by one operation of a client, with what they emit.\<close>

inductive path :: "('s \<Rightarrow> 'e list \<Rightarrow> 's \<Rightarrow> bool) \<Rightarrow> 's \<Rightarrow> 'e list \<Rightarrow> 's \<Rightarrow> bool"
  for step where
  path_refl: "path step s [] s"
| path_step: "path step s h t \<Longrightarrow> step t e u \<Longrightarrow> path step s (h @ e) u"

lemma path_one: "step s e u \<Longrightarrow> path step s e u"
  using path_step [OF path_refl] by fastforce

lemma path_two: "step s d t \<Longrightarrow> step t e u \<Longrightarrow> path step s (d @ e) u"
  by (rule path_step [OF path_one])

lemma path_trans: "path step t h' u \<Longrightarrow> path step s h t \<Longrightarrow> path step s (h @ h') u"
proof (induction rule: path.induct)
  case (path_step t h' u e v)
  then show ?case using path.path_step [of step s "h @ h'" u e v] by simp
qed simp

lemma runs_path: "path step s h t \<Longrightarrow> runs start step s es \<Longrightarrow> \<exists>fs. runs start step t (es @ fs) \<and> concat fs = h"
proof (induction rule: path.induct)
  case (path_refl s)
  then show ?case by (intro exI [of _ "[]"]) simp
next
  case (path_step s h t e u)
  then obtain fs where fs: "runs start step t (es @ fs)" "concat fs = h" by blast
  from runs_step [OF fs(1) path_step(2)] fs(2) show ?case
    by (intro exI [of _ "fs @ [e]"]) simp
qed

text \<open>
  The contract a serial submitter gives its clients: what was offered is what was settled plus the one
  outstanding item, steps emit exactly what they count, and nothing is emitted while one is outstanding.
\<close>

locale serial_submitter =
  fixes step :: "'s \<Rightarrow> 'e list \<Rightarrow> 's \<Rightarrow> bool"
    and ok :: "'s \<Rightarrow> bool"
    and busy :: "'s \<Rightarrow> bool"
    and offered :: "'s \<Rightarrow> nat"
    and finished :: "'s \<Rightarrow> nat"
  assumes ok_step: "ok s \<Longrightarrow> step s e s' \<Longrightarrow> ok s'"
    and balance: "ok s \<Longrightarrow> finished s + (if busy s then 1 else 0) = offered s"
    and counted: "ok s \<Longrightarrow> step s e s' \<Longrightarrow> offered s' = offered s + length e"
    and serial: "ok s \<Longrightarrow> busy s \<Longrightarrow> step s e s' \<Longrightarrow> e = []"
    and single: "ok s \<Longrightarrow> step s e s' \<Longrightarrow> length e \<le> 1"
begin

lemma path_ok: "path step s h t \<Longrightarrow> ok s \<Longrightarrow> ok t"
  by (induction rule: path.induct) (auto intro: ok_step)

lemma path_offered: "path step s h t \<Longrightarrow> ok s \<Longrightarrow> offered t = offered s + length h"
  by (induction rule: path.induct) (auto simp: counted [OF path_ok])

text \<open>Whatever a client does, everything it emitted is finished except at most the last item.\<close>

lemma path_finished:
  assumes "path step s h t" "ok s"
  shows "finished t + (if busy t then 1 else 0) = finished s + (if busy s then 1 else 0) + length h"
  using balance [OF assms(2)] balance [OF path_ok [OF assms]] path_offered [OF assms] by simp

text \<open>A client cannot emit while an item is outstanding without that item having been finished.\<close>

lemma path_emits_after_finish:
  assumes "path step s h t" "ok s" "busy s"
  shows "finished s + length h \<le> finished t"
  using path_finished [OF assms(1,2)] assms(3) by (auto split: if_splits)

end

end
