(* ===== verification/Nonce_Stream.thy ===== *)
theory Nonce_Stream
  imports Stacks_Rpc Runs
begin

text \<open>
  Model of \<open>operators/network/internal/stacksoperation/nonce.go\<close>: the process-local stream of
  transactions of one account. The state is the Go struct \<open>NonceStream\<close> as a record; times are
  instants in nanoseconds, with \<open>0\<close> for Go's zero time. The node interface is an argument, a record
  of the replies its calls give at that moment, so that a node may answer anything and change its
  answers between calls. \<open>Offer\<close> also returns what it sent: a list with at most one element.
\<close>

abbreviation max_uint64 :: u64 where "max_uint64 \<equiv> 0xFFFFFFFFFFFFFFFF"

section \<open>State\<close>

record TransactionInclusion =
  incl_TxID :: string
  incl_BlockID :: string
  incl_Success :: bool
  incl_ObservedAt :: time

record TransactionPostcondition =
  post_TxID :: string
  post_Kind :: string
  post_StateDigest :: string
  post_StacksTip :: string
  post_ObservedAt :: time

record TransactionExecutionStatus =
  Offered :: u64
  Accepted :: u64
  Included :: u64
  Rejected :: u64
  Uncertain :: u64
  PostconditionObserved :: u64
  LastPostcondition :: "TransactionPostcondition option"
  LastTxID :: string
  LastInclusion :: "TransactionInclusion option"

record 'n pendingSubmission =
  pending_node :: 'n
  pending_transaction :: Transaction
  pending_nonce :: u64

record 'n NonceStream =
  StreamAddress :: string
  next_nonce :: u64
  initialized :: bool
  exhausted :: bool
  pending :: "'n pendingSubmission option"
  facts :: TransactionExecutionStatus
  retryAt :: time
  rejectionReason :: string

text \<open>\<open>Node\<close>: the account, submission and inclusion surface of a target.\<close>

record 'n Node =
  node_Account :: "'n \<Rightarrow> string \<Rightarrow> Account result"
  node_Submit :: "'n \<Rightarrow> Transaction \<Rightarrow> submit_result"
  node_Inclusion :: "'n \<Rightarrow> string \<Rightarrow> Inclusion result"

definition empty_facts :: TransactionExecutionStatus where
  "empty_facts =
     \<lparr>Offered = 0, Accepted = 0, Included = 0, Rejected = 0, Uncertain = 0, PostconditionObserved = 0,
      LastPostcondition = None, LastTxID = [], LastInclusion = None\<rparr>"

definition new_stream :: "string \<Rightarrow> 'n NonceStream" where
  "new_stream address =
     \<lparr>StreamAddress = address, next_nonce = 0, initialized = False, exhausted = False, pending = None,
      facts = empty_facts, retryAt = 0, rejectionReason = []\<rparr>"

definition Pending :: "'n NonceStream \<Rightarrow> nat" where
  "Pending s = (if pending s \<noteq> None then 1 else 0)"

text \<open>A reason with the optional error: the pair \<open>(string, error)\<close>.\<close>

type_synonym outcome = "string \<times> string option"

section \<open>Operations\<close>

definition Observe :: "'n Node \<Rightarrow> time \<Rightarrow> 'n NonceStream \<Rightarrow> 'n NonceStream \<times> outcome" where
  "Observe N now s =
     (case pending s of
        None \<Rightarrow> (s, ''Idle'', None)
      | Some p \<Rightarrow>
          (case node_Inclusion N (pending_node p) (TxID (pending_transaction p)) of
             Inl err \<Rightarrow> (s, ''InclusionUnavailable'', Some err)
           | Inr inclusion \<Rightarrow>
               if \<not> Found inclusion then (s, ''AwaitingInclusion'', None)
               else if Included (facts s) = max_uint64
               then (s, ''CounterExhausted'', Some ''transaction counter exhausted'')
               else
                 let last = \<lparr>incl_TxID = TxID (pending_transaction p), incl_BlockID = BlockID inclusion,
                             incl_Success = Success inclusion, incl_ObservedAt = now\<rparr>;
                     done = (pending_nonce p = max_uint64);
                     s' = s\<lparr>facts := (facts s)\<lparr>Included := Included (facts s) + 1, LastInclusion := Some last\<rparr>,
                            exhausted := done,
                            next_nonce := (if done then next_nonce s else pending_nonce p + 1),
                            pending := None\<rparr>
                 in (s', (if Success inclusion then ''Included'' else ''ExecutionRejected''), None)))"

text \<open>The arguments of \<open>Offer\<close>; an option stands for a value the code compares with nil. The clock
  gives its first and second reading, \<open>authorize\<close> the error it returns, if any.\<close>

record 'n offer_args =
  arg_clock :: "(time \<times> time) option"
  arg_node :: "'n option"
  arg_amount :: "int option"
  arg_authorize :: "unit result option"
  arg_build :: "(u64 \<Rightarrow> Transaction result) option"

text \<open>One transmission: the target, the transaction and nonce it was signed for, and the answer.\<close>

record 'n send =
  send_node :: 'n
  send_tx :: Transaction
  send_nonce :: u64
  send_answer :: submit_result

definition refused :: "submit_result \<Rightarrow> Transaction \<Rightarrow> SubmissionRejection option" where
  "refused answer tx =
     (case answer of
        SubmitRejected rejected \<Rightarrow>
          if rej_txid rejected = TxID tx \<and> Definite rejected then Some rejected else None
      | _ \<Rightarrow> None)"

text \<open>The part of \<open>Offer\<close> after authorization: record the submission, send once, classify the answer.\<close>

definition submit_once ::
  "'n Node \<Rightarrow> time \<Rightarrow> 'n \<Rightarrow> Transaction \<Rightarrow> 'n NonceStream \<Rightarrow> 'n NonceStream \<times> outcome \<times> 'n send list" where
  "submit_once N later node tx s =
     (let s1 = s\<lparr>pending := Some \<lparr>pending_node = node, pending_transaction = tx, pending_nonce = next_nonce s\<rparr>,
                 facts := (facts s)\<lparr>Offered := Offered (facts s) + 1, LastTxID := TxID tx\<rparr>,
                 rejectionReason := []\<rparr>;
          answer = node_Submit N node tx;
          sent = [\<lparr>send_node = node, send_tx = tx, send_nonce = next_nonce s, send_answer = answer\<rparr>]
      in case answer of
           SubmitOk \<Rightarrow>
             (s1\<lparr>facts := (facts s1)\<lparr>Accepted := Accepted (facts s1) + 1\<rparr>\<rparr>, (''Accepted'', None), sent)
         | _ \<Rightarrow>
             (case refused answer tx of
                Some rejected \<Rightarrow>
                  let reason = ''Rejected'' @ rej_reason rejected in
                  (s1\<lparr>facts := (facts s1)\<lparr>Rejected := Rejected (facts s1) + 1\<rparr>, pending := None,
                      retryAt := later + 5 * second, rejectionReason := reason\<rparr>, (reason, None), sent)
              | None \<Rightarrow>
                  (s1\<lparr>facts := (facts s1)\<lparr>Uncertain := Uncertain (facts s1) + 1\<rparr>\<rparr>,
                   (''SubmissionUncertain'', None), sent)))"

definition Offer ::
  "'n Node \<Rightarrow> 'n offer_args \<Rightarrow> 'n NonceStream \<Rightarrow> 'n NonceStream \<times> outcome \<times> 'n send list" where
  "Offer N a s =
     (if pending s \<noteq> None then (s, (''AwaitingInclusion'', None), [])
      else case arg_clock a of
        None \<Rightarrow> (s, (''InvalidInputs'', Some ''missing transaction clock''), [])
      | Some (now, later) \<Rightarrow>
        if now < retryAt s then (s, (''RejectionBackoff'', None), [])
        else if exhausted s \<or> Offered (facts s) = max_uint64
        then (s, (''CounterExhausted'', Some ''transaction counter exhausted''), [])
        else case (arg_node a, arg_authorize a, arg_build a, arg_amount a) of
          (Some node, Some authorize, Some build, Some amount) \<Rightarrow>
            if amount < 0 then (s, (''InvalidInputs'', Some ''incomplete transaction inputs''), [])
            else (case node_Account N node (StreamAddress s) of
              Inl err \<Rightarrow> (s, (''AccountUnavailable'', Some err), [])
            | Inr account \<Rightarrow>
              (case (Integer (Balance account), Integer (Locked account)) of
                 (Some available, Some _) \<Rightarrow>
                   let s1 = (if initialized s then s
                             else s\<lparr>next_nonce := AccountNonce account, initialized := True\<rparr>) in
                   if AccountNonce account \<noteq> next_nonce s1 then (s1, (''NonceMismatch'', None), [])
                   else if available < amount then (s1, (''InsufficientFunds'', None), [])
                   else (case build (next_nonce s1) of
                       Inl err \<Rightarrow> (s1, (''ConstructionFailed'', Some err), [])
                     | Inr tx \<Rightarrow>
                         if \<not> Valid tx
                         then (s1, (''ConstructionFailed'', Some ''invalid signed transaction''), [])
                         else (case authorize of
                             Inl err \<Rightarrow> (s1, (''AuthorizationUnavailable'', Some err), [])
                           | Inr _ \<Rightarrow> submit_once N later node tx s1))
               | _ \<Rightarrow> (s, (''AccountUnavailable'', Some ''incomplete account balance''), [])))
        | _ \<Rightarrow> (s, (''InvalidInputs'', Some ''incomplete transaction inputs''), []))"

definition canonicalHash :: "string \<Rightarrow> bool" where
  "canonicalHash v =
     (case hex_decode v of Inl _ \<Rightarrow> False | Inr raw \<Rightarrow> length raw = 32 \<and> hex_encode raw = v)"

definition postcondition_kinds :: "string list" where
  "postcondition_kinds =
     [''PoX4Enrollment'', ''PoX4Extension'', ''ContractDeployment'', ''RegistryInitialization'',
      ''ManagerDeployment'', ''SignerRegistration'', ''PoX5Enrollment'', ''PoX5Extension'']"

definition SettleObserved ::
  "string \<Rightarrow> u64 \<Rightarrow> TransactionPostcondition \<Rightarrow> 'n NonceStream \<Rightarrow> 'n NonceStream \<times> outcome" where
  "SettleObserved txid nextNonce observation s =
     (case pending s of
        None \<Rightarrow> (s, ''ObservationMismatch'', Some ''postcondition does not match pending transaction'')
      | Some p \<Rightarrow>
          if TxID (pending_transaction p) \<noteq> txid \<or> post_TxID observation \<noteq> txid
          then (s, ''ObservationMismatch'', Some ''postcondition does not match pending transaction'')
          else if pending_nonce p = max_uint64 \<or> nextNonce \<noteq> pending_nonce p + 1
          then (s, ''NonceMismatch'', None)
          else if post_Kind observation \<notin> set postcondition_kinds
          then (s, ''ObservationMismatch'', Some ''unsupported postcondition'')
          else if \<not> has_prefix (post_StateDigest observation) ''sha256:''
             \<or> \<not> canonicalHash (trim_prefix (post_StateDigest observation) ''sha256:'')
             \<or> \<not> canonicalHash (post_StacksTip observation) \<or> post_ObservedAt observation = 0
          then (s, ''ObservationMismatch'', Some ''incomplete postcondition evidence'')
          else if PostconditionObserved (facts s) = max_uint64
          then (s, ''CounterExhausted'', Some ''postcondition counter exhausted'')
          else (s\<lparr>facts := (facts s)\<lparr>PostconditionObserved := PostconditionObserved (facts s) + 1,
                                     LastPostcondition := Some observation\<rparr>,
                  next_nonce := nextNonce, pending := None\<rparr>, ''StateObserved'', None))"

section \<open>Executions\<close>

text \<open>The label of a step is what it sent.\<close>

inductive stream_step :: "'n NonceStream \<Rightarrow> 'n send list \<Rightarrow> 'n NonceStream \<Rightarrow> bool" where
  step_offer: "Offer N a s = (s', out, sent) \<Longrightarrow> stream_step s sent s'"
| step_observe: "Observe N now s = (s', out) \<Longrightarrow> stream_step s [] s'"
| step_settle: "SettleObserved txid n obs s = (s', out) \<Longrightarrow> stream_step s [] s'"

definition stream_start :: "'n NonceStream \<Rightarrow> bool" where
  "stream_start s \<longleftrightarrow> s = new_stream (StreamAddress s)"

abbreviation stream_runs :: "'n NonceStream \<Rightarrow> 'n send list list \<Rightarrow> bool" where
  "stream_runs \<equiv> runs stream_start stream_step"

text \<open>The accounting invariant, over the numbers the 64-bit counters stand for, and the pending slot.\<close>

definition answered :: "TransactionExecutionStatus \<Rightarrow> nat" where
  "answered f = unat (Accepted f) + unat (Rejected f) + unat (Uncertain f)"

definition settled :: "TransactionExecutionStatus \<Rightarrow> nat" where
  "settled f = unat (Included f) + unat (PostconditionObserved f) + unat (Rejected f)"

definition pending_ok :: "'n NonceStream \<Rightarrow> 'n pendingSubmission \<Rightarrow> bool" where
  "pending_ok s p \<longleftrightarrow>
     Valid (pending_transaction p) \<and> pending_nonce p = next_nonce s \<and> initialized s \<and> \<not> exhausted s
     \<and> LastTxID (facts s) = TxID (pending_transaction p) \<and> rejectionReason s = []"

definition stream_ok :: "'n NonceStream \<Rightarrow> bool" where
  "stream_ok s \<longleftrightarrow>
     answered (facts s) = unat (Offered (facts s))
     \<and> settled (facts s) + Pending s = unat (Offered (facts s))
     \<and> (case pending s of None \<Rightarrow> True | Some p \<Rightarrow> pending_ok s p)"

lemma unat_less_64: "unat (x :: u64) < 2 ^ 64"
  using unsigned_less [of x, where ?'a = nat] by simp

lemma unat_succ: "(x :: u64) \<noteq> max_uint64 \<Longrightarrow> unat (x + 1) = Suc (unat x)"
proof -
  assume "x \<noteq> max_uint64"
  then have "unat x \<noteq> unat max_uint64" by (simp only: word_unat_eq_iff) simp
  moreover have "unat x < 2 ^ 64" by (rule unat_less_64)
  ultimately show ?thesis by (simp add: unat_word_ariths)
qed

lemma not_max_of_less: "unat (x :: u64) < unat (y :: u64) \<Longrightarrow> x \<noteq> max_uint64"
  using unat_less_64 [of y] by auto

lemma not_max_of_Suc: "unat (x :: u64) + k = unat (y :: u64) \<Longrightarrow> 0 < k \<Longrightarrow> x \<noteq> max_uint64"
  by (rule not_max_of_less [of _ y]) simp

section \<open>What one operation may do\<close>

text \<open>The stream after the account read of \<open>Offer\<close>.\<close>

definition adopt :: "u64 \<Rightarrow> 'n NonceStream \<Rightarrow> 'n NonceStream" where
  "adopt n s = (if initialized s then s else s\<lparr>next_nonce := n, initialized := True\<rparr>)"

lemma adopt_simps [simp]:
  "pending (adopt n s) = pending s" "facts (adopt n s) = facts s" "exhausted (adopt n s) = exhausted s"
  "retryAt (adopt n s) = retryAt s" "rejectionReason (adopt n s) = rejectionReason s"
  "StreamAddress (adopt n s) = StreamAddress s" "initialized (adopt n s)"
  by (simp_all add: adopt_def)

text \<open>\<open>may_send\<close> collects every condition the code requires before it transmits.\<close>

definition may_send :: "'n Node \<Rightarrow> 'n offer_args \<Rightarrow> 'n NonceStream \<Rightarrow> time \<Rightarrow> 'n \<Rightarrow> u64 \<Rightarrow> Transaction \<Rightarrow> bool" where
  "may_send N a s later node n tx \<longleftrightarrow>
     pending s = None \<and> \<not> exhausted s \<and> Offered (facts s) \<noteq> max_uint64
     \<and> (\<exists>now. arg_clock a = Some (now, later) \<and> retryAt s \<le> now)
     \<and> arg_node a = Some node \<and> arg_authorize a = Some (Inr ())
     \<and> (\<exists>build. arg_build a = Some build \<and> build n = Inr tx) \<and> Valid tx
     \<and> (initialized s \<longrightarrow> n = next_nonce s)
     \<and> (\<exists>account amount available locked. node_Account N node (StreamAddress s) = Inr account
          \<and> AccountNonce account = n \<and> arg_amount a = Some amount \<and> 0 \<le> amount
          \<and> Integer (Balance account) = Some available \<and> amount \<le> available
          \<and> Integer (Locked account) = Some locked)"

lemma Offer_cases:
  "(\<exists>n out. Offer N a s = (s, out, []) \<or> Offer N a s = (adopt n s, out, []))
   \<or> (\<exists>later node n tx. may_send N a s later node n tx \<and> next_nonce (adopt n s) = n
        \<and> Offer N a s = submit_once N later node tx (adopt n s))"
proof -
  obtain s' out sent where res: "Offer N a s = (s', out, sent)" by (metis prod_cases3)
  show ?thesis
  proof (cases "\<exists>n. s' = s \<and> sent = [] \<or> s' = adopt n s \<and> sent = []")
    case True
    with res show ?thesis by blast
  next
    case False
    have F: "s' = s \<Longrightarrow> sent \<noteq> []" "s' = adopt n s \<Longrightarrow> sent \<noteq> []" for n using False by blast+
    from res F(1) obtain now later where c: "arg_clock a = Some (now, later)" "retryAt s \<le> now"
      "pending s = None" "\<not> exhausted s" "Offered (facts s) \<noteq> max_uint64"
      by (auto simp: Offer_def split: if_splits option.splits)
    from res F(1) c obtain node authorize build amount account available locked where
      i: "arg_node a = Some node" "arg_authorize a = Some authorize" "arg_build a = Some build"
      "arg_amount a = Some amount" "0 \<le> amount" "node_Account N node (StreamAddress s) = Inr account"
      "Integer (Balance account) = Some available" "Integer (Locked account) = Some locked"
      by (auto simp: Offer_def split: option.splits sum.splits if_splits)
    let ?n = "AccountNonce account"
    have offer: "Offer N a s =
        (if ?n \<noteq> next_nonce (adopt ?n s) then (adopt ?n s, (''NonceMismatch'', None), [])
         else if available < amount then (adopt ?n s, (''InsufficientFunds'', None), [])
         else (case build (next_nonce (adopt ?n s)) of
             Inl err \<Rightarrow> (adopt ?n s, (''ConstructionFailed'', Some err), [])
           | Inr tx \<Rightarrow>
               if \<not> Valid tx
               then (adopt ?n s, (''ConstructionFailed'', Some ''invalid signed transaction''), [])
               else (case authorize of
                   Inl err \<Rightarrow> (adopt ?n s, (''AuthorizationUnavailable'', Some err), [])
                 | Inr _ \<Rightarrow> submit_once N later node tx (adopt ?n s))))"
      using c i by (simp add: Offer_def adopt_def [symmetric] Let_def)
    from res F(2) [of ?n] offer obtain tx where t: "next_nonce (adopt ?n s) = ?n" "amount \<le> available"
      "build ?n = Inr tx" "Valid tx" "authorize = Inr ()"
      "Offer N a s = submit_once N later node tx (adopt ?n s)"
      by (auto split: if_splits sum.splits)
    have "may_send N a s later node ?n tx"
      unfolding may_send_def using c i t by (auto simp: adopt_def)
    with t show ?thesis by blast
  qed
qed

lemma submit_once_effect:
  assumes "submit_once N later node tx s = (s', out, sent)"
  shows "sent = [\<lparr>send_node = node, send_tx = tx, send_nonce = next_nonce s, send_answer = node_Submit N node tx\<rparr>]"
    and "next_nonce s' = next_nonce s" "initialized s' = initialized s" "exhausted s' = exhausted s"
      "StreamAddress s' = StreamAddress s" "Offered (facts s') = Offered (facts s) + 1"
      "LastTxID (facts s') = TxID tx" "Included (facts s') = Included (facts s)"
      "PostconditionObserved (facts s') = PostconditionObserved (facts s)"
    and "(case refused (node_Submit N node tx) tx of
        Some r \<Rightarrow> pending s' = None \<and> Rejected (facts s') = Rejected (facts s) + 1
          \<and> Accepted (facts s') = Accepted (facts s) \<and> Uncertain (facts s') = Uncertain (facts s)
          \<and> retryAt s' = later + 5 * second \<and> rejectionReason s' = ''Rejected'' @ rej_reason r
      | None \<Rightarrow> pending s' = Some \<lparr>pending_node = node, pending_transaction = tx, pending_nonce = next_nonce s\<rparr>
          \<and> Rejected (facts s') = Rejected (facts s) \<and> retryAt s' = retryAt s \<and> rejectionReason s' = []
          \<and> (Accepted (facts s') = Accepted (facts s) + 1 \<and> Uncertain (facts s') = Uncertain (facts s)
             \<or> Accepted (facts s') = Accepted (facts s) \<and> Uncertain (facts s') = Uncertain (facts s) + 1))"
  using assms
  by (auto simp: submit_once_def Let_def refused_def split: submit_result.splits if_splits option.splits)


lemma Observe_cases:
  assumes "Observe N now s = (s', out)"
  shows "s' = s \<or> (\<exists>p i. pending s = Some p \<and> Included (facts s) \<noteq> max_uint64
    \<and> node_Inclusion N (pending_node p) (TxID (pending_transaction p)) = Inr i \<and> Found i
    \<and> pending s' = None \<and> initialized s' = initialized s \<and> StreamAddress s' = StreamAddress s
    \<and> rejectionReason s' = rejectionReason s \<and> retryAt s' = retryAt s
    \<and> facts s' = (facts s)\<lparr>Included := Included (facts s) + 1, LastInclusion := LastInclusion (facts s')\<rparr>
    \<and> exhausted s' = (pending_nonce p = max_uint64)
    \<and> next_nonce s' = (if pending_nonce p = max_uint64 then next_nonce s else pending_nonce p + 1))"
  using assms by (auto simp: Observe_def Let_def split: option.splits sum.splits if_splits)

lemma SettleObserved_cases:
  assumes "SettleObserved txid n obs s = (s', out)"
  shows "s' = s \<or> (\<exists>p. pending s = Some p \<and> PostconditionObserved (facts s) \<noteq> max_uint64
    \<and> TxID (pending_transaction p) = txid \<and> pending_nonce p \<noteq> max_uint64
    \<and> s' = s\<lparr>facts := (facts s)\<lparr>PostconditionObserved := PostconditionObserved (facts s) + 1,
                                  LastPostcondition := Some obs\<rparr>,
             next_nonce := pending_nonce p + 1, pending := None\<rparr>)"
  using assms by (auto simp: SettleObserved_def split: option.splits if_splits)

section \<open>Accounting\<close>

lemma stream_ok_adopt: "stream_ok s \<Longrightarrow> stream_ok (adopt n s)"
  by (cases "initialized s")
    (auto simp: adopt_def stream_ok_def Pending_def pending_ok_def split: option.splits)

lemma stream_ok_submit:
  assumes ok: "stream_ok s" and none: "pending s = None" and i: "initialized s" "\<not> exhausted s" "Valid tx"
    and room: "Offered (facts s) \<noteq> max_uint64" and sub: "submit_once N later node tx s = (s', out, sent)"
  shows "stream_ok s'"
proof -
  note eff = submit_once_effect [OF sub]
  have sum: "answered (facts s) = unat (Offered (facts s))" "settled (facts s) = unat (Offered (facts s))"
    using ok none by (simp_all add: stream_ok_def Pending_def)
  have off: "unat (Offered (facts s')) = Suc (unat (Offered (facts s)))"
    using eff(6) room unat_succ by simp
  have lim: "unat (Offered (facts s)) < unat max_uint64"
    using room unat_less_64 [of "Offered (facts s)"] by (simp add: word_unat_eq_iff)
  have bump: "unat (x + 1) = Suc (unat x)" if "unat x \<le> unat (Offered (facts s))" for x :: u64
    using that lim by (intro unat_succ) auto
  have "unat (Accepted (facts s)) \<le> unat (Offered (facts s))" "unat (Rejected (facts s)) \<le> unat (Offered (facts s))"
    "unat (Uncertain (facts s)) \<le> unat (Offered (facts s))"
    using sum(1) by (simp_all add: answered_def)
  note b = this [THEN bump]
  show ?thesis
  proof (cases "refused (node_Submit N node tx) tx")
    case None
    then show ?thesis using eff none sum off b i
      by (auto simp: stream_ok_def Pending_def pending_ok_def answered_def settled_def)
  next
    case (Some r)
    then show ?thesis using eff none sum off b
      by (auto simp: stream_ok_def Pending_def answered_def settled_def)
  qed
qed

lemma stream_ok_Offer:
  assumes ok: "stream_ok s" and offer: "Offer N a s = (s', out, sent)"
  shows "stream_ok s'"
  using Offer_cases [of N a s]
proof (elim disjE exE conjE)
  fix later node n tx
  assume m: "may_send N a s later node n tx" and sub: "Offer N a s = submit_once N later node tx (adopt n s)"
  from stream_ok_submit [OF stream_ok_adopt [OF ok] _ _ _ _ _ sub [symmetric, unfolded offer]] m
  show ?thesis by (simp add: may_send_def)
qed (use ok offer in \<open>auto simp: stream_ok_adopt\<close>)

lemma stream_ok_Observe:
  assumes ok: "stream_ok s" and obs: "Observe N now s = (s', out)"
  shows "stream_ok s'"
  using Observe_cases [OF obs]
proof (elim disjE exE conjE)
  fix p i
  assume p: "pending s = Some p" "Included (facts s) \<noteq> max_uint64" "pending s' = None"
    and f: "facts s' = (facts s)\<lparr>Included := Included (facts s) + 1, LastInclusion := LastInclusion (facts s')\<rparr>"
  have "answered (facts s') = answered (facts s)" "settled (facts s') = Suc (settled (facts s))"
    "Offered (facts s') = Offered (facts s)"
    by (subst f; simp add: answered_def settled_def unat_succ [OF p(2)])+
  with ok p show ?thesis by (simp add: stream_ok_def Pending_def)
qed (use ok in simp)

lemma stream_ok_SettleObserved:
  assumes ok: "stream_ok s" and set: "SettleObserved txid n obs s = (s', out)"
  shows "stream_ok s'"
  using SettleObserved_cases [OF set] ok
  by (auto simp: stream_ok_def Pending_def answered_def settled_def unat_succ)

lemma stream_startE:
  assumes "stream_start s"
  obtains a where "s = new_stream a"
  using assms by (simp add: stream_start_def)

lemma stream_ok_new [simp]: "stream_ok (new_stream a)"
  by (simp add: new_stream_def stream_ok_def answered_def settled_def Pending_def empty_facts_def)

interpretation stream: invariant_system stream_start stream_step stream_ok
proof (unfold_locales, goal_cases)
  case (1 s)
  then show ?case
    by (auto elim: stream_startE)
next
  case (2 s e s')
  from 2(2,1) show ?case
    by (cases rule: stream_step.cases)
      (auto intro: stream_ok_Offer stream_ok_Observe stream_ok_SettleObserved)
qed


section \<open>Nonce discipline\<close>

definition kept :: "'n send \<Rightarrow> bool" where
  "kept x \<longleftrightarrow> refused (send_answer x) (send_tx x) = None"

definition kept_count :: "'n send list \<Rightarrow> nat" where
  "kept_count h = length (filter kept h)"

text \<open>The first nonce used, and the nonce of every later send: one more for each send before it that
  the node did not definitely refuse.\<close>

definition nonce_chain :: "'n send list \<Rightarrow> bool" where
  "nonce_chain h \<longleftrightarrow>
     (\<forall>i < length h. unat (send_nonce (h ! i)) = unat (send_nonce (h ! 0)) + kept_count (take i h))"

definition nonce_hist :: "'n NonceStream \<Rightarrow> 'n send list \<Rightarrow> bool" where
  "nonce_hist s h \<longleftrightarrow>
     unat (Offered (facts s)) = length h \<and> nonce_chain h
     \<and> (if h = [] then pending s = None \<and> \<not> exhausted s
        else initialized s \<and> unat (next_nonce s) + (if pending s = None \<and> \<not> exhausted s then 0 else 1)
               = unat (send_nonce (h ! 0)) + kept_count h)
     \<and> (case pending s of
          None \<Rightarrow> True
        | Some p \<Rightarrow> h \<noteq> [] \<and> kept (last h) \<and> send_node (last h) = pending_node p
                    \<and> send_tx (last h) = pending_transaction p \<and> send_nonce (last h) = pending_nonce p)"

lemma kept_count_snoc [simp]: "kept_count (h @ [x]) = kept_count h + (if kept x then 1 else 0)"
  by (simp add: kept_count_def)

lemma kept_count_Nil [simp]: "kept_count [] = 0"
  by (simp add: kept_count_def)

lemma nonce_chain_snoc:
  assumes "nonce_chain h"
    and "h \<noteq> [] \<Longrightarrow> unat (send_nonce x) = unat (send_nonce (h ! 0)) + kept_count h"
  shows "nonce_chain (h @ [x])"
proof (cases "h = []")
  case True
  then show ?thesis by (simp add: nonce_chain_def)
next
  case False
  then have first: "(h @ [x]) ! 0 = h ! 0" by (simp add: nth_append)
  have "unat (send_nonce ((h @ [x]) ! i)) = unat (send_nonce (h ! 0)) + kept_count (take i (h @ [x]))"
    if "i < Suc (length h)" for i
    using that assms(1) assms(2) [OF False]
    by (cases "i < length h") (auto simp: nonce_chain_def nth_append less_Suc_eq)
  then show ?thesis unfolding nonce_chain_def first by simp
qed

lemma nonce_hist_adopt: "nonce_hist s h \<Longrightarrow> nonce_hist (adopt n s) h"
  by (cases "initialized s") (auto simp: adopt_def nonce_hist_def split: option.splits if_splits)

lemma nonce_hist_submit:
  assumes hist: "nonce_hist s h" and none: "pending s = None" "initialized s" "\<not> exhausted s"
    and room: "Offered (facts s) \<noteq> max_uint64" and sub: "submit_once N later node tx s = (s', out, sent)"
  shows "nonce_hist s' (h @ sent)"
proof -
  note eff = submit_once_effect [OF sub]
  let ?x = "\<lparr>send_node = node, send_tx = tx, send_nonce = next_nonce s, send_answer = node_Submit N node tx\<rparr>"
  have off: "unat (Offered (facts s')) = length (h @ sent)"
    using eff(1,6) room unat_succ [of "Offered (facts s)"] hist by (simp add: nonce_hist_def)
  have at: "h \<noteq> [] \<Longrightarrow> unat (next_nonce s) = unat (send_nonce (h ! 0)) + kept_count h"
    using hist none by (simp add: nonce_hist_def)
  have chain: "nonce_chain (h @ [?x])"
    using hist at by (intro nonce_chain_snoc) (auto simp: nonce_hist_def)
  have first: "unat (send_nonce ((h @ [?x]) ! 0)) + kept_count h = unat (next_nonce s)"
    using at by (cases "h = []") (auto simp: nth_append)
  show ?thesis
    using off chain first eff none
    by (cases "refused (node_Submit N node tx) tx")
      (simp_all add: nonce_hist_def kept_def del: nth_append)
qed

lemma nonce_hist_Offer:
  assumes hist: "nonce_hist s h" and offer: "Offer N a s = (s', out, sent)"
  shows "nonce_hist s' (h @ sent)"
  using Offer_cases [of N a s]
proof (elim disjE exE conjE)
  fix later node n tx
  assume m: "may_send N a s later node n tx" and sub: "Offer N a s = submit_once N later node tx (adopt n s)"
  from nonce_hist_submit [OF nonce_hist_adopt [OF hist] _ _ _ _ sub [symmetric, unfolded offer]] m
  show ?thesis by (simp add: may_send_def)
qed (use hist offer in \<open>auto simp: nonce_hist_adopt\<close>)

lemma nonce_hist_Observe:
  assumes ok: "stream_ok s" and hist: "nonce_hist s h" and obs: "Observe N now s = (s', out)"
  shows "nonce_hist s' h"
  using Observe_cases [OF obs]
proof (elim disjE exE conjE)
  fix p i
  assume p: "pending s = Some p" "pending s' = None" "initialized s' = initialized s"
    and x: "exhausted s' = (pending_nonce p = max_uint64)"
      "next_nonce s' = (if pending_nonce p = max_uint64 then next_nonce s else pending_nonce p + 1)"
    and f: "facts s' = (facts s)\<lparr>Included := Included (facts s) + 1, LastInclusion := LastInclusion (facts s')\<rparr>"
  have same: "Offered (facts s') = Offered (facts s)" by (subst f) simp
  have "pending_nonce p = next_nonce s" using ok p(1) by (simp add: stream_ok_def pending_ok_def)
  with hist p x same unat_succ [of "next_nonce s"] show ?thesis
    by (auto simp: nonce_hist_def)
qed (use hist in simp)

lemma nonce_hist_SettleObserved:
  assumes ok: "stream_ok s" and hist: "nonce_hist s h" and set: "SettleObserved txid n obs s = (s', out)"
  shows "nonce_hist s' h"
  using SettleObserved_cases [OF set]
proof (elim disjE exE conjE)
  fix p
  assume p: "pending s = Some p" "pending_nonce p \<noteq> max_uint64"
    and s': "s' = s\<lparr>facts := (facts s)\<lparr>PostconditionObserved := PostconditionObserved (facts s) + 1,
                                     LastPostcondition := Some obs\<rparr>,
                   next_nonce := pending_nonce p + 1, pending := None\<rparr>"
  have "pending_nonce p = next_nonce s" "\<not> exhausted s"
    using ok p(1) by (simp_all add: stream_ok_def pending_ok_def)
  with hist p s' unat_succ [of "next_nonce s"] show ?thesis
    by (auto simp: nonce_hist_def)
qed (use hist in simp)

interpretation stream_history: history_system stream_start stream_step "\<lambda>s es. nonce_hist s (concat es)"
proof (unfold_locales, goal_cases)
  case (1 s)
  then show ?case
    by (auto elim!: stream_startE simp: nonce_hist_def new_stream_def empty_facts_def nonce_chain_def)
next
  case (2 s es e s')
  have ok: "stream_ok s" by (rule stream.inv_runs [OF 2(1)])
  from 2(3,2) show ?case
    by (cases rule: stream_step.cases)
      (auto intro: nonce_hist_Offer nonce_hist_Observe [OF ok] nonce_hist_SettleObserved [OF ok])
qed

lemma Offer_result:
  assumes "Offer N a s = (s', out, sent)"
  obtains (kept) "sent = []" "s' = s" | (adopted) n where "sent = []" "s' = adopt n s"
    | (sent) later node n tx where "may_send N a s later node n tx" "next_nonce (adopt n s) = n"
        "submit_once N later node tx (adopt n s) = (s', out, sent)"
  using Offer_cases [of N a s] unfolding assms by (elim disjE exE conjE) auto

lemma Offer_counted:
  assumes "Offer N a s = (s', out, sent)"
  shows "unat (Offered (facts s')) = unat (Offered (facts s)) + length sent \<and> length sent \<le> 1
    \<and> (pending s \<noteq> None \<longrightarrow> sent = [])"
  using assms
proof (cases rule: Offer_result)
  case (sent later node n tx)
  from submit_once_effect(1,6) [OF sent(3)] sent(1) show ?thesis
    by (simp add: may_send_def unat_succ)
qed auto

lemma other_counted:
  "Observe N now s = (s', out) \<Longrightarrow> Offered (facts s') = Offered (facts s)"
  "SettleObserved txid n obs s = (s', out) \<Longrightarrow> Offered (facts s') = Offered (facts s)"
  by (auto simp: Observe_def SettleObserved_def Let_def split: option.splits sum.splits if_splits)

interpretation stream_client: serial_submitter stream_step stream_ok "\<lambda>s. pending s \<noteq> None"
  "\<lambda>s. unat (Offered (facts s))" "\<lambda>s. settled (facts s)"
proof (unfold_locales, goal_cases)
  case (1 s e s')
  then show ?case by (rule stream.inv_step)
next
  case (2 s)
  then show ?case by (simp add: stream_ok_def Pending_def)
next
  case (3 s e s')
  from 3(2,1) show ?case
    by (cases rule: stream_step.cases) (auto dest: Offer_counted simp: other_counted)
next
  case (4 s e s')
  from 4(3,1,2) show ?case
    by (cases rule: stream_step.cases) (auto dest: Offer_counted)
next
  case (5 s e s')
  from 5(2,1) show ?case
    by (cases rule: stream_step.cases) (auto dest: Offer_counted)
qed

section \<open>Digest checks\<close>

definition hex_chars :: string where
  "hex_chars = map char_of ([48..<58] @ [97..<103] @ [65..<71] :: nat list)"

lemma hex_value_chars:
  assumes "hex_value c = Some n"
  shows "c \<in> set hex_chars"
proof -
  define k :: nat where "k = of_char c"
  have "48 \<le> k \<and> k < 58 \<or> 97 \<le> k \<and> k < 103 \<or> 65 \<le> k \<and> k < 71"
    using assms by (auto simp: hex_value_def less_eq_char_def k_def split: if_splits)
  then have "(of_char c :: nat) \<in> set ([48..<58] @ [97..<103] @ [65..<71])"
    unfolding k_def by (simp only: set_append set_upt Un_iff atLeastLessThan_iff)
  then have "char_of (of_char c :: nat) \<in> set hex_chars"
    unfolding hex_chars_def set_map by (rule imageI)
  then show ?thesis by simp
qed

lemma hex_value_lower:
  assumes "hex_value c = Some n"
  shows "hex_digit n = (if CHR ''A'' \<le> c \<and> c \<le> CHR ''Z'' then char_of (of_char c + (32::nat)) else c)"
proof -
  have "list_all (\<lambda>c. hex_digit (the (hex_value c)) =
      (if CHR ''A'' \<le> c \<and> c \<le> CHR ''Z'' then char_of (of_char c + (32::nat)) else c)) hex_chars"
    by code_simp
  with hex_value_chars [OF assms] assms show ?thesis by (auto simp: list_all_iff)
qed

lemma hex_encode_decode: "hex_decode s = Inr b \<Longrightarrow> hex_encode b = to_lower s"
proof (induction s arbitrary: b rule: hex_decode.induct)
  case (3 c d s)
  then obtain h l r where hl: "hex_value c = Some h" "hex_value d = Some l"
    and r: "hex_decode s = Inr r" "b = of_nat (h * 16 + l) # r"
    by (auto simp: result_simps split: option.splits)
  have lt: "h < 16" "l < 16" using hl [THEN hex_value_less] .
  then have "h * 16 + l < 256" by simp
  then have u: "unat (of_nat (h * 16 + l) :: byte) = h * 16 + l" by (simp only: unat_of_nat) simp
  have "(h * 16 + l) div 16 = h" "(h * 16 + l) mod 16 = l" using lt by simp_all
  then have "hex_encode b = hex_digit h # hex_digit l # hex_encode r"
    unfolding r(2) hex_encode_Cons u by simp
  then show ?case
    using "3.IH" [OF refl hl r(1)] hl [THEN hex_value_lower] by (simp add: to_lower_def)
qed (auto simp: to_lower_def)

lemma canonicalHash_valid: "canonicalHash v = validHash v"
  by (auto simp: canonicalHash_def validHash_def hex_encode_decode split: sum.splits)

text \<open>C37: The digest check of the nonce stream and the hash check of the RPC client, written
  independently (one re-encodes the bytes, the other compares with the lower-case text), accept
  exactly the same strings.\<close>

theorem canonicalHash_is_validHash: "canonicalHash v = validHash v"
  by (rule canonicalHash_valid)

section \<open>Properties of the stream\<close>

text \<open>C17: In every execution of a nonce stream, whatever the nodes answer, the published counters account
  for every transmission exactly: \<open>Offered\<close> is the number of transmissions, each was counted once
  as accepted, rejected or uncertain, and once as included, observed through its postcondition,
  rejected, or as the one pending submission. In particular the increments the code leaves
  unguarded never wrap.\<close>

theorem nonce_stream_accounting:
  assumes "stream_runs s es"
  shows "unat (Offered (facts s)) = length (concat es)
    \<and> unat (Accepted (facts s)) + unat (Rejected (facts s)) + unat (Uncertain (facts s)) = length (concat es)
    \<and> unat (Included (facts s)) + unat (PostconditionObserved (facts s)) + unat (Rejected (facts s))
        + Pending s = length (concat es)"
  using stream.inv_runs [OF assms] stream_history.hinv_runs [OF assms]
  by (simp add: stream_ok_def nonce_hist_def answered_def settled_def)

lemma kept_count_append: "kept_count (a @ b) = kept_count a + kept_count b"
  by (simp add: kept_count_def)

lemma kept_count_0: "kept_count h = 0 \<longleftrightarrow> (\<forall>x \<in> set h. refused (send_answer x) (send_tx x) \<noteq> None)"
  by (auto simp: kept_count_def kept_def filter_empty_conv)

text \<open>C2: A nonce is reused only after definite refusals. In every execution the nonces of successive
  transmissions never decrease, and two transmissions carry the same nonce exactly when the
  first and all those between them were answered by a matching allowlisted refusal. An accepted
  or uncertain transaction is therefore never followed by another one with its nonce.\<close>

theorem nonce_reused_only_after_refusal:
  assumes "stream_runs s es" and "concat es = a @ x # m @ y # b"
  shows "unat (send_nonce x) \<le> unat (send_nonce y)
    \<and> (send_nonce x = send_nonce y \<longleftrightarrow>
        list_all (\<lambda>z. refused (send_answer z) (send_tx z) \<noteq> None) (x # m))"
proof -
  have chain: "nonce_chain (concat es)"
    using stream_history.hinv_runs [OF assms(1)] by (simp add: nonce_hist_def)
  let ?h = "concat es" and ?j = "length a + Suc (length m)"
  have "?h ! length a = x" "take (length a) ?h = a" "length a < length ?h"
    "?h ! ?j = y" "take ?j ?h = a @ x # m" "?j < length ?h"
    unfolding assms(2) by (simp_all add: nth_append)
  with chain have "unat (send_nonce y) = unat (send_nonce x) + kept_count (x # m)"
    unfolding nonce_chain_def by (metis add.assoc kept_count_append)
  then have le: "unat (send_nonce x) \<le> unat (send_nonce y)"
    and "send_nonce x = send_nonce y \<longleftrightarrow> kept_count (x # m) = 0"
    by (auto simp: word_unat_eq_iff)
  then show ?thesis unfolding kept_count_0 by (simp add: list_all_iff)
qed

text \<open>C20: \<open>Offer\<close> transmits at most once and only with everything in order: no submission pending, the
  back-off over, counters and nonces left, an authorization that succeeded, a well-identified
  transaction built for the account's current canonical nonce, and enough unlocked funds. The
  stream then remembers exactly that submission unless the node definitely refused it.\<close>

theorem offer_sends_once_authorized:
  assumes "Offer N a s = (s', out, sent)" and "sent \<noteq> []"
  shows "\<exists>later node n tx. may_send N a s later node n tx
    \<and> sent = [\<lparr>send_node = node, send_tx = tx, send_nonce = n, send_answer = node_Submit N node tx\<rparr>]
    \<and> Offered (facts s') = Offered (facts s) + 1 \<and> LastTxID (facts s') = TxID tx
    \<and> pending s' = (if refused (node_Submit N node tx) tx = None
        then Some \<lparr>pending_node = node, pending_transaction = tx, pending_nonce = n\<rparr> else None)"
  using assms(1)
proof (cases rule: Offer_result)
  case (sent later node n tx)
  from submit_once_effect [OF sent(3)] sent(1,2) show ?thesis
    by (intro exI [of _ later] exI [of _ node] exI [of _ n] exI [of _ tx])
      (auto split: option.splits)
qed (use assms(2) in auto)

text \<open>After a definite refusal the nonce is kept and nothing is sent for five seconds: until the clock,
  read again after the answer, has advanced by that much, \<open>Offer\<close> leaves the stream
  unchanged.\<close>

lemma refusal_keeps_nonce_and_backs_off:
  assumes "Offer N a s = (s', out, [x])" and "refused (send_answer x) (send_tx x) = Some r"
    and "arg_clock a = Some (now, later)" and "arg_clock b = Some (t, t')" and "t < later + 5 * second"
  shows "next_nonce s' = send_nonce x \<and> pending s' = None \<and> fst out = ''Rejected'' @ rej_reason r
    \<and> Offer M b s' = (s', (''RejectionBackoff'', None), [])"
  using assms(1)
proof (cases rule: Offer_result)
  case (sent later' node n tx)
  have l: "later' = later" using sent(1) assms(3) by (auto simp: may_send_def)
  note eff = submit_once_effect [OF sent(3)]
  have r: "refused (node_Submit N node tx) tx = Some r" using eff(1) assms(2) by simp
  then have out: "fst out = ''Rejected'' @ rej_reason r"
    using sent(3) by (auto simp: submit_once_def Let_def refused_def split: submit_result.splits if_splits)
  from eff r l sent(2) have "retryAt s' = later + 5 * second" "pending s' = None" "next_nonce s' = n" "send_nonce x = n"
    by simp_all
  with assms(4,5) out show ?thesis by (simp add: Offer_def)
qed auto

text \<open>A pending submission is settled by observation exactly when its original target reports the exact
  transaction in a canonical block. Settling counts one inclusion, records that transaction and
  advances the nonce by one (or exhausts the stream at the largest nonce); otherwise
  nothing changes. The counter-exhaustion branch is unreachable here.\<close>

lemma observe_settles_exactly:
  assumes "stream_runs s es" and "pending s = Some p"
  shows "Observe N now s =
    (case node_Inclusion N (pending_node p) (TxID (pending_transaction p)) of
       Inl err \<Rightarrow> (s, ''InclusionUnavailable'', Some err)
     | Inr i \<Rightarrow>
         if \<not> Found i then (s, ''AwaitingInclusion'', None)
         else (s\<lparr>facts := (facts s)\<lparr>Included := Included (facts s) + 1,
                   LastInclusion := Some \<lparr>incl_TxID = LastTxID (facts s), incl_BlockID = BlockID i,
                                          incl_Success = Success i, incl_ObservedAt = now\<rparr>\<rparr>,
                 exhausted := (next_nonce s = max_uint64),
                 next_nonce := (if next_nonce s = max_uint64 then max_uint64 else next_nonce s + 1),
                 pending := None\<rparr>,
               (if Success i then ''Included'' else ''ExecutionRejected''), None))
    \<and> unat (Included (facts s) + 1) = Suc (unat (Included (facts s)))"
proof -
  have ok: "stream_ok s" by (rule stream.inv_runs [OF assms(1)])
  then have "settled (facts s) + 1 = unat (Offered (facts s))"
    using assms(2) by (simp add: stream_ok_def Pending_def)
  then have "unat (Included (facts s)) < unat (Offered (facts s))" by (simp add: settled_def)
  then have inc: "Included (facts s) \<noteq> max_uint64" by (rule not_max_of_less)
  have "pending_nonce p = next_nonce s" "LastTxID (facts s) = TxID (pending_transaction p)"
    using ok assms(2) by (simp_all add: stream_ok_def pending_ok_def)
  with inc unat_succ [OF inc] assms(2) show ?thesis
    by (auto simp: Observe_def Let_def split: sum.splits)
qed

text \<open>A postcondition settles only the exact pending transaction, with the successor of its nonce and
  complete evidence of a supported kind; it never claims inclusion.\<close>

lemma postcondition_settles_exactly:
  assumes "SettleObserved txid n obs s = (s', ''StateObserved'', None)"
  shows "\<exists>p. pending s = Some p \<and> TxID (pending_transaction p) = txid \<and> post_TxID obs = txid
    \<and> unat n = Suc (unat (pending_nonce p)) \<and> next_nonce s' = n \<and> pending s' = None
    \<and> post_Kind obs \<in> set postcondition_kinds \<and> validHash (post_StacksTip obs)
    \<and> (\<exists>d. post_StateDigest obs = ''sha256:'' @ d \<and> validHash d)
    \<and> Included (facts s') = Included (facts s) \<and> LastInclusion (facts s') = LastInclusion (facts s)"
  using assms has_prefixE [of "post_StateDigest obs" "''sha256:''"]
  by (auto simp: SettleObserved_def canonicalHash_valid unat_succ split: option.splits if_splits)

section \<open>A sample execution\<close>

text \<open>An account at nonce 7, whose first transmission is refused and whose second, after the back-off, is
  accepted and included.\<close>

definition sample_tx :: Transaction where
  "sample_tx = \<lparr>TxBytes = [0], TxID = ID [0]\<rparr>"

definition sample_node :: "submit_result \<Rightarrow> unit Node" where
  "sample_node answer =
     \<lparr>node_Account = (\<lambda>_ _. Inr \<lparr>AccountNonce = 7, Balance = Uint 100, Locked = Uint 0, UnlockHeight = 0\<rparr>),
      node_Submit = (\<lambda>_ _. answer),
      node_Inclusion = (\<lambda>_ _. Inr \<lparr>Found = True, Success = True, BlockID = sample_txid\<rparr>)\<rparr>"

definition sample_refusal :: submit_result where
  "sample_refusal = SubmitRejected \<lparr>rej_reason = ''BadNonce'', rej_txid = TxID sample_tx\<rparr>"

definition sample_args :: "time \<Rightarrow> unit offer_args" where
  "sample_args now =
     \<lparr>arg_clock = Some (now, now + 2), arg_node = Some (), arg_amount = Some 5,
      arg_authorize = Some (Inr ()), arg_build = Some (\<lambda>_. Inr sample_tx)\<rparr>"

definition sample_send :: "submit_result \<Rightarrow> unit send" where
  "sample_send answer = \<lparr>send_node = (), send_tx = sample_tx, send_nonce = 7, send_answer = answer\<rparr>"

definition sample_stream :: "nat \<Rightarrow> unit NonceStream" where
  "sample_stream k =
     (let s0 = new_stream sample_address;
          s1 = fst (Offer (sample_node sample_refusal) (sample_args 10) s0);
          s2 = fst (Offer (sample_node SubmitOk) (sample_args (6 * second)) s1)
      in if k = 0 then s0 else if k = 1 then s1 else s2)"

lemma Valid_sample_tx: "Valid sample_tx"
  by (simp add: Valid_def sample_tx_def)

lemma refused_sample:
  "refused sample_refusal sample_tx = Some \<lparr>rej_reason = ''BadNonce'', rej_txid = TxID sample_tx\<rparr>"
  "refused SubmitOk sample_tx = None"
  by (simp_all add: refused_def sample_refusal_def Definite_def ValidationRejectionReason_def)

lemmas sample_defs = sample_stream_def sample_args_def sample_node_def new_stream_def empty_facts_def Offer_def
  submit_once_def Let_def Valid_sample_tx Uint_def int_value_def sample_send_def

lemma sample_offers:
  "Offer (sample_node sample_refusal) (sample_args 10) (sample_stream 0)
     = (sample_stream 1, (''RejectedBadNonce'', None), [sample_send sample_refusal])"
  "Offer (sample_node SubmitOk) (sample_args (6 * second)) (sample_stream 1)
     = (sample_stream 2, (''Accepted'', None), [sample_send SubmitOk])"
proof -
  have r: "refused (SubmitRejected \<lparr>rej_reason = ''BadNonce'', rej_txid = TxID sample_tx\<rparr>) sample_tx
      = Some \<lparr>rej_reason = ''BadNonce'', rej_txid = TxID sample_tx\<rparr>"
    using refused_sample(1) by (simp add: sample_refusal_def)
  show "Offer (sample_node sample_refusal) (sample_args 10) (sample_stream 0)
     = (sample_stream 1, (''RejectedBadNonce'', None), [sample_send sample_refusal])"
    "Offer (sample_node SubmitOk) (sample_args (6 * second)) (sample_stream 1)
     = (sample_stream 2, (''Accepted'', None), [sample_send SubmitOk])"
    using r by (simp_all add: sample_defs sample_refusal_def)
qed

lemma sample_runs: "stream_runs (sample_stream 2) [[sample_send sample_refusal], [sample_send SubmitOk]]"
proof -
  have "stream_start (sample_stream 0)"
    by (simp add: stream_start_def sample_stream_def new_stream_def)
  then have "stream_runs (sample_stream 0) []" by (rule runs_start)
  from runs_step [OF runs_step [OF this step_offer [OF sample_offers(1)]]
      step_offer [OF sample_offers(2)]]
  show ?thesis by simp
qed

lemma sample_pending:
  "pending (sample_stream 2) = Some \<lparr>pending_node = (), pending_transaction = sample_tx, pending_nonce = 7\<rparr>"
  "PostconditionObserved (facts (sample_stream 2)) = 0"
proof -
  have r: "refused (SubmitRejected \<lparr>rej_reason = ''BadNonce'', rej_txid = TxID sample_tx\<rparr>) sample_tx
      = Some \<lparr>rej_reason = ''BadNonce'', rej_txid = TxID sample_tx\<rparr>"
    using refused_sample(1) by (simp add: sample_refusal_def)
  show "pending (sample_stream 2) = Some \<lparr>pending_node = (), pending_transaction = sample_tx, pending_nonce = 7\<rparr>"
    "PostconditionObserved (facts (sample_stream 2)) = 0"
    using r by (simp_all add: sample_defs sample_refusal_def)
qed

theorem nonce_stream_accounting_witness:
  "unat (Offered (facts (sample_stream 2))) = 2"
  using nonce_stream_accounting [OF sample_runs] by simp

theorem nonce_reused_only_after_refusal_witness:
  "send_nonce (sample_send sample_refusal) = send_nonce (sample_send SubmitOk)
   \<and> refused (send_answer (sample_send sample_refusal)) (send_tx (sample_send sample_refusal)) \<noteq> None"
  using nonce_reused_only_after_refusal [OF sample_runs, of "[]" "sample_send sample_refusal" "[]" "sample_send SubmitOk" "[]"]
  by (simp add: sample_send_def)

theorem offer_sends_once_authorized_witness:
  "\<exists>later node n tx. may_send (sample_node SubmitOk) (sample_args (6 * second)) (sample_stream 1) later node n tx"
  using offer_sends_once_authorized [OF sample_offers(2)] by blast

lemma refusal_keeps_nonce_and_backs_off_sample:
  "next_nonce (sample_stream 1) = 7
   \<and> Offer (sample_node SubmitOk) (sample_args (4 * second)) (sample_stream 1)
       = (sample_stream 1, (''RejectionBackoff'', None), [])"
proof -
  have c: "arg_clock (sample_args t) = Some (t, t + 2)" for t by (simp add: sample_args_def)
  have r: "refused (send_answer (sample_send sample_refusal)) (send_tx (sample_send sample_refusal))
      = Some \<lparr>rej_reason = ''BadNonce'', rej_txid = TxID sample_tx\<rparr>"
    using refused_sample(1) by (simp add: sample_send_def)
  from refusal_keeps_nonce_and_backs_off [OF sample_offers(1) r c c [of "4 * second"]]
  show ?thesis by (simp add: sample_send_def)
qed

lemma observe_settles_exactly_sample:
  "\<exists>s'. Observe (sample_node SubmitOk) (7 * second) (sample_stream 2) = (s', ''Included'', None)
     \<and> pending s' = None \<and> unat (Included (facts (sample_stream 2)) + 1) = Suc (unat (Included (facts (sample_stream 2))))"
proof -
  note p = sample_pending(1)
  have i: "node_Inclusion (sample_node SubmitOk) n t = Inr \<lparr>Found = True, Success = True, BlockID = sample_txid\<rparr>"
    for n t by (simp add: sample_node_def)
  from observe_settles_exactly [OF sample_runs p, of "sample_node SubmitOk" "7 * second"] show ?thesis
    by (simp add: i)
qed

definition sample_postcondition :: TransactionPostcondition where
  "sample_postcondition =
     \<lparr>post_TxID = TxID sample_tx, post_Kind = ''PoX4Enrollment'', post_StateDigest = ''sha256:'' @ sample_txid,
      post_StacksTip = sample_txid, post_ObservedAt = 5\<rparr>"

lemma postcondition_settles_exactly_sample:
  "\<exists>s' p. SettleObserved (TxID sample_tx) 8 sample_postcondition (sample_stream 2) = (s', ''StateObserved'', None)
     \<and> pending (sample_stream 2) = Some p \<and> next_nonce s' = 8"
proof -
  have h: "canonicalHash sample_txid" by code_simp
  have "\<exists>s'. SettleObserved (TxID sample_tx) 8 sample_postcondition (sample_stream 2) = (s', ''StateObserved'', None)"
    using h sample_pending
    by (simp add: SettleObserved_def sample_postcondition_def postcondition_kinds_def has_prefix_def trim_prefix_def)
  then show ?thesis using postcondition_settles_exactly by blast
qed

end
