(* ===== verification/Foundation_Policy.thy ===== *)
theory Foundation_Policy
  imports Prelude
begin

text \<open>
  Model of \<open>operators/network/internal/foundation/observation.go\<close>: the release's observation policy and the
  horizons the other components derive from it.
\<close>

record ObservationPolicy =
  Profile :: string
  PollIntervalSeconds :: int
  RPCAllowanceSeconds :: int
  HeartbeatIntervalSeconds :: int
  ProgressGraceSeconds :: int

definition observation_policy :: ObservationPolicy where
  "observation_policy =
     \<lparr>Profile = ''regtest-pox4-pox5-v1'', PollIntervalSeconds = 2, RPCAllowanceSeconds = 10,
      HeartbeatIntervalSeconds = 5, ProgressGraceSeconds = 120\<rparr>"

abbreviation poll_interval :: int where "poll_interval \<equiv> PollIntervalSeconds observation_policy * second"

definition ObservationFreshness :: int where
  "ObservationFreshness =
     (3 * PollIntervalSeconds observation_policy + RPCAllowanceSeconds observation_policy) * second"

definition ProgressWindow :: "int \<Rightarrow> int" where
  "ProgressWindow cadenceUpperBound =
     max (ProgressGraceSeconds observation_policy * second) (3 * cadenceUpperBound)
     + RPCAllowanceSeconds observation_policy * second"

lemma poll_interval_eq [simp]: "PollIntervalSeconds observation_policy = 2"
  by (simp add: observation_policy_def)

lemma ObservationFreshness_eq [simp]: "ObservationFreshness = 16 * second"
  by (simp add: ObservationFreshness_def observation_policy_def)

lemma ProgressWindow_eq [simp]: "ProgressWindow c = max (120 * second) (3 * c) + 10 * second"
  by (simp add: ProgressWindow_def observation_policy_def)

end
