(* ===== verification/Transfer_Role.thy ===== *)
theory Transfer_Role
  imports Nonce_Stream Foundation_Policy
begin

text \<open>
  Model of \<open>applied_inputs.go\<close>, \<open>traffic.go\<close> and \<open>traffic_observation.go\<close> of
  \<open>operators/network/internal/stacksoperation\<close>: the role that offers one small transfer at a time. What
  the role sees of a \<open>stacksworker.Snapshot\<close> is a record of views; the callbacks of the snapshot, the
  policy resolver, the clock and the node are arguments of each step, so that their answers may
  change between calls. The effect of the callbacks on the surrounding runtime is not part of the role.
\<close>

section \<open>Applied inputs (applied_inputs.go)\<close>

text \<open>A snapshot as the roles read it: \<open>view_digest\<close> is \<open>None\<close> when the participant or its admission
  is nil.\<close>

record view =
  CachedApplied :: bool
  Paused :: bool
  view_digest :: "string option"
  view_Authorize :: "unit result option"

record 'i appliedInputs =
  applied_digest :: string
  applied_value :: "'i option"

definition cached_inputs :: "'i appliedInputs \<Rightarrow> string \<Rightarrow> view \<Rightarrow> 'i result" where
  "cached_inputs c applied v =
     (case (applied_value c, view_digest v) of
        (Some x, Some d) \<Rightarrow>
          if applied_digest c \<noteq> applied \<or> applied_digest c \<noteq> d
          then Inl ''applied input cache unavailable'' else Inr x
      | _ \<Rightarrow> Inl ''applied input cache unavailable'')"

definition no_inputs :: "'i appliedInputs" where
  "no_inputs = \<lparr>applied_digest = [], applied_value = None\<rparr>"

text \<open>The callbacks: \<open>fallback\<close> is \<open>None\<close> when nil, and its result \<open>None\<close> for a false \<open>ok\<close>.\<close>

type_synonym fallback = "(string \<Rightarrow> string \<Rightarrow> view option) option"

definition resolve_applied ::
  "'i appliedInputs \<Rightarrow> view \<Rightarrow> string \<Rightarrow> 'i result \<Rightarrow> fallback \<Rightarrow> (string \<Rightarrow> bool)
     \<Rightarrow> 'i appliedInputs \<times> ('i \<times> view) result" where
  "resolve_applied c v applied resolved fb transient =
     (if CachedApplied v then (c, rbind (cached_inputs c applied v) (\<lambda>x. Inr (x, v)))
      else case resolved of
        Inr x \<Rightarrow> (c, Inr (x, v))
      | Inl err \<Rightarrow>
          (case (case fb of None \<Rightarrow> None | Some f \<Rightarrow> f applied err) of
             Some v' \<Rightarrow> (c, rbind (cached_inputs c applied v') (\<lambda>x. Inr (x, v')))
           | None \<Rightarrow> ((if transient err then c else no_inputs), Inl err)))"

definition remember :: "view \<Rightarrow> 'i \<Rightarrow> 'i appliedInputs \<Rightarrow> 'i appliedInputs" where
  "remember v x c =
     (if CachedApplied v then c
      else case view_digest v of
        Some d \<Rightarrow> \<lparr>applied_digest = d, applied_value = Some x\<rparr>
      | None \<Rightarrow> c)"

section \<open>State (traffic.go)\<close>

record TrafficObservation =
  traffic_Available :: bool
  traffic_Found :: bool
  traffic_Success :: bool
  traffic_TxID :: string
  traffic_BlockID :: string
  traffic_IndexBlockID :: string
  SubmittedBurnHeight :: u64
  traffic_BurnHeight :: u64
  traffic_ObservedAt :: time
  TargetParticipantUID :: string
  TargetPodUID :: string
  TargetContainerID :: string
  TargetConfigurationDigest :: string
  GenesisUID :: string
  EffectiveIntervalSeconds :: u64
  ProgressWindowSeconds :: u64

record 'n TransferInputs =
  in_Node :: "'n option"
  in_Target :: TrafficObservation
  in_Recipient :: string
  in_Amount :: u64
  in_Fee :: u64
  in_Interval :: int
  in_StartHeight :: u64

record 'n TransferRole =
  role_key :: string
  role_stream :: "'n NonceStream"
  role_next :: time
  role_applied :: string
  role_inputs :: "'n TransferInputs appliedInputs"
  pendingTarget :: "'n TransferInputs option"
  includedTarget :: "'n TransferInputs option"
  role_traffic :: "TrafficObservation option"
  nextObservation :: time
  role_interval :: int

record RoleResult =
  res_Traffic :: "TrafficObservation option"
  res_Blocked :: bool
  res_Transactions :: TransactionExecutionStatus
  res_AppliedPolicyDigest :: string
  res_Pending :: nat
  res_Reason :: string
  res_RequeueAfter :: int

text \<open>\<open>TrafficNode\<close>: the node interface with the chain reads; a recheck brackets the inclusion read with
  two chain views.\<close>

record 'n TrafficNode = "'n Node" +
  node_Info :: "'n \<Rightarrow> Info result"
  node_ViewBefore :: "'n \<Rightarrow> ChainView result"
  node_Recheck :: "'n \<Rightarrow> string \<Rightarrow> Inclusion result"
  node_ViewAfter :: "'n \<Rightarrow> ChainView result"

text \<open>Everything outside the role that one step reads. The policy is resolved once before the step
  works with it and once in \<open>authorize\<close>; \<open>None\<close> is a nil \<open>Resolve\<close>.\<close>

record 'n step_env =
  env_now :: time
  env_clock :: "time \<times> time"
  env_Resolve :: "('n TransferInputs result \<times> 'n TransferInputs result) option"
  env_fallback :: fallback
  env_fallback_authorize :: fallback
  env_transient :: "string \<Rightarrow> bool"

definition NewTransferRole :: "('sk, 'pk) crypto \<Rightarrow> string \<Rightarrow> string \<Rightarrow> 'n TransferRole result" where
  "NewTransferRole C privateKey address =
     (case CompressedPrivateKey C privateKey of
        Inl _ \<Rightarrow> Inl ''invalid transfer signing key''
      | Inr key \<Rightarrow>
          (case FromPrivate C key of
             Inl _ \<Rightarrow> Inl ''transfer signing identity differs''
           | Inr identity \<Rightarrow>
               if Address identity \<noteq> address then Inl ''transfer signing identity differs''
               else Inr \<lparr>role_key = key, role_stream = new_stream address, role_next = 0, role_applied = [],
                         role_inputs = no_inputs, pendingTarget = None, includedTarget = None,
                         role_traffic = None, nextObservation = 0, role_interval = 0\<rparr>))"

section \<open>Canonical rechecks (traffic_observation.go)\<close>

definition captureInclusion :: "'n TransferRole \<Rightarrow> 'n TransferRole" where
  "captureInclusion r =
     (case (pendingTarget r, LastInclusion (facts (role_stream r))) of
        (Some target, Some latest) \<Rightarrow>
          if Pending (role_stream r) \<noteq> 0 then r
          else r\<lparr>includedTarget := Some target, pendingTarget := None,
                 role_traffic := Some ((in_Target target)\<lparr>traffic_TxID := incl_TxID latest\<rparr>),
                 nextObservation := 0\<rparr>
      | _ \<Rightarrow> r)"

definition trafficEvidence :: "'n TransferRole \<Rightarrow> TrafficObservation option" where
  "trafficEvidence r =
     (case role_traffic r of
        None \<Rightarrow> None
      | Some t \<Rightarrow> if traffic_ObservedAt t = 0 then None else Some t)"

text \<open>\<open>now.UTC().Truncate(time.Second)\<close> and \<open>d / time.Second\<close> of a nonnegative duration.\<close>

definition truncate_second :: "time \<Rightarrow> time" where
  "truncate_second t = t - t mod second"

definition seconds :: "int \<Rightarrow> u64" where
  "seconds d = of_int (d div second)"

definition observeTraffic :: "'n TrafficNode \<Rightarrow> time \<Rightarrow> 'n TransferRole \<Rightarrow> 'n TransferRole" where
  "observeTraffic N now r =
     (case (includedTarget r, role_traffic r) of
        (Some target, Some t) \<Rightarrow>
          let t1 = t\<lparr>EffectiveIntervalSeconds := seconds (role_interval r),
                     ProgressWindowSeconds := seconds (ProgressWindow (role_interval r))\<rparr>
          in if now < nextObservation r then r\<lparr>role_traffic := Some t1\<rparr>
             else
               let t2 = t1\<lparr>traffic_Available := False\<rparr>;
                   failed = r\<lparr>nextObservation := now + poll_interval, role_traffic := Some t2\<rparr>
               in (case in_Node target of
                     None \<Rightarrow> failed
                   | Some node \<Rightarrow>
                       (case node_ViewBefore N node of
                          Inl _ \<Rightarrow> failed
                        | Inr before \<Rightarrow>
                            if \<not> FullySynced before \<or> NetworkID before \<noteq> 0x80000000 then failed
                            else (case node_Recheck N node (traffic_TxID t2) of
                                Inl _ \<Rightarrow> failed
                              | Inr inclusion \<Rightarrow>
                                  (case node_ViewAfter N node of
                                     Inl _ \<Rightarrow> failed
                                   | Inr after \<Rightarrow>
                                       if before \<noteq> after then failed
                                       else failed\<lparr>role_traffic := Some (t2\<lparr>
                                           traffic_Available := True,
                                           traffic_Found := Found inclusion,
                                           traffic_Success := (Found inclusion \<and> Success inclusion),
                                           traffic_BlockID := (if Found inclusion then BlockID inclusion else []),
                                           traffic_IndexBlockID := IndexBlockID before,
                                           traffic_BurnHeight := BurnHeight before,
                                           traffic_ObservedAt := truncate_second now\<rparr>)\<rparr>))))
      | _ \<Rightarrow> r)"

definition trafficBindingEqual :: "TrafficObservation \<Rightarrow> TrafficObservation \<Rightarrow> bool" where
  "trafficBindingEqual a b \<longleftrightarrow>
     TargetParticipantUID a = TargetParticipantUID b \<and> TargetPodUID a = TargetPodUID b
     \<and> TargetContainerID a = TargetContainerID b
     \<and> TargetConfigurationDigest a = TargetConfigurationDigest b \<and> GenesisUID a = GenesisUID b"

text \<open>\<open>authorize\<close>: the error, if any, and whether it withdraws the cached inputs.\<close>

definition transfer_authorize ::
  "view \<Rightarrow> 'n TransferInputs result \<Rightarrow> fallback \<Rightarrow> string \<Rightarrow> 'n TransferInputs \<Rightarrow> unit result \<times> bool" where
  "transfer_authorize v resolved fb applied prepared =
     (case view_Authorize v of
        None \<Rightarrow> (Inl ''submission authorization unavailable'', False)
      | Some (Inl err) \<Rightarrow> (Inl err, False)
      | Some (Inr _) \<Rightarrow>
          (case resolved of
             Inl err \<Rightarrow>
               ((case (case fb of None \<Rightarrow> None | Some f \<Rightarrow> f applied err) of
                   Some v' \<Rightarrow>
                     if Paused v' then Inl err
                     else (case view_Authorize v' of None \<Rightarrow> Inl err | Some result \<Rightarrow> result)
                 | None \<Rightarrow> Inl err), False)
           | Inr current \<Rightarrow>
               if \<not> trafficBindingEqual (in_Target current) (in_Target prepared)
               then (Inl ''prepared ingress identity changed'', True)
               else (Inr (), False)))"

section \<open>Steps (traffic.go)\<close>

definition transfer_result :: "'n TransferRole \<Rightarrow> string \<Rightarrow> int \<Rightarrow> RoleResult" where
  "transfer_result r reason delay =
     \<lparr>res_Traffic = None,
      res_Blocked = (reason \<notin> set [''Paused'', ''WaitingCadence'', ''Accepted'', ''Included'', ''Idle'', ''AwaitingInclusion'']),
      res_Transactions = facts (role_stream r), res_AppliedPolicyDigest = role_applied r,
      res_Pending = Pending (role_stream r), res_Reason = reason, res_RequeueAfter = delay\<rparr>"

definition transfer_build :: "('sk, 'pk) crypto \<Rightarrow> string \<Rightarrow> 'n TransferInputs \<Rightarrow> u64 \<Rightarrow> Transaction result" where
  "transfer_build C key input nonce =
     Transfer C \<lparr>Version = Testnet, ChainID = 0x80000000, Nonce = nonce, Fee = in_Fee input,
                 PostConditionMode = Deny, PrivateKey = key\<rparr> (in_Recipient input) (in_Amount input) []"

definition valid_policy :: "'n TransferInputs \<Rightarrow> bool" where
  "valid_policy input \<longleftrightarrow>
     \<not> (in_Node input = None \<or> in_Amount input = 0 \<or> in_Fee input = 0
        \<or> in_Interval input < second \<or> in_Interval input > 3600 * second)"

text \<open>The part of \<open>Step\<close> after the policy is adopted: cadence, chain identity, and one offer.\<close>

definition offer_transfer ::
  "('sk, 'pk) crypto \<Rightarrow> 'n TrafficNode \<Rightarrow> 'n step_env \<Rightarrow> view \<Rightarrow> 'n TransferInputs \<Rightarrow> 'n TransferRole
     \<Rightarrow> 'n TransferRole \<times> RoleResult \<times> 'n send list" where
  "offer_transfer C N e v input r =
     (if env_now e < role_next r
      then let reason = (if rejectionReason (role_stream r) \<noteq> [] then rejectionReason (role_stream r)
                         else ''WaitingCadence'')
           in (r, transfer_result r reason (role_next r - env_now e), [])
      else case in_Node input of
        None \<Rightarrow> (r, transfer_result r ''InvalidPolicy'' second, [])
      | Some node \<Rightarrow>
          (case node_Info N node of
             Inl _ \<Rightarrow> (r, transfer_result r ''ChainUnavailable'' second, [])
           | Inr info \<Rightarrow>
               if NetworkID info \<noteq> 0x80000000 then (r, transfer_result r ''ChainIdentityMismatch'' second, [])
               else if BurnHeight info < in_StartHeight input
               then (r, transfer_result r ''AwaitingEpoch3'' second, [])
               else
                 let (auth, withdraw) = transfer_authorize v (snd (the (env_Resolve e))) (env_fallback_authorize e)
                                          (role_applied r) input;
                     args = \<lparr>arg_clock = Some (env_clock e), arg_node = Some node,
                             arg_amount = Some (uint (in_Amount input) + uint (in_Fee input)),
                             arg_authorize = Some auth, arg_build = Some (transfer_build C (role_key r) input)\<rparr>;
                     (stream', (reason, err), sent) = Offer (Node.truncate N) args (role_stream r);
                     r1 = r\<lparr>role_stream := stream',
                            role_inputs := (if reason = ''AuthorizationUnavailable'' \<and> withdraw then no_inputs
                                            else role_inputs r)\<rparr>
                 in if err \<noteq> None then (r1, transfer_result r1 reason second, sent)
                    else
                      let r2 = (if Offered (facts stream') \<noteq> Offered (facts (role_stream r))
                                then r1\<lparr>role_next := env_now e + in_Interval input\<rparr> else r1);
                          r3 = (if Pending stream' \<noteq> 0
                                then r2\<lparr>pendingTarget := Some (input\<lparr>in_Target :=
                                       (in_Target input)\<lparr>SubmittedBurnHeight := BurnHeight info\<rparr>\<rparr>)\<rparr>
                                else r2)
                      in (r3, transfer_result r3 reason second, sent)))"

text \<open>\<open>Step\<close> before its deferred recheck.\<close>

definition transfer_step_body ::
  "('sk, 'pk) crypto \<Rightarrow> 'n TrafficNode \<Rightarrow> 'n step_env \<Rightarrow> view \<Rightarrow> 'n TransferRole
     \<Rightarrow> 'n TransferRole \<times> RoleResult \<times> 'n send list" where
  "transfer_step_body C N e v r =
     (if Pending (role_stream r) \<noteq> 0
      then let (stream', (reason, err)) = Observe (Node.truncate N) (env_now e) (role_stream r);
               r1 = captureInclusion (r\<lparr>role_stream := stream'\<rparr>)
           in (r1, transfer_result r1 (if err \<noteq> None then ''InclusionUnavailable'' else reason) second, [])
      else if Paused v then (r, transfer_result r ''Paused'' second, [])
      else case (env_Resolve e, view_digest v) of
        (Some (resolved, _), Some _) \<Rightarrow>
          (case resolve_applied (role_inputs r) v (role_applied r) resolved (env_fallback e) (env_transient e) of
             (c, Inl _) \<Rightarrow>
               let r1 = r\<lparr>role_inputs := c\<rparr> in (r1, transfer_result r1 ''DependenciesUnavailable'' second, [])
           | (c, Inr (input, v')) \<Rightarrow>
               if \<not> valid_policy input
               then let r1 = r\<lparr>role_inputs := no_inputs\<rparr> in (r1, transfer_result r1 ''InvalidPolicy'' second, [])
               else
                 let digest = (case view_digest v' of None \<Rightarrow> [] | Some d \<Rightarrow> d);
                     r1 = r\<lparr>role_inputs := remember v' input c, role_interval := in_Interval input\<rparr>;
                     r2 = (if role_applied r1 \<noteq> digest
                           then r1\<lparr>role_applied := digest, role_next := env_now e\<rparr> else r1)
                 in offer_transfer C N e v' input r2)
      | _ \<Rightarrow> (r, transfer_result r ''PolicyUnavailable'' second, []))"

definition transfer_Step ::
  "('sk, 'pk) crypto \<Rightarrow> 'n TrafficNode \<Rightarrow> 'n step_env \<Rightarrow> view \<Rightarrow> 'n TransferRole
     \<Rightarrow> 'n TransferRole \<times> RoleResult \<times> 'n send list" where
  "transfer_Step C N e v r =
     (let (r1, result, sent) = transfer_step_body C N e v r;
          r2 = observeTraffic N (env_now e) r1
      in (r2, result\<lparr>res_Traffic := trafficEvidence r2,
                     res_RequeueAfter := min (res_RequeueAfter result) poll_interval\<rparr>, sent))"

text \<open>\<open>Drain\<close> reads the clock twice and never sends.\<close>

record DrainResult =
  drain_Done :: bool
  drain_Settled :: bool
  drain_Pending :: nat
  drain_Transactions :: TransactionExecutionStatus
  drain_Traffic :: "TrafficObservation option"

definition transfer_Drain ::
  "'n TrafficNode \<Rightarrow> time \<Rightarrow> time \<Rightarrow> 'n TransferRole \<Rightarrow> 'n TransferRole \<times> DrainResult \<times> string option" where
  "transfer_Drain N now later r =
     (let (stream', (_, err)) = Observe (Node.truncate N) now (role_stream r);
          r1 = observeTraffic N later (captureInclusion (r\<lparr>role_stream := stream'\<rparr>));
          p = Pending (role_stream r1)
      in (r1, \<lparr>drain_Done = (p = 0), drain_Settled = (p = 0), drain_Pending = p,
               drain_Transactions = facts (role_stream r1), drain_Traffic = trafficEvidence r1\<rparr>, err))"

section \<open>The role drives its stream\<close>

lemma captureInclusion_keeps [simp]:
  "role_stream (captureInclusion r) = role_stream r" "role_next (captureInclusion r) = role_next r"
  "role_applied (captureInclusion r) = role_applied r" "role_inputs (captureInclusion r) = role_inputs r"
  "role_key (captureInclusion r) = role_key r" "role_interval (captureInclusion r) = role_interval r"
  by (simp_all add: captureInclusion_def split: option.splits)

lemma observeTraffic_keeps [simp]:
  "role_stream (observeTraffic N now r) = role_stream r" "role_next (observeTraffic N now r) = role_next r"
  "role_applied (observeTraffic N now r) = role_applied r" "role_inputs (observeTraffic N now r) = role_inputs r"
  "role_key (observeTraffic N now r) = role_key r" "role_interval (observeTraffic N now r) = role_interval r"
  "pendingTarget (observeTraffic N now r) = pendingTarget r"
  by (auto simp: observeTraffic_def Let_def split: option.splits sum.splits)

text \<open>The offer of a step, when its guards pass: the adopted role and the arguments it gives \<open>Offer\<close>.\<close>

definition transfer_args ::
  "('sk, 'pk) crypto \<Rightarrow> 'n step_env \<Rightarrow> view \<Rightarrow> 'n TransferInputs \<Rightarrow> 'n \<Rightarrow> 'n TransferRole \<Rightarrow> 'n offer_args" where
  "transfer_args C e v input node r =
     \<lparr>arg_clock = Some (env_clock e), arg_node = Some node,
      arg_amount = Some (uint (in_Amount input) + uint (in_Fee input)),
      arg_authorize = Some (fst (transfer_authorize v (snd (the (env_Resolve e))) (env_fallback_authorize e)
                                   (role_applied r) input)),
      arg_build = Some (transfer_build C (role_key r) input)\<rparr>"

lemma offer_transfer_cases:
  assumes "offer_transfer C N e v input r = (r', result, sent)"
  shows "role_applied r' = role_applied r \<and> role_key r' = role_key r \<and>
    (sent = [] \<and> role_stream r' = role_stream r \<and> role_next r' = role_next r
     \<or> role_next r \<le> env_now e \<and> (\<exists>node info stream' out. in_Node input = Some node \<and> node_Info N node = Inr info
         \<and> NetworkID info = 0x80000000 \<and> in_StartHeight input \<le> BurnHeight info
         \<and> Offer (Node.truncate N) (transfer_args C e v input node r) (role_stream r) = (stream', out, sent)
         \<and> role_stream r' = stream'
         \<and> (snd out = None \<longrightarrow> Offered (facts stream') \<noteq> Offered (facts (role_stream r)) \<longrightarrow>
              role_next r' = env_now e + in_Interval input)))"
proof -
  consider (wait) "env_now e < role_next r" | (quiet) "role_next r \<le> env_now e"
      "in_Node input = None \<or> (\<exists>node. in_Node input = Some node \<and> (case node_Info N node of Inl _ \<Rightarrow> True
        | Inr info \<Rightarrow> NetworkID info \<noteq> 0x80000000 \<or> BurnHeight info < in_StartHeight input))"
    | (offer) node info where "role_next r \<le> env_now e" "in_Node input = Some node" "node_Info N node = Inr info"
        "NetworkID info = 0x80000000" "in_StartHeight input \<le> BurnHeight info"
  proof (cases "env_now e < role_next r")
    case False
    note F = this
    show ?thesis
    proof (cases "in_Node input")
      case (Some node)
      then show ?thesis using F quiet offer
        by (cases "node_Info N node") (auto simp: not_less, meson linorder_not_less)
    qed (use F quiet in auto)
  qed (use wait in blast)
  then show ?thesis
  proof cases
    case wait
    then show ?thesis using assms by (auto simp: offer_transfer_def Let_def)
  next
    case quiet
    then show ?thesis using assms
      by (auto simp: offer_transfer_def split: option.splits sum.splits if_splits)
  next
    case (offer node info)
    obtain stream' reason err sent' where o: "Offer (Node.truncate N) (transfer_args C e v input node r) (role_stream r)
        = (stream', (reason, err), sent')" by (metis surj_pair)
    show ?thesis using assms offer o
      by (cases "transfer_authorize v (snd (the (env_Resolve e))) (env_fallback_authorize e) (role_applied r) input")
        (auto simp: offer_transfer_def Let_def transfer_args_def split: if_splits)
  qed
qed

lemma resolve_applied_cases:
  assumes "resolve_applied c v applied resolved fb transient = (c', Inr (x, v'))" and "view_digest v = Some d"
  shows "v' = v \<and> \<not> CachedApplied v \<and> resolved = Inr x
    \<or> applied_value c = Some x \<and> applied_digest c = applied \<and> view_digest v' = Some applied"
  using assms
  by (auto simp: resolve_applied_def cached_inputs_def result_simps split: if_splits sum.splits option.splits)

text \<open>The policy a step works with: the live one, or the remembered one with its own digest.\<close>

definition step_policy :: "view \<Rightarrow> 'n step_env \<Rightarrow> 'n TransferRole \<Rightarrow> 'n TransferInputs \<Rightarrow> string \<Rightarrow> bool" where
  "step_policy v e r input digest \<longleftrightarrow>
     \<not> CachedApplied v \<and> view_digest v = Some digest \<and> (\<exists>later. env_Resolve e = Some (Inr input, later))
     \<or> applied_value (role_inputs r) = Some input \<and> applied_digest (role_inputs r) = digest \<and> digest = role_applied r"

lemma transfer_Step_cases:
  assumes "transfer_Step C N e v r = (r', result, sent)"
  obtains (observe) out where "pending (role_stream r) \<noteq> None" "sent = []"
      "Observe (Node.truncate N) (env_now e) (role_stream r) = (role_stream r', out)"
      "role_next r' = role_next r" "role_applied r' = role_applied r" "role_key r' = role_key r"
    | (idle) "sent = []" "role_stream r' = role_stream r" "role_next r' = role_next r"
        "role_applied r' = role_applied r" "role_key r' = role_key r"
    | (policy) input digest v' s s' result' where "pending (role_stream r) = None" "\<not> Paused v" "valid_policy input"
        "step_policy v e r input digest" "role_applied s = digest" "role_key s = role_key r"
        "role_stream s = role_stream r" "role_next s = (if role_applied r = digest then role_next r else env_now e)"
        "offer_transfer C N e v' input s = (s', result', sent)"
        "role_stream r' = role_stream s'" "role_next r' = role_next s'" "role_applied r' = role_applied s'" "role_key r' = role_key s'"
proof -
  obtain r1 result1 where body: "transfer_step_body C N e v r = (r1, result1, sent)"
    and r': "r' = observeTraffic N (env_now e) r1"
    using assms by (auto simp: transfer_Step_def Let_def split: prod.splits)
  show thesis
  proof (cases "pending (role_stream r) = None")
    case False
    then show thesis using body r' observe
      by (auto simp: transfer_step_body_def Pending_def Let_def split: prod.splits)
  next
    case True
    note none = this
    show thesis
    proof (cases "Paused v \<or> env_Resolve e = None \<or> view_digest v = None")
      case True
      then show thesis using body r' none idle
        by (auto simp: transfer_step_body_def Pending_def split: option.splits if_splits)
    next
      case False
      then obtain resolved later d where p: "\<not> Paused v" "env_Resolve e = Some (resolved, later)" "view_digest v = Some d"
        by auto
      obtain c res where res: "resolve_applied (role_inputs r) v (role_applied r) resolved (env_fallback e) (env_transient e) = (c, res)"
        by fastforce
      show thesis
      proof (cases "\<exists>input v'. res = Inr (input, v') \<and> valid_policy input")
        case False
        then have "sent = []" "role_stream r1 = role_stream r" "role_next r1 = role_next r"
          "role_applied r1 = role_applied r" "role_key r1 = role_key r"
          using body none p res
          by (auto simp: transfer_step_body_def Pending_def Let_def split: sum.splits if_splits)
        then show thesis using r' idle by simp
      next
        case True
        then obtain input v' where i: "res = Inr (input, v')" "valid_policy input" by blast
        define digest where "digest = (case view_digest v' of None \<Rightarrow> [] | Some d \<Rightarrow> d)"
        define s where "s = (if role_applied r \<noteq> digest
          then r\<lparr>role_inputs := remember v' input c, role_interval := in_Interval input, role_applied := digest, role_next := env_now e\<rparr>
          else r\<lparr>role_inputs := remember v' input c, role_interval := in_Interval input\<rparr>)"
        have o: "offer_transfer C N e v' input s = (r1, result1, sent)"
          using body none p res i
          by (simp add: transfer_step_body_def Pending_def Let_def s_def digest_def cong: if_cong)
        have "step_policy v e r input digest"
          using resolve_applied_cases [OF res [unfolded i(1)] p(3)] p
          by (auto simp: step_policy_def digest_def)
        moreover have "role_applied s = digest" "role_key s = role_key r" "role_stream s = role_stream r"
          "role_next s = (if role_applied r = digest then role_next r else env_now e)"
          by (simp_all add: s_def)
        ultimately show thesis using policy [OF none p(1) i(2) _ _ _ _ _ o] r' by simp
      qed
    qed
  qed
qed

lemma transfer_Step_path:
  assumes "transfer_Step C N e v r = (r', result, sent)"
  shows "path stream_step (role_stream r) sent (role_stream r')"
  using assms
proof (cases rule: transfer_Step_cases)
  case (observe out)
  then show ?thesis by (auto intro: path_one step_observe)
next
  case idle
  then show ?thesis by (auto intro: path_refl)
next
  case (policy input digest v' s s' result')
  from offer_transfer_cases [OF policy(9)] policy(7,10) show ?thesis
    by (auto intro: path_refl path_one step_offer)
qed

lemma transfer_Drain_path:
  assumes "transfer_Drain N now later r = (r', result, err)"
  shows "path stream_step (role_stream r) [] (role_stream r')"
  using assms by (auto simp: transfer_Drain_def Let_def intro!: path_one step_observe split: prod.splits)

section \<open>Executions of the role\<close>

inductive transfer_rel :: "('sk, 'pk) crypto \<Rightarrow> 'n TransferRole \<Rightarrow> 'n send list \<Rightarrow> 'n TransferRole \<Rightarrow> bool" for C where
  rel_step: "transfer_Step C N e v r = (r', result, sent) \<Longrightarrow> transfer_rel C r sent r'"
| rel_drain: "transfer_Drain N now later r = (r', dr, err) \<Longrightarrow> transfer_rel C r [] r'"

definition transfer_start :: "('sk, 'pk) crypto \<Rightarrow> 'n TransferRole \<Rightarrow> bool" where
  "transfer_start C r \<longleftrightarrow> (\<exists>key address. NewTransferRole C key address = Inr r)"

abbreviation transfer_runs :: "('sk, 'pk) crypto \<Rightarrow> 'n TransferRole \<Rightarrow> 'n send list list \<Rightarrow> bool" where
  "transfer_runs C \<equiv> runs (transfer_start C) (transfer_rel C)"

lemma NewTransferRole_stream: "NewTransferRole C key address = Inr r \<Longrightarrow> role_stream r = new_stream address"
  by (auto simp: NewTransferRole_def split: sum.splits if_splits)

lemma transfer_rel_path: "transfer_rel C r sent r' \<Longrightarrow> path stream_step (role_stream r) sent (role_stream r')"
  by (cases rule: transfer_rel.cases) (auto intro: transfer_Step_path transfer_Drain_path)

lemma transfer_runs_stream:
  "transfer_runs C r es \<Longrightarrow> \<exists>fs. stream_runs (role_stream r) fs \<and> concat fs = concat es"
proof (induction rule: runs.induct)
  case (runs_start r)
  then obtain a where "role_stream r = new_stream a"
    by (auto simp: transfer_start_def dest: NewTransferRole_stream)
  then have "stream_start (role_stream r)" by (simp add: stream_start_def new_stream_def)
  then have "stream_runs (role_stream r) []" by (rule runs.runs_start)
  then show ?case by (intro exI [of _ "[]"]) simp
next
  case (runs_step r es e r')
  then obtain fs where fs: "stream_runs (role_stream r) fs" "concat fs = concat es" by blast
  from runs_path [OF transfer_rel_path [OF runs_step.hyps(2)] fs(1)] obtain gs where
    "stream_runs (role_stream r') (fs @ gs)" "concat gs = e" by blast
  with fs(2) show ?case by (intro exI [of _ "fs @ gs"]) simp
qed

lemma transfer_Step_sends:
  assumes "transfer_Step C N e v r = (r', result, sent)" and "sent \<noteq> []"
  obtains input digest x where "sent = [x]" "pending (role_stream r) = None" "\<not> Paused v" "valid_policy input"
    "step_policy v e r input digest" "in_Node input = Some (send_node x)"
    "transfer_build C (role_key r) input (send_nonce x) = Inr (send_tx x)"
    "\<exists>info. node_Info N (send_node x) = Inr info \<and> NetworkID info = 0x80000000 \<and> in_StartHeight input \<le> BurnHeight info"
    "role_applied r = digest \<longrightarrow> role_next r \<le> env_now e"
    "role_applied r' = digest" "role_next r' = env_now e + in_Interval input"
  using assms(1)
proof (cases rule: transfer_Step_cases)
  case (policy input digest v' s s' result')
  from offer_transfer_cases [OF policy(9)] assms(2) obtain node info stream' out where
    o: "role_next s \<le> env_now e" "in_Node input = Some node" "node_Info N node = Inr info"
    "NetworkID info = 0x80000000" "in_StartHeight input \<le> BurnHeight info"
    "Offer (Node.truncate N) (transfer_args C e v' input node s) (role_stream s) = (stream', out, sent)"
    "snd out = None \<longrightarrow> Offered (facts stream') \<noteq> Offered (facts (role_stream s)) \<longrightarrow>
       role_next s' = env_now e + in_Interval input" "role_applied s' = role_applied s"
    by (elim conjE disjE exE) auto
  from o(6) show ?thesis
  proof (cases rule: Offer_result)
    case (sent later node' n tx)
    note eff = submit_once_effect [OF sent(3)]
    have a: "node' = node" "transfer_build C (role_key s) input n = Inr tx"
      using sent(1) by (auto simp: may_send_def transfer_args_def)
    have none: "snd out = None"
      using sent(3) by (auto simp: submit_once_def Let_def split: submit_result.splits option.splits)
    have "Offered (facts stream') \<noteq> Offered (facts (role_stream s))"
      using eff(6) by simp
    with o(7) none policy(11) have nxt: "role_next r' = env_now e + in_Interval input" by simp
    let ?x = "\<lparr>send_node = node, send_tx = tx, send_nonce = n, send_answer = node_Submit (Node.truncate N) node tx\<rparr>"
    have x: "sent = [?x]" using eff(1) a(1) sent(2) policy(7) by simp
    have i: "\<exists>info. node_Info N (send_node ?x) = Inr info \<and> NetworkID info = 0x80000000 \<and> in_StartHeight input \<le> BurnHeight info"
      using o by auto
    show ?thesis
      by (rule that [of ?x input digest, OF x _ _ _ _ _ _ i]) (use policy o a nxt in \<open>auto split: if_splits\<close>)
  qed (use assms(2) in auto)
qed (use assms(2) in auto)

lemma transfer_rel_single:
  assumes "transfer_rel C r sent r'"
  shows "length sent \<le> 1" "pending (role_stream r) \<noteq> None \<Longrightarrow> sent = []"
  using assms by (cases rule: transfer_rel.cases; cases "sent = []"; auto elim: transfer_Step_sends)+

text \<open>C15: The transfer role refines its nonce stream. Every execution of steps and drains, whatever the
  policy resolver, the callbacks, the clock and the nodes answer, is an execution of the stream that
  sends the same transactions, so the accounting and nonce properties of the stream hold of the
  role; each operation sends at most one transaction and none while one is pending.\<close>

theorem transfer_role_refines_stream:
  assumes "transfer_runs C r es"
  shows "(\<exists>fs. stream_runs (role_stream r) fs \<and> concat fs = concat es)
    \<and> (transfer_rel C r sent r' \<longrightarrow> length sent \<le> 1 \<and> (pending (role_stream r) \<noteq> None \<longrightarrow> sent = []))"
  using transfer_runs_stream [OF assms] transfer_rel_single [of C r sent r'] by blast

text \<open>What a step of the transfer role sends is the transfer its policy asks for: unless paused, with a
  policy in bounds that was resolved live or remembered under the digest it is applied with, to that
  policy's own node, once the node reports the right network and the activation height, it signs the
  policy's recipient, amount and fee for the stream's nonce with the role's key, and moves the
  next opportunity one interval past the current time.\<close>

lemma transfer_step_sends_policy:
  assumes "transfer_Step C N e v r = (r', result, sent)" and "sent \<noteq> []"
  shows "\<exists>input digest x. sent = [x] \<and> \<not> Paused v \<and> valid_policy input \<and> step_policy v e r input digest
    \<and> in_Node input = Some (send_node x)
    \<and> transfer_build C (role_key r) input (send_nonce x) = Inr (send_tx x)
    \<and> (\<exists>info. node_Info N (send_node x) = Inr info \<and> NetworkID info = 0x80000000 \<and> in_StartHeight input \<le> BurnHeight info)
    \<and> role_applied r' = digest \<and> role_next r' = env_now e + in_Interval input"
  using assms by (rule transfer_Step_sends) blast

section \<open>Cadence\<close>

text \<open>A sequence of steps, with everything they sent.\<close>

fun transfer_steps ::
  "('sk, 'pk) crypto \<Rightarrow> ('n TrafficNode \<times> 'n step_env \<times> view) list \<Rightarrow> 'n TransferRole \<Rightarrow> 'n TransferRole \<times> 'n send list" where
  "transfer_steps C [] r = (r, [])"
| "transfer_steps C ((N, e, v) # steps) r =
     (let (r1, _, sent) = transfer_Step C N e v r; (r2, rest) = transfer_steps C steps r1 in (r2, sent @ rest))"

lemma transfer_Step_quiet:
  assumes "transfer_Step C N e v r = (r', result, sent)" and "role_applied r = d" "env_now e < role_next r"
    and "CachedApplied v \<or> view_digest v = Some d"
  shows "sent = [] \<and> role_applied r' = d \<and> role_next r' = role_next r"
  using assms(1)
proof (cases rule: transfer_Step_cases)
  case (policy input digest v' s s' result')
  have "digest = d" using policy(4) assms(2,4) by (auto simp: step_policy_def)
  with policy offer_transfer_cases [OF policy(9)] assms(2,3) show ?thesis by auto
qed (use assms in auto)

text \<open>C29: Transfers keep the distance their policy asks for. A step that sends signs, for the stream's nonce and the
  policy's node, the transfer of a policy in bounds, resolved live or remembered under the digest it is applied with,
  and sets the next opportunity exactly that policy's interval after the step's time, at least one second. No later
  step before that instant sends anything, as long as the admitted policy digest stays the same, however often the
  role is stepped: missed opportunities are not caught up.\<close>

theorem transfer_cadence:
  assumes "transfer_Step C N e v r = (r1, result, [x])"
  shows "\<exists>input digest. valid_policy input \<and> step_policy v e r input digest \<and> second \<le> in_Interval input
    \<and> in_Node input = Some (send_node x) \<and> transfer_build C (role_key r) input (send_nonce x) = Inr (send_tx x)
    \<and> role_applied r1 = digest \<and> role_next r1 = env_now e + in_Interval input
    \<and> (\<forall>steps. list_all (\<lambda>(N', e', v'). env_now e' < env_now e + in_Interval input
          \<and> (CachedApplied v' \<or> view_digest v' = Some digest)) steps
        \<longrightarrow> snd (transfer_steps C steps r1) = [])"
proof -
  have quiet: "snd (transfer_steps C steps t) = []"
    if "list_all (\<lambda>(N', e', v'). env_now e' < role_next t
      \<and> (CachedApplied v' \<or> view_digest v' = Some (role_applied t))) steps" for t steps
    using that
  proof (induction steps arbitrary: t)
    case (Cons step steps)
    obtain N' e' v' where step: "step = (N', e', v')" by (cases step)
    obtain t1 res sent where t1: "transfer_Step C N' e' v' t = (t1, res, sent)" by (metis surj_pair)
    from transfer_Step_quiet [OF t1 refl] Cons.prems step
    have "sent = []" "role_applied t1 = role_applied t" "role_next t1 = role_next t" by auto
    with Cons.IH [of t1] Cons.prems step t1 show ?case by (simp split: prod.splits)
  qed simp
  from assms obtain input digest y where *: "[x] = [y]" "valid_policy input" "step_policy v e r input digest" "in_Node input = Some (send_node y)"
    "transfer_build C (role_key r) input (send_nonce y) = Inr (send_tx y)" "role_applied r1 = digest" "role_next r1 = env_now e + in_Interval input"
    by (rule transfer_Step_sends) simp_all
  then have "second \<le> in_Interval input" by (simp add: valid_policy_def)
  with * quiet [of r1] show ?thesis by auto
qed

section \<open>Traffic evidence\<close>

text \<open>A canonical recheck marks the traffic evidence available only when the inclusion read is
  bracketed by two equal chain views of the original ingress on the right, fully synced network; it then
  reports that read and tip, dated no later than the read. Otherwise the evidence is marked unavailable or
  left as it was, with its transaction and target bindings unchanged.\<close>

lemma traffic_recheck_bracketed:
  assumes "includedTarget r = Some target" and "role_traffic r = Some t" and "nextObservation r \<le> now"
  shows "\<exists>t'. role_traffic (observeTraffic N now r) = Some t'
    \<and> traffic_TxID t' = traffic_TxID t \<and> trafficBindingEqual t' t
    \<and> nextObservation (observeTraffic N now r) = now + poll_interval
    \<and> (traffic_Available t' \<longrightarrow>
        (\<exists>node w i. in_Node target = Some node \<and> node_ViewBefore N node = Inr w \<and> node_ViewAfter N node = Inr w
          \<and> FullySynced w \<and> NetworkID w = 0x80000000 \<and> node_Recheck N node (traffic_TxID t) = Inr i
          \<and> traffic_Found t' = Found i \<and> traffic_Success t' = (Found i \<and> Success i)
          \<and> traffic_IndexBlockID t' = IndexBlockID w \<and> traffic_BurnHeight t' = BurnHeight w
          \<and> traffic_ObservedAt t' \<le> now \<and> now < traffic_ObservedAt t' + second))"
proof -
  have trunc: "truncate_second now \<le> now" "now < truncate_second now + second"
    by (simp_all add: truncate_second_def)
  show ?thesis using assms trunc
    by (auto simp: observeTraffic_def Let_def trafficBindingEqual_def split: option.splits sum.splits if_splits)
qed

section \<open>A sample step\<close>

definition sample_target :: TrafficObservation where
  "sample_target =
     \<lparr>traffic_Available = False, traffic_Found = False, traffic_Success = False, traffic_TxID = sample_txid,
      traffic_BlockID = [], traffic_IndexBlockID = [], SubmittedBurnHeight = 0, traffic_BurnHeight = 0,
      traffic_ObservedAt = 0, TargetParticipantUID = ''p'', TargetPodUID = ''q'', TargetContainerID = ''c'',
      TargetConfigurationDigest = ''d'', GenesisUID = ''g'', EffectiveIntervalSeconds = 0, ProgressWindowSeconds = 0\<rparr>"

definition sample_inputs :: "unit TransferInputs" where
  "sample_inputs =
     \<lparr>in_Node = Some (), in_Target = sample_target, in_Recipient = sample_address, in_Amount = 5, in_Fee = 3000,
      in_Interval = 30 * second, in_StartHeight = 100\<rparr>"

definition sample_view :: ChainView where
  "sample_view =
     \<lparr>NetworkID = 0x80000000, BurnHeight = 120, StacksHeight = 9, Tip = sample_txid, ConsensusHash = [],
      BurnConsensusHash = [], IndexBlockID = sample_txid, FullySynced = True\<rparr>"

definition sample_traffic_node :: "unit TrafficNode" where
  "sample_traffic_node =
     \<lparr>node_Account = (\<lambda>_ _. Inr \<lparr>AccountNonce = 7, Balance = Uint 5000, Locked = Uint 0, UnlockHeight = 0\<rparr>),
      node_Submit = (\<lambda>_ _. SubmitOk), node_Inclusion = (\<lambda>_ _. Inr not_found),
      node_Info = (\<lambda>_. Inr \<lparr>NetworkID = 0x80000000, BurnHeight = 120, StacksHeight = 9, Tip = sample_txid\<rparr>),
      node_ViewBefore = (\<lambda>_. Inr sample_view), node_Recheck = (\<lambda>_ _. Inr not_found),
      node_ViewAfter = (\<lambda>_. Inr sample_view)\<rparr>"

definition sample_env :: "time \<Rightarrow> unit step_env" where
  "sample_env now =
     \<lparr>env_now = now, env_clock = (now, now), env_Resolve = Some (Inr sample_inputs, Inr sample_inputs),
      env_fallback = None, env_fallback_authorize = None, env_transient = (\<lambda>_. False)\<rparr>"

definition sample_snapshot :: view where
  "sample_snapshot = \<lparr>CachedApplied = False, Paused = False, view_digest = Some ''policy'', view_Authorize = Some (Inr ())\<rparr>"

definition sample_role :: "unit TransferRole" where
  "sample_role =
     \<lparr>role_key = toy_key, role_stream = new_stream sample_address, role_next = 0, role_applied = [],
      role_inputs = no_inputs, pendingTarget = None, includedTarget = Some sample_inputs,
      role_traffic = Some sample_target, nextObservation = 0, role_interval = 0\<rparr>"

lemma keys_Parse_canonical: "keys_Parse toy_crypto (replicate 63 (CHR ''0'') @ ''a01'') = Inr (10, True)"
proof -
  let ?k = "replicate 63 (CHR ''0'') @ ''a01''"
  have "length ?k = 66" "has_suffix ?k ''01''" "hex_decode (take 64 ?k) = Inr (replicate 31 0 @ [10])" by code_simp+
  then show ?thesis by (simp add: keys_Parse_def toy_crypto_def be_val_Cons)
qed

lemma sample_sending_step:
  assumes "keys_Parse toy_crypto (role_key r) = Inr (10, c)" "role_stream r = new_stream a" "role_next r = 0" "role_applied r = []"
    "role_inputs r = no_inputs"
  shows "\<exists>r' result x. transfer_Step toy_crypto sample_traffic_node (sample_env 50) sample_snapshot r = (r', result, [x])
     \<and> role_applied r' = ''policy'' \<and> role_next r' = 50 + 30 * second \<and> pending (role_stream r') \<noteq> None
     \<and> Included (facts (role_stream r')) = 0"
proof -
  have "\<exists>tx. sign toy_crypto (sample_options\<lparr>PrivateKey := role_key r\<rparr>) payload = Inr tx" if "length payload \<le> 1000" for payload
    using that hash_sizes_toy by (simp add: sign_def sample_options_def assms(1) Let_def hash_sizes_def)
  then have "\<exists>tx. Transfer toy_crypto (sample_options\<lparr>PrivateKey := role_key r\<rparr>) sample_address 5 [] = Inr tx"
    by (simp add: Transfer_def Principal_def Encode_sample_address sample_address_no_dot str_bytes_def)
  then obtain tx where tx: "Transfer toy_crypto (sample_options\<lparr>PrivateKey := role_key r\<rparr>) sample_address 5 [] = Inr tx"
    by blast
  then have b: "transfer_build toy_crypto (role_key r) sample_inputs 7 = Inr tx" "Valid tx"
    using Transfer_Valid [OF hash_sizes_toy tx]
    by (simp_all add: transfer_build_def sample_inputs_def sample_options_def)
  have sel: "in_Node sample_inputs = Some ()" "in_Amount sample_inputs = 5" "in_Fee sample_inputs = 3000"
    "in_Interval sample_inputs = 30 * second" "in_StartHeight sample_inputs = 100"
    by (simp_all add: sample_inputs_def)
  show ?thesis using b sel assms(2-)
    by (simp add: transfer_Step_def transfer_step_body_def offer_transfer_def Let_def sample_env_def
        sample_snapshot_def sample_traffic_node_def Pending_def new_stream_def empty_facts_def resolve_applied_def
        valid_policy_def remember_def transfer_authorize_def Offer_def submit_once_def Node.truncate_def
        trafficBindingEqual_def Uint_def int_value_def)
qed

lemma sample_transfer_step:
  "\<exists>r' result x. transfer_Step toy_crypto sample_traffic_node (sample_env 50) sample_snapshot sample_role = (r', result, [x])
     \<and> role_applied r' = ''policy'' \<and> role_next r' = 50 + 30 * second"
  using sample_sending_step [of sample_role False sample_address] keys_Parse_toy_key by (auto simp: sample_role_def)

lemma sample_new_role:
  "\<exists>r. NewTransferRole toy_crypto toy_key (Address (public toy_crypto 10)) = Inr r
     \<and> role_key r = replicate 63 (CHR ''0'') @ ''a01'' \<and> role_stream r = new_stream (Address (public toy_crypto 10)) \<and> role_next r = 0
     \<and> role_applied r = [] \<and> role_inputs r = no_inputs"
proof -
  let ?k = "replicate 63 (CHR ''0'') @ ''a01''"
  have "has_suffix ?k ''01''" "hex_decode (take 64 ?k) = Inr (replicate 31 0 @ [10])" by code_simp+
  moreover have "set_byte_slice toy_crypto (replicate 31 0 @ [10]) = (10, False)" "\<not> scalar_is_zero toy_crypto 10"
    "pub_key toy_crypto 10 = 10"
    by (simp_all add: toy_crypto_def be_val_Cons)
  ultimately have "FromPrivate toy_crypto ?k = Inr (public toy_crypto 10)"
    by (simp add: FromPrivate_def)
  then show ?thesis by (simp add: NewTransferRole_def toy_key_compressed)
qed

text \<open>The execution of the witness: a fresh role sends one transfer, is stepped again while it awaits inclusion, and is
  drained once the inclusion is found.\<close>

definition sample_included_node :: "unit TrafficNode" where
  "sample_included_node = sample_traffic_node\<lparr>node_Inclusion := (\<lambda>_ _. Inr (not_found\<lparr>Found := True, Success := True\<rparr>))\<rparr>"

lemma sample_transfer_run:
  "\<exists>(r :: unit TransferRole) r1 r2 x. transfer_runs toy_crypto r1 [[x]] \<and> transfer_runs toy_crypto r2 [[x], [], []]
     \<and> pending (role_stream r1) \<noteq> None \<and> transfer_rel toy_crypto r1 [] r \<and> Included (facts (role_stream r2)) = 1"
proof -
  obtain r0 :: "unit TransferRole" where r0: "NewTransferRole toy_crypto toy_key (Address (public toy_crypto 10)) = Inr r0"
    "role_key r0 = replicate 63 (CHR ''0'') @ ''a01''" "role_stream r0 = new_stream (Address (public toy_crypto 10))" "role_next r0 = 0"
    "role_applied r0 = []" "role_inputs r0 = no_inputs"
    using sample_new_role by blast
  obtain r1 res1 x where r1: "transfer_Step toy_crypto sample_traffic_node (sample_env 50) sample_snapshot r0 = (r1, res1, [x])"
    "pending (role_stream r1) \<noteq> None" and inc: "Included (facts (role_stream r1)) = 0"
    using sample_sending_step [OF keys_Parse_canonical [folded r0(2)] r0(3-6)] by blast
  have "transfer_runs toy_crypto r0 []" by (rule runs_start) (use r0(1) in \<open>auto simp: transfer_start_def\<close>)
  from runs_step [OF this rel_step [OF r1(1)]] have run1: "transfer_runs toy_crypto r1 [[x]]" by simp
  obtain r res sent where r: "transfer_Step toy_crypto sample_traffic_node (sample_env 60) sample_snapshot r1 = (r, res, sent)"
    by (metis surj_pair)
  from r1(2) obtain p where p: "pending (role_stream r1) = Some p" by blast
  have n: "node_Inclusion (Node.truncate sample_traffic_node) node tx = Inr not_found" "\<not> Found not_found"
    "node_Inclusion (Node.truncate sample_included_node) node tx = Inr (not_found\<lparr>Found := True, Success := True\<rparr>)" for node tx
    by (simp_all add: sample_traffic_node_def sample_included_node_def Node.truncate_def not_found_def)
  have s: "sent = []" "role_stream r = role_stream r1"
    using r p n(1,2) by (auto simp: transfer_Step_def transfer_step_body_def Pending_def Observe_def Let_def)
  have rel: "transfer_rel toy_crypto r1 [] r" using rel_step [OF r] s(1) by simp
  from runs_step [OF run1 rel] have run2: "transfer_runs toy_crypto r [[x], []]" by simp
  obtain r2 dr err where r2: "transfer_Drain sample_included_node 70 71 r = (r2, dr, err)" by (metis surj_pair)
  have "Included (facts (role_stream r2)) = 1"
    using r2 p s(2) n(3) inc by (auto simp: transfer_Drain_def Observe_def Let_def)
  moreover from runs_step [OF run2 rel_drain [OF r2]] have "transfer_runs toy_crypto r2 [[x], [], []]" by simp
  ultimately show ?thesis using run1 r1(2) rel by blast
qed

theorem transfer_role_refines_stream_witness:
  "\<exists>(r2 :: unit TransferRole) x fs. transfer_runs toy_crypto r2 [[x], [], []] \<and> stream_runs (role_stream r2) fs \<and> concat fs = [x]
     \<and> (\<exists>(r1 :: unit TransferRole) r. pending (role_stream r1) \<noteq> None \<and> transfer_rel toy_crypto r1 [] r
          \<and> (\<forall>sent r'. transfer_rel toy_crypto r1 sent r' \<longrightarrow> sent = []))"
proof -
  obtain r r1 r2 :: "unit TransferRole" and x where w: "transfer_runs toy_crypto r1 [[x]]" "transfer_runs toy_crypto r2 [[x], [], []]"
    "pending (role_stream r1) \<noteq> None" "transfer_rel toy_crypto r1 [] r"
    using sample_transfer_run by blast
  have "transfer_rel toy_crypto r1 sent r' \<longrightarrow> sent = []" for sent r'
    using transfer_role_refines_stream [OF w(1), of sent r'] w(3) by blast
  moreover obtain fs where "stream_runs (role_stream r2) fs" "concat fs = [x]"
    using transfer_role_refines_stream [OF w(2), of "[]" r2] by auto
  ultimately show ?thesis using w by blast
qed

lemma transfer_step_sends_policy_sample:
  "\<exists>r' result x. transfer_Step toy_crypto sample_traffic_node (sample_env 50) sample_snapshot sample_role = (r', result, [x])
     \<and> role_next r' = 50 + 30 * second
     \<and> (\<exists>input digest. step_policy sample_snapshot (sample_env 50) sample_role input digest \<and> valid_policy input)"
proof -
  obtain r' result x where r: "transfer_Step toy_crypto sample_traffic_node (sample_env 50) sample_snapshot sample_role
      = (r', result, [x])" "role_next r' = 50 + 30 * second"
    using sample_transfer_step by blast
  from transfer_step_sends_policy [OF r(1)] r show ?thesis by blast
qed

theorem transfer_cadence_witness:
  "\<exists>r' result x. transfer_Step toy_crypto sample_traffic_node (sample_env 50) sample_snapshot sample_role = (r', result, [x])
     \<and> role_next r' = 50 + 30 * second
     \<and> snd (transfer_steps toy_crypto [(sample_traffic_node, sample_env (29 * second), sample_snapshot)] r') = []"
proof -
  obtain r' result x where r: "transfer_Step toy_crypto sample_traffic_node (sample_env 50) sample_snapshot sample_role
      = (r', result, [x])" "role_next r' = 50 + 30 * second" "role_applied r' = ''policy''"
    using sample_transfer_step by blast
  have e: "env_now (sample_env t) = t" for t by (simp add: sample_env_def)
  let ?steps = "[(sample_traffic_node, sample_env (29 * second), sample_snapshot)]"
  from transfer_cadence [OF r(1)] obtain input :: "unit TransferInputs" and digest where c: "role_applied r' = digest"
    "role_next r' = env_now (sample_env 50) + in_Interval input"
    and quiet: "\<forall>steps. list_all (\<lambda>(N', e', v'). env_now e' < env_now (sample_env 50) + in_Interval input
        \<and> (CachedApplied v' \<or> view_digest v' = Some digest)) steps \<longrightarrow> snd (transfer_steps toy_crypto steps r') = []"
    by (elim exE conjE) (rule that)
  have "snd (transfer_steps toy_crypto ?steps r') = []"
    by (rule mp [OF spec [OF quiet, of ?steps]]) (use c r(2,3) in \<open>simp add: e sample_snapshot_def\<close>)
  with r show ?thesis by blast
qed

lemma traffic_recheck_bracketed_sample:
  "\<exists>t'. role_traffic (observeTraffic sample_traffic_node 9 sample_role) = Some t' \<and> traffic_TxID t' = sample_txid"
proof -
  have r: "includedTarget sample_role = Some sample_inputs" "role_traffic sample_role = Some sample_target"
    "nextObservation sample_role \<le> 9" "traffic_TxID sample_target = sample_txid"
    by (simp_all add: sample_role_def sample_target_def)
  from traffic_recheck_bracketed [OF r(1,2,3), of sample_traffic_node] r(4) show ?thesis by auto
qed

end
