(* ===== verification/Block_Offers.thy ===== *)
theory Block_Offers
  imports Nonce_Stream
begin

text \<open>
  The data of \<open>apis/network/bitcoin/v1alpha2\<close> that the Bitcoin control components share, and the pure
  decisions of \<open>operators/network/internal/bitcoincontrol\<close>: \<open>generation_batch.go\<close>,
  \<open>bootstrap_receipts.go\<close>, \<open>action_cadence.go\<close>, the cadence bounds of \<open>scheduler.go\<close>, the receipt
  accounting of \<open>action_admission.go\<close>, and \<open>cadence/cadence.go\<close>. Fields of Go type \<open>int32\<close> and \<open>int64\<close>
  are integers; where the code adds or subtracts without a guard, the result is wrapped to the
  field's width. Fields that only copy public metadata are left out of the records.
\<close>

abbreviation wrap64 :: "int \<Rightarrow> int" where "wrap64 \<equiv> signed_take_bit 63"
abbreviation wrap32 :: "int \<Rightarrow> int" where "wrap32 \<equiv> signed_take_bit 31"

abbreviation max_int32 :: int where "max_int32 \<equiv> 2147483647"
abbreviation max_int64 :: int where "max_int64 \<equiv> 9223372036854775807"

definition in_int64 :: "int \<Rightarrow> bool" where
  "in_int64 x \<longleftrightarrow> - (2 ^ 63) \<le> x \<and> x < 2 ^ 63"

lemma wrap64_id [simp]: "in_int64 x \<Longrightarrow> wrap64 x = x"
  by (simp add: in_int64_def signed_take_bit_int_eq_self)

lemma wrap32_id [simp]: "- (2 ^ 31) \<le> x \<Longrightarrow> x < 2 ^ 31 \<Longrightarrow> wrap32 x = x"
  by (simp add: signed_take_bit_int_eq_self)

section \<open>Objects\<close>

record Binding =
  Kind :: string
  Name :: string
  UID :: string
  Fingerprint :: string

record BitcoinBlockOffer =
  Count :: int
  Override :: "Binding option"
  Mode :: string
  OfferTarget :: "Binding option"
  Initialization :: Binding
  Production :: Binding
  PolicyDigest :: string
  Number :: int
  OfferAddress :: string
  Wallet :: Binding
  ExpectedHeight :: int
  ExpectedTip :: string
  Ceiling :: int
  ExpiresAt :: time

record FrozenBitcoinWallet =
  FrozenWallet :: Binding
  WalletName :: string
  WalletAddress :: string
  WalletDescriptor :: string

record BitcoinFundingCount =
  WalletUID :: string
  Outputs :: int

text \<open>A compiled block schedule: mode and intervals. A duration is its text with the result of
  \<open>time.ParseDuration\<close> on it.\<close>

type_synonym duration = "string \<times> int result"

record block_schedule =
  ScheduleMode :: string
  Interval :: "duration option"
  MinimumInterval :: "duration option"
  MaximumInterval :: "duration option"

record BitcoinActiveOverride =
  ao_Override :: Binding
  ao_Production :: Binding
  ao_Schedule :: block_schedule
  ao_ScheduleRef :: "Binding option"
  ao_StartedAt :: time
  ao_ExpiresAt :: time

record BitcoinScheduledTarget =
  st_Participant :: Binding
  st_Weight :: int

record BitcoinSchedulingStatus =
  sc_Override :: "BitcoinActiveOverride option"
  sc_Initialization :: Binding
  sc_AdmissionDigest :: string
  sc_PolicyDigest :: string
  sc_Schedule :: "block_schedule option"
  sc_ScheduleRef :: "Binding option"
  sc_ScheduleGeneration :: int
  sc_Targets :: "BitcoinScheduledTarget list"
  sc_NextOpportunityAt :: "time option"
  Opportunities :: int
  Assigned :: int
  Acknowledged :: int
  LastAcknowledgedAt :: "time option"
  sc_ObservedAt :: "time option"
  EligibleTargets :: int
  sc_ProgressWindowSeconds :: int
  Skipped :: int
  Unassigned :: int
  sc_Reason :: string

record BitcoinBaselineStatus =
  Scheduling :: BitcoinSchedulingStatus
  Sequence :: int
  SelectedTarget :: "Binding option"
  Stage :: string
  Receipts :: "(string \<times> int) list"

record BitcoinInitialization =
  init_Name :: string
  init_UID :: string
  init_Owner :: string
  init_Deleted :: bool
  init_NetworkUID :: string
  init_Genesis :: Binding
  init_Nodes :: "Binding list"
  init_Target :: Binding
  MinimumHeight :: int
  MatureOutputsPerMiner :: int
  BatchGeneration :: bool
  MinerWallets :: "FrozenBitcoinWallet list"
  PayoutWallet :: FrozenBitcoinWallet
  init_Production :: Binding
  init_StatusProduction :: "Binding option"
  init_StatusOffer :: "BitcoinBlockOffer option"
  init_Override :: "BitcoinActiveOverride option"
  init_Baseline :: "BitcoinBaselineStatus option"
  NextOpportunityAt :: "time option"
  LastAccountedOffer :: int
  Funded :: "BitcoinFundingCount list"
  FirstCeilingObservedAt :: "time option"
  PreparedAt :: "time option"
  init_Phase :: string
  init_Reason :: string

record BitcoinTargetIdentity =
  target_Participant :: Binding
  target_Pod :: Binding
  target_ContainerID :: string
  target_Endpoint :: string
  target_Configuration :: Binding
  target_Credentials :: Binding
  target_PolicyDigest :: string

datatype RPCMethod = CreateWallet | LoadWallet | ImportDescriptor | UnloadWallet | Generate
  | InvalidateBlock | ReconsiderBlock

record BitcoinWalletOperation =
  op_Wallet :: Binding
  op_Name :: string
  op_Descriptor :: string

record BitcoinArmedRPC =
  rpc_Action :: "Binding option"
  rpc_Address :: string
  rpc_BlockHash :: string
  rpc_ID :: string
  ProcessNonce :: string
  Reservation :: Binding
  RpcTarget :: BitcoinTargetIdentity
  Method :: RPCMethod
  WalletOperation :: "BitcoinWalletOperation option"
  RpcOffer :: "BitcoinBlockOffer option"
  ArmedAt :: time

record BitcoinRPCReceipt =
  Request :: BitcoinArmedRPC
  ReceivedAt :: time
  ReceiptHash :: string

record GenerationCadence =
  CadenceMode :: string
  IntervalSeconds :: int
  MinSeconds :: int
  MaxSeconds :: int
  DelaysSeconds :: "int list"

record BitcoinBlockGenerationSpec =
  gen_Count :: int
  gen_Cadence :: GenerationCadence
  gen_Address :: string

record BitcoinReorganizationSpec =
  reorg_NetworkUID :: string
  reorg_Node :: string
  reorg_Depth :: int
  reorg_Address :: string
  reorg_BoundaryPolicy :: string
  reorg_Timeout :: int

record BitcoinActionReservation =
  act_Request :: Binding
  act_Generation :: "BitcoinBlockGenerationSpec option"
  act_Reorganization :: "BitcoinReorganizationSpec option"
  act_NextDispatchAt :: "time option"
  act_LastCompletedAt :: "time option"
  act_StartedAt :: "time option"
  act_BlocksGenerated :: int
  act_LastBlockHash :: string
  act_LastDispatchID :: string
  act_StopReason :: string
  act_EffectUncertain :: bool
  CleanupUnsafe :: bool
  InvalidationAcknowledged :: bool
  CleanupAcknowledged :: bool
  ReplacementBlockHashes :: "string list"

datatype ExecutionPhase = PhaseIdle | PhaseArmed | PhaseBlocked | PhaseAbandoned

record BitcoinWalletObservation =
  wo_Wallet :: Binding
  wo_Ready :: bool
  wo_MatureOutputs :: int

record BitcoinObservation =
  obs_Target :: BitcoinTargetIdentity
  obs_Height :: int
  obs_Tip :: string
  obs_ObservedAt :: time
  obs_Wallets :: "BitcoinWalletObservation list"

record BitcoinDrainStatus =
  dr_ProcessNonce :: string
  dr_NetworkGeneration :: int
  dr_Reason :: string
  dr_RequestedAt :: time
  dr_CompletedAt :: time
  dr_Outcome :: string

record BitcoinControlAcknowledgement =
  ca_NetworkGeneration :: int
  ca_ProcessNonce :: string
  ca_Operation :: string
  ca_ObservedAt :: time
  ca_HeartbeatAt :: time

record BitcoinExecution =
  exec_Name :: string
  exec_UID :: string
  exec_Owner :: string
  exec_Deleted :: bool
  exec_NetworkUID :: string
  exec_Participant :: Binding
  exec_Offer :: "BitcoinBlockOffer option"
  ActionState :: "BitcoinActionReservation option"
  ReservedFor :: "Binding option"
  Armed :: "BitcoinArmedRPC option"
  LastReceipt :: "BitcoinRPCReceipt option"
  CompletedOffer :: int
  BlocksGenerated :: int
  Control :: "BitcoinControlAcknowledgement option"
  Drain :: "BitcoinDrainStatus option"
  PendingWalletRemoval :: "BitcoinWalletOperation option"
  Observation :: "BitcoinObservation option"
  Phase :: ExecutionPhase

text \<open>\<open>objectref.BitcoinInitialization\<close>: kind, name and UID, with no fingerprint.\<close>

definition initialization_ref :: "BitcoinInitialization \<Rightarrow> Binding" where
  "initialization_ref i = \<lparr>Kind = ''BitcoinInitialization'', Name = init_Name i, UID = init_UID i, Fingerprint = []\<rparr>"

definition hashValid :: "string \<Rightarrow> bool" where
  "hashValid value' \<longleftrightarrow>
     length value' = 64
     \<and> list_all (\<lambda>c. byte_between (CHR ''0'') (CHR ''9'') c \<or> byte_between (CHR ''a'') (CHR ''f'') c) value'"

section \<open>Batches (generation_batch.go)\<close>

abbreviation MaxGeneratedBlocks :: int where "MaxGeneratedBlocks \<equiv> 500"

definition offerBlocks :: "BitcoinBlockOffer \<Rightarrow> int" where
  "offerBlocks offer = (if Count offer < 1 then 1 else Count offer)"

definition batchLimit :: "BitcoinInitialization \<Rightarrow> int" where
  "batchLimit initial = (if BatchGeneration initial then MaxGeneratedBlocks else 1)"

definition offerCountAuthorized :: "BitcoinInitialization \<Rightarrow> BitcoinBlockOffer \<Rightarrow> bool" where
  "offerCountAuthorized initial offer =
     (if Count offer < 0 then False
      else let blocks = offerBlocks offer in
        if ExpectedHeight offer < 0 \<or> ExpectedHeight offer \<ge> Ceiling offer
           \<or> blocks > Ceiling offer - ExpectedHeight offer
        then False
        else if blocks = 1 then True
        else (Mode offer = [] \<or> Mode offer = ''Bootstrap'') \<and> Ceiling offer = MinimumHeight initial
             \<and> blocks \<le> batchLimit initial)"

definition bootstrapBatch :: "BitcoinInitialization \<Rightarrow> int \<Rightarrow> int \<Rightarrow> int \<Rightarrow> int" where
  "bootstrapBatch initial height ceiling remaining =
     (let blocks = min (batchLimit initial) (min (wrap64 (ceiling - height)) MaxGeneratedBlocks);
          blocks' = (if remaining > 0 then min blocks remaining else blocks)
      in if blocks' \<le> 1 \<or> ceiling \<noteq> MinimumHeight initial then 0 else wrap32 blocks')"

section \<open>Funding receipts (bootstrap_receipts.go)\<close>

text \<open>The loop over \<open>initial.Status.Funded\<close>: \<open>None\<close> when the counter would overflow.\<close>

fun credit_funding :: "string \<Rightarrow> int \<Rightarrow> BitcoinFundingCount list \<Rightarrow> BitcoinFundingCount list option" where
  "credit_funding uid blocks [] = Some [\<lparr>WalletUID = uid, Outputs = blocks\<rparr>]"
| "credit_funding uid blocks (c # cs) =
     (if WalletUID c = uid
      then if Outputs c > max_int32 - blocks then None else Some (c\<lparr>Outputs := Outputs c + blocks\<rparr> # cs)
      else map_option ((#) c) (credit_funding uid blocks cs))"

definition pays :: "BitcoinBlockOffer \<Rightarrow> FrozenBitcoinWallet \<Rightarrow> bool" where
  "pays offer w \<longleftrightarrow> FrozenWallet w = Wallet offer \<and> WalletAddress w = OfferAddress offer"

definition bootstrap_receipt_offer ::
  "string \<Rightarrow> BitcoinInitialization \<Rightarrow> BitcoinExecution \<Rightarrow> BitcoinBlockOffer option" where
  "bootstrap_receipt_offer rootUID initial execution =
     (if exec_NetworkUID execution \<noteq> rootUID \<or> exec_Owner execution \<noteq> rootUID
         \<or> exec_Participant execution \<noteq> init_Target initial
      then None
      else case LastReceipt execution of
        None \<Rightarrow> None
      | Some receipt \<Rightarrow>
          (case RpcOffer (Request receipt) of
             None \<Rightarrow> None
           | Some offer \<Rightarrow>
               if Method (Request receipt) \<noteq> Generate \<or> rpc_Action (Request receipt) \<noteq> None
                  \<or> Reservation (Request receipt) \<noteq> initialization_ref initial
                  \<or> target_Participant (RpcTarget (Request receipt)) \<noteq> init_Target initial
                  \<or> \<not> hashValid (ReceiptHash receipt)
               then None
               else if Mode offer \<noteq> [] \<and> Mode offer \<noteq> ''Bootstrap''
                  \<or> Initialization offer \<noteq> initialization_ref initial
                  \<or> Kind (Production offer) \<noteq> ''StacksNetworkParticipant''
                  \<or> UID (Production offer) = [] \<or> Name (Production offer) = []
                  \<or> Number offer \<le> LastAccountedOffer initial
                  \<or> Number offer \<noteq> CompletedOffer execution
                  \<or> ExpectedHeight offer < 0 \<or> ExpectedHeight offer \<ge> Ceiling offer
                  \<or> \<not> offerCountAuthorized initial offer
               then None else Some offer))"

definition accountBootstrapReceipt ::
  "string \<Rightarrow> BitcoinInitialization \<Rightarrow> BitcoinExecution \<Rightarrow> BitcoinInitialization \<times> bool" where
  "accountBootstrapReceipt rootUID initial execution =
     (case bootstrap_receipt_offer rootUID initial execution of
        None \<Rightarrow> (initial, False)
      | Some offer \<Rightarrow>
          let blocks = max (Count offer) 1;
              miner = list_ex (pays offer) (MinerWallets initial);
              known = (pays offer (PayoutWallet initial) \<or> miner);
              funding = (miner \<and> ExpectedHeight offer < MinimumHeight initial)
          in if \<not> known then (initial, False)
             else if funding
             then (case credit_funding (UID (Wallet offer)) blocks (Funded initial) of
                     None \<Rightarrow> (initial, False)
                   | Some funded \<Rightarrow>
                       (initial\<lparr>Funded := funded, LastAccountedOffer := Number offer\<rparr>, True))
             else (initial\<lparr>LastAccountedOffer := Number offer\<rparr>, True))"

definition generationAccounted :: "BitcoinInitialization \<Rightarrow> BitcoinExecution \<Rightarrow> bool" where
  "generationAccounted initial execution =
     (case LastReceipt execution of
        None \<Rightarrow> True
      | Some receipt \<Rightarrow>
          if Method (Request receipt) \<noteq> Generate then True
          else if rpc_Action (Request receipt) \<noteq> None then ActionState execution = None
          else case RpcOffer (Request receipt) of
            None \<Rightarrow> False
          | Some offer \<Rightarrow>
              if Mode offer \<noteq> ''Baseline'' then LastAccountedOffer initial \<ge> CompletedOffer execution
              else case init_Baseline initial of
                None \<Rightarrow> False
              | Some baseline \<Rightarrow>
                  (case map_of (Receipts baseline) (exec_UID execution) of
                     None \<Rightarrow> False
                   | Some number \<Rightarrow> number \<ge> CompletedOffer execution))"

section \<open>Cadence (cadence.go, action_cadence.go, scheduler.go)\<close>

text \<open>\<open>cadence.Seconds\<close>: the generator \<open>rand.New(rand.NewPCG(...)).IntN\<close> is an argument, a function of the
  two seed words and the bound. Its documented range is \<open>[0, n)\<close>.\<close>

type_synonym int_n = "nat \<Rightarrow> nat \<Rightarrow> int \<Rightarrow> int"

definition cadence_Seconds :: "int_n \<Rightarrow> int \<Rightarrow> int \<Rightarrow> string \<Rightarrow> int result" where
  "cadence_Seconds intN lower upper key =
     (if lower < 0 \<or> upper < lower \<or> upper > 86400 then Inl ''invalid cadence bounds''
      else let digest = sha256 (str_bytes key)
           in Inr ((lower + intN (be_val (take 8 digest)) (be_val (take 8 (drop 8 digest))) (upper - lower + 1)) * second))"

definition Due :: "time \<Rightarrow> int \<Rightarrow> time" where
  "Due anchor delay =
     (let v = anchor + delay; rounded = v - v mod 1000
      in if rounded < v then rounded + 1000 else rounded)"

definition validateActionCadence :: "GenerationCadence \<Rightarrow> int \<Rightarrow> unit result" where
  "validateActionCadence c total_blocks =
     (if total_blocks < 1 \<or> total_blocks > 100 \<or> CadenceMode c \<noteq> ''Fixed'' \<and> IntervalSeconds c \<noteq> 0
         \<or> CadenceMode c \<noteq> ''Uniform'' \<and> (MinSeconds c \<noteq> 0 \<or> MaxSeconds c \<noteq> 0)
         \<or> CadenceMode c \<noteq> ''Explicit'' \<and> length (DelaysSeconds c) \<noteq> 0
      then Inl ''invalid finite cadence''
      else if CadenceMode c = ''Immediate'' then Inr ()
      else if CadenceMode c = ''Fixed''
      then if 1 \<le> IntervalSeconds c \<and> IntervalSeconds c \<le> 60 then Inr () else Inl ''unsupported finite cadence''
      else if CadenceMode c = ''Uniform''
      then if 1 \<le> MinSeconds c \<and> MinSeconds c \<le> MaxSeconds c \<and> MaxSeconds c \<le> 60 then Inr ()
           else Inl ''unsupported finite cadence''
      else if CadenceMode c = ''Explicit''
      then if int (length (DelaysSeconds c)) = total_blocks - 1
           then if list_all (\<lambda>d. 0 \<le> d \<and> d \<le> 60) (DelaysSeconds c) then Inr () else Inl ''invalid explicit delay''
           else Inl ''unsupported finite cadence''
      else Inl ''unsupported finite cadence'')"

definition actionDelay :: "int_n \<Rightarrow> GenerationCadence \<Rightarrow> int \<Rightarrow> int \<Rightarrow> string \<Rightarrow> int result" where
  "actionDelay intN c total_blocks completed key =
     rbind (validateActionCadence c total_blocks) (\<lambda>_.
       if completed < 1 \<or> completed \<ge> total_blocks then Inl ''delay requires a non-final receipt''
       else if CadenceMode c = ''Immediate'' then Inr 0
       else if CadenceMode c = ''Fixed'' then cadence_Seconds intN (IntervalSeconds c) (IntervalSeconds c) key
       else if CadenceMode c = ''Uniform'' then cadence_Seconds intN (MinSeconds c) (MaxSeconds c) key
       else if CadenceMode c = ''Explicit''
       then let d = DelaysSeconds c ! nat (completed - 1) in cadence_Seconds intN d d key
       else Inl ''unsupported finite cadence'')"

definition parse_interval :: "duration option \<Rightarrow> int result" where
  "parse_interval v =
     (case v of
        None \<Rightarrow> Inl ''cadence interval unavailable''
      | Some (_, Inl _) \<Rightarrow> Inl ''unsupported cadence bound''
      | Some (_, Inr d) \<Rightarrow> if d < second \<or> d > 3600 * second then Inl ''unsupported cadence bound'' else Inr d)"

definition cadenceBounds :: "block_schedule option \<Rightarrow> (int \<times> int) result" where
  "cadenceBounds schedule =
     (case schedule of
        None \<Rightarrow> Inl ''compiled schedule unavailable''
      | Some c \<Rightarrow>
          if ScheduleMode c = ''Fixed''
          then if MinimumInterval c \<noteq> None \<or> MaximumInterval c \<noteq> None then Inl ''fixed cadence fields conflict''
               else rbind (parse_interval (Interval c)) (\<lambda>d. Inr (d, d))
          else if ScheduleMode c \<noteq> ''Uniform'' \<or> Interval c \<noteq> None then Inl ''unsupported cadence mode''
          else rbind (parse_interval (MinimumInterval c)) (\<lambda>low.
            case parse_interval (MaximumInterval c) of
              Inl _ \<Rightarrow> Inl ''invalid uniform cadence''
            | Inr high \<Rightarrow> if high < low then Inl ''invalid uniform cadence'' else Inr (low, high)))"

text \<open>\<open>interval\<close>: the injected \<open>Draw\<close> is an argument, and its range is checked by the code.\<close>

definition schedule_interval :: "(int \<Rightarrow> int) \<Rightarrow> block_schedule option \<Rightarrow> int result" where
  "schedule_interval draw schedule =
     rbind (cadenceBounds schedule) (\<lambda>(low, high).
       if low = high then Inr low
       else let d = draw (high - low + 1) in
         if d < 0 \<or> d > high - low then Inl ''invalid cadence draw'' else Inr (low + d))"

section \<open>Action receipts (action_admission.go)\<close>

definition round_up_second :: "time \<Rightarrow> time" where
  "round_up_second t = (if t mod second = 0 then t else t - t mod second + second)"

definition accountActionReceipt ::
  "int_n \<Rightarrow> BitcoinExecution \<Rightarrow> BitcoinRPCReceipt \<Rightarrow> BitcoinExecution result" where
  "accountActionReceipt intN record' receipt =
     (case (ActionState record', rpc_Action (Request receipt)) of
        (Some state, Some act) \<Rightarrow>
          if act_Request state \<noteq> act then Inl ''finite receipt owner differs''
          else
            let s1 = state\<lparr>act_LastDispatchID := rpc_ID (Request receipt),
                           act_LastCompletedAt := Some (round_up_second (ReceivedAt receipt))\<rparr>
            in (case Method (Request receipt) of
                  Generate \<Rightarrow>
                    if \<not> hashValid (ReceiptHash receipt) then Inl ''finite generation receipt malformed''
                    else
                      let s2 = s1\<lparr>act_BlocksGenerated := wrap32 (act_BlocksGenerated s1 + 1),
                                  act_LastBlockHash := ReceiptHash receipt\<rparr>;
                          r2 = record'\<lparr>BlocksGenerated := wrap64 (BlocksGenerated record' + 1)\<rparr>;
                          due = (\<lambda>delay. let t = ReceivedAt receipt + delay
                                         in if delay > 0 then round_up_second t else t)
                      in (case act_Generation s2 of
                            Some g \<Rightarrow>
                              if act_BlocksGenerated s2 \<ge> gen_Count g
                              then Inr (r2\<lparr>ActionState := Some (s2\<lparr>act_NextDispatchAt := None\<rparr>)\<rparr>)
                              else rbind (actionDelay intN (gen_Cadence g) (gen_Count g) (act_BlocksGenerated s2)
                                           (rpc_ID (Request receipt))) (\<lambda>delay.
                                Inr (r2\<lparr>ActionState := Some (s2\<lparr>act_NextDispatchAt := Some (due delay)\<rparr>)\<rparr>))
                          | None \<Rightarrow>
                              Inr (r2\<lparr>ActionState := Some (s2\<lparr>
                                ReplacementBlockHashes := ReplacementBlockHashes s2 @ [ReceiptHash receipt],
                                act_NextDispatchAt := Some (due second)\<rparr>)\<rparr>))
                | InvalidateBlock \<Rightarrow> Inr (record'\<lparr>ActionState := Some (s1\<lparr>InvalidationAcknowledged := True\<rparr>)\<rparr>)
                | ReconsiderBlock \<Rightarrow> Inr (record'\<lparr>ActionState := Some (s1\<lparr>CleanupAcknowledged := True\<rparr>)\<rparr>)
                | _ \<Rightarrow> Inl ''unsupported finite receipt'')
      | _ \<Rightarrow> Inl ''finite receipt owner differs'')"

section \<open>Generation never passes its ceiling\<close>

text \<open>A batch is omitted, or has more than one block and fits the batch limit, the ceiling and the requested
  outputs.\<close>

lemma bootstrapBatch_bounds:
  assumes "0 \<le> height" "height < ceiling" "ceiling \<le> max_int64"
    and b: "b = bootstrapBatch initial height ceiling remaining"
  shows "b = 0 \<or> 1 < b \<and> b \<le> batchLimit initial \<and> b \<le> ceiling - height
      \<and> ceiling = MinimumHeight initial \<and> (0 < remaining \<longrightarrow> b \<le> remaining)"
proof -
  have w: "wrap64 (ceiling - height) = ceiling - height" using assms by (simp add: in_int64_def)
  have w32: "wrap32 x = x" if "x \<le> MaxGeneratedBlocks" "0 \<le> x" for x using that by simp
  define m where "m = min (batchLimit initial) (min (ceiling - height) MaxGeneratedBlocks)"
  define x where "x = (if remaining > 0 then min m remaining else m)"
  have x: "x \<le> batchLimit initial" "x \<le> ceiling - height" "x \<le> MaxGeneratedBlocks"
    "0 < remaining \<longrightarrow> x \<le> remaining"
    by (auto simp: x_def m_def)
  have "b = (if x \<le> 1 \<or> ceiling \<noteq> MinimumHeight initial then 0 else wrap32 x)"
    by (simp add: b bootstrapBatch_def w Let_def x_def m_def)
  with x w32 [of x] show ?thesis by auto
qed

lemma offerCountAuthorized_batch:
  assumes "0 \<le> height" "height < ceiling" "ceiling \<le> max_int64"
    and "Count offer = 0 \<or> Count offer = bootstrapBatch initial height ceiling remaining"
    and "ExpectedHeight offer = height" "Ceiling offer = ceiling" "Mode offer = []"
  shows "offerCountAuthorized initial offer"
  using bootstrapBatch_bounds [OF assms(1-3) refl, of initial remaining] assms
  by (auto simp: offerCountAuthorized_def offerBlocks_def Let_def)

text \<open>An authorized block offer stays below its ceiling: its blocks, at least one and at most five hundred,
  fit between the expected height and the ceiling, and more than one only for the first bootstrap gate
  of a batching initialization. The batch the scheduler computes for a new opportunity below its
  ceiling is always authorized, fills no more than the requested outputs, and survives its conversion to
  32 bits.\<close>

lemma offer_within_ceiling:
  "(offerCountAuthorized initial offer \<longrightarrow>
      1 \<le> offerBlocks offer \<and> offerBlocks offer \<le> MaxGeneratedBlocks
      \<and> 0 \<le> ExpectedHeight offer \<and> ExpectedHeight offer + offerBlocks offer \<le> Ceiling offer
      \<and> (1 < offerBlocks offer \<longrightarrow>
          BatchGeneration initial \<and> Ceiling offer = MinimumHeight initial \<and> Mode offer \<noteq> ''Baseline''))
   \<and> (0 \<le> height \<longrightarrow> height < ceiling \<longrightarrow> ceiling \<le> max_int64 \<longrightarrow>
      Count offer = bootstrapBatch initial height ceiling remaining \<longrightarrow>
      ExpectedHeight offer = height \<longrightarrow> Ceiling offer = ceiling \<longrightarrow> Mode offer = [] \<longrightarrow>
      offerCountAuthorized initial offer \<and> (0 < remaining \<longrightarrow> offerBlocks offer \<le> remaining))"
proof (intro conjI impI)
  assume "offerCountAuthorized initial offer"
  then show "1 \<le> offerBlocks offer" "offerBlocks offer \<le> MaxGeneratedBlocks" "0 \<le> ExpectedHeight offer"
    "ExpectedHeight offer + offerBlocks offer \<le> Ceiling offer"
    by (auto simp: offerCountAuthorized_def offerBlocks_def batchLimit_def Let_def split: if_splits)
next
  assume "offerCountAuthorized initial offer" "1 < offerBlocks offer"
  then show "BatchGeneration initial" "Ceiling offer = MinimumHeight initial" "Mode offer \<noteq> ''Baseline''"
    by (auto simp: offerCountAuthorized_def batchLimit_def Let_def split: if_splits)
next
  assume h: "0 \<le> height" "height < ceiling" "ceiling \<le> max_int64"
    and c: "Count offer = bootstrapBatch initial height ceiling remaining"
    and o: "ExpectedHeight offer = height" "Ceiling offer = ceiling" "Mode offer = []"
  show "offerCountAuthorized initial offer"
    using c o by (intro offerCountAuthorized_batch [OF h]) auto
  show "offerBlocks offer \<le> remaining" if "0 < remaining"
    using bootstrapBatch_bounds [OF h c] that by (auto simp: offerBlocks_def)
qed

section \<open>Receipts fund exactly once\<close>

definition funded_outputs :: "string \<Rightarrow> BitcoinFundingCount list \<Rightarrow> int" where
  "funded_outputs uid fs = (\<Sum>c \<leftarrow> fs. if WalletUID c = uid then Outputs c else 0)"

definition counters_fit :: "BitcoinFundingCount list \<Rightarrow> bool" where
  "counters_fit fs = list_all (\<lambda>c. 0 \<le> Outputs c \<and> Outputs c \<le> max_int32) fs"

lemma credit_funding_exact:
  assumes "credit_funding uid blocks fs = Some fs'"
  shows "funded_outputs u fs' = funded_outputs u fs + (if u = uid then blocks else 0)"
    and "0 \<le> blocks \<Longrightarrow> blocks \<le> max_int32 \<Longrightarrow> counters_fit fs \<Longrightarrow> counters_fit fs'"
  using assms
  by (induction fs arbitrary: fs')
    (auto simp: funded_outputs_def counters_fit_def split: if_splits)

lemma bootstrap_receipt_offer_ok:
  assumes "bootstrap_receipt_offer rootUID initial execution = Some offer"
  shows "Number offer = CompletedOffer execution" "LastAccountedOffer initial < Number offer"
    "offerCountAuthorized initial offer" "\<exists>receipt. LastReceipt execution = Some receipt \<and> RpcOffer (Request receipt) = Some offer"
  using assms by (auto simp: bootstrap_receipt_offer_def split: if_splits option.splits)

lemma bootstrap_receipt_consumed:
  assumes "CompletedOffer execution \<le> LastAccountedOffer initial"
  shows "accountBootstrapReceipt rootUID initial execution = (initial, False)"
proof -
  have "bootstrap_receipt_offer rootUID initial execution = None"
    using bootstrap_receipt_offer_ok(1,2) [of rootUID initial execution] assms
    by (cases "bootstrap_receipt_offer rootUID initial execution") auto
  then show ?thesis by (simp add: accountBootstrapReceipt_def)
qed

text \<open>C32: A generation receipt is accounted at most once and exactly. When the scheduler consumes the
  retained receipt of the target, the accounting cursor strictly advances to that execution's completed
  offer; the paid wallet's funding grows by exactly the offer's blocks if it is a miner wallet below the first
  ceiling, and no other wallet's funding changes; counters stay within 32 bits; and consuming the
  same execution again changes nothing. When the receipt is refused nothing changes.\<close>

theorem bootstrap_receipt_accounted_once:
  assumes "accountBootstrapReceipt rootUID initial execution = (initial', accounted)"
  shows "if accounted
    then LastAccountedOffer initial < LastAccountedOffer initial' \<and> LastAccountedOffer initial' = CompletedOffer execution
      \<and> (\<exists>receipt offer. LastReceipt execution = Some receipt \<and> RpcOffer (Request receipt) = Some offer
          \<and> (\<forall>u. funded_outputs u (Funded initial') = funded_outputs u (Funded initial)
               + (if u = UID (Wallet offer) \<and> list_ex (pays offer) (MinerWallets initial)
                     \<and> ExpectedHeight offer < MinimumHeight initial then offerBlocks offer else 0)))
      \<and> (counters_fit (Funded initial) \<longrightarrow> counters_fit (Funded initial'))
      \<and> accountBootstrapReceipt rootUID initial' execution = (initial', False)
    else initial' = initial"
proof (cases accounted)
  case False
  then show ?thesis using assms
    by (auto simp: accountBootstrapReceipt_def Let_def split: option.splits if_splits)
next
  case True
  with assms obtain offer where o: "bootstrap_receipt_offer rootUID initial execution = Some offer"
    by (auto simp: accountBootstrapReceipt_def split: option.splits)
  note ok = bootstrap_receipt_offer_ok [OF o]
  let ?funding = "list_ex (pays offer) (MinerWallets initial) \<and> ExpectedHeight offer < MinimumHeight initial"
  have blocks: "max (Count offer) 1 = offerBlocks offer" by (simp add: offerBlocks_def)
  have fit: "0 \<le> offerBlocks offer" "offerBlocks offer \<le> max_int32"
    using ok(3) by (auto simp: offerCountAuthorized_def offerBlocks_def batchLimit_def Let_def split: if_splits)
  from assms True o blocks obtain fs where
    i: "initial' = initial\<lparr>Funded := fs, LastAccountedOffer := Number offer\<rparr>"
    and fs: "if ?funding then credit_funding (UID (Wallet offer)) (offerBlocks offer) (Funded initial) = Some fs
             else fs = Funded initial"
    by (auto simp: accountBootstrapReceipt_def Let_def split: option.splits if_splits)
  have "\<forall>u. funded_outputs u fs = funded_outputs u (Funded initial)
      + (if u = UID (Wallet offer) \<and> ?funding then offerBlocks offer else 0)"
    using fs credit_funding_exact(1) by (cases ?funding) auto
  moreover have "counters_fit (Funded initial) \<longrightarrow> counters_fit fs"
    using fs credit_funding_exact(2) [OF _ fit] by (cases ?funding) auto
  moreover have "accountBootstrapReceipt rootUID initial' execution = (initial', False)"
    using ok(1) i by (intro bootstrap_receipt_consumed) simp
  ultimately show ?thesis using True ok i by simp blast
qed

section \<open>Delays stay within the requested cadence\<close>

definition intN_range :: "int_n \<Rightarrow> bool" where
  "intN_range intN \<longleftrightarrow> (\<forall>s t n. 0 < n \<longrightarrow> 0 \<le> intN s t n \<and> intN s t n < n)"

lemma cadence_Seconds_range:
  assumes "intN_range intN" "cadence_Seconds intN lower upper key = Inr d"
  shows "lower * second \<le> d \<and> d \<le> upper * second"
proof -
  let ?x = "intN (be_val (take 8 (sha256 (str_bytes key)))) (be_val (take 8 (drop 8 (sha256 (str_bytes key))))) (upper - lower + 1)"
  have b: "0 \<le> lower" "lower \<le> upper" and d: "d = (lower + ?x) * second"
    using assms(2) by (auto simp: cadence_Seconds_def Let_def split: if_splits)
  have "0 < upper - lower + 1" using b by simp
  then have "0 \<le> ?x" "?x < upper - lower + 1" using assms(1) unfolding intN_range_def by blast+
  then show ?thesis unfolding d by simp
qed

text \<open>Cadence sampling stays in range. The delay before the next block of a finite action is, for a
  generator that respects its documented range, within the bounds its mode declares and never more than
  a minute; the scheduler's interval is within the declared bounds of the block schedule, between a second
  and an hour, whatever its draw returns.\<close>

lemma cadence_within_bounds:
  assumes "intN_range intN"
  shows "(actionDelay intN c n completed key = Inr d \<longrightarrow>
      0 \<le> d \<and> d \<le> 60 * second
      \<and> (CadenceMode c = ''Fixed'' \<longrightarrow> d = IntervalSeconds c * second)
      \<and> (CadenceMode c = ''Uniform'' \<longrightarrow> MinSeconds c * second \<le> d \<and> d \<le> MaxSeconds c * second)
      \<and> (CadenceMode c = ''Explicit'' \<longrightarrow> d = DelaysSeconds c ! nat (completed - 1) * second))
    \<and> (schedule_interval draw schedule = Inr i \<longrightarrow>
      (\<exists>low high. cadenceBounds schedule = Inr (low, high) \<and> low \<le> i \<and> i \<le> high \<and> second \<le> i \<and> i \<le> 3600 * second))"
proof (intro conjI impI)
  assume delay: "actionDelay intN c n completed key = Inr d"
  have v: "validateActionCadence c n = Inr ()" and n: "1 \<le> completed" "completed < n"
    using delay by (auto simp: actionDelay_def result_simps split: if_splits)
  have explicit: "0 \<le> DelaysSeconds c ! nat (completed - 1) \<and> DelaysSeconds c ! nat (completed - 1) \<le> 60"
    if "CadenceMode c = ''Explicit''"
  proof -
    have "int (length (DelaysSeconds c)) = n - 1" "list_all (\<lambda>d. 0 \<le> d \<and> d \<le> 60) (DelaysSeconds c)"
      using v that by (auto simp: validateActionCadence_def split: if_splits)
    moreover from this have "nat (completed - 1) < length (DelaysSeconds c)" using n by linarith
    ultimately show ?thesis by (auto simp: list_all_length)
  qed
  note range = cadence_Seconds_range [OF assms]
  show "CadenceMode c = ''Fixed'' \<Longrightarrow> d = IntervalSeconds c * second"
    using delay range [of "IntervalSeconds c" "IntervalSeconds c" key d]
    by (auto simp: actionDelay_def result_simps split: if_splits)
  show "CadenceMode c = ''Uniform'' \<Longrightarrow> MinSeconds c * second \<le> d"
    and "CadenceMode c = ''Uniform'' \<Longrightarrow> d \<le> MaxSeconds c * second"
    using delay range [of "MinSeconds c" "MaxSeconds c" key d]
    by (auto simp: actionDelay_def result_simps split: if_splits)
  show "CadenceMode c = ''Explicit'' \<Longrightarrow> d = DelaysSeconds c ! nat (completed - 1) * second"
    using delay range [of "DelaysSeconds c ! nat (completed - 1)" "DelaysSeconds c ! nat (completed - 1)" key d]
    by (auto simp: actionDelay_def result_simps Let_def split: if_splits)
  have "0 \<le> d \<and> d \<le> 60 * second"
    using delay v explicit range [of "IntervalSeconds c" "IntervalSeconds c" key d]
      range [of "MinSeconds c" "MaxSeconds c" key d]
      range [of "DelaysSeconds c ! nat (completed - 1)" "DelaysSeconds c ! nat (completed - 1)" key d]
    by (auto simp: actionDelay_def validateActionCadence_def result_simps Let_def split: if_splits)
  then show "0 \<le> d" "d \<le> 60 * second" by auto
next
  assume i: "schedule_interval draw schedule = Inr i"
  have parse: "parse_interval v = Inr d \<Longrightarrow> second \<le> d \<and> d \<le> 3600 * second" for v d
    by (auto simp: parse_interval_def split: option.splits sum.splits if_splits)
  from i obtain low high where b: "cadenceBounds schedule = Inr (low, high)"
    by (auto simp: schedule_interval_def result_simps)
  then obtain sc where sc: "schedule = Some sc" by (cases schedule) (auto simp: cadenceBounds_def)
  have bounds: "second \<le> low \<and> low \<le> high \<and> high \<le> 3600 * second"
    by (cases "parse_interval (MaximumInterval sc)"; cases "parse_interval (MinimumInterval sc)";
        cases "parse_interval (Interval sc)")
      (use b sc in \<open>auto simp: cadenceBounds_def dest!: parse split: if_splits\<close>)
  have "low \<le> i" "i \<le> high"
    using i b bounds by (auto simp: schedule_interval_def Let_def split: if_splits)
  with bounds show "\<exists>low high. cadenceBounds schedule = Inr (low, high) \<and> low \<le> i \<and> i \<le> high \<and> second \<le> i \<and> i \<le> 3600 * second"
    using b by (intro exI [of _ low] exI [of _ high]) auto
qed

section \<open>Sample objects\<close>

definition bind :: "string \<Rightarrow> string \<Rightarrow> string \<Rightarrow> Binding" where
  "bind kind name uid = \<lparr>Kind = kind, Name = name, UID = uid, Fingerprint = []\<rparr>"

definition sample_wallet :: "string \<Rightarrow> FrozenBitcoinWallet" where
  "sample_wallet uid = \<lparr>FrozenWallet = bind ''BitcoinWallet'' uid uid, WalletName = uid, WalletAddress = uid,
     WalletDescriptor = []\<rparr>"

definition sample_initialization :: BitcoinInitialization where
  "sample_initialization =
     \<lparr>init_Name = ''init'', init_UID = ''i'', init_Owner = ''net'', init_Deleted = False, init_NetworkUID = ''net'',
      init_Genesis = \<lparr>Kind = ''StacksGenesis'', Name = ''genesis'', UID = ''g'', Fingerprint = ''spec''\<rparr>,
      init_Nodes = [bind ''StacksNetworkParticipant'' ''node'' ''n''], init_Target = bind ''StacksNetworkParticipant'' ''node'' ''n'',
      MinimumHeight = 200, MatureOutputsPerMiner = 10, BatchGeneration = True,
      MinerWallets = [sample_wallet ''miner''], PayoutWallet = sample_wallet ''payout'',
      init_Production = bind ''StacksNetworkParticipant'' ''producer'' ''p'', init_StatusProduction = None,
      init_StatusOffer = None, init_Override = None, init_Baseline = None, NextOpportunityAt = None,
      LastAccountedOffer = 4, Funded = [\<lparr>WalletUID = ''miner'', Outputs = 2\<rparr>], FirstCeilingObservedAt = None,
      PreparedAt = None, init_Phase = [], init_Reason = []\<rparr>"

definition sample_offer :: BitcoinBlockOffer where
  "sample_offer =
     \<lparr>Count = 8, Override = None, Mode = [], OfferTarget = None, Initialization = initialization_ref sample_initialization,
      Production = bind ''StacksNetworkParticipant'' ''producer'' ''p'', PolicyDigest = ''d'', Number = 5,
      OfferAddress = ''miner'', Wallet = bind ''BitcoinWallet'' ''miner'' ''miner'', ExpectedHeight = 100,
      ExpectedTip = sample_txid, Ceiling = 200, ExpiresAt = 60 * second\<rparr>"

definition sample_identity :: BitcoinTargetIdentity where
  "sample_identity =
     \<lparr>target_Participant = bind ''StacksNetworkParticipant'' ''node'' ''n'', target_Pod = bind ''Pod'' ''pod'' ''q'',
      target_ContainerID = ''c'', target_Endpoint = ''http://10.0.0.1:18443'', target_Configuration = bind ''Secret'' ''cfg'' ''c'',
      target_Credentials = bind ''Secret'' ''rpc'' ''r'', target_PolicyDigest = ''d''\<rparr>"

definition sample_request :: BitcoinArmedRPC where
  "sample_request =
     \<lparr>rpc_Action = None, rpc_Address = [], rpc_BlockHash = [], rpc_ID = ''w-1'', ProcessNonce = ''w'',
      Reservation = initialization_ref sample_initialization, RpcTarget = sample_identity, Method = Generate,
      WalletOperation = None, RpcOffer = Some sample_offer, ArmedAt = 0\<rparr>"

definition sample_execution :: BitcoinExecution where
  "sample_execution =
     \<lparr>exec_Name = ''exec'', exec_UID = ''e'', exec_Owner = ''net'', exec_Deleted = False, exec_NetworkUID = ''net'',
      exec_Participant = bind ''StacksNetworkParticipant'' ''node'' ''n'', exec_Offer = Some sample_offer,
      ActionState = None, ReservedFor = None, Armed = None,
      LastReceipt = Some \<lparr>Request = sample_request, ReceivedAt = 0, ReceiptHash = sample_txid\<rparr>,
      CompletedOffer = 5, BlocksGenerated = 8, Control = None, Drain = None, PendingWalletRemoval = None, Observation = None, Phase = PhaseIdle\<rparr>"

lemma offer_within_ceiling_sample:
  "offerCountAuthorized sample_initialization sample_offer
   \<and> ExpectedHeight sample_offer + offerBlocks sample_offer \<le> Ceiling sample_offer
   \<and> bootstrapBatch sample_initialization 100 200 8 = 8"
proof -
  have b: "Count sample_offer = bootstrapBatch sample_initialization 100 200 8" "ExpectedHeight sample_offer = 100"
    "Ceiling sample_offer = 200" "Mode sample_offer = []" by code_simp+
  then have "offerCountAuthorized sample_initialization sample_offer"
    using offer_within_ceiling [of sample_initialization sample_offer 100 200 8] by simp
  with offer_within_ceiling [of sample_initialization sample_offer 100 200 8] b show ?thesis
    by (simp add: sample_offer_def)
qed

theorem bootstrap_receipt_accounted_once_witness:
  "\<exists>initial'. accountBootstrapReceipt ''net'' sample_initialization sample_execution = (initial', True)
     \<and> LastAccountedOffer initial' = 5 \<and> funded_outputs ''miner'' (Funded initial') = 10
     \<and> accountBootstrapReceipt ''net'' initial' sample_execution = (initial', False)"
proof -
  let ?i = "fst (accountBootstrapReceipt ''net'' sample_initialization sample_execution)"
  have "snd (accountBootstrapReceipt ''net'' sample_initialization sample_execution)"
    "funded_outputs ''miner'' (Funded ?i) = 10" "CompletedOffer sample_execution = 5" by code_simp+
  moreover from this have r: "accountBootstrapReceipt ''net'' sample_initialization sample_execution = (?i, True)"
    by (simp add: prod_eq_iff)
  ultimately show ?thesis using bootstrap_receipt_accounted_once [OF r] by auto
qed

lemma cadence_within_bounds_sample:
  "\<exists>d. actionDelay (\<lambda>s t n. 0)
       \<lparr>CadenceMode = ''Uniform'', IntervalSeconds = 0, MinSeconds = 3, MaxSeconds = 9, DelaysSeconds = []\<rparr> 5 2 ''id'' = Inr d
     \<and> 3 * second \<le> d \<and> d \<le> 9 * second"
proof -
  let ?c = "\<lparr>CadenceMode = ''Uniform'', IntervalSeconds = 0, MinSeconds = 3, MaxSeconds = 9, DelaysSeconds = []\<rparr>"
  have r: "intN_range (\<lambda>s t n. 0)" by (simp add: intN_range_def)
  have d: "actionDelay (\<lambda>s t n. 0) ?c 5 2 ''id'' = Inr (3 * second)"
    by (simp add: actionDelay_def validateActionCadence_def cadence_Seconds_def Let_def)
  show ?thesis using cadence_within_bounds [OF r, of ?c 5 2 "''id''" "3 * second"] d by auto
qed

end
