(* ===== verification/Naming.thy ===== *)
theory Naming
  imports Sha2 Go_Encoding
begin

text \<open>
  Model of \<open>operators/network/internal/naming\<close> (\<open>Child\<close>, \<open>Resource\<close>, \<open>RuntimeName\<close>) and of \<open>ParticipantName\<close> in
  \<open>foundation/composition.go\<close>: the stable object names derived from identities. \<open>json.Marshal\<close> of a
  list of strings is written out for ASCII text, which is all that names, kinds and UIDs contain; bytes
  above 127 pass through unchanged.
\<close>

definition json_escape :: "char \<Rightarrow> string" where
  "json_escape c =
     (let n = of_char c :: nat in
      if n = 34 then [CHR 0x5C, CHR 0x22] else if n = 92 then [CHR 0x5C, CHR 0x5C]
      else if n = 8 then CHR 0x5C # ''b'' else if n = 12 then CHR 0x5C # ''f'' else if n = 10 then CHR 0x5C # ''n''
      else if n = 13 then CHR 0x5C # ''r'' else if n = 9 then CHR 0x5C # ''t''
      else if n < 32 \<or> c = CHR ''<'' \<or> c = CHR ''>'' \<or> c = CHR ''&''
      then CHR 0x5C # ''u00'' @ hex_encode [of_nat n]
      else [c])"

definition json_string :: "string \<Rightarrow> string" where
  "json_string s = CHR 0x22 # concat (map json_escape s) @ [CHR 0x22]"

fun json_rest :: "string list \<Rightarrow> string" where
  "json_rest [] = '']''"
| "json_rest (s # ss) = CHR '','' # json_string s @ json_rest ss"

definition json_strings :: "string list \<Rightarrow> string" where
  "json_strings ss = (case ss of [] \<Rightarrow> ''[]'' | s # rest \<Rightarrow> CHR ''['' # json_string s @ json_rest rest)"

text \<open>\<open>strings.TrimRight(s, "-")\<close> and \<open>strings.ToLower\<close> on ASCII.\<close>

definition trim_dashes :: "string \<Rightarrow> string" where
  "trim_dashes s = rev (dropWhile (\<lambda>c. c = CHR ''-'') (rev s))"

definition lower_char :: "char \<Rightarrow> char" where
  "lower_char c = (if CHR ''A'' \<le> c \<and> c \<le> CHR ''Z'' then char_of (of_char c + 32 :: nat) else c)"

definition short_hash :: "string \<Rightarrow> nat \<Rightarrow> string" where
  "short_hash s n = take n (hex_encode (sha256 (str_bytes s)))"

abbreviation maximumNameLength :: nat where "maximumNameLength \<equiv> 63"

definition Child :: "string \<Rightarrow> string \<Rightarrow> string" where
  "Child network actor =
     (let v = network @ ''-'' @ actor in
      if length v \<le> maximumNameLength then v
      else let suffix = ''-'' @ hex_encode (take 4 (sha256 (str_bytes v)));
               prefix = trim_dashes (take (maximumNameLength - length suffix) v)
           in prefix @ suffix)"

definition Resource :: "string \<Rightarrow> string \<Rightarrow> string" where
  "Resource owner suffix = Child owner suffix"

definition RuntimeName :: "string \<Rightarrow> string \<Rightarrow> string \<Rightarrow> string \<Rightarrow> string \<Rightarrow> string" where
  "RuntimeName networkUID participantUID kind name purpose =
     (let prefix = ''n-'' @ short_hash networkUID 12 @ ''-'' @ map lower_char kind @ ''-'' @ name @ ''-'' @ purpose;
          prefix' = trim_dashes (take 39 prefix)
      in prefix' @ ''-'' @ short_hash (json_strings [networkUID, participantUID, kind, name, purpose]) 12)"

text \<open>\<open>Digest\<close> of a list of strings.\<close>

definition Digest_strings :: "string list \<Rightarrow> string" where
  "Digest_strings ss = ''sha256:'' @ hex_encode (sha256 (str_bytes (json_strings ss)))"

definition ParticipantName :: "string \<Rightarrow> string \<Rightarrow> string" where
  "ParticipantName networkUID name =
     (let prefix = ''n-'' @ short_hash networkUID 12 @ ''-participant-'' @ name;
          prefix' = trim_dashes (take 39 prefix)
      in prefix' @ ''-'' @ take 12 (trim_prefix (Digest_strings [networkUID, name, ''participant'']) ''sha256:''))"

lemma length_trim_dashes: "length (trim_dashes s) \<le> length s"
  using length_dropWhile_le [of "\<lambda>c. c = CHR ''-''" "rev s"] by (simp add: trim_dashes_def)

text \<open>Every name fits a DNS label, and the runtime names leave room for the suffixes of workload
  children.\<close>

lemma short_hash_length [simp]: "n \<le> 64 \<Longrightarrow> length (short_hash s n) = n"
  by (simp add: short_hash_def)

lemma names_bounded:
  "length (Child network actor) \<le> maximumNameLength"
  "length (RuntimeName networkUID participantUID kind name purpose) \<le> 52"
  "length (ParticipantName networkUID name) \<le> 52"
proof -
  have t: "length (trim_dashes (take k v)) \<le> k" for k v
    using length_trim_dashes [of "take k v"] by simp
  have n: "length h \<le> 12 \<Longrightarrow> length (trim_dashes (take 39 v) @ ''-'' @ h) \<le> 52" for v h
    using t [of 39 v] by (simp only: length_append list.size)
  show "length (Child network actor) \<le> maximumNameLength"
    using t [of 54 "network @ ''-'' @ actor"] by (simp add: Child_def Let_def)
  show "length (RuntimeName networkUID participantUID kind name purpose) \<le> 52"
    unfolding RuntimeName_def Let_def by (rule n) simp
  show "length (ParticipantName networkUID name) \<le> 52"
    unfolding ParticipantName_def Let_def by (rule n) simp
qed

end
