(* ===== verification/Worker_Session.thy ===== *)
theory Worker_Session
  imports Block_Offers Naming
begin

text \<open>
  Model of \<open>operators/network/internal/stacksworker/session.go\<close>: the ledger in which the aggregate retains
  the one worker Pod authorized for each participant, with \<open>PendingWorkerAllocation\<close> of
  \<open>foundation/worker_allocation.go\<close> and the object data these functions read. \<open>ProjectSession\<close> returns the
  updated root, which Go updates through the pointer \<open>Session\<close> returns. The outcome of
  \<open>profileFromPod\<close> is an argument.
\<close>

section \<open>Objects\<close>

record WorkerPodBinding =
  wp_Kind :: string
  wp_Name :: string
  wp_UID :: string

record WorkerCandidate =
  cand_Pod :: WorkerPodBinding
  cand_ProfileDigest :: string

record WorkerShutdown =
  sd_NetworkGeneration :: int
  sd_Reason :: string
  sd_RequestedAt :: time

record WorkerDisposal =
  dp_Outcome :: string
  dp_ProcessNonce :: string
  dp_ObservedAt :: time
  dp_Terminated :: bool

record WorkerSession =
  ws_Pod :: WorkerPodBinding
  ws_ProfileDigest :: string
  ws_Shutdown :: "WorkerShutdown option"
  ws_Disposal :: "WorkerDisposal option"

record InstanceIdentity =
  ii_Name :: string
  ii_UID :: string
  ii_Removing :: bool
  ii_Worker :: "WorkerSession option"

record WorkerExecutionStatus =
  we_PodUID :: string
  we_ProcessNonce :: string
  we_ProfileDigest :: string
  we_NetworkGeneration :: int
  we_Phase :: string
  we_Reason :: string
  we_ObservedAt :: time
  we_Pending :: int

text \<open>A participant entry; \<open>entry_Paused\<close> is \<open>None\<close> without a control block.\<close>

record ParticipantEntry =
  entry_Name :: string
  entry_Kind :: string
  entry_Paused :: "bool option"

record StacksNetwork =
  net_Name :: string
  net_Namespace :: string
  net_UID :: string
  net_Deleted :: bool
  net_Generation :: int
  net_Operation :: string
  net_Participants :: "ParticipantEntry list"
  net_Phase :: string
  net_FailedCondition :: bool
  net_Identities :: "InstanceIdentity list"

record OwnerReference =
  own_APIVersion :: string
  own_Kind :: string
  own_Name :: string
  own_UID :: string

text \<open>\<open>part_Runtime\<close> is \<open>None\<close> for a nil runtime status; otherwise whether it is empty up to its
  observed generation, and its worker candidate.\<close>

record StacksNetworkParticipant =
  part_Name :: string
  part_Namespace :: string
  part_UID :: string
  part_Owner :: "OwnerReference option"
  part_Finalizers :: "string list"
  part_Deleted :: bool
  part_NetworkUID :: string
  part_ParticipantName :: string
  part_Kind :: string
  part_Admitted :: bool
  part_Execution :: "WorkerExecutionStatus option"
  part_Runtime :: "(bool \<times> WorkerCandidate option) option"

text \<open>Container statuses are pairs of the name and the reason of a terminated state.\<close>

record Pod =
  pod_Name :: string
  pod_UID :: string
  pod_Owner :: "OwnerReference option"
  pod_NetworkLabel :: string
  pod_ParticipantLabel :: string
  pod_ProfileDigest :: string
  pod_Deleted :: bool
  pod_RestartPolicy :: string
  pod_NodeName :: string
  pod_Phase :: string
  pod_Containers :: nat
  pod_InitContainers :: nat
  pod_EphemeralContainers :: nat
  pod_ContainerStatuses :: "(string \<times> string option) list"
  pod_InitStatuses :: nat

abbreviation api_version :: string where "api_version \<equiv> ''network.stacks.org/v1alpha2''"

definition IsControlledBy :: "OwnerReference option \<Rightarrow> string \<Rightarrow> bool" where
  "IsControlledBy owner uid = (case owner of None \<Rightarrow> False | Some ref \<Rightarrow> own_UID ref = uid)"

definition ownedPod :: "Pod \<Rightarrow> StacksNetworkParticipant \<Rightarrow> bool" where
  "ownedPod pod p =
     (case pod_Owner pod of
        None \<Rightarrow> False
      | Some owner \<Rightarrow>
          own_APIVersion owner = api_version \<and> own_Kind owner = ''StacksNetworkParticipant''
          \<and> own_Name owner = part_Name p \<and> own_UID owner = part_UID p
          \<and> pod_NetworkLabel pod = part_NetworkUID p \<and> pod_ParticipantLabel pod = part_UID p)"

definition worker_Name :: "StacksNetworkParticipant \<Rightarrow> string" where
  "worker_Name p = RuntimeName (part_NetworkUID p) (part_UID p) (part_Kind p) (part_ParticipantName p) ''worker''"

section \<open>Allocation (worker_allocation.go)\<close>

definition ManagementKind :: "string \<Rightarrow> bool" where
  "ManagementKind kind \<longleftrightarrow>
     kind \<in> set [''StacksStacker'', ''StacksContractSet'', ''StacksFaucet'', ''StacksTransactionProduction'']"

definition selects :: "StacksNetworkParticipant \<Rightarrow> ParticipantEntry \<Rightarrow> bool" where
  "selects p entry \<longleftrightarrow> entry_Name entry = part_ParticipantName p \<and> entry_Kind entry = part_Kind p"

definition findIdentity :: "InstanceIdentity list \<Rightarrow> string \<Rightarrow> InstanceIdentity option" where
  "findIdentity ids name = find (\<lambda>i. ii_Name i = name) ids"

definition PendingWorkerAllocation :: "StacksNetwork \<Rightarrow> StacksNetworkParticipant \<Rightarrow> bool" where
  "PendingWorkerAllocation root p =
     (if \<not> ManagementKind (part_Kind p) \<or> net_UID root = [] \<or> part_UID p = []
         \<or> net_Namespace root \<noteq> part_Namespace p \<or> net_UID root \<noteq> part_NetworkUID p \<or> part_Finalizers p \<noteq> []
      then False
      else case part_Owner p of
        None \<Rightarrow> False
      | Some owner \<Rightarrow>
          if own_APIVersion owner \<noteq> api_version \<or> own_Kind owner \<noteq> ''StacksNetwork'' \<or> own_Name owner \<noteq> net_Name root
             \<or> own_UID owner \<noteq> net_UID root \<or> part_Name p \<noteq> ParticipantName (net_UID root) (part_ParticipantName p)
          then False
          else if findIdentity (net_Identities root) (part_ParticipantName p) \<noteq> None \<or> part_Admitted p
             \<or> part_Execution p \<noteq> None
          then False
          else if (case part_Runtime p of None \<Rightarrow> False | Some (empty_state, _) \<Rightarrow> \<not> empty_state) then False
          else list_ex (selects p) (net_Participants root))"

section \<open>The session ledger (session.go)\<close>

datatype session_error = NetworkChanged | ParticipantChanged | ParticipantAllocating | LedgerMissing

definition Session :: "StacksNetwork \<Rightarrow> StacksNetworkParticipant \<Rightarrow> session_error + InstanceIdentity" where
  "Session root p =
     (if net_UID root \<noteq> part_NetworkUID p \<or> net_Namespace root \<noteq> part_Namespace p
         \<or> \<not> IsControlledBy (part_Owner p) (net_UID root)
      then Inl NetworkChanged
      else case findIdentity (net_Identities root) (part_ParticipantName p) of
        Some identity \<Rightarrow> if ii_UID identity \<noteq> part_UID p then Inl ParticipantChanged else Inr identity
      | None \<Rightarrow> if PendingWorkerAllocation root p then Inl ParticipantAllocating else Inl LedgerMissing)"

definition network_failed :: "StacksNetwork \<Rightarrow> bool" where
  "network_failed root \<longleftrightarrow> net_Phase root = ''Failed'' \<or> net_FailedCondition root"

definition stoppedReason :: "StacksNetwork \<Rightarrow> StacksNetworkParticipant \<Rightarrow> InstanceIdentity \<Rightarrow> string" where
  "stoppedReason root p identity =
     (if net_Deleted root then ''NetworkDeleting''
      else if net_Operation root = ''Stopped'' then ''NetworkStopped''
      else if part_Deleted p \<or> ii_Removing identity then ''ParticipantRemoved''
      else if list_ex (selects p) (net_Participants root) then []
      else ''ParticipantRemoved'')"

definition paused :: "StacksNetwork \<Rightarrow> StacksNetworkParticipant \<Rightarrow> bool" where
  "paused root p =
     (if net_Operation root \<noteq> ''Running'' \<or> network_failed root then True
      else case find (\<lambda>e. entry_Name e = part_ParticipantName p \<and> entry_Paused e \<noteq> None) (net_Participants root) of
        Some e \<Rightarrow> entry_Paused e = Some True
      | None \<Rightarrow> False)"

definition pod_terminal :: "Pod \<Rightarrow> bool" where
  "pod_terminal pod \<longleftrightarrow> pod_Phase pod = ''Succeeded'' \<or> pod_Phase pod = ''Failed''"

definition Terminated :: "Pod \<Rightarrow> bool" where
  "Terminated pod =
     (if pod_Deleted pod \<and> pod_NodeName pod = [] \<and> pod_ContainerStatuses pod = [] \<and> pod_InitStatuses pod = 0
      then True
      else if \<not> pod_terminal pod \<or> pod_Containers pod \<noteq> 1 \<or> pod_InitContainers pod \<noteq> 0
         \<or> pod_EphemeralContainers pod \<noteq> 0
      then False
      else list_ex (\<lambda>(name, terminated). name = ''worker'' \<and> terminated \<noteq> None
             \<and> terminated \<noteq> Some ''ContainerStatusUnknown'') (pod_ContainerStatuses pod))"

record SessionFact =
  Changed :: bool
  Failed :: bool
  Unknown :: bool
  FactReason :: string

definition fact :: "bool \<Rightarrow> bool \<Rightarrow> bool \<Rightarrow> string \<Rightarrow> SessionFact" where
  "fact changed failed unknown reason = \<lparr>Changed = changed, Failed = failed, Unknown = unknown, FactReason = reason\<rparr>"

text \<open>The error of the Pod read.\<close>

datatype read_error = NoError | ReadNotFound | ReadFailed

abbreviation ShutdownBound :: int where "ShutdownBound \<equiv> 30 * second"

text \<open>Replace the worker of the first identity with a name: the pointer update of \<open>id.Worker\<close>.\<close>

fun put_worker :: "string \<Rightarrow> WorkerSession \<Rightarrow> InstanceIdentity list \<Rightarrow> InstanceIdentity list" where
  "put_worker name session [] = []"
| "put_worker name session (i # is) =
     (if ii_Name i = name then i\<lparr>ii_Worker := Some session\<rparr> # is else i # put_worker name session is)"

text \<open>\<open>ProjectSession\<close> while no worker is bound: the session to bind, if any, and the fact.\<close>

definition project_unbound ::
  "(Pod \<Rightarrow> bool) \<Rightarrow> StacksNetwork \<Rightarrow> StacksNetworkParticipant \<Rightarrow> InstanceIdentity \<Rightarrow> Pod option \<Rightarrow> read_error
     \<Rightarrow> WorkerSession option \<times> SessionFact" where
  "project_unbound profile_ok root p identity pod readErr =
     (if (case part_Execution p of Some e \<Rightarrow> we_Phase e \<noteq> ''Inactive'' | None \<Rightarrow> False)
      then (None, fact False True False ''WorkerBindingLost'')
      else if stoppedReason root p identity \<noteq> [] \<or> net_Operation root \<noteq> ''Running'' \<or> network_failed root
      then (None, fact False False False ''ActivationHeld'')
      else case (case part_Runtime p of Some (_, c) \<Rightarrow> c | None \<Rightarrow> None) of
        None \<Rightarrow> (None, fact False False False ''CandidatePending'')
      | Some candidate \<Rightarrow>
          (case (readErr, pod) of
             (NoError, Some q) \<Rightarrow>
               if pod_Name q \<noteq> worker_Name p \<or> wp_Kind (cand_Pod candidate) \<noteq> ''Pod''
                  \<or> wp_Name (cand_Pod candidate) \<noteq> pod_Name q \<or> wp_UID (cand_Pod candidate) = []
                  \<or> wp_UID (cand_Pod candidate) \<noteq> pod_UID q \<or> \<not> ownedPod q p \<or> pod_RestartPolicy q \<noteq> ''Never''
                  \<or> cand_ProfileDigest candidate = [] \<or> pod_ProfileDigest q \<noteq> cand_ProfileDigest candidate
               then (None, fact False True False ''CandidateConflict'')
               else if pod_Deleted q \<or> pod_terminal q
               then (None, fact False False False ''InactiveCandidateExited'')
               else if \<not> profile_ok q then (None, fact False True False ''CandidateProfileChanged'')
               else (Some \<lparr>ws_Pod = cand_Pod candidate, ws_ProfileDigest = cand_ProfileDigest candidate,
                           ws_Shutdown = None, ws_Disposal = None\<rparr>,
                     fact True False False ''WorkerBound'')
           | _ \<Rightarrow> (None, fact False False True ''CandidateUnavailable'')))"

text \<open>\<open>ProjectSession\<close> while the bound worker awaits disposal: acknowledgement, expiry or waiting.\<close>

definition acknowledges :: "WorkerExecutionStatus \<Rightarrow> WorkerSession \<Rightarrow> WorkerShutdown \<Rightarrow> bool" where
  "acknowledges e session shutdown \<longleftrightarrow>
     we_PodUID e = wp_UID (ws_Pod session) \<and> we_ProcessNonce e \<noteq> [] \<and> we_ProfileDigest e = ws_ProfileDigest session
     \<and> we_NetworkGeneration e = sd_NetworkGeneration shutdown \<and> we_Reason e = sd_Reason shutdown
     \<and> (we_Phase e = ''Settled'' \<or> we_Phase e = ''Unsettled'')"

definition project_shutdown ::
  "StacksNetworkParticipant \<Rightarrow> WorkerSession \<Rightarrow> WorkerShutdown \<Rightarrow> Pod \<Rightarrow> time \<Rightarrow> WorkerSession option \<times> SessionFact" where
  "project_shutdown p session shutdown pod now =
     (let expired = (if pod_terminal pod \<or> pod_Deleted pod \<or> now - sd_RequestedAt shutdown \<ge> ShutdownBound
            then (Some (session\<lparr>ws_Disposal := Some \<lparr>dp_Outcome = ''Unsettled'', dp_ProcessNonce = [],
                                  dp_ObservedAt = now, dp_Terminated = Terminated pod\<rparr>\<rparr>),
                  fact True True (\<not> Terminated pod) ''WorkerSettlementUnconfirmed'')
            else (None, fact False False False ''WorkerDraining''))
      in case part_Execution p of
        Some e \<Rightarrow>
          if acknowledges e session shutdown
          then let outcome = (if we_Pending e > 0 then ''Unsettled'' else we_Phase e)
               in (Some (session\<lparr>ws_Disposal := Some \<lparr>dp_Outcome = outcome, dp_ProcessNonce = we_ProcessNonce e,
                                    dp_ObservedAt = we_ObservedAt e, dp_Terminated = Terminated pod\<rparr>\<rparr>),
                   fact True (outcome = ''Unsettled'') False ''WorkerDisposalAcknowledged'')
          else expired
      | None \<Rightarrow> expired)"

definition project_bound ::
  "(Pod \<Rightarrow> bool) \<Rightarrow> StacksNetwork \<Rightarrow> StacksNetworkParticipant \<Rightarrow> InstanceIdentity \<Rightarrow> WorkerSession \<Rightarrow> Pod option
     \<Rightarrow> read_error \<Rightarrow> time \<Rightarrow> WorkerSession option \<times> SessionFact" where
  "project_bound profile_ok root p identity session pod readErr now =
     (if wp_UID (ws_Pod session) = [] \<or> wp_Name (ws_Pod session) \<noteq> worker_Name p \<or> ws_ProfileDigest session = []
      then (None, fact False True False ''WorkerBindingCorrupt'')
      else case (readErr, pod) of
        (NoError, Some q) \<Rightarrow>
          if pod_UID q \<noteq> wp_UID (ws_Pod session) \<or> \<not> ownedPod q p \<or> pod_ProfileDigest q \<noteq> ws_ProfileDigest session
          then (None, fact False True True ''BoundWorkerReplaced'')
          else (case ws_Disposal session of
            Some disposal \<Rightarrow>
              if Terminated q \<and> \<not> dp_Terminated disposal
              then (Some (session\<lparr>ws_Disposal := Some (disposal\<lparr>dp_Terminated := True\<rparr>)\<rparr>),
                    fact True (dp_Outcome disposal = ''Unsettled'') False ''WorkerTerminationConfirmed'')
              else (None, fact False (dp_Outcome disposal = ''Unsettled'') (\<not> dp_Terminated disposal) ''WorkerDisposing'')
          | None \<Rightarrow>
              (case ws_Shutdown session of
                 Some shutdown \<Rightarrow> project_shutdown p session shutdown q now
               | None \<Rightarrow>
                   let reason = stoppedReason root p identity;
                       request = \<lparr>sd_NetworkGeneration = net_Generation root, sd_Reason = reason, sd_RequestedAt = now\<rparr>
                   in if pod_Deleted q \<or> pod_terminal q
                      then if reason \<noteq> []
                           then (Some (session\<lparr>ws_Shutdown := Some request,
                                   ws_Disposal := Some \<lparr>dp_Outcome = ''Unsettled'', dp_ProcessNonce = [],
                                     dp_ObservedAt = now, dp_Terminated = Terminated q\<rparr>\<rparr>),
                                 fact True True (\<not> Terminated q) ''PriorWorkerExitUnsettled'')
                           else (None, fact False True (\<not> Terminated q) ''BoundWorkerExited'')
                      else if reason \<noteq> []
                      then (Some (session\<lparr>ws_Shutdown := Some request\<rparr>), fact True False False ''WorkerShutdownRequested'')
                      else if (case part_Execution p of
                                 Some e \<Rightarrow> we_PodUID e = wp_UID (ws_Pod session)
                                   \<and> we_ProfileDigest e = ws_ProfileDigest session \<and> we_Phase e = ''Failed''
                               | None \<Rightarrow> False)
                      then (None, fact False True False ''WorkerProtocolFailed'')
                      else if \<not> profile_ok q then (None, fact False True False ''WorkerProfileChanged'')
                      else (None, fact False False False ''WorkerBound'')))
      | _ \<Rightarrow>
          if (case ws_Disposal session of Some d \<Rightarrow> dp_Terminated d | None \<Rightarrow> False)
          then (None, fact False False False ''WorkerDisposed'')
          else (None, fact False True True ''BoundWorkerLost''))"

definition ProjectSession ::
  "(Pod \<Rightarrow> bool) \<Rightarrow> StacksNetwork \<Rightarrow> StacksNetworkParticipant \<Rightarrow> Pod option \<Rightarrow> read_error \<Rightarrow> time
     \<Rightarrow> StacksNetwork \<times> SessionFact" where
  "ProjectSession profile_ok root p pod readErr now =
     (case Session root p of
        Inl ParticipantAllocating \<Rightarrow> (root, fact False False True ''AllocationPending'')
      | Inl _ \<Rightarrow> (root, fact False True False ''WorkerIdentityLost'')
      | Inr identity \<Rightarrow>
          if readErr = ReadFailed then (root, fact False False True ''WorkerObservationUnavailable'')
          else
            let (update, result) =
                  (case ii_Worker identity of
                     None \<Rightarrow> project_unbound profile_ok root p identity pod readErr
                   | Some session \<Rightarrow> project_bound profile_ok root p identity session pod readErr now)
            in (case update of
                  None \<Rightarrow> (root, result)
                | Some session \<Rightarrow>
                    (root\<lparr>net_Identities := put_worker (part_ParticipantName p) session (net_Identities root)\<rparr>, result)))"

section \<open>Sessions are never replaced\<close>

definition session_extends :: "WorkerSession \<Rightarrow> WorkerSession \<Rightarrow> bool" where
  "session_extends s s' \<longleftrightarrow>
     ws_Pod s' = ws_Pod s \<and> ws_ProfileDigest s' = ws_ProfileDigest s
     \<and> (ws_Shutdown s \<noteq> None \<longrightarrow> ws_Shutdown s' = ws_Shutdown s)
     \<and> (\<forall>d. ws_Disposal s = Some d \<longrightarrow>
          ws_Disposal s' = Some d \<or> ws_Disposal s' = Some (d\<lparr>dp_Terminated := True\<rparr>))"

definition identity_extends :: "InstanceIdentity \<Rightarrow> InstanceIdentity \<Rightarrow> bool" where
  "identity_extends i i' \<longleftrightarrow>
     ii_Name i' = ii_Name i \<and> ii_UID i' = ii_UID i \<and> (ii_Removing i \<longrightarrow> ii_Removing i')
     \<and> (\<forall>s. ii_Worker i = Some s \<longrightarrow> (\<exists>s'. ii_Worker i' = Some s' \<and> session_extends s s'))"

definition ledger_extends :: "InstanceIdentity list \<Rightarrow> InstanceIdentity list \<Rightarrow> bool" where
  "ledger_extends ids ids' \<longleftrightarrow>
     length ids \<le> length ids' \<and> (\<forall>k < length ids. identity_extends (ids ! k) (ids' ! k))"

lemma session_extends_refl [simp]: "session_extends s s"
  by (simp add: session_extends_def)

lemma identity_extends_refl [simp]: "identity_extends i i"
  by (simp add: identity_extends_def)

lemma ledger_extends_refl [simp]: "ledger_extends ids ids"
  by (simp add: ledger_extends_def)

lemma session_extends_trans: "session_extends a b \<Longrightarrow> session_extends b c \<Longrightarrow> session_extends a c"
  by (cases "ws_Disposal a"; cases "ws_Shutdown a") (auto simp: session_extends_def)

lemma identity_extends_trans: "identity_extends a b \<Longrightarrow> identity_extends b c \<Longrightarrow> identity_extends a c"
  by (cases "ii_Worker a") (auto simp: identity_extends_def, (blast intro: session_extends_trans)+)

lemma ledger_extends_trans: "ledger_extends a b \<Longrightarrow> ledger_extends b c \<Longrightarrow> ledger_extends a c"
  unfolding ledger_extends_def by (meson identity_extends_trans le_trans order_less_le_trans)

lemma put_worker_extends:
  assumes "findIdentity ids name = Some i" "\<And>s. ii_Worker i = Some s \<Longrightarrow> session_extends s session"
  shows "ledger_extends ids (put_worker name session ids)"
  using assms
proof (induction ids)
  case (Cons j ids)
  show ?case
  proof (cases "ii_Name j = name")
    case True
    with Cons.prems show ?thesis
      by (auto simp: findIdentity_def ledger_extends_def identity_extends_def nth_Cons split: nat.splits)
  next
    case False
    with Cons have "ledger_extends ids (put_worker name session ids)" by (simp add: findIdentity_def)
    with False show ?thesis by (auto simp: ledger_extends_def nth_Cons split: nat.splits)
  qed
qed (simp add: findIdentity_def)

lemma findIdentity_put_worker:
  "findIdentity (put_worker name session ids) name = map_option (\<lambda>i. i\<lparr>ii_Worker := Some session\<rparr>) (findIdentity ids name)"
  by (induction ids) (auto simp: findIdentity_def)

text \<open>What a projection may write: the first binding, or an extension of the bound session.\<close>

lemma project_shutdown_extends:
  assumes "project_shutdown p session shutdown pod now = (Some session', result)"
    and "ws_Disposal session = None"
  shows "session_extends session session' \<and> ws_Disposal session' \<noteq> None \<and> Changed result"
  using assms unfolding project_shutdown_def Let_def
  by (auto simp: session_extends_def fact_def split: option.splits if_splits)

lemma project_shutdown_none:
  "project_shutdown p session shutdown pod now = (None, result) \<Longrightarrow> \<not> Changed result"
  unfolding project_shutdown_def Let_def by (auto simp: fact_def split: option.splits if_splits)

text \<open>The evidence for each kind of write.\<close>

definition binding_evidence ::
  "(Pod \<Rightarrow> bool) \<Rightarrow> StacksNetwork \<Rightarrow> StacksNetworkParticipant \<Rightarrow> InstanceIdentity \<Rightarrow> Pod \<Rightarrow> WorkerSession \<Rightarrow> bool" where
  "binding_evidence profile_ok root p identity q s \<longleftrightarrow>
     net_Operation root = ''Running'' \<and> \<not> network_failed root \<and> stoppedReason root p identity = []
     \<and> (\<exists>state candidate. part_Runtime p = Some (state, Some candidate)
          \<and> s = \<lparr>ws_Pod = cand_Pod candidate, ws_ProfileDigest = cand_ProfileDigest candidate, ws_Shutdown = None, ws_Disposal = None\<rparr>)
     \<and> wp_UID (ws_Pod s) = pod_UID q \<and> wp_Name (ws_Pod s) = pod_Name q \<and> pod_Name q = worker_Name p
     \<and> ws_ProfileDigest s = pod_ProfileDigest q \<and> ownedPod q p \<and> pod_RestartPolicy q = ''Never''
     \<and> \<not> pod_Deleted q \<and> \<not> pod_terminal q \<and> profile_ok q"

definition settled_evidence :: "StacksNetworkParticipant \<Rightarrow> WorkerSession \<Rightarrow> bool" where
  "settled_evidence p s \<longleftrightarrow>
     (\<exists>e shutdown. part_Execution p = Some e \<and> ws_Shutdown s = Some shutdown \<and> acknowledges e s shutdown
        \<and> we_Phase e = ''Settled'' \<and> we_Pending e \<le> 0)"

lemma project_unbound_write:
  assumes "project_unbound profile_ok root p identity pod readErr = (update, result)"
  shows "Changed result \<longleftrightarrow> update \<noteq> None"
    and "update = Some s \<Longrightarrow> readErr = NoError \<and> (\<exists>q. pod = Some q \<and> binding_evidence profile_ok root p identity q s)"
  using assms unfolding project_unbound_def
  by (auto simp: fact_def binding_evidence_def split: if_splits option.splits read_error.splits prod.splits)

lemma project_shutdown_evidence:
  assumes "project_shutdown p session shutdown pod now = (Some s, result)" "ws_Shutdown session = Some shutdown"
    and "ws_Disposal s = Some d"
  shows "(dp_Outcome d \<noteq> ''Unsettled'' \<longrightarrow> settled_evidence p s) \<and> (dp_Terminated d \<longrightarrow> Terminated pod)"
  using assms unfolding project_shutdown_def Let_def
  by (auto simp: settled_evidence_def acknowledges_def split: option.splits if_splits)

lemma project_bound_none:
  assumes "project_bound profile_ok root p identity session pod readErr now = (None, result)"
  shows "\<not> Changed result"
  using assms project_shutdown_none unfolding project_bound_def Let_def
  by (auto simp: fact_def split: if_splits option.splits read_error.splits)

lemma project_bound_write:
  assumes "project_bound profile_ok root p identity session pod readErr now = (Some s, result)"
  shows "session_extends session s \<and> s \<noteq> session \<and> Changed result
    \<and> (\<exists>q. readErr = NoError \<and> pod = Some q \<and> pod_UID q = wp_UID (ws_Pod session)
        \<and> (\<forall>d. ws_Disposal s = Some d \<longrightarrow>
              (ws_Disposal session = None \<longrightarrow> dp_Outcome d \<noteq> ''Unsettled'' \<longrightarrow> settled_evidence p s)
              \<and> (dp_Terminated d \<longrightarrow> Terminated q \<or> (\<exists>d0. ws_Disposal session = Some d0 \<and> dp_Terminated d0))))"
proof -
  from assms obtain q where q: "readErr = NoError" "pod = Some q" "pod_UID q = wp_UID (ws_Pod session)"
    unfolding project_bound_def by (auto split: if_splits option.splits read_error.splits)
  show ?thesis
  proof (cases "ws_Disposal session")
    case (Some d)
    then have s: "s = session\<lparr>ws_Disposal := Some (d\<lparr>dp_Terminated := True\<rparr>)\<rparr>" "Terminated q" "\<not> dp_Terminated d" "Changed result"
      using assms q unfolding project_bound_def by (auto simp: fact_def split: if_splits)
    then have "ws_Disposal s \<noteq> ws_Disposal session" using Some by (cases d) auto
    then have "s \<noteq> session" by auto
    with s show ?thesis using Some q by (simp add: session_extends_def)
  next
    case None
    show ?thesis
    proof (cases "ws_Shutdown session")
      case (Some shutdown)
      then have ps: "project_shutdown p session shutdown q now = (Some s, result)"
        using assms q None unfolding project_bound_def by (auto split: if_splits)
      show ?thesis
        using project_shutdown_extends [OF ps None] project_shutdown_evidence [OF ps Some] None q by auto
    next
      case no_shutdown: None
      then obtain r where "s = session\<lparr>ws_Shutdown := Some r\<rparr>
          \<or> s = session\<lparr>ws_Shutdown := Some r, ws_Disposal := Some \<lparr>dp_Outcome = ''Unsettled'', dp_ProcessNonce = [],
               dp_ObservedAt = now, dp_Terminated = Terminated q\<rparr>\<rparr>" "Changed result"
        using assms q None unfolding project_bound_def Let_def
        by (fastforce simp: fact_def split: if_splits option.splits)
      moreover from this no_shutdown have "ws_Shutdown s \<noteq> ws_Shutdown session" by auto
      then have "s \<noteq> session" by auto
      ultimately show ?thesis using None no_shutdown q by (auto simp: session_extends_def)
    qed
  qed
qed

lemma Session_identity:
  assumes "Session root p = Inr identity"
  shows "findIdentity (net_Identities root) (part_ParticipantName p) = Some identity" "ii_UID identity = part_UID p"
  using assms unfolding Session_def by (auto split: if_splits option.splits)

text \<open>Every projection either leaves the root alone, or writes one session and reports the change.\<close>

lemma ProjectSession_cases:
  assumes "ProjectSession profile_ok root p pod readErr now = (root', result)"
  obtains (same) "root' = root" "\<not> Changed result"
  | (bind) identity s q where "Session root p = Inr identity" "ii_Worker identity = None" "Changed result"
      "root' = root\<lparr>net_Identities := put_worker (part_ParticipantName p) s (net_Identities root)\<rparr>"
      "readErr = NoError" "pod = Some q" "binding_evidence profile_ok root p identity q s"
  | (extend) identity session s where "Session root p = Inr identity" "ii_Worker identity = Some session" "Changed result"
      "root' = root\<lparr>net_Identities := put_worker (part_ParticipantName p) s (net_Identities root)\<rparr>"
      "project_bound profile_ok root p identity session pod readErr now = (Some s, result)"
proof (cases "Session root p")
  case (Inl err)
  then show ?thesis using assms same
    by (cases err) (auto simp: ProjectSession_def fact_def)
next
  case (Inr identity)
  show ?thesis
  proof (cases "readErr = ReadFailed")
    case True
    then show ?thesis using assms Inr same by (auto simp: ProjectSession_def fact_def)
  next
    case False
    show ?thesis
    proof (cases "ii_Worker identity")
      case None
      obtain update result' where u: "project_unbound profile_ok root p identity pod readErr = (update, result')"
        by (metis surj_pair)
      then have r: "result' = result" "root' = (case update of None \<Rightarrow> root | Some s \<Rightarrow>
          root\<lparr>net_Identities := put_worker (part_ParticipantName p) s (net_Identities root)\<rparr>)"
        using assms Inr False None by (auto simp: ProjectSession_def split: option.splits)
      show ?thesis
      proof (cases update)
        case [simp]: None
        show ?thesis using r project_unbound_write(1) [OF u] same by auto
      next
        case (Some s)
        obtain q where q: "readErr = NoError" "pod = Some q" "binding_evidence profile_ok root p identity q s"
          using project_unbound_write(2) [OF u Some] by blast
        have "Changed result" using project_unbound_write(1) [OF u] Some r(1) by simp
        then show ?thesis by (rule bind [OF Inr None _ _ q]) (simp add: Some r(2))
      qed
    next
      case w: (Some session)
      obtain update result' where u: "project_bound profile_ok root p identity session pod readErr now = (update, result')"
        by (metis surj_pair)
      then have r: "result' = result" "root' = (case update of None \<Rightarrow> root | Some s \<Rightarrow>
          root\<lparr>net_Identities := put_worker (part_ParticipantName p) s (net_Identities root)\<rparr>)"
        using assms Inr False w by (auto simp: ProjectSession_def split: option.splits)
      show ?thesis
      proof (cases update)
        case None
        then show ?thesis using r project_bound_none u same by auto
      next
        case (Some s)
        with u r have pb: "project_bound profile_ok root p identity session pod readErr now = (Some s, result)" by simp
        have "Changed result" using project_bound_write [OF pb] by blast
        with Some r(2) show ?thesis by (intro extend [OF Inr w _ _ pb]) simp_all
      qed
    qed
  qed
qed

lemma ProjectSession_extends:
  assumes "ProjectSession profile_ok root p pod readErr now = (root', result)"
  shows "ledger_extends (net_Identities root) (net_Identities root')"
  using assms
proof (cases rule: ProjectSession_cases)
  case (bind identity s q)
  then show ?thesis using put_worker_extends [OF Session_identity(1) [OF bind(1)]] by simp
next
  case (extend identity session s)
  then show ?thesis
    using put_worker_extends [OF Session_identity(1) [OF extend(1)]] project_bound_write [OF extend(5)] by simp
qed simp

text \<open>The life of a network's ledger: projections for any participant, Pod and time, interleaved with
  other writers of the root, who allocate new identities without a worker and mark removals.\<close>

inductive ledger_step :: "(Pod \<Rightarrow> bool) \<Rightarrow> StacksNetwork \<Rightarrow> StacksNetwork \<Rightarrow> bool" for profile_ok where
  projected: "ProjectSession profile_ok root p pod readErr now = (root', result) \<Longrightarrow> ledger_step profile_ok root root'"
| other: "net_Identities root' = map (\<lambda>i. i\<lparr>ii_Removing := ii_Removing i \<or> ii_Name i \<in> removed\<rparr>) (net_Identities root) @ new
    \<Longrightarrow> ledger_step profile_ok root root'"

lemma ledger_step_extends:
  assumes "ledger_step profile_ok root root'"
  shows "ledger_extends (net_Identities root) (net_Identities root')"
  using assms
proof (cases rule: ledger_step.cases)
  case (projected p pod readErr now result)
  then show ?thesis by (rule ProjectSession_extends)
qed (auto simp: ledger_extends_def nth_append identity_extends_def)

text \<open>C34: A bound worker is never replaced. Whatever Pods, read errors, statuses and times the projections
  see, and whatever other writers do to the network in between, every identity keeps its name
  and UID, a removal mark stays, a bound session keeps its Pod and profile, a recorded shutdown request is
  never changed, and a recorded disposal changes at most by confirming termination.\<close>

theorem session_never_replaced:
  assumes "(ledger_step profile_ok)\<^sup>*\<^sup>* root root'" "k < length (net_Identities root)"
    and "i = net_Identities root ! k" "i' = net_Identities root' ! k"
  shows "k < length (net_Identities root') \<and> ii_Name i' = ii_Name i \<and> ii_UID i' = ii_UID i
    \<and> (ii_Removing i \<longrightarrow> ii_Removing i')
    \<and> (\<forall>s. ii_Worker i = Some s \<longrightarrow> (\<exists>s'. ii_Worker i' = Some s'
        \<and> ws_Pod s' = ws_Pod s \<and> ws_ProfileDigest s' = ws_ProfileDigest s
        \<and> (ws_Shutdown s \<noteq> None \<longrightarrow> ws_Shutdown s' = ws_Shutdown s)
        \<and> (\<forall>d. ws_Disposal s = Some d \<longrightarrow>
             ws_Disposal s' = Some d \<or> ws_Disposal s' = Some (d\<lparr>dp_Terminated := True\<rparr>))))"
proof -
  from assms(1) have "ledger_extends (net_Identities root) (net_Identities root')"
    by induction (auto intro: ledger_extends_trans ledger_step_extends)
  with assms(2-) show ?thesis
    by (auto simp: ledger_extends_def identity_extends_def session_extends_def)
qed

text \<open>C38: Session facts rest on evidence. A projection reports a change exactly when it changes the
  root. It binds a worker only for a running, unfailed network that still selects the participant, and only
  to the live, owned, non-restarting Pod the candidate names; it records a settled disposal only when
  that worker's own process acknowledged the recorded shutdown with nothing pending; and it records
  termination only of the bound Pod, on the kubelet's evidence.\<close>

theorem session_evidence:
  assumes "ProjectSession profile_ok root p pod readErr now = (root', result)"
  shows "(Changed result \<longleftrightarrow> root' \<noteq> root)
    \<and> (root' \<noteq> root \<longrightarrow> (\<exists>identity q s. Session root p = Inr identity \<and> readErr = NoError \<and> pod = Some q
        \<and> findIdentity (net_Identities root') (part_ParticipantName p) = Some (identity\<lparr>ii_Worker := Some s\<rparr>)
        \<and> pod_UID q = wp_UID (ws_Pod s)
        \<and> (case ii_Worker identity of
             None \<Rightarrow> binding_evidence profile_ok root p identity q s
           | Some session \<Rightarrow>
               (\<forall>d. ws_Disposal s = Some d \<longrightarrow>
                  (ws_Disposal session = None \<longrightarrow> dp_Outcome d \<noteq> ''Unsettled'' \<longrightarrow> settled_evidence p s)
                  \<and> (dp_Terminated d \<longrightarrow> Terminated q \<or> (\<exists>d0. ws_Disposal session = Some d0 \<and> dp_Terminated d0))))))"
  using assms
proof (cases rule: ProjectSession_cases)
  case (bind identity s q)
  let ?ids = "net_Identities root'" and ?name = "part_ParticipantName p"
  have f: "findIdentity (net_Identities root) ?name = Some identity" by (rule Session_identity(1) [OF bind(1)])
  then have f': "findIdentity ?ids ?name = Some (identity\<lparr>ii_Worker := Some s\<rparr>)"
    using bind(4) by (simp add: findIdentity_put_worker)
  have "root' \<noteq> root"
  proof
    assume "root' = root"
    with f f' have "identity = identity\<lparr>ii_Worker := Some s\<rparr>" by simp
    from arg_cong [OF this, of ii_Worker] show False using bind(2) by simp
  qed
  moreover have "pod_UID q = wp_UID (ws_Pod s)" using bind(7) by (simp add: binding_evidence_def)
  ultimately show ?thesis using bind(1-3,5-7) f'
    by (intro conjI impI exI [of _ identity] exI [of _ q] exI [of _ s]) simp_all
next
  case (extend identity session s)
  let ?ids = "net_Identities root'" and ?name = "part_ParticipantName p"
  note w = project_bound_write [OF extend(5)]
  have f: "findIdentity (net_Identities root) ?name = Some identity" by (rule Session_identity(1) [OF extend(1)])
  then have f': "findIdentity ?ids ?name = Some (identity\<lparr>ii_Worker := Some s\<rparr>)"
    using extend(4) by (simp add: findIdentity_put_worker)
  have "root' \<noteq> root"
  proof
    assume "root' = root"
    with f f' have "identity = identity\<lparr>ii_Worker := Some s\<rparr>" by simp
    from arg_cong [OF this, of ii_Worker] show False using extend(2) w by simp
  qed
  moreover obtain q where "readErr = NoError" "pod = Some q" "pod_UID q = wp_UID (ws_Pod session)"
    "\<forall>d. ws_Disposal s = Some d \<longrightarrow>
        (ws_Disposal session = None \<longrightarrow> dp_Outcome d \<noteq> ''Unsettled'' \<longrightarrow> settled_evidence p s)
        \<and> (dp_Terminated d \<longrightarrow> Terminated q \<or> (\<exists>d0. ws_Disposal session = Some d0 \<and> dp_Terminated d0))"
    using w by blast
  moreover have "ws_Pod s = ws_Pod session" using w by (simp add: session_extends_def)
  ultimately show ?thesis using extend(1-3) f'
    by (intro conjI impI exI [of _ identity] exI [of _ q] exI [of _ s]) simp_all
qed simp

section \<open>Sample projections\<close>

definition sample_pod_binding :: WorkerPodBinding where
  "sample_pod_binding = \<lparr>wp_Kind = ''Pod'', wp_Name = RuntimeName ''net'' ''u'' ''StacksFaucet'' ''faucet'' ''worker'', wp_UID = ''w''\<rparr>"

definition sample_participant :: StacksNetworkParticipant where
  "sample_participant =
     \<lparr>part_Name = ''p'', part_Namespace = ''ns'', part_UID = ''u'',
      part_Owner = Some \<lparr>own_APIVersion = api_version, own_Kind = ''StacksNetwork'', own_Name = ''network'', own_UID = ''net''\<rparr>,
      part_Finalizers = [], part_Deleted = False, part_NetworkUID = ''net'', part_ParticipantName = ''faucet'',
      part_Kind = ''StacksFaucet'', part_Admitted = True, part_Execution = None,
      part_Runtime = Some (False, Some \<lparr>cand_Pod = sample_pod_binding, cand_ProfileDigest = ''d''\<rparr>)\<rparr>"

definition sample_pod :: Pod where
  "sample_pod =
     \<lparr>pod_Name = wp_Name sample_pod_binding, pod_UID = ''w'',
      pod_Owner = Some \<lparr>own_APIVersion = api_version, own_Kind = ''StacksNetworkParticipant'', own_Name = ''p'', own_UID = ''u''\<rparr>,
      pod_NetworkLabel = ''net'', pod_ParticipantLabel = ''u'', pod_ProfileDigest = ''d'', pod_Deleted = False,
      pod_RestartPolicy = ''Never'', pod_NodeName = ''node'', pod_Phase = ''Running'', pod_Containers = 1,
      pod_InitContainers = 0, pod_EphemeralContainers = 0, pod_ContainerStatuses = [(''worker'', None)], pod_InitStatuses = 0\<rparr>"

definition sample_network :: "string \<Rightarrow> WorkerSession option \<Rightarrow> StacksNetwork" where
  "sample_network operation worker =
     \<lparr>net_Name = ''network'', net_Namespace = ''ns'', net_UID = ''net'', net_Deleted = False, net_Generation = 3,
      net_Operation = operation,
      net_Participants = [\<lparr>entry_Name = ''faucet'', entry_Kind = ''StacksFaucet'', entry_Paused = None\<rparr>],
      net_Phase = ''Running'', net_FailedCondition = False,
      net_Identities = [\<lparr>ii_Name = ''faucet'', ii_UID = ''u'', ii_Removing = False, ii_Worker = worker\<rparr>]\<rparr>"

definition sample_session :: WorkerSession where
  "sample_session = \<lparr>ws_Pod = sample_pod_binding, ws_ProfileDigest = ''d'', ws_Shutdown = None, ws_Disposal = None\<rparr>"

lemmas sample_session_defs = sample_pod_binding_def sample_participant_def sample_pod_def sample_network_def
  sample_session_def worker_Name_def ownedPod_def IsControlledBy_def findIdentity_def Session_def stoppedReason_def
  selects_def network_failed_def pod_terminal_def fact_def

lemma sample_binds:
  "ProjectSession (\<lambda>_. True) (sample_network ''Running'' None) sample_participant (Some sample_pod) NoError 5
   = (sample_network ''Running'' (Some sample_session), fact True False False ''WorkerBound'')"
  by (simp add: ProjectSession_def project_unbound_def sample_session_defs)

lemma sample_stops:
  "ProjectSession (\<lambda>_. True) (sample_network ''Stopped'' (Some sample_session)) sample_participant (Some sample_pod) NoError 7
   = (sample_network ''Stopped'' (Some (sample_session\<lparr>ws_Shutdown := Some \<lparr>sd_NetworkGeneration = 3,
        sd_Reason = ''NetworkStopped'', sd_RequestedAt = 7\<rparr>\<rparr>)), fact True False False ''WorkerShutdownRequested'')"
  by (simp add: ProjectSession_def project_bound_def sample_session_defs Let_def)

theorem session_never_replaced_witness:
  "\<exists>root' s'. (ledger_step (\<lambda>_. True))\<^sup>*\<^sup>* (sample_network ''Stopped'' (Some sample_session)) root' \<and> 0 < length (net_Identities root')
     \<and> ii_Worker (net_Identities root' ! 0) = Some s' \<and> ws_Pod s' = sample_pod_binding"
proof -
  let ?r = "sample_network ''Stopped'' (Some sample_session)"
  let ?r' = "fst (ProjectSession (\<lambda>_. True) ?r sample_participant (Some sample_pod) NoError 7)"
  have "(ledger_step (\<lambda>_. True))\<^sup>*\<^sup>* ?r ?r'" using projected [OF sample_stops] by (simp add: sample_stops)
  moreover have "0 < length (net_Identities ?r)" "ii_Worker (net_Identities ?r ! 0) = Some sample_session"
    "ws_Pod sample_session = sample_pod_binding" by (simp_all add: sample_network_def sample_session_def)
  ultimately show ?thesis using session_never_replaced [of "\<lambda>_. True" ?r ?r' 0] by blast
qed

theorem session_evidence_witness:
  "\<exists>identity q s. pod_UID q = wp_UID (ws_Pod s)
     \<and> binding_evidence (\<lambda>_. True) (sample_network ''Running'' None) sample_participant identity q s"
proof -
  have n: "sample_network ''Running'' (Some sample_session) \<noteq> sample_network ''Running'' None"
    by (simp add: sample_network_def)
  have "Session (sample_network ''Running'' None) sample_participant =
      Inr \<lparr>ii_Name = ''faucet'', ii_UID = ''u'', ii_Removing = False, ii_Worker = None\<rparr>"
    by (simp add: sample_session_defs)
  with session_evidence [OF sample_binds] n show ?thesis by auto
qed

end
