(* ===== verification/Faucet_Request.thy ===== *)
theory Faucet_Request
  imports Worker_Session
begin

text \<open>
  Model of \<open>operators/network/internal/faucetrequest\<close>: \<open>status.go\<close> (deadlines, evidence, phase projection,
  field ownership), \<open>controller.go\<close> (\<open>admit\<close> and \<open>Reconcile\<close>) and \<open>activeCount\<close> of \<open>watches.go\<close>, with the
  data of \<open>apis/network/stacks/v1alpha2\<close>. Reads of other objects are arguments. A parsed
  \<open>time.ParseDuration\<close> stands for its text, and an instant for its RFC 3339 text with nanoseconds.
\<close>

section \<open>Objects\<close>

record FaucetBinding =
  fb_Kind :: string
  fb_Name :: string
  fb_UID :: string
  fb_Fingerprint :: string

record FaucetAdmission =
  Decision :: string
  AdmissionReason :: string
  adm_ExpiresAt :: time
  adm_NetworkUID :: string
  adm_Faucet :: "FaucetBinding option"
  adm_Worker :: "FaucetBinding option"
  adm_ProfileDigest :: string
  SourceAccount :: "FaucetBinding option"
  adm_Target :: "FaucetBinding option"
  DestinationAccount :: "FaucetBinding option"
  adm_Destination :: string
  adm_Amount :: string
  adm_Fee :: string

record FaucetExecution =
  fe_Phase :: string
  fe_Reason :: string
  fe_NetworkUID :: string
  FaucetUID :: string
  WorkerUID :: string
  fe_ProcessNonce :: string
  NoSend :: bool
  fe_TxID :: string
  fe_Destination :: string
  fe_Amount :: string
  InclusionBlockID :: string
  fe_ObservedAt :: time

record Recipient =
  AccountRef :: "string option"
  RecipientAddress :: "string option"

text \<open>A request; \<open>req_Created\<close> is \<open>None\<close> for a zero creation time, and \<open>req_Completed\<close> is the condition of
  that type: its status, observed generation and reason.\<close>

record StacksFaucetRequest =
  req_Namespace :: string
  req_Name :: string
  req_UID :: string
  req_ResourceVersion :: string
  req_Created :: "time option"
  req_Deleted :: bool
  req_NetworkUID :: string
  FaucetRef :: string
  req_Destination :: Recipient
  req_Amount :: string
  Timeout :: "int result"
  req_Admission :: "FaucetAdmission option"
  req_Phase :: string
  req_Generation :: int
  req_Completed :: "(string \<times> int \<times> string) option"
  req_Execution :: "FaucetExecution option"

section \<open>Evidence (status.go)\<close>

abbreviation Capacity :: nat where "Capacity \<equiv> 1000"
abbreviation FeeMicroSTX :: u64 where "FeeMicroSTX \<equiv> 3000"

datatype manager = AdmissionManager | ExecutionManager | OtherManager

text \<open>The guards of \<open>ApplyStatus\<close> on the fields a writer supplies; conditions are present or not.\<close>

definition ApplyStatus ::
  "StacksFaucetRequest \<Rightarrow> FaucetAdmission option \<Rightarrow> string \<Rightarrow> bool \<Rightarrow> FaucetExecution option \<Rightarrow> manager \<Rightarrow> unit result" where
  "ApplyStatus request admission phase conditions execution manager =
     (if req_UID request = [] \<or> req_ResourceVersion request = [] \<or> manager = OtherManager
      then Inl ''request status requires exact persisted identity and field manager''
      else if manager = ExecutionManager \<and> (admission \<noteq> None \<or> phase \<noteq> [] \<or> conditions)
           \<or> manager = AdmissionManager \<and> execution \<noteq> None
      then Inl ''request status writer exceeded field ownership''
      else Inr ())"

definition Deadline :: "StacksFaucetRequest \<Rightarrow> time result" where
  "Deadline request =
     (case (Timeout request, req_Created request) of
        (Inr duration, Some created) \<Rightarrow>
          if duration \<le> 0 \<or> duration > 3600 * second then Inl ''invalid request lifetime''
          else Inr (created + duration)
      | _ \<Rightarrow> Inl ''invalid request lifetime'')"

definition ValidAddress :: "string \<Rightarrow> bool" where
  "ValidAddress address = (case DecodeAddress address of Inr (version, _) \<Rightarrow> version = 26 | Inl _ \<Rightarrow> False)"

definition MatchingExecution :: "StacksFaucetRequest \<Rightarrow> bool" where
  "MatchingExecution request =
     (case (req_Admission request, req_Execution request) of
        (Some a, Some e) \<Rightarrow>
          Decision a = ''Admitted''
          \<and> (case (adm_Faucet a, adm_Worker a) of
               (Some faucet, Some worker) \<Rightarrow>
                 fe_NetworkUID e = adm_NetworkUID a \<and> FaucetUID e = fb_UID faucet \<and> WorkerUID e = fb_UID worker
                 \<and> fe_ProcessNonce e \<noteq> [] \<and> fe_Destination e = adm_Destination a \<and> fe_Amount e = adm_Amount a
             | _ \<Rightarrow> False)
      | _ \<Rightarrow> False)"

definition refusal_reason :: "string \<Rightarrow> bool" where
  "refusal_reason reason \<longleftrightarrow>
     has_prefix reason ''Rejected'' \<and> ValidationRejectionReason (trim_prefix reason ''Rejected'')"

definition TerminalExecution :: "FaucetExecution option \<Rightarrow> bool" where
  "TerminalExecution execution =
     (case execution of
        None \<Rightarrow> False
      | Some e \<Rightarrow>
          if fe_Phase e = ''Completed''
          then \<not> NoSend e \<and> length (fe_TxID e) = 64 \<and> length (InclusionBlockID e) = 64
          else if fe_Phase e = ''Rejected''
          then NoSend e \<and> fe_TxID e = []
               \<or> \<not> NoSend e \<and> length (fe_TxID e) = 64
                  \<and> (length (InclusionBlockID e) = 64 \<or> refusal_reason (fe_Reason e))
          else if fe_Phase e = ''Expired'' then NoSend e \<and> fe_TxID e = []
          else False)"

definition ProjectPhase :: "StacksFaucetRequest \<Rightarrow> time \<Rightarrow> string \<times> string" where
  "ProjectPhase request now =
     (case req_Admission request of
        None \<Rightarrow> (''Pending'', ''AdmissionPending'')
      | Some a \<Rightarrow>
          if Decision a = ''Rejected'' \<or> Decision a = ''Expired'' then (Decision a, AdmissionReason a)
          else if Decision a \<noteq> ''Admitted'' then (''Pending'', AdmissionReason a)
          else if MatchingExecution request \<and> TerminalExecution (req_Execution request)
          then (fe_Phase (the (req_Execution request)), fe_Reason (the (req_Execution request)))
          else if (case Deadline request of Inl _ \<Rightarrow> True | Inr deadline \<Rightarrow> \<not> now < deadline)
          then (''Inconclusive'', ''DeadlineOutcomeUnknown'')
          else if MatchingExecution request \<and> fe_Phase (the (req_Execution request)) = ''Submitted''
          then (''Submitted'', fe_Reason (the (req_Execution request)))
          else if MatchingExecution request \<and> fe_Phase (the (req_Execution request)) = ''Inconclusive''
          then (''Inconclusive'', fe_Reason (the (req_Execution request)))
          else (''Pending'', ''AwaitingWorkerEvidence''))"

section \<open>Capacity (watches.go)\<close>

text \<open>\<open>uncertain\<close>: the slots possibly granted by a write of unknown outcome, request UID to worker UID.\<close>

type_synonym slots = "(string \<times> string) list"

definition decided :: "StacksFaucetRequest \<Rightarrow> bool" where
  "decided item = (case req_Admission item of Some a \<Rightarrow> Decision a \<noteq> ''Pending'' | None \<Rightarrow> False)"

definition occupies :: "string \<Rightarrow> StacksFaucetRequest \<Rightarrow> bool" where
  "occupies worker item =
     (case req_Admission item of
        Some a \<Rightarrow>
          Decision a = ''Admitted'' \<and> (case adm_Worker a of Some w \<Rightarrow> fb_UID w = worker | None \<Rightarrow> False)
          \<and> (\<not> MatchingExecution item \<or> \<not> TerminalExecution (req_Execution item))
      | None \<Rightarrow> False)"

text \<open>The loop over the listed items: the count, the slots not yet observed and the remaining uncertain
  slots; \<open>True\<close> when the capacity was reached and the loop returned early.\<close>

fun active_scan ::
  "string \<Rightarrow> StacksFaucetRequest list \<Rightarrow> nat \<Rightarrow> string list \<Rightarrow> slots \<Rightarrow> bool \<times> nat \<times> string list \<times> slots" where
  "active_scan worker [] n unobserved uncertain = (False, n, unobserved, uncertain)"
| "active_scan worker (item # items) n unobserved uncertain =
     (let unobserved' = (if decided item then removeAll (req_UID item) unobserved else unobserved);
          uncertain' = (if decided item then filter (\<lambda>(u, _). u \<noteq> req_UID item) uncertain else uncertain);
          n' = (if occupies worker item then n + 1 else n)
      in if n' \<ge> Capacity then (True, n', unobserved', uncertain')
         else active_scan worker items n' unobserved' uncertain')"

text \<open>\<open>activeCount\<close>: \<open>items\<close> are the items of the pages read, \<open>complete\<close> is false when a page read failed
  after them.\<close>

definition activeCount :: "StacksFaucetRequest list \<Rightarrow> bool \<Rightarrow> string \<Rightarrow> slots \<Rightarrow> nat result \<times> slots" where
  "activeCount items complete worker uncertain =
     (let (early, n, unobserved, uncertain') =
            active_scan worker items 0 (map fst (filter (\<lambda>(_, w). w = worker) uncertain)) uncertain
      in (if early then Inr n else if complete then Inr (n + length unobserved) else Inl ''list failed'', uncertain'))"

section \<open>Admission (controller.go)\<close>

record FaucetPolicy =
  pol_AccountRef :: "string option"
  pol_TargetNodeRef :: "string option"
  MaxRequest :: "string option"

record StacksAccount =
  acct_Name :: string
  acct_UID :: string
  acct_Deleted :: bool
  acct_Address :: "string option"
  acct_Digest :: string
  acct_ObservedGeneration :: int
  acct_Generation :: int
  acct_Resolved :: bool

text \<open>What \<open>admit\<close> reads: the participant with its admitted faucet policy (\<open>None\<close> when nil) and dependencies,
  and the counters of its execution status; the outcome of \<open>ValidateParticipantAdmission\<close>; and the listed
  requests.\<close>

record admit_reads =
  get_network :: "StacksNetwork get"
  get_participant :: "StacksNetworkParticipant get"
  get_policy :: "FaucetPolicy option"
  get_dependencies :: "Binding list"
  get_validated :: "unit result"
  get_summary :: "(int \<times> int) option"
  get_pod :: "Pod get"
  get_account :: "StacksAccount get"
  get_items :: "StacksFaucetRequest list"
  get_complete :: bool

definition baseAdmission :: "StacksFaucetRequest \<Rightarrow> time \<Rightarrow> string \<Rightarrow> string \<Rightarrow> FaucetAdmission" where
  "baseAdmission request deadline decision reason =
     \<lparr>Decision = decision, AdmissionReason = reason, adm_ExpiresAt = deadline, adm_NetworkUID = req_NetworkUID request,
      adm_Faucet = None, adm_Worker = None, adm_ProfileDigest = [], SourceAccount = None, adm_Target = None,
      DestinationAccount = None, adm_Destination = [], adm_Amount = [], adm_Fee = []\<rparr>"

definition admittedBinding :: "Binding list \<Rightarrow> string \<Rightarrow> string \<Rightarrow> FaucetBinding result" where
  "admittedBinding dependencies kind name =
     (case find (\<lambda>b. Kind b = kind \<and> Name b = name \<and> UID b \<noteq> []) dependencies of
        Some b \<Rightarrow> Inr \<lparr>fb_Kind = Kind b, fb_Name = Name b, fb_UID = UID b, fb_Fingerprint = Fingerprint b\<rparr>
      | None \<Rightarrow> Inl ''admitted faucet dependency unavailable'')"

text \<open>The destination part: the address with its optional account binding, or a decision.\<close>

definition resolve_destination ::
  "admit_reads \<Rightarrow> StacksFaucetRequest \<Rightarrow> ((string \<times> string) + (string \<times> FaucetBinding option)) result" where
  "resolve_destination g request =
     (let explicit = (case RecipientAddress (req_Destination request) of Some a \<Rightarrow> a | None \<Rightarrow> []) in
      case AccountRef (req_Destination request) of
        None \<Rightarrow> Inr (Inr (explicit, None))
      | Some _ \<Rightarrow>
          if explicit \<noteq> [] then Inr (Inl (''Rejected'', ''InvalidDestination''))
          else (case get_account g of
            NotFound \<Rightarrow> Inr (Inl (''Pending'', ''DestinationUnavailable''))
          | GetFailed err \<Rightarrow> Inl err
          | Got account \<Rightarrow>
              (case acct_Address account of
                 Some address \<Rightarrow>
                   if acct_Deleted account \<or> acct_ObservedGeneration account \<noteq> acct_Generation account
                      \<or> \<not> acct_Resolved account
                   then Inr (Inl (''Pending'', ''DestinationUnavailable''))
                   else Inr (Inr (address, Some \<lparr>fb_Kind = ''StacksAccount'', fb_Name = acct_Name account,
                                                 fb_UID = acct_UID account, fb_Fingerprint = acct_Digest account\<rparr>))
               | None \<Rightarrow> Inr (Inl (''Pending'', ''DestinationUnavailable'')))))"

text \<open>The part of \<open>admit\<close> after the worker's Pod is verified: bindings, destination, capacity.\<close>

definition admit_bound ::
  "admit_reads \<Rightarrow> slots \<Rightarrow> StacksFaucetRequest \<Rightarrow> time \<Rightarrow> StacksNetwork \<Rightarrow> StacksNetworkParticipant \<Rightarrow> WorkerSession \<Rightarrow> Pod
     \<Rightarrow> string \<Rightarrow> string
     \<Rightarrow> FaucetAdmission result \<times> slots" where
  "admit_bound g uncertain request deadline root p session pod accountRef targetRef =
     (let decision = (\<lambda>state reason. (Inr (baseAdmission request deadline state reason), uncertain)) in
      case admittedBinding (get_dependencies g) ''StacksAccount'' accountRef of
        Inl _ \<Rightarrow> decision ''Pending'' ''SourceAccountUnavailable''
      | Inr source \<Rightarrow>
          (case admittedBinding (get_dependencies g) ''StacksNetworkParticipant''
                  (ParticipantName (net_UID root) targetRef) of
             Inl _ \<Rightarrow> decision ''Pending'' ''TargetUnavailable''
           | Inr target \<Rightarrow>
               (case resolve_destination g request of
                  Inl err \<Rightarrow> (Inl err, uncertain)
                | Inr (Inl (state, reason)) \<Rightarrow> decision state reason
                | Inr (Inr (destination, destinationBinding)) \<Rightarrow>
                    if \<not> ValidAddress destination then decision ''Rejected'' ''InvalidDestination''
                    else
                      (case activeCount (get_items g) (get_complete g) (wp_UID (ws_Pod session)) uncertain of
                         (Inl err, uncertain') \<Rightarrow> (Inl err, uncertain')
                       | (Inr n, uncertain') \<Rightarrow>
                           let total_count = (case get_summary g of
                                 Some (active, orphaned) \<Rightarrow> max (int n + orphaned) active | None \<Rightarrow> int n)
                           in if total_count \<ge> int Capacity
                              then (Inr (baseAdmission request deadline ''Rejected'' ''CapacityExceeded''), uncertain')
                              else (Inr ((baseAdmission request deadline ''Admitted'' ''WorkerBound'')\<lparr>
                                  adm_Faucet := Some \<lparr>fb_Kind = ''StacksNetworkParticipant'', fb_Name = part_Name p,
                                                  fb_UID = part_UID p, fb_Fingerprint = []\<rparr>,
                                  adm_Worker := Some \<lparr>fb_Kind = ''Pod'', fb_Name = pod_Name pod, fb_UID = pod_UID pod,
                                                  fb_Fingerprint = []\<rparr>,
                                  adm_ProfileDigest := ws_ProfileDigest session, SourceAccount := Some source,
                                  adm_Target := Some target, DestinationAccount := destinationBinding,
                                  adm_Destination := destination, adm_Amount := req_Amount request,
                                  adm_Fee := ''3000''\<rparr>), uncertain')))))"

text \<open>The participant part: identity, policy, limit and the live worker.\<close>

definition worker_usable :: "WorkerExecutionStatus option \<Rightarrow> WorkerSession \<Rightarrow> bool" where
  "worker_usable execution session =
     (case execution of
        None \<Rightarrow> False
      | Some e \<Rightarrow> we_PodUID e = wp_UID (ws_Pod session) \<and> we_ProfileDigest e = ws_ProfileDigest session
          \<and> we_ProcessNonce e \<noteq> [] \<and> we_Phase e \<notin> set [''Inactive'', ''Failed'', ''Settled'', ''Unsettled''])"

definition admit_participant ::
  "admit_reads \<Rightarrow> slots \<Rightarrow> StacksFaucetRequest \<Rightarrow> time \<Rightarrow> u64 \<Rightarrow> StacksNetwork \<Rightarrow> FaucetAdmission result \<times> slots" where
  "admit_participant g uncertain request deadline amount root =
     (let decision = (\<lambda>state reason. (Inr (baseAdmission request deadline state reason), uncertain)) in
      case get_participant g of
        NotFound \<Rightarrow> decision ''Pending'' ''FaucetUnavailable''
      | GetFailed err \<Rightarrow> (Inl err, uncertain)
      | Got p \<Rightarrow>
          if part_Kind p \<noteq> ''StacksFaucet'' \<or> part_ParticipantName p \<noteq> FaucetRef request \<or> part_Deleted p
          then decision ''Rejected'' ''FaucetIdentityChanged''
          else (case Session root p of
            Inl _ \<Rightarrow> decision ''Rejected'' ''FaucetIdentityChanged''
          | Inr identity \<Rightarrow>
              if ii_Removing identity then decision ''Rejected'' ''FaucetIdentityChanged''
              else (case get_policy g of
                None \<Rightarrow> decision ''Pending'' ''FaucetAdmissionUnavailable''
              | Some policy \<Rightarrow>
                  if get_validated g \<noteq> Inr () then decision ''Pending'' ''FaucetDependenciesUnavailable''
                  else (case (pol_AccountRef policy, pol_TargetNodeRef policy, MaxRequest policy) of
                    (Some accountRef, Some targetRef, Some maximum) \<Rightarrow>
                      (case parse_uint64 maximum of
                         Inl _ \<Rightarrow> decision ''Rejected'' ''InvalidFaucetLimit''
                       | Inr limit \<Rightarrow>
                           if amount > limit then decision ''Rejected'' ''RequestLimitExceeded''
                           else (case ii_Worker identity of
                             None \<Rightarrow> decision ''Pending'' ''WorkerUnavailable''
                           | Some session \<Rightarrow>
                               if ws_Shutdown session \<noteq> None \<or> ws_Disposal session \<noteq> None
                                  \<or> \<not> worker_usable (part_Execution p) session
                               then decision ''Pending'' ''WorkerUnavailable''
                               else (case get_pod g of
                                 NotFound \<Rightarrow> decision ''Pending'' ''WorkerUnavailable''
                               | GetFailed err \<Rightarrow> (Inl err, uncertain)
                               | Got pod \<Rightarrow>
                                   if pod_UID pod \<noteq> wp_UID (ws_Pod session)
                                      \<or> \<not> IsControlledBy (pod_Owner pod) (part_UID p) \<or> pod_Deleted pod
                                      \<or> pod_Phase pod \<noteq> ''Running''
                                   then decision ''Pending'' ''WorkerUnavailable''
                                   else admit_bound g uncertain request deadline root p session pod accountRef targetRef)))
                  | _ \<Rightarrow> decision ''Pending'' ''FaucetPolicyUnavailable''))))"

definition admit ::
  "time \<Rightarrow> admit_reads \<Rightarrow> slots \<Rightarrow> StacksFaucetRequest \<Rightarrow> FaucetAdmission result \<times> slots" where
  "admit now g uncertain request =
     (case Deadline request of
        Inl err \<Rightarrow> (Inl err, uncertain)
      | Inr deadline \<Rightarrow>
          let decision = (\<lambda>state reason. (Inr (baseAdmission request deadline state reason), uncertain)) in
          if \<not> now < deadline then decision ''Expired'' ''DeadlineBeforeAdmission''
          else if req_Deleted request then decision ''Expired'' ''DeletedBeforeAdmission''
          else (case parse_uint64 (req_Amount request) of
            Inl _ \<Rightarrow> decision ''Rejected'' ''InvalidAmount''
          | Inr amount \<Rightarrow>
              if amount = 0 then decision ''Rejected'' ''InvalidAmount''
              else (case get_network g of
                NotFound \<Rightarrow> decision ''Pending'' ''NetworkUnavailable''
              | GetFailed err \<Rightarrow> (Inl err, uncertain)
              | Got root \<Rightarrow>
                  if net_UID root \<noteq> req_NetworkUID request then decision ''Rejected'' ''NetworkIdentityChanged''
                  else if net_Deleted root \<or> net_Operation root = ''Stopped'' \<or> network_failed root
                  then decision ''Rejected'' ''NetworkStopped''
                  else if \<not> list_ex (\<lambda>e. entry_Name e = FaucetRef request \<and> entry_Kind e = ''StacksFaucet'')
                              (net_Participants root)
                  then if list_ex (\<lambda>i. ii_Name i = FaucetRef request) (net_Identities root)
                       then decision ''Rejected'' ''FaucetRemoved'' else decision ''Pending'' ''FaucetUnavailable''
                  else admit_participant g uncertain request deadline amount root)))"

text \<open>\<open>Reconcile\<close> from its read of the request to what it writes: \<open>decide\<close> is the admission it publishes, with
  the clock read again after \<open>admit\<close>.\<close>

definition late_decision :: "time \<Rightarrow> StacksFaucetRequest \<Rightarrow> FaucetAdmission \<Rightarrow> FaucetAdmission" where
  "late_decision later request a =
     (case Deadline request of
        Inr deadline \<Rightarrow>
          if Decision a = ''Admitted'' \<and> \<not> later < deadline
          then baseAdmission request deadline ''Expired'' ''DeadlineBeforeAdmission'' else a
      | Inl _ \<Rightarrow> if Decision a = ''Admitted'' \<and> \<not> later < 0
                 then baseAdmission request 0 ''Expired'' ''DeadlineBeforeAdmission'' else a)"

definition decide ::
  "time \<Rightarrow> time \<Rightarrow> admit_reads \<Rightarrow> slots \<Rightarrow> StacksFaucetRequest \<Rightarrow> FaucetAdmission result \<times> slots" where
  "decide now later g uncertain request =
     (case req_Admission request of
        Some a \<Rightarrow>
          if Decision a \<noteq> ''Pending'' then (Inr a, uncertain)
          else (case admit now g uncertain request of
            (Inl err, u) \<Rightarrow> (Inl err, u)
          | (Inr a, u) \<Rightarrow> (Inr (late_decision later request a), u))
      | None \<Rightarrow>
          (case admit now g uncertain request of
             (Inl err, u) \<Rightarrow> (Inl err, u)
           | (Inr a, u) \<Rightarrow> (Inr (late_decision later request a), u)))"

definition condition_status :: "string \<Rightarrow> string" where
  "condition_status phase =
     (if phase = ''Completed'' then ''True''
      else if phase = ''Pending'' \<or> phase = ''Submitted'' \<or> phase = ''Inconclusive'' then ''Unknown''
      else ''False'')"

text \<open>One reconciliation: the clock readings before and after \<open>admit\<close>, for the projection and for the
  delay; \<open>applied\<close> is the outcome of the status patch. The result is the requeue delay (\<open>0\<close>: none), the
  uncertain slots, and what was written.\<close>

definition Reconcile ::
  "time \<times> time \<times> time \<times> time \<Rightarrow> admit_reads \<Rightarrow> unit result \<Rightarrow> slots \<Rightarrow> StacksFaucetRequest
     \<Rightarrow> int result \<times> slots \<times> (FaucetAdmission \<times> string) option" where
  "Reconcile clock g applied uncertain request =
     (case clock of (now, later, projected_at, delay_at) \<Rightarrow>
      (case decide now later g uncertain request of
        (Inl err, u) \<Rightarrow> (Inl err, u, None)
      | (Inr a, u) \<Rightarrow>
          let (phase, reason) = ProjectPhase (request\<lparr>req_Admission := Some a\<rparr>) projected_at;
              condition = (condition_status phase, req_Generation request, reason);
              write = (req_Admission request \<noteq> Some a \<or> req_Phase request \<noteq> phase \<or> req_Completed request \<noteq> Some condition);
              reserved = (case adm_Worker a of
                  Some w \<Rightarrow> if Decision a = ''Admitted''
                            then (req_UID request, fb_UID w) # filter (\<lambda>(x, _). x \<noteq> req_UID request) u else u
                | None \<Rightarrow> u);
              delay = (if phase = ''Completed'' \<or> phase = ''Rejected'' \<or> phase = ''Expired'' then 0
                       else case Deadline request of
                         Inr deadline \<Rightarrow> if deadline > delay_at \<and> deadline - delay_at < 5 * second
                                          then deadline - delay_at else 5 * second
                       | Inl _ \<Rightarrow> 5 * second)
          in if write
             then (case rbind (ApplyStatus request (Some a) phase True None AdmissionManager) (\<lambda>_. applied) of
                     Inl err \<Rightarrow> (Inl err, reserved, Some (a, phase))
                   | Inr _ \<Rightarrow> (Inr delay, filter (\<lambda>(x, _). x \<noteq> req_UID request) reserved, Some (a, phase)))
             else (Inr delay, u, None)))"

section \<open>What an admission grants\<close>

lemma admit_bound_granted:
  assumes "admit_bound g uncertain request deadline root p session pod accountRef targetRef = (Inr a, u)"
    and "Decision a = ''Admitted''"
  shows "ValidAddress (adm_Destination a) \<and> adm_Amount a = req_Amount request \<and> adm_Fee a = ''3000''
    \<and> adm_ExpiresAt a = deadline \<and> adm_NetworkUID a = req_NetworkUID request
    \<and> adm_Faucet a = Some \<lparr>fb_Kind = ''StacksNetworkParticipant'', fb_Name = part_Name p, fb_UID = part_UID p, fb_Fingerprint = []\<rparr>
    \<and> adm_Worker a = Some \<lparr>fb_Kind = ''Pod'', fb_Name = pod_Name pod, fb_UID = pod_UID pod, fb_Fingerprint = []\<rparr>
    \<and> adm_ProfileDigest a = ws_ProfileDigest session
    \<and> (\<exists>source. SourceAccount a = Some source \<and> admittedBinding (get_dependencies g) ''StacksAccount'' accountRef = Inr source)
    \<and> (\<exists>target. adm_Target a = Some target
        \<and> admittedBinding (get_dependencies g) ''StacksNetworkParticipant'' (ParticipantName (net_UID root) targetRef) = Inr target)
    \<and> (\<exists>n. fst (activeCount (get_items g) (get_complete g) (wp_UID (ws_Pod session)) uncertain) = Inr n
        \<and> (get_summary g = None \<longrightarrow> n < Capacity)
        \<and> (\<forall>x y. get_summary g = Some (x, y) \<longrightarrow> x < int Capacity \<and> int n + y < int Capacity))"
proof -
  obtain source target where s: "admittedBinding (get_dependencies g) ''StacksAccount'' accountRef = Inr source"
    "admittedBinding (get_dependencies g) ''StacksNetworkParticipant'' (ParticipantName (net_UID root) targetRef) = Inr target"
    using assms by (auto simp: admit_bound_def baseAdmission_def split: sum.splits)
  obtain dest where d: "resolve_destination g request = Inr dest"
    using assms s by (auto simp: admit_bound_def split: sum.splits)
  show ?thesis
  proof (cases dest)
    case (Inl e)
    have "\<And>x y. resolve_destination g request = Inr (Inl (x, y)) \<Longrightarrow> x \<noteq> ''Admitted''"
      by (auto simp: resolve_destination_def Let_def split: option.splits if_splits get.splits)
    then show ?thesis using assms s d Inl by (cases e) (auto simp: admit_bound_def baseAdmission_def)
  next
    case (Inr x)
    then obtain address binding where x: "x = (address, binding)" by (cases x) auto
    show ?thesis
      using assms s d Inr x
      by (cases "activeCount (get_items g) (get_complete g) (wp_UID (ws_Pod session)) uncertain")
        (auto simp: admit_bound_def baseAdmission_def Let_def split: if_splits sum.splits option.splits)
  qed
qed

lemma admit_participant_granted:
  assumes "admit_participant g uncertain request deadline amount root = (Inr a, u)" "Decision a = ''Admitted''"
  shows "\<exists>p identity session pod accountRef targetRef limit.
      get_participant g = Got p \<and> part_Kind p = ''StacksFaucet'' \<and> part_ParticipantName p = FaucetRef request \<and> \<not> part_Deleted p
      \<and> Session root p = Inr identity \<and> \<not> ii_Removing identity \<and> ii_Worker identity = Some session
      \<and> ws_Shutdown session = None \<and> ws_Disposal session = None \<and> worker_usable (part_Execution p) session
      \<and> get_validated g = Inr ()
      \<and> get_pod g = Got pod \<and> pod_UID pod = wp_UID (ws_Pod session) \<and> IsControlledBy (pod_Owner pod) (part_UID p)
      \<and> \<not> pod_Deleted pod \<and> pod_Phase pod = ''Running''
      \<and> (\<exists>policy maximum. get_policy g = Some policy \<and> pol_AccountRef policy = Some accountRef
          \<and> pol_TargetNodeRef policy = Some targetRef \<and> MaxRequest policy = Some maximum
          \<and> parse_uint64 maximum = Inr limit \<and> amount \<le> limit)
      \<and> admit_bound g uncertain request deadline root p session pod accountRef targetRef = (Inr a, u)"
proof -
  have base: "Decision (baseAdmission request deadline state reason) = state" for state reason
    by (simp add: baseAdmission_def)
  obtain p where p: "get_participant g = Got p"
    using assms by (auto simp: admit_participant_def Let_def base split: get.splits)
  have kind: "part_Kind p = ''StacksFaucet'' \<and> part_ParticipantName p = FaucetRef request \<and> \<not> part_Deleted p"
    using assms p by (auto simp: admit_participant_def Let_def base split: if_splits)
  obtain identity where i: "Session root p = Inr identity"
    using assms p by (auto simp: admit_participant_def Let_def base split: if_splits sum.splits)
  obtain policy accountRef targetRef maximum where pol: "get_policy g = Some policy" "pol_AccountRef policy = Some accountRef"
      "pol_TargetNodeRef policy = Some targetRef" "MaxRequest policy = Some maximum" and ok: "get_validated g = Inr ()" "\<not> ii_Removing identity"
    using assms p kind i by (auto simp: admit_participant_def Let_def base split: if_splits option.splits)
  obtain limit where l: "parse_uint64 maximum = Inr limit" "amount \<le> limit"
    using assms p kind i pol ok by (auto simp: admit_participant_def Let_def base not_less split: if_splits sum.splits)
  obtain session where s: "ii_Worker identity = Some session"
    using assms p kind i pol ok l by (auto simp: admit_participant_def Let_def base split: option.splits if_splits)
  have w: "ws_Shutdown session = None" "ws_Disposal session = None" "worker_usable (part_Execution p) session"
    using assms p kind i pol ok l s by (auto simp: admit_participant_def Let_def base split: if_splits)
  obtain pod where pod: "get_pod g = Got pod"
    using assms p kind i pol ok l s w by (auto simp: admit_participant_def Let_def base split: get.splits if_splits)
  have "pod_UID pod = wp_UID (ws_Pod session)" "IsControlledBy (pod_Owner pod) (part_UID p)" "\<not> pod_Deleted pod"
    "pod_Phase pod = ''Running''"
    "admit_bound g uncertain request deadline root p session pod accountRef targetRef = (Inr a, u)"
    using assms p kind i pol ok l s w pod by (auto simp: admit_participant_def Let_def base split: if_splits)
  with p kind i pol ok l s w pod show ?thesis by blast
qed

text \<open>The count is exact as long as it is below the capacity.\<close>

definition open_slots :: "string \<Rightarrow> StacksFaucetRequest list \<Rightarrow> slots \<Rightarrow> nat" where
  "open_slots worker items uncertain =
     length (filter (occupies worker) items)
     + length (filter (\<lambda>(u, w). w = worker \<and> \<not> (\<exists>item \<in> set items. decided item \<and> req_UID item = u)) uncertain)"

lemma active_scan_exact:
  assumes "active_scan worker items n unobserved uncertain = (early, n', unobserved', uncertain')"
  shows "if early then Capacity \<le> n'
    else n' = n + length (filter (occupies worker) items)
      \<and> unobserved' = filter (\<lambda>u. \<not> (\<exists>item \<in> set items. decided item \<and> req_UID item = u)) unobserved"
  using assms
proof (induction worker items n unobserved uncertain rule: active_scan.induct)
  case (2 worker item items n unobserved uncertain)
  show ?case
  proof (cases "Capacity \<le> (if occupies worker item then n + 1 else n)")
    case True
    then show ?thesis using "2.prems" by (auto simp: Let_def)
  next
    case False
    note ih = "2.IH" [OF refl refl refl False]
    have "active_scan worker items (if occupies worker item then n + 1 else n)
        (if decided item then removeAll (req_UID item) unobserved else unobserved)
        (if decided item then filter (\<lambda>(u, _). u \<noteq> req_UID item) uncertain else uncertain)
      = (early, n', unobserved', uncertain')"
      using "2.prems" False by (simp add: Let_def)
    from ih [OF this] show ?thesis
      by (auto simp: removeAll_filter_not_eq filter_filter intro!: filter_cong split: if_splits)
  qed
qed simp

lemma activeCount_exact:
  assumes "fst (activeCount items complete worker uncertain) = Inr n" "n < Capacity"
  shows "n = open_slots worker items uncertain"
proof -
  obtain early c unobserved uncertain' where s:
    "active_scan worker items 0 (map fst (filter (\<lambda>(_, w). w = worker) uncertain)) uncertain = (early, c, unobserved, uncertain')"
    by (metis surj_pair)
  have "\<not> early" and n: "n = c + length unobserved"
    using assms s active_scan_exact [OF s] by (auto simp: activeCount_def split: if_splits)
  have "length (filter P (map fst (filter (\<lambda>(_, w). w = worker) uncertain)))
      = length (filter (\<lambda>(u, w). w = worker \<and> P u) uncertain)" for P
    by (induction uncertain) auto
  with n \<open>\<not> early\<close> active_scan_exact [OF s] show ?thesis by (simp add: open_slots_def)
qed

text \<open>A new grant comes from \<open>admit\<close> before the deadline.\<close>

lemma decide_granted:
  assumes "decide now later g uncertain request = (Inr a, u)" "Decision a = ''Admitted''" "\<not> decided request"
  shows "admit now g uncertain request = (Inr a, u)" "\<exists>deadline. Deadline request = Inr deadline \<and> now < deadline \<and> later < deadline"
proof -
  have base: "Decision (baseAdmission request d state reason) = state" for d state reason
    by (simp add: baseAdmission_def)
  from assms obtain a' where a': "admit now g uncertain request = (Inr a', u)" "a = late_decision later request a'"
    by (auto simp: decide_def decided_def split: option.splits if_splits prod.splits sum.splits)
  then obtain deadline where d: "Deadline request = Inr deadline"
    by (auto simp: admit_def split: sum.splits)
  with a' assms(2) have "a = a'" "later < deadline"
    by (auto simp: late_decision_def base split: if_splits)
  moreover have "now < deadline"
    using a' d assms(2) \<open>a = a'\<close> by (auto simp: admit_def Let_def base split: if_splits)
  ultimately show "admit now g uncertain request = (Inr a, u)"
    "\<exists>deadline. Deadline request = Inr deadline \<and> now < deadline \<and> later < deadline"
    using a' d by auto
qed

lemma admit_granted:
  assumes "admit now g uncertain request = (Inr a, u)" "Decision a = ''Admitted''" "Deadline request = Inr deadline"
  shows "\<not> req_Deleted request \<and> (\<exists>amount root. parse_uint64 (req_Amount request) = Inr amount \<and> amount \<noteq> 0
    \<and> get_network g = Got root \<and> net_UID root = req_NetworkUID request
    \<and> \<not> net_Deleted root \<and> net_Operation root \<noteq> ''Stopped'' \<and> \<not> network_failed root
    \<and> (\<exists>entry \<in> set (net_Participants root). entry_Name entry = FaucetRef request \<and> entry_Kind entry = ''StacksFaucet'')
    \<and> admit_participant g uncertain request deadline amount root = (Inr a, u))"
proof -
  have base: "Decision (baseAdmission request d state reason) = state" for d state reason
    by (simp add: baseAdmission_def)
  obtain amount where amt: "parse_uint64 (req_Amount request) = Inr amount" "amount \<noteq> 0" "\<not> req_Deleted request" "now < deadline"
    using assms by (auto simp: admit_def Let_def base split: if_splits sum.splits)
  obtain root where "get_network g = Got root"
    using assms amt by (auto simp: admit_def Let_def base split: get.splits)
  with assms amt show ?thesis by (auto simp: admit_def Let_def base list_ex_iff split: if_splits)
qed


section \<open>What a phase means\<close>

lemma ProjectPhase_terminal:
  assumes "ProjectPhase request now = (phase, reason)" "phase \<in> {''Completed'', ''Rejected'', ''Expired''}"
    and "req_Admission request = Some a"
  shows "if Decision a = ''Admitted''
    then MatchingExecution request \<and> (\<exists>e. req_Execution request = Some e \<and> TerminalExecution (Some e) \<and> fe_Phase e = phase)
    else phase = Decision a"
  using assms
  by (auto simp: ProjectPhase_def MatchingExecution_def split: if_splits option.splits sum.splits)

lemma decide_keeps: "decided request \<Longrightarrow> decide now later g uncertain request = (Inr a, u) \<Longrightarrow> req_Admission request = Some a"
  by (auto simp: decide_def decided_def split: option.splits)

lemma Reconcile_write:
  assumes "Reconcile (now, later, at, delay_at) g applied uncertain request = (res, u, Some (a, phase))"
  obtains u' reason where "decide now later g uncertain request = (Inr a, u')"
    "ProjectPhase (request\<lparr>req_Admission := Some a\<rparr>) at = (phase, reason)"
    "res = Inl err \<Longrightarrow> Decision a = ''Admitted'' \<Longrightarrow> adm_Worker a = Some w \<Longrightarrow> (req_UID request, fb_UID w) \<in> set u"
proof -
  obtain d u' where d: "decide now later g uncertain request = (d, u')" by (metis surj_pair)
  then obtain a' where a': "d = Inr a'" using assms by (cases d) (auto simp: Reconcile_def)
  obtain phase' reason where ph: "ProjectPhase (request\<lparr>req_Admission := Some a'\<rparr>) at = (phase', reason)" by (metis surj_pair)
  have eq: "a' = a" "phase' = phase"
    and kept: "res = Inl err \<Longrightarrow> Decision a = ''Admitted'' \<Longrightarrow> adm_Worker a = Some w \<Longrightarrow> (req_UID request, fb_UID w) \<in> set u"
    using assms d a' ph by (auto simp: Reconcile_def Let_def split: if_splits sum.splits)
  show ?thesis by (rule that [of u' reason]) (use d a' ph eq kept in auto)
qed


section \<open>A sample request\<close>

text \<open>The address of twenty zero bytes, left symbolic.\<close>

definition recipient_address :: string where
  "recipient_address = (case EncodeAddress 26 (replicate 20 0) of Inr a \<Rightarrow> a | Inl _ \<Rightarrow> [])"

lemma recipient_address_decodes: "DecodeAddress recipient_address = Inr (26, replicate 20 0)"
proof -
  obtain a where a: "EncodeAddress 26 (replicate 20 0) = Inr a" using EncodeAddress_total by fastforce
  then have "recipient_address = a" by (simp add: recipient_address_def)
  with DecodeAddress_EncodeAddress_ok [of 26 "replicate 20 0" a] a show ?thesis by simp
qed

lemma recipient_address_valid: "ValidAddress recipient_address"
  by (simp add: ValidAddress_def recipient_address_decodes)

definition faucet_participant :: StacksNetworkParticipant where
  "faucet_participant = sample_participant\<lparr>part_Execution := Some \<lparr>we_PodUID = ''w'', we_ProcessNonce = ''n'', we_ProfileDigest = ''d'',
     we_NetworkGeneration = 3, we_Phase = ''Active'', we_Reason = [], we_ObservedAt = 0, we_Pending = 0\<rparr>\<rparr>"

definition sample_reads :: admit_reads where
  "sample_reads =
     \<lparr>get_network = Got (sample_network ''Running'' (Some sample_session)), get_participant = Got faucet_participant,
      get_policy = Some \<lparr>pol_AccountRef = Some ''funds'', pol_TargetNodeRef = Some ''node'', MaxRequest = Some ''1000''\<rparr>,
      get_dependencies = [\<lparr>Kind = ''StacksAccount'', Name = ''funds'', UID = ''a'', Fingerprint = ''x''\<rparr>,
        \<lparr>Kind = ''StacksNetworkParticipant'', Name = ParticipantName ''net'' ''node'', UID = ''t'', Fingerprint = []\<rparr>],
      get_validated = Inr (), get_summary = Some (0, 0), get_pod = Got sample_pod, get_account = NotFound,
      get_items = [], get_complete = True\<rparr>"

definition sample_faucet_request :: StacksFaucetRequest where
  "sample_faucet_request =
     \<lparr>req_Namespace = ''ns'', req_Name = ''r'', req_UID = ''q'', req_ResourceVersion = ''1'', req_Created = Some 0, req_Deleted = False,
      req_NetworkUID = ''net'', FaucetRef = ''faucet'', req_Destination = \<lparr>AccountRef = None, RecipientAddress = Some recipient_address\<rparr>,
      req_Amount = ''500'', Timeout = Inr (60 * second), req_Admission = None, req_Phase = [], req_Generation = 1,
      req_Completed = None, req_Execution = None\<rparr>"

definition sample_admission :: FaucetAdmission where
  "sample_admission =
     \<lparr>Decision = ''Admitted'', AdmissionReason = ''WorkerBound'', adm_ExpiresAt = 60 * second, adm_NetworkUID = ''net'',
      adm_Faucet = Some \<lparr>fb_Kind = ''StacksNetworkParticipant'', fb_Name = ''p'', fb_UID = ''u'', fb_Fingerprint = []\<rparr>,
      adm_Worker = Some \<lparr>fb_Kind = ''Pod'', fb_Name = wp_Name sample_pod_binding, fb_UID = ''w'', fb_Fingerprint = []\<rparr>,
      adm_ProfileDigest = ''d'',
      SourceAccount = Some \<lparr>fb_Kind = ''StacksAccount'', fb_Name = ''funds'', fb_UID = ''a'', fb_Fingerprint = ''x''\<rparr>,
      adm_Target = Some \<lparr>fb_Kind = ''StacksNetworkParticipant'', fb_Name = ParticipantName ''net'' ''node'', fb_UID = ''t'', fb_Fingerprint = []\<rparr>,
      DestinationAccount = None, adm_Destination = recipient_address, adm_Amount = ''500'', adm_Fee = ''3000''\<rparr>"

lemma sample_deadline: "Deadline sample_faucet_request = Inr (60 * second)"
  by (simp add: Deadline_def sample_faucet_request_def)

lemma sample_parse: "parse_uint64 ''500'' = Inr 500" "parse_uint64 ''1000'' = Inr 1000"
  by code_simp+

lemma sample_grant: "decide 1 2 sample_reads [] sample_faucet_request = (Inr sample_admission, [])"
proof -
  have "admit 1 sample_reads [] sample_faucet_request = (Inr sample_admission, [])"
    using sample_parse sample_deadline recipient_address_valid
    by (simp add: admit_def admit_participant_def admit_bound_def sample_reads_def faucet_participant_def sample_faucet_request_def
        sample_session_defs admittedBinding_def resolve_destination_def activeCount_def worker_usable_def baseAdmission_def
        sample_admission_def Let_def)
  then show ?thesis using sample_deadline
    by (simp add: decide_def late_decision_def sample_faucet_request_def sample_admission_def)
qed


lemma sample_reconciled:
  "Reconcile (1, 2, 60 * second, 60 * second) sample_reads (Inl ''conflict'') [] sample_faucet_request
   = (Inl ''conflict'', [(''q'', ''w'')], Some (sample_admission, ''Inconclusive''))"
proof -
  have "ProjectPhase (sample_faucet_request\<lparr>req_Admission := Some sample_admission\<rparr>) (60 * second)
      = (''Inconclusive'', ''DeadlineOutcomeUnknown'')"
    by (simp add: ProjectPhase_def sample_admission_def MatchingExecution_def sample_faucet_request_def Deadline_def)
  with sample_grant show ?thesis
    by (simp add: Reconcile_def Let_def sample_faucet_request_def sample_admission_def ApplyStatus_def)
qed


end
