(* ===== verification/Faucet_Role.thy ===== *)
theory Faucet_Role
  imports Faucet_Request Nonce_Stream
begin

text \<open>
  Model of \<open>operators/network/internal/stacksoperation/faucet.go\<close> and \<open>faucet_queue.go\<close>: the role that serves
  admitted faucet requests one at a time from one account. The API server is an environment that
  answers each request from the history of calls so far, so that any object may change between two calls; the
  history also records the transmissions. The maps keyed by request UID are lists of entries and notices,
  whose key is a field; the only choice that depends on Go's iteration order, an entry without an
  outcome, is shown below to have at most one candidate.
\<close>

section \<open>State\<close>

record faucetEntry =
  ent_request :: StacksFaucetRequest
  ent_outcome :: "FaucetExecution option"
  ent_orphaned :: bool

record faucetNotice =
  nt_key :: string
  nt_uid :: string
  nt_created :: time
  nt_expires :: time
  nt_deleted :: bool

record FaucetWorkerSummary =
  sum_Active :: nat
  sum_Orphaned :: nat
  sum_Completed :: u64
  sum_Rejected :: u64
  sum_Expired :: u64
  LastDeletedOutcome :: "(FaucetBinding \<times> FaucetExecution) option"

record 'n FaucetRole =
  fr_Namespace :: string
  fr_ParticipantUID :: string
  fr_PodUID :: string
  fr_key :: string
  fr_stream :: "'n NonceStream"
  fr_processNonce :: string
  fr_applied :: string
  pendingUID :: string
  entries :: "faucetEntry list"
  fr_summary :: FaucetWorkerSummary
  fr_failed :: bool
  notices :: "faucetNotice list"
  rescan :: bool

record 'n FaucetNode = "'n Node" +
  faucet_Info :: "'n \<Rightarrow> Info result"

text \<open>\<open>FaucetInputs\<close>, and the snapshot as the role reads it: the participant's policy digest (\<open>None\<close> without
  an admission) and the acknowledged outcome in its execution status.\<close>

record 'n FaucetInputs =
  fin_Node :: "'n option"
  fin_StartHeight :: u64

record faucet_view =
  fv_network :: "StacksNetwork option"
  fv_participant :: "StacksNetworkParticipant option"
  fv_digest :: "string option"
  fv_Paused :: bool
  fv_CachedApplied :: bool
  fv_Authorize :: "unit result option"
  fv_acknowledged :: "(FaucetBinding \<times> FaucetExecution) option"

text \<open>The calls the role makes, with their answers.\<close>

datatype 'n event =
    EGet string "StacksFaucetRequest get"
  | EApply StacksFaucetRequest FaucetExecution "unit result"
  | EList "StacksFaucetRequest list" bool
  | ESend string "'n send"

type_synonym 'n history = "'n event list"

text \<open>Everything a step reads: the API server, the resolver's two answers (\<open>None\<close>: nil), and the clock at
  each place of the code that reads it.\<close>

record 'n faucet_env =
  api_get :: "'n history \<Rightarrow> string \<Rightarrow> StacksFaucetRequest get"
  api_apply :: "'n history \<Rightarrow> StacksFaucetRequest \<Rightarrow> FaucetExecution \<Rightarrow> unit result"
  api_list :: "'n history \<Rightarrow> StacksFaucetRequest list \<times> bool"
  fenv_Resolve :: "('n FaucetInputs result \<times> 'n FaucetInputs result) option"
  fenv_now :: "string \<Rightarrow> time"
  fenv_clock :: "time \<times> time"

definition NewFaucetRole ::
  "('sk, 'pk) crypto \<Rightarrow> string \<Rightarrow> string \<Rightarrow> string \<Rightarrow> string \<Rightarrow> string \<Rightarrow> 'n FaucetRole result" where
  "NewFaucetRole C namespace participantUID podUID privateKey address =
     (case CompressedPrivateKey C privateKey of
        Inl _ \<Rightarrow> Inl ''invalid faucet key''
      | Inr key \<Rightarrow>
          (case FromPrivate C key of
             Inl _ \<Rightarrow> Inl ''faucet funding identity differs''
           | Inr identity \<Rightarrow>
               if Address identity \<noteq> address then Inl ''faucet funding identity differs''
               else Inr \<lparr>fr_Namespace = namespace, fr_ParticipantUID = participantUID, fr_PodUID = podUID, fr_key = key,
                         fr_stream = new_stream address, fr_processNonce = [], fr_applied = [], pendingUID = [],
                         entries = [],
                         fr_summary = \<lparr>sum_Active = 0, sum_Orphaned = 0, sum_Completed = 0, sum_Rejected = 0,
                                       sum_Expired = 0, LastDeletedOutcome = None\<rparr>,
                         fr_failed = False, notices = [], rescan = False\<rparr>))"

section \<open>The queue (faucet_queue.go)\<close>

abbreviation ent_uid :: "faucetEntry \<Rightarrow> string" where "ent_uid x \<equiv> req_UID (ent_request x)"

definition entry_of :: "string \<Rightarrow> faucetEntry list \<Rightarrow> faucetEntry option" where
  "entry_of uid es = find (\<lambda>x. ent_uid x = uid) es"

definition set_entry :: "faucetEntry \<Rightarrow> faucetEntry list \<Rightarrow> faucetEntry list" where
  "set_entry entry es = map (\<lambda>x. if ent_uid x = ent_uid entry then entry else x) es"

definition forgetNotice :: "string \<Rightarrow> 'n FaucetRole \<Rightarrow> 'n FaucetRole" where
  "forgetNotice uid r = r\<lparr>notices := filter (\<lambda>n. nt_uid n \<noteq> uid) (notices r)\<rparr>"

definition forgetEntry :: "string \<Rightarrow> 'n FaucetRole \<Rightarrow> 'n FaucetRole" where
  "forgetEntry uid r = r\<lparr>entries := filter (\<lambda>x. ent_uid x \<noteq> uid) (entries r)\<rparr>"

definition putEntry :: "faucetEntry \<Rightarrow> 'n FaucetRole \<Rightarrow> 'n FaucetRole" where
  "putEntry entry r =
     (let r1 = forgetEntry (ent_uid entry) (forgetNotice (ent_uid entry) r) in r1\<lparr>entries := entries r1 @ [entry]\<rparr>)"

text \<open>\<open>CollectionChanged\<close> on a converted request of the watched collection.\<close>

definition CollectionChanged :: "StacksFaucetRequest \<Rightarrow> bool \<Rightarrow> 'n FaucetRole \<Rightarrow> 'n FaucetRole" where
  "CollectionChanged request deleted r =
     (if req_Namespace request \<noteq> fr_Namespace r then r
      else case req_Admission request of
        None \<Rightarrow> r
      | Some a \<Rightarrow>
          if Decision a \<noteq> ''Admitted'' then r
          else (case (adm_Faucet a, adm_Worker a) of
            (Some faucet, Some worker) \<Rightarrow>
              if fb_UID faucet \<noteq> fr_ParticipantUID r \<or> fb_UID worker \<noteq> fr_PodUID r then r
              else if entry_of (req_UID request) (entries r) \<noteq> None then r
              else if MatchingExecution request \<and> TerminalExecution (req_Execution request)
              then forgetNotice (req_UID request) r
              else if \<not> list_ex (\<lambda>n. nt_uid n = req_UID request) (notices r) \<and> length (notices r) + length (entries r) \<ge> Capacity
              then r\<lparr>rescan := True\<rparr>
              else r\<lparr>notices := filter (\<lambda>n. nt_uid n \<noteq> req_UID request) (notices r)
                      @ [\<lparr>nt_key = req_Name request, nt_uid = req_UID request,
                            nt_created = (case req_Created request of Some t \<Rightarrow> t | None \<Rightarrow> 0),
                            nt_expires = (case Deadline request of Inr d \<Rightarrow> d | Inl _ \<Rightarrow> 0),
                            nt_deleted = deleted\<rparr>]\<rparr>
          | _ \<Rightarrow> r))"

definition notice_before :: "faucetNotice \<Rightarrow> faucetNotice \<Rightarrow> bool" where
  "notice_before a b \<longleftrightarrow> nt_created a < nt_created b \<or> nt_created a = nt_created b \<and> nt_uid a < nt_uid b"

fun first_notice :: "faucetNotice list \<Rightarrow> faucetNotice option" where
  "first_notice [] = None"
| "first_notice (n # ns) =
     (case first_notice ns of None \<Rightarrow> Some n | Some k \<Rightarrow> if notice_before k n then Some k else Some n)"

definition takeNotice :: "bool \<Rightarrow> time \<Rightarrow> 'n FaucetRole \<Rightarrow> 'n FaucetRole \<times> faucetNotice option" where
  "takeNotice busy now r =
     (let kept = filter (\<lambda>n. entry_of (nt_uid n) (entries r) = None) (notices r) in
      (r\<lparr>notices := kept\<rparr>,
       first_notice (filter (\<lambda>n. \<not> busy \<or> nt_deleted n \<or> \<not> now < nt_expires n) kept)))"

definition rescanNotices ::
  "'n faucet_env \<Rightarrow> 'n FaucetRole \<Rightarrow> 'n history \<Rightarrow> 'n FaucetRole \<times> 'n history \<times> unit result" where
  "rescanNotices e r h =
     (if \<not> (rescan r \<and> length (notices r) + length (entries r) < Capacity div 2) then (r, h, Inr ())
      else
        let (items, complete) = api_list e h;
            r1 = fold (\<lambda>item. CollectionChanged item False) items (r\<lparr>rescan := False\<rparr>);
            h1 = h @ [EList items complete]
        in if complete then (r1, h1, Inr ()) else (r1\<lparr>rescan := True\<rparr>, h1, Inl ''list failed''))"

section \<open>Outcomes (faucet.go)\<close>

definition execution :: "'n FaucetRole \<Rightarrow> time \<Rightarrow> faucetEntry \<Rightarrow> string \<Rightarrow> string \<Rightarrow> bool \<Rightarrow> FaucetExecution" where
  "execution r now entry phase reason noSend =
     (let a = the (req_Admission (ent_request entry)) in
      \<lparr>fe_Phase = phase, fe_Reason = reason, fe_NetworkUID = adm_NetworkUID a, FaucetUID = fr_ParticipantUID r,
       WorkerUID = fr_PodUID r, fe_ProcessNonce = fr_processNonce r, NoSend = noSend, fe_TxID = [],
       fe_Destination = adm_Destination a, fe_Amount = adm_Amount a, InclusionBlockID = [], fe_ObservedAt = now\<rparr>)"

datatype counter = CompletedCounter | RejectedCounter | ExpiredCounter

definition increment :: "counter \<Rightarrow> 'n FaucetRole \<Rightarrow> 'n FaucetRole" where
  "increment c r =
     (let s = fr_summary r;
          v = (case c of CompletedCounter \<Rightarrow> sum_Completed s | RejectedCounter \<Rightarrow> sum_Rejected s | ExpiredCounter \<Rightarrow> sum_Expired s)
      in if v = max_uint64 then r\<lparr>fr_failed := True\<rparr>
         else r\<lparr>fr_summary := (case c of
             CompletedCounter \<Rightarrow> s\<lparr>sum_Completed := v + 1\<rparr>
           | RejectedCounter \<Rightarrow> s\<lparr>sum_Rejected := v + 1\<rparr>
           | ExpiredCounter \<Rightarrow> s\<lparr>sum_Expired := v + 1\<rparr>)\<rparr>)"

definition noSend :: "time \<Rightarrow> faucetEntry \<Rightarrow> string \<Rightarrow> string \<Rightarrow> 'n FaucetRole \<Rightarrow> 'n FaucetRole" where
  "noSend now entry phase reason r =
     (if ent_outcome entry \<noteq> None then r
      else increment (if phase = ''Expired'' then ExpiredCounter else RejectedCounter)
             (r\<lparr>entries := set_entry (entry\<lparr>ent_outcome := Some (execution r now entry phase reason True)\<rparr>)
                            (entries r)\<rparr>))"

definition ObservePending :: "'n FaucetNode \<Rightarrow> 'n faucet_env \<Rightarrow> 'n FaucetRole \<Rightarrow> 'n FaucetRole" where
  "ObservePending N e r =
     (if pendingUID r = [] then r
      else case entry_of (pendingUID r) (entries r) of
        None \<Rightarrow> r\<lparr>fr_failed := True\<rparr>
      | Some entry \<Rightarrow>
          (case ent_outcome entry of
             None \<Rightarrow> r\<lparr>fr_failed := True\<rparr>
           | Some out \<Rightarrow>
               let (stream', (reason, err)) = Observe (Node.truncate N) (fenv_now e ''observe'') (fr_stream r);
                   r1 = r\<lparr>fr_stream := stream'\<rparr>;
                   put = (\<lambda>out' x. x\<lparr>entries := set_entry (entry\<lparr>ent_outcome := Some out'\<rparr>) (entries x)\<rparr>)
               in if err \<noteq> None then r1
                  else if Pending stream' = 0
                  then (case LastInclusion (facts stream') of
                      None \<Rightarrow> r1\<lparr>fr_failed := True\<rparr>
                    | Some inclusion \<Rightarrow>
                        if incl_TxID inclusion \<noteq> fe_TxID out then r1\<lparr>fr_failed := True\<rparr>
                        else
                          let out1 = out\<lparr>InclusionBlockID := incl_BlockID inclusion, fe_ObservedAt := incl_ObservedAt inclusion\<rparr>
                          in if incl_Success inclusion
                             then increment CompletedCounter
                                    (put (out1\<lparr>fe_Phase := ''Completed'', fe_Reason := ''Included''\<rparr>) (r1\<lparr>pendingUID := []\<rparr>))
                             else increment RejectedCounter
                                    (put (out1\<lparr>fe_Phase := ''Rejected'', fe_Reason := ''ExecutionRejected''\<rparr>) (r1\<lparr>pendingUID := []\<rparr>)))
                  else if \<not> fenv_now e ''pending'' < (case Deadline (ent_request entry) of Inr d \<Rightarrow> d | Inl _ \<Rightarrow> 0)
                          \<and> fe_Phase out \<noteq> ''Inconclusive''
                  then put (out\<lparr>fe_Phase := ''Inconclusive'', fe_Reason := ''DeadlineOutcomeUnknown'',
                                fe_ObservedAt := fenv_now e ''pending''\<rparr>) r1
                  else r1))"

text \<open>\<open>flush\<close>, one entry: the outcome of the request is published, or retained when the request is gone.\<close>

definition flush_entry ::
  "'n faucet_env \<Rightarrow> faucet_view \<Rightarrow> faucetEntry \<Rightarrow> FaucetExecution \<Rightarrow> 'n FaucetRole \<Rightarrow> 'n history
     \<Rightarrow> 'n FaucetRole \<times> 'n history \<times> unit result" where
  "flush_entry e v entry out r h =
     (let request = ent_request entry;
          reply = api_get e h (req_Name request);
          h1 = h @ [EGet (req_Name request) reply];
          settle = (\<lambda>x. if TerminalExecution (Some out) then forgetEntry (ent_uid entry) x else x)
      in if (case reply of NotFound \<Rightarrow> True | Got current \<Rightarrow> req_UID current \<noteq> req_UID request | GetFailed _ \<Rightarrow> False)
         then
           let retained = (\<lparr>fb_Kind = ''StacksFaucetRequest'', fb_Name = req_Name request, fb_UID = req_UID request,
                             fb_Fingerprint = []\<rparr>, out);
               r1 = r\<lparr>entries := set_entry (entry\<lparr>ent_orphaned := True\<rparr>) (entries r),
                      fr_summary := (fr_summary r)\<lparr>LastDeletedOutcome := Some retained\<rparr>\<rparr>
           in if fv_acknowledged v \<noteq> Some retained
              then (r1, h1, Inl ''deleted request outcome awaits participant acknowledgement'')
              else (settle r1, h1, Inr ())
         else (case reply of
             Got current \<Rightarrow>
               if req_Admission current \<noteq> req_Admission request
               then (r, h1, Inl ''request admission changed before outcome acknowledgement'')
               else if req_Execution current = Some out then (settle r, h1, Inr ())
               else (case rbind (ApplyStatus current None [] False (Some out) ExecutionManager)
                             (\<lambda>_. api_apply e h1 current out) of
                   Inl err \<Rightarrow> (r, h1 @ [EApply current out (Inl err)], Inl err)
                 | Inr _ \<Rightarrow> (settle r, h1 @ [EApply current out (Inr ())], Inr ()))
           | GetFailed err \<Rightarrow> (r, h1, Inl err)
           | NotFound \<Rightarrow> (r, h1, Inr ())))"

fun flush_all ::
  "'n faucet_env \<Rightarrow> faucet_view \<Rightarrow> string list \<Rightarrow> 'n FaucetRole \<Rightarrow> 'n history \<Rightarrow> 'n FaucetRole \<times> 'n history \<times> unit result" where
  "flush_all e v [] r h = (r, h, Inr ())"
| "flush_all e v (uid # uids) r h =
     (case entry_of uid (entries r) of
        Some entry \<Rightarrow>
          (case ent_outcome entry of
             None \<Rightarrow> flush_all e v uids r h
           | Some out \<Rightarrow>
               (case flush_entry e v entry out r h of
                  (r1, h1, Inl err) \<Rightarrow> (r1, h1, Inl err)
                | (r1, h1, Inr _) \<Rightarrow> flush_all e v uids r1 h1))
      | None \<Rightarrow> flush_all e v uids r h)"

definition flush ::
  "'n faucet_env \<Rightarrow> faucet_view \<Rightarrow> 'n FaucetRole \<Rightarrow> 'n history \<Rightarrow> 'n FaucetRole \<times> 'n history \<times> unit result" where
  "flush e v r h = flush_all e v (sort (map ent_uid (entries r))) r h"

record faucet_result =
  fres_Reason :: string
  fres_Pending :: nat
  fres_Failed :: bool
  fres_Blocked :: bool
  fres_Summary :: FaucetWorkerSummary
  fres_Transactions :: TransactionExecutionStatus
  fres_AppliedPolicyDigest :: string

definition result :: "string \<Rightarrow> 'n FaucetRole \<Rightarrow> 'n FaucetRole \<times> faucet_result" where
  "result reason r =
     (let active = length (entries r) + length (notices r);
          s = (fr_summary r)\<lparr>sum_Active := active,
                sum_Orphaned := length (filter (\<lambda>x. ent_orphaned x \<and> \<not> TerminalExecution (ent_outcome x)) (entries r))\<rparr>;
          r1 = r\<lparr>fr_summary := s\<rparr>
      in (r1, \<lparr>fres_Reason = reason, fres_Pending = active, fres_Failed = fr_failed r,
               fres_Blocked = (reason \<in> set [''WorkerIdentityUnavailable'', ''DependenciesUnavailable'',
                                             ''RequestPublicationUnavailable'', ''RequestStateLost'']),
               fres_Summary = s, fres_Transactions = facts (fr_stream r), fres_AppliedPolicyDigest = fr_applied r\<rparr>))"

section \<open>Authorization\<close>

definition request_matches :: "'n FaucetRole \<Rightarrow> faucet_view \<Rightarrow> StacksFaucetRequest \<Rightarrow> bool" where
  "request_matches r v request =
     (case (req_Admission request, fv_network v, fv_participant v) of
        (Some a, Some root, Some p) \<Rightarrow>
          (case (adm_Faucet a, adm_Worker a) of
             (Some faucet, Some worker) \<Rightarrow>
               Decision a = ''Admitted'' \<and> SourceAccount a \<noteq> None \<and> adm_Target a \<noteq> None
               \<and> adm_NetworkUID a = req_NetworkUID request \<and> adm_NetworkUID a = net_UID root
               \<and> fb_UID faucet = fr_ParticipantUID r \<and> fb_Name faucet = part_Name p \<and> fb_UID worker = fr_PodUID r
               \<and> req_Namespace request = fr_Namespace r \<and> adm_Amount a = req_Amount request
               \<and> ValidAddress (adm_Destination a)
               \<and> Deadline request = Inr (adm_ExpiresAt a)
               \<and> (case Session root p of
                    Inl _ \<Rightarrow> False
                  | Inr identity \<Rightarrow>
                      (case ii_Worker identity of
                         None \<Rightarrow> False
                       | Some session \<Rightarrow> wp_UID (ws_Pod session) = fb_UID worker \<and> wp_Name (ws_Pod session) = fb_Name worker
                           \<and> ws_ProfileDigest session = adm_ProfileDigest a))
           | _ \<Rightarrow> False)
      | _ \<Rightarrow> False)"

datatype auth_error = AuthError string | FaucetDeadline | FaucetDeleted | FaucetTerminal

text \<open>\<open>authorize\<close>: its error, if any, and the call it makes.\<close>

definition faucet_authorize ::
  "'n faucet_env \<Rightarrow> faucet_view \<Rightarrow> 'n FaucetRole \<Rightarrow> 'n history \<Rightarrow> faucetEntry \<Rightarrow> auth_error option \<times> 'n history" where
  "faucet_authorize e v r h entry =
     (if fv_CachedApplied v \<or> fv_Paused v then (Some (AuthError ''faucet fresh authority unavailable''), [])
      else case fv_Authorize v of
        None \<Rightarrow> (Some (AuthError ''faucet fresh authority unavailable''), [])
      | Some (Inl err) \<Rightarrow> (Some (AuthError err), [])
      | Some (Inr _) \<Rightarrow>
          (case snd (the (fenv_Resolve e)) of
             Inl err \<Rightarrow> (Some (AuthError err), [])
           | Inr _ \<Rightarrow>
               let name = req_Name (ent_request entry); reply = api_get e h name in
               ((case reply of
                   NotFound \<Rightarrow> Some FaucetDeleted
                 | GetFailed err \<Rightarrow> Some (AuthError err)
                 | Got current \<Rightarrow>
                     if req_UID current \<noteq> req_UID (ent_request entry) \<or> req_Deleted current then Some FaucetDeleted
                     else if \<not> request_matches r v current \<or> req_Admission current \<noteq> req_Admission (ent_request entry)
                     then Some (AuthError ''faucet admission changed'')
                     else if req_Execution current \<noteq> None \<or> req_Phase current \<in> set [''Completed'', ''Rejected'', ''Expired'']
                     then Some FaucetTerminal
                     else (case Deadline current of
                         Inl _ \<Rightarrow> Some FaucetDeadline
                       | Inr deadline \<Rightarrow> if \<not> fenv_now e ''authorize'' < deadline then Some FaucetDeadline else None)),
                [EGet name reply])))"

definition faucet_build :: "('sk, 'pk) crypto \<Rightarrow> string \<Rightarrow> FaucetAdmission \<Rightarrow> u64 \<Rightarrow> u64 \<Rightarrow> u64 \<Rightarrow> Transaction result" where
  "faucet_build C key a fee amount nonce =
     Transfer C \<lparr>Version = Testnet, ChainID = 0x80000000, Nonce = nonce, Fee = fee, PostConditionMode = Deny,
                 PrivateKey = key\<rparr> (adm_Destination a) amount []"

section \<open>Steps\<close>

text \<open>The offer of one entry and the outcome it leaves; \<open>entry\<close> has none yet.\<close>

definition settle_offer ::
  "'n faucet_env \<Rightarrow> faucetEntry \<Rightarrow> auth_error option \<Rightarrow> string \<Rightarrow> 'n FaucetRole \<Rightarrow> 'n FaucetRole" where
  "settle_offer e entry auth reason r =
     (let now = fenv_now e ''execution'';
          put = (\<lambda>out x. x\<lparr>entries := set_entry (entry\<lparr>ent_outcome := Some out\<rparr>) (entries x)\<rparr>)
      in case pending (fr_stream r) of
        Some p \<Rightarrow>
          put ((execution r now entry (if reason \<noteq> ''Accepted'' then ''Inconclusive'' else ''Submitted'') reason False)
                 \<lparr>fe_TxID := TxID (pending_transaction p)\<rparr>) (r\<lparr>pendingUID := ent_uid entry\<rparr>)
      | None \<Rightarrow>
          if refusal_reason reason
          then increment RejectedCounter
                 (put ((execution r now entry ''Rejected'' reason False)\<lparr>fe_TxID := LastTxID (facts (fr_stream r))\<rparr>) r)
          else if reason = ''AuthorizationUnavailable'' \<and> auth = Some FaucetDeadline
          then noSend now entry ''Expired'' ''DeadlineBeforeSend'' r
          else if reason = ''AuthorizationUnavailable'' \<and> auth = Some FaucetDeleted
          then noSend now entry ''Expired'' ''DeletedBeforeSend'' r
          else if reason = ''AuthorizationUnavailable'' \<and> auth = Some FaucetTerminal then forgetEntry (ent_uid entry) r
          else if reason = ''InsufficientFunds'' then noSend now entry ''Rejected'' ''InsufficientFunds'' r
          else if reason = ''ConstructionFailed'' then noSend now entry ''Rejected'' ''ConstructionFailed'' r
          else r)"

definition offer_entry ::
  "('sk, 'pk) crypto \<Rightarrow> 'n FaucetNode \<Rightarrow> 'n faucet_env \<Rightarrow> faucet_view \<Rightarrow> faucetEntry \<Rightarrow> FaucetAdmission \<Rightarrow> 'n
     \<Rightarrow> u64 \<Rightarrow> u64 \<Rightarrow> 'n FaucetRole \<Rightarrow> 'n history \<Rightarrow> 'n FaucetRole \<times> 'n history \<times> string" where
  "offer_entry C N e v entry a node amount fee r h =
     (let (auth, reads) = faucet_authorize e v r h entry;
          args = \<lparr>arg_clock = Some (fenv_clock e), arg_node = Some node, arg_amount = Some (uint amount + uint fee),
                  arg_authorize = Some (if auth = None then Inr () else Inl ''authorization''),
                  arg_build = Some (faucet_build C (fr_key r) a fee amount)\<rparr>;
          (stream', (reason, err), sent) = Offer (Node.truncate N) args (fr_stream r);
          h1 = h @ (if reason = ''AuthorizationUnavailable'' \<or> sent \<noteq> [] then reads else []) @ map (ESend (ent_uid entry)) sent
      in (settle_offer e entry auth reason (r\<lparr>fr_stream := stream'\<rparr>), h1, reason))"

text \<open>\<open>Step\<close> from the selected entry on: refuse, wait, or offer, and publish.\<close>

definition serve_entry ::
  "('sk, 'pk) crypto \<Rightarrow> 'n FaucetNode \<Rightarrow> 'n faucet_env \<Rightarrow> faucet_view \<Rightarrow> faucetEntry \<Rightarrow> 'n FaucetRole \<Rightarrow> 'n history
     \<Rightarrow> 'n FaucetRole \<times> 'n history \<times> string" where
  "serve_entry C N e v entry r h =
     (let expire = (\<lambda>why. let (r1, h1, _) = flush e v (noSend (fenv_now e ''execution'') entry ''Expired'' why r) h
                          in (r1, h1, ''RequestExpired''))
      in if req_Deleted (ent_request entry) then expire ''DeletedBeforeSend''
      else case Deadline (ent_request entry) of
        Inl _ \<Rightarrow> (r, h, ''InvalidRequestDeadline'')
      | Inr deadline \<Rightarrow>
          if \<not> fenv_now e ''deadline'' < deadline then expire ''DeadlineBeforeSend''
          else if fv_Paused v \<or> fv_CachedApplied v then (r, h, ''Paused'')
          else if Pending (fr_stream r) \<noteq> 0 then (r, h, ''AwaitingInclusion'')
          else (case fst (the (fenv_Resolve e)) of
            Inl _ \<Rightarrow> (r, h, ''DependenciesUnavailable'')
          | Inr input \<Rightarrow>
              (case fin_Node input of
                 None \<Rightarrow> (r, h, ''DependenciesUnavailable'')
               | Some node \<Rightarrow>
                   (case faucet_Info N node of
                      Inl _ \<Rightarrow> (r, h, ''ChainUnavailable'')
                    | Inr info \<Rightarrow>
                        if NetworkID info \<noteq> 0x80000000 \<or> fin_StartHeight input = 0
                           \<or> BurnHeight info < fin_StartHeight input
                        then (r, h, ''AwaitingNakamoto'')
                        else
                          let a = the (req_Admission (ent_request entry)) in
                          (case parse_uint64 (adm_Amount a) of
                             Inl _ \<Rightarrow> (r, h, ''InvalidRequestAmount'')
                           | Inr amount \<Rightarrow>
                               if amount = 0 then (r, h, ''InvalidRequestAmount'')
                               else (case parse_uint64 (adm_Fee a) of
                                 Inl _ \<Rightarrow> (r, h, ''InvalidRequestFee'')
                               | Inr fee \<Rightarrow>
                                   if fee \<noteq> FeeMicroSTX then (r, h, ''InvalidRequestFee'')
                                   else
                                     let (r1, h1, reason) = offer_entry C N e v entry a node amount fee r h in
                                     (case flush e v r1 h1 of
                                        (r2, h2, Inl _) \<Rightarrow> (r2, h2, ''RequestPublicationUnavailable'')
                                      | (r2, h2, Inr _) \<Rightarrow> (r2, h2, reason))))))))"

text \<open>The choice of the entry to serve: an unsettled one, or the request of the next notice after a fresh read.
  \<open>Inl\<close> is the reason to return.\<close>

definition next_entry ::
  "'n faucet_env \<Rightarrow> faucet_view \<Rightarrow> 'n FaucetRole \<Rightarrow> 'n history \<Rightarrow> 'n FaucetRole \<times> 'n history \<times> (string + faucetEntry)" where
  "next_entry e v r h =
     (case find (\<lambda>x. ent_outcome x = None) (entries r) of
        Some entry \<Rightarrow> (r, h, Inr entry)
      | None \<Rightarrow>
          (case takeNotice (Pending (fr_stream r) \<noteq> 0) (fenv_now e ''notice'') r of
             (r1, None) \<Rightarrow> (r1, h, Inl ''WaitingRequests'')
           | (r1, Some notice) \<Rightarrow>
               let reply = api_get e h (nt_key notice);
                   h1 = h @ [EGet (nt_key notice) reply];
                   drop' = forgetNotice (nt_uid notice) r1
               in (case reply of
                     NotFound \<Rightarrow> (drop', h1, Inl ''RequestAbsent'')
                   | GetFailed _ \<Rightarrow> (r1, h1, Inl ''RequestReadUnavailable'')
                   | Got request \<Rightarrow>
                       if req_UID request \<noteq> nt_uid notice \<or> \<not> request_matches r1 v request
                       then (drop', h1, Inl ''RequestBindingUnavailable'')
                       else if MatchingExecution request \<and> TerminalExecution (req_Execution request)
                       then (drop', h1, Inl ''RequestAlreadySettled'')
                       else if req_Execution request \<noteq> None then (r1\<lparr>fr_failed := True\<rparr>, h1, Inl ''RequestStateLost'')
                       else
                         let entry = \<lparr>ent_request = request, ent_outcome = None, ent_orphaned = False\<rparr>
                         in (putEntry entry r1, h1, Inr entry))))"

definition faucet_Step ::
  "('sk, 'pk) crypto \<Rightarrow> 'n FaucetNode \<Rightarrow> 'n faucet_env \<Rightarrow> faucet_view \<Rightarrow> 'n FaucetRole \<Rightarrow> 'n history
     \<Rightarrow> 'n FaucetRole \<times> 'n history \<times> faucet_result" where
  "faucet_Step C N e v r h =
     (let finish = (\<lambda>x hist reason. let (x', res) = result reason x in (x', hist, res)) in
      case (fenv_Resolve e, fv_network v, fv_participant v, fv_digest v) of
        (Some _, Some root, Some p, Some digest) \<Rightarrow>
          (case part_Execution p of
             None \<Rightarrow> finish r h ''WorkerIdentityUnavailable''
           | Some exec \<Rightarrow>
               if part_UID p \<noteq> fr_ParticipantUID r \<or> we_PodUID exec \<noteq> fr_PodUID r \<or> we_ProcessNonce exec = []
               then finish r h ''WorkerIdentityUnavailable''
               else
                 let r1 = (if fr_processNonce r = [] then r\<lparr>fr_processNonce := we_ProcessNonce exec\<rparr> else r) in
                 if fr_processNonce r1 \<noteq> we_ProcessNonce exec
                 then finish (r1\<lparr>fr_failed := True\<rparr>) h ''WorkerProcessChanged''
                 else
                   let r2 = ObservePending N e (r1\<lparr>fr_applied := digest\<rparr>) in
                   (case flush e v r2 h of
                      (r3, h3, Inl _) \<Rightarrow> finish r3 h3 ''RequestPublicationUnavailable''
                    | (r3, h3, Inr _) \<Rightarrow>
                        if fr_failed r3 then finish r3 h3 ''RequestStateLost''
                        else (case rescanNotices e r3 h3 of
                          (r4, h4, Inl _) \<Rightarrow> finish r4 h4 ''RequestListUnavailable''
                        | (r4, h4, Inr _) \<Rightarrow>
                            (case next_entry e v r4 h4 of
                               (r5, h5, Inl reason) \<Rightarrow> finish r5 h5 reason
                             | (r5, h5, Inr entry) \<Rightarrow>
                                 let (r6, h6, reason) = serve_entry C N e v entry r5 h5 in finish r6 h6 reason))))
      | _ \<Rightarrow> finish r h ''WorkerIdentityUnavailable'')"

section \<open>Draining\<close>

lemma forget_simps [simp]:
  "notices (forgetEntry u r) = notices r" "entries (forgetNotice u r) = entries r"
  "fr_stream (forgetEntry u r) = fr_stream r" "fr_stream (forgetNotice u r) = fr_stream r"
  "pendingUID (forgetEntry u r) = pendingUID r" "pendingUID (forgetNotice u r) = pendingUID r"
  by (simp_all add: forgetEntry_def forgetNotice_def)

lemma increment_simps [simp]:
  "notices (increment c r) = notices r" "entries (increment c r) = entries r"
  "fr_stream (increment c r) = fr_stream r" "pendingUID (increment c r) = pendingUID r"
  by (simp_all add: increment_def Let_def)

lemma noSend_simps [simp]:
  "notices (noSend now entry phase reason r) = notices r" "fr_stream (noSend now entry phase reason r) = fr_stream r"
  "pendingUID (noSend now entry phase reason r) = pendingUID r"
  by (simp_all add: noSend_def)

text \<open>Publishing touches neither the stream nor the queue.\<close>

lemma flush_entry_keeps:
  assumes "flush_entry e v entry out r h = (r', h', res)"
  shows "notices r' = notices r \<and> fr_stream r' = fr_stream r \<and> pendingUID r' = pendingUID r"
proof -
  define reply where "reply = api_get e h (req_Name (ent_request entry))"
  show ?thesis
    using assms unfolding flush_entry_def Let_def reply_def [symmetric]
    by (cases reply) (auto split: if_split_asm sum.split_asm)
qed

lemma flush_all_keeps:
  assumes "flush_all e v uids r h = (r', h', res)"
  shows "notices r' = notices r \<and> fr_stream r' = fr_stream r \<and> pendingUID r' = pendingUID r"
  using assms
proof (induction uids arbitrary: r h)
  case (Cons uid uids)
  show ?case
  proof (cases "\<exists>entry out. entry_of uid (entries r) = Some entry \<and> ent_outcome entry = Some out")
    case True
    then obtain entry out where x: "entry_of uid (entries r) = Some entry" "ent_outcome entry = Some out" by blast
    obtain r1 h1 res1 where f: "flush_entry e v entry out r h = (r1, h1, res1)" by (metis prod_cases3)
    show ?thesis
    proof (cases res1)
      case (Inl err)
      then show ?thesis using Cons.prems x f flush_entry_keeps [OF f] by simp
    next
      case (Inr u)
      with Cons.prems x f have "flush_all e v uids r1 h1 = (r', h', res)" by simp
      from Cons.IH [OF this] flush_entry_keeps [OF f] show ?thesis by simp
    qed
  next
    case False
    then have "flush_all e v uids r h = (r', h', res)" using Cons.prems by (auto split: option.splits)
    then show ?thesis by (rule Cons.IH)
  qed
qed simp

lemma first_notice_mem: "first_notice ns = Some n \<Longrightarrow> n \<in> set ns"
  by (induction ns arbitrary: n) (auto split: option.splits if_splits)

lemma takeNotice_simps:
  assumes "takeNotice busy now r = (r1, choice)"
  shows "notices r1 = filter (\<lambda>n. entry_of (nt_uid n) (entries r) = None) (notices r)"
    "r1 = r\<lparr>notices := notices r1\<rparr>" "\<And>n. choice = Some n \<Longrightarrow> n \<in> set (notices r1)"
  using assms by (auto simp: takeNotice_def Let_def dest!: first_notice_mem)

text \<open>The entries a process drains without having sent them are refused first.\<close>

definition refuse_unsent :: "time \<Rightarrow> 'n FaucetRole \<Rightarrow> 'n FaucetRole" where
  "refuse_unsent now r =
     fold (\<lambda>x s. if ent_outcome x = None then noSend now x ''Expired'' ''WorkerStoppedBeforeSend'' s else s) (entries r) r"

lemma forgetNotice_shrinks:
  assumes "takeNotice busy now r = (r1, Some notice)"
  shows "length (notices (forgetNotice (nt_uid notice) r1)) < length (notices r)"
proof -
  have "length (filter (\<lambda>n. nt_uid n \<noteq> nt_uid notice) (notices r1)) < length (notices r1)"
    using takeNotice_simps(3) [OF assms] by (auto intro: length_filter_less)
  also have "\<dots> \<le> length (notices r)" unfolding takeNotice_simps(1) [OF assms] by (rule length_filter_le)
  finally show ?thesis by (simp add: forgetNotice_def)
qed

lemmas forgetNotice_shrinks' = forgetNotice_shrinks [OF sym]

lemma flush_keeps:
  "(r', h', res) = flush e v r h \<Longrightarrow> notices r' = notices r \<and> fr_stream r' = fr_stream r \<and> pendingUID r' = pendingUID r"
  unfolding flush_def by (rule flush_all_keeps [OF sym])

lemma putEntry_notices [simp]: "notices (putEntry entry r) = notices (forgetNotice (ent_uid entry) r)"
  by (simp add: putEntry_def Let_def)

text \<open>The loop of \<open>Drain\<close> over the remaining notices: every iteration consumes one.\<close>

function drain_notices ::
  "'n faucet_env \<Rightarrow> faucet_view \<Rightarrow> 'n FaucetRole \<Rightarrow> 'n history \<Rightarrow> 'n FaucetRole \<times> 'n history \<times> unit result" where
  "drain_notices e v r h =
     (case takeNotice False 0 r of
        (r1, None) \<Rightarrow> (r1, h, Inr ())
      | (r1, Some notice) \<Rightarrow>
          let reply = api_get e h (nt_key notice);
              h1 = h @ [EGet (nt_key notice) reply];
              drop' = forgetNotice (nt_uid notice) r1
          in (case reply of
               NotFound \<Rightarrow> drain_notices e v drop' h1
             | GetFailed err \<Rightarrow> (r1, h1, Inl err)
             | Got request \<Rightarrow>
                 if req_UID request \<noteq> nt_uid notice \<or> \<not> request_matches r1 v request
                    \<or> MatchingExecution request \<and> TerminalExecution (req_Execution request)
                 then drain_notices e v drop' h1
                 else if req_Execution request \<noteq> None then (r1\<lparr>fr_failed := True\<rparr>, h1, Inr ())
                 else
                   let entry = \<lparr>ent_request = request, ent_outcome = None, ent_orphaned = False\<rparr>;
                       r2 = noSend (fenv_now e ''execution'') entry ''Expired'' ''WorkerStoppedBeforeSend'' (putEntry entry r1)
                   in (case flush e v r2 h1 of
                         (r3, h3, Inl err) \<Rightarrow> (r3, h3, Inl err)
                       | (r3, h3, Inr _) \<Rightarrow> drain_notices e v r3 h3)))"
  by pat_completeness auto

termination
proof (relation "measure (\<lambda>(e, v, r, h). length (notices r))", goal_cases)
  case 1
  show ?case by simp
next
  case 2
  then show ?case by (auto intro!: forgetNotice_shrinks')
next
  case (3 e v r h)
  then show ?case by (auto dest!: flush_keeps intro: forgetNotice_shrinks')
next
  case 4
  then show ?case by (auto intro!: forgetNotice_shrinks')
qed

declare drain_notices.simps [simp del]

text \<open>\<open>Drain\<close>: whether it is done, with the result it publishes and its error.\<close>

definition faucet_Drain ::
  "'n FaucetNode \<Rightarrow> 'n faucet_env \<Rightarrow> faucet_view \<Rightarrow> 'n FaucetRole \<Rightarrow> 'n history
     \<Rightarrow> 'n FaucetRole \<times> 'n history \<times> bool \<times> faucet_result \<times> unit result" where
  "faucet_Drain N e v r h =
     (let r1 = (case fv_participant v of
           Some p \<Rightarrow> (case part_Execution p of
               Some exec \<Rightarrow> if fr_processNonce r = [] then r\<lparr>fr_processNonce := we_ProcessNonce exec\<rparr> else r
             | None \<Rightarrow> r)
         | None \<Rightarrow> r);
          r2 = refuse_unsent (fenv_now e ''execution'') (ObservePending N e r1);
          (r4, h4, err) = (case flush e v r2 h of
             (r3, h3, Inl err) \<Rightarrow> (r3, h3, Inl err)
           | (r3, h3, Inr _) \<Rightarrow> drain_notices e v r3 h3);
          (r5, res) = result ''Draining'' r4
      in (r5, h4, fres_Pending res = 0 \<and> \<not> fr_failed r5, res, err))"

section \<open>Executions\<close>

text \<open>The operations of one process, in any order and with any environment.\<close>

inductive faucet_step ::
  "('sk, 'pk) crypto \<Rightarrow> 'n FaucetRole \<times> 'n history \<Rightarrow> unit \<Rightarrow> 'n FaucetRole \<times> 'n history \<Rightarrow> bool" for C where
  step: "faucet_Step C N e v r h = (r', h', res) \<Longrightarrow> faucet_step C (r, h) () (r', h')"
| drain: "faucet_Drain N e v r h = (r', h', done, res, err) \<Longrightarrow> faucet_step C (r, h) () (r', h')"
| observe: "faucet_step C (r, h) () (ObservePending N e r, h)"
| changed: "faucet_step C (r, h) () (CollectionChanged request deleted r, h)"

definition faucet_start :: "('sk, 'pk) crypto \<Rightarrow> 'n FaucetRole \<times> 'n history \<Rightarrow> bool" where
  "faucet_start C w \<longleftrightarrow> snd w = [] \<and> (\<exists>namespace p pod key address. NewFaucetRole C namespace p pod key address = Inr (fst w))"

abbreviation faucet_runs :: "('sk, 'pk) crypto \<Rightarrow> 'n FaucetRole \<times> 'n history \<Rightarrow> unit list \<Rightarrow> bool" where
  "faucet_runs C \<equiv> runs (faucet_start C) (faucet_step C)"

text \<open>
  What the API server promises. A request is spent once its execution evidence was written or seen,
  or once its name no longer resolved to it. Names resolve to objects of that name; UIDs are never
  reused, and no other writer clears execution evidence: so a read that shows a request without evidence
  comes before it is spent.
\<close>

definition gone :: "'n history \<Rightarrow> string \<Rightarrow> bool" where
  "gone h u \<longleftrightarrow>
     (\<exists>a name reply b q. h = a @ EGet name reply # b \<and> EGet name (Got q) \<in> set a \<and> req_UID q = u
        \<and> (reply = NotFound \<or> (\<exists>x. reply = Got x \<and> req_UID x \<noteq> u)))"

definition spent :: "'n history \<Rightarrow> string \<Rightarrow> bool" where
  "spent h u \<longleftrightarrow>
     (\<exists>cur out. EApply cur out (Inr ()) \<in> set h \<and> req_UID cur = u)
     \<or> (\<exists>name q. EGet name (Got q) \<in> set h \<and> req_UID q = u \<and> req_Execution q \<noteq> None)
     \<or> gone h u"

definition api_consistent :: "'n history \<Rightarrow> bool" where
  "api_consistent h \<longleftrightarrow>
     (\<forall>p name x q. h = p @ EGet name (Got x) # q \<longrightarrow>
        req_Name x = name \<and> (req_Execution x = None \<longrightarrow> \<not> spent p (req_UID x)))"

definition sends :: "'n history \<Rightarrow> (string \<times> 'n send) list" where
  "sends h = List.map_filter (\<lambda>e. case e of ESend u s \<Rightarrow> Some (u, s) | _ \<Rightarrow> None) h"

lemma sends_simps [simp]:
  "sends [] = []" "sends (h @ h') = sends h @ sends h'" "sends [EGet name reply] = []"
  "sends [EApply cur out res] = []" "sends [EList items c] = []" "sends (map (ESend u) ss) = map (Pair u) ss"
  by (simp_all add: sends_def map_filter_def comp_def)

lemma gone_append: "gone h u \<Longrightarrow> gone (h @ h') u"
proof -
  have "\<exists>a' b'. h @ h' = a' @ EGet name reply # b' \<and> EGet name (Got q) \<in> set a'"
    if "h = a @ EGet name reply # b" "EGet name (Got q) \<in> set a" for a name reply b q
    using that by (intro exI [of _ a] exI [of _ "b @ h'"]) simp
  then show "gone h u \<Longrightarrow> gone (h @ h') u" unfolding gone_def by (elim exE conjE) metis
qed

lemma spent_append: "spent h u \<Longrightarrow> spent (h @ h') u"
  unfolding spent_def set_append using gone_append by blast

lemma api_consistent_prefix: "api_consistent (h @ h') \<Longrightarrow> api_consistent h"
  unfolding api_consistent_def by fastforce

lemma api_consistentD:
  assumes "api_consistent (h @ EGet name (Got x) # h')"
  shows "req_Name x = name" "req_Execution x = None \<Longrightarrow> \<not> spent h (req_UID x)"
  using assms unfolding api_consistent_def by blast+

section \<open>The invariant of the role\<close>

definition paid_as_admitted :: "('sk, 'pk) crypto \<Rightarrow> string \<Rightarrow> 'n history \<Rightarrow> string \<Rightarrow> 'n send \<Rightarrow> bool" where
  "paid_as_admitted C key h u s \<longleftrightarrow>
     (\<exists>name q a amount. EGet name (Got q) \<in> set h \<and> req_UID q = u \<and> req_Execution q = None \<and> req_Admission q = Some a
        \<and> Decision a = ''Admitted'' \<and> adm_Amount a = req_Amount q \<and> ValidAddress (adm_Destination a)
        \<and> parse_uint64 (adm_Amount a) = Inr amount \<and> amount \<noteq> 0
        \<and> faucet_build C key a FeeMicroSTX amount (send_nonce s) = Inr (send_tx s))"

definition unsettled :: "faucetEntry list \<Rightarrow> nat" where
  "unsettled es = length (filter (\<lambda>x. ent_outcome x = None) es)"

text \<open>An outcome answers a transmission if it names its transaction and does not claim that nothing was sent. The request
  has been told when a terminal outcome that answers it was written to it or read from it, or when the
  request was seen to be gone.\<close>

definition answers :: "FaucetExecution \<Rightarrow> 'n send \<Rightarrow> bool" where
  "answers out s \<longleftrightarrow> \<not> NoSend out \<and> fe_TxID out = TxID (send_tx s)"

definition told :: "'n history \<Rightarrow> string \<Rightarrow> 'n send \<Rightarrow> bool" where
  "told h u s \<longleftrightarrow>
     (\<exists>out. TerminalExecution (Some out) \<and> answers out s
        \<and> ((\<exists>cur. EApply cur out (Inr ()) \<in> set h \<and> req_UID cur = u)
           \<or> (\<exists>name q. EGet name (Got q) \<in> set h \<and> req_UID q = u \<and> req_Execution q = Some out)))
     \<or> gone h u"

definition settled_as :: "faucetEntry list \<Rightarrow> string \<Rightarrow> 'n send \<Rightarrow> bool" where
  "settled_as es u s \<longleftrightarrow> (\<exists>x \<in> set es. ent_uid x = u \<and> (\<exists>out. ent_outcome x = Some out \<and> answers out s))"

lemma told_append: "told h u s \<Longrightarrow> told (h @ h') u s"
  unfolding told_def set_append using gone_append by blast

lemma told_spent: "told h u s \<Longrightarrow> spent h u"
  unfolding told_def spent_def by fastforce

definition good :: "('sk, 'pk) crypto \<Rightarrow> 'n FaucetRole \<Rightarrow> 'n history \<Rightarrow> bool" where
  "good C r h \<longleftrightarrow>
     distinct (map ent_uid (entries r))
     \<and> (\<forall>x \<in> set (entries r). EGet (req_Name (ent_request x)) (Got (ent_request x)) \<in> set h)
     \<and> unsettled (entries r) \<le> 1
     \<and> (\<forall>(u, s) \<in> set (sends h). (settled_as (entries r) u s \<or> told h u s) \<and> paid_as_admitted C (fr_key r) h u s)
     \<and> distinct (map fst (sends h))"

lemma goodD:
  assumes "good C r h"
  shows "distinct (map ent_uid (entries r))" "unsettled (entries r) \<le> 1" "distinct (map fst (sends h))"
    "x \<in> set (entries r) \<Longrightarrow> EGet (req_Name (ent_request x)) (Got (ent_request x)) \<in> set h"
    "(u, s) \<in> set (sends h) \<Longrightarrow> settled_as (entries r) u s \<or> told h u s"
    "(u, s) \<in> set (sends h) \<Longrightarrow> paid_as_admitted C (fr_key r) h u s"
  using assms unfolding good_def by (simp_all, (blast | force)+)

lemma paid_append: "paid_as_admitted C key h u s \<Longrightarrow> paid_as_admitted C key (h @ h') u s"
  unfolding paid_as_admitted_def by (metis Un_iff set_append)

text \<open>Entries keep their requests and the transactions of their outcomes, and settle at most.\<close>

definition still :: "FaucetExecution option \<Rightarrow> FaucetExecution option \<Rightarrow> bool" where
  "still out out' \<longleftrightarrow>
     (\<forall>o1. out = Some o1 \<longrightarrow> (\<exists>o2. out' = Some o2 \<and> fe_TxID o2 = fe_TxID o1 \<and> NoSend o2 = NoSend o1))"

lemma still_simps [simp]: "still None out" "still out out"
  "still (Some o1) (Some o2) \<longleftrightarrow> fe_TxID o2 = fe_TxID o1 \<and> NoSend o2 = NoSend o1"
  by (auto simp: still_def)

lemma still_trans: "still a b \<Longrightarrow> still b c \<Longrightarrow> still a c"
  unfolding still_def by fastforce

definition entries_le :: "faucetEntry list \<Rightarrow> faucetEntry list \<Rightarrow> bool" where
  "entries_le es es' \<longleftrightarrow>
     list_all2 (\<lambda>x x'. ent_request x' = ent_request x \<and> still (ent_outcome x) (ent_outcome x')) es es'"

lemma entries_le_refl [simp]: "entries_le es es"
  by (simp add: entries_le_def list_all2_refl)

lemma entries_le_map_uid: "entries_le es es' \<Longrightarrow> map ent_uid es' = map ent_uid es"
  unfolding entries_le_def by (induction rule: list_all2_induct) auto

lemma entries_le_settled:
  assumes "entries_le es es'" "settled_as es u s"
  shows "settled_as es' u s"
proof -
  from assms(2) obtain i out where i: "i < length es" "ent_uid (es ! i) = u" "ent_outcome (es ! i) = Some out" "answers out s"
    unfolding settled_as_def by (metis in_set_conv_nth)
  then have e: "i < length es'" "ent_request (es' ! i) = ent_request (es ! i)" "still (ent_outcome (es ! i)) (ent_outcome (es' ! i))"
    using assms(1) unfolding entries_le_def list_all2_conv_all_nth by auto
  from e(3) i(3) obtain out' where "ent_outcome (es' ! i) = Some out'" "fe_TxID out' = fe_TxID out" "NoSend out' = NoSend out"
    by (auto simp: still_def)
  with e(1,2) i(2,4) show ?thesis unfolding settled_as_def answers_def by (intro bexI [of _ "es' ! i"]) auto
qed

lemma entries_le_unsettled: "entries_le es es' \<Longrightarrow> unsettled es' \<le> unsettled es"
  unfolding entries_le_def by (induction rule: list_all2_induct) (auto simp: unsettled_def still_def)

lemma entries_le_requests: "entries_le es es' \<Longrightarrow> ent_request ` set es' = ent_request ` set es"
  unfolding entries_le_def by (induction rule: list_all2_induct) auto

text \<open>Reads and writes of the API server keep the invariant, and so does settling entries.\<close>

lemma good_le:
  assumes "good C r h" "entries_le (entries r) (entries r')" "fr_key r' = fr_key r" "sends h' = []"
  shows "good C r' (h @ h')"
proof -
  note g = goodD [OF assms(1)]
  have "EGet (req_Name (ent_request x)) (Got (ent_request x)) \<in> set (h @ h')" if "x \<in> set (entries r')" for x
  proof -
    have "ent_request x \<in> ent_request ` set (entries r)" using entries_le_requests [OF assms(2)] that by blast
    then show ?thesis using g(4) by auto
  qed
  moreover have "settled_as (entries r') u s \<or> told (h @ h') u s" if "(u, s) \<in> set (sends h)" for u s
    using g(5) [OF that] entries_le_settled [OF assms(2)] told_append by blast
  ultimately show ?thesis
    using assms(3,4) g(1-3) entries_le_map_uid [OF assms(2)] entries_le_unsettled [OF assms(2)] paid_append [OF g(6)]
    unfolding good_def by auto
qed

lemmas good_le_same = good_le [where h' = "[]", simplified]

lemma unsettled_filter: "unsettled (filter P es) \<le> unsettled es"
  by (induction es) (auto simp: unsettled_def)

text \<open>Entries whose request has been told, or which never had an outcome, may be dropped.\<close>

lemma good_forget:
  assumes "good C r h" "\<And>s. (u, s) \<in> set (sends h) \<Longrightarrow> settled_as (entries r) u s \<Longrightarrow> told h u s"
  shows "good C (forgetEntry u r) h"
proof -
  note g = goodD [OF assms(1)]
  have "settled_as (entries (forgetEntry u r)) w s \<or> told h w s" if "(w, s) \<in> set (sends h)" for w s
    using g(5) [OF that] assms(2) [of s] that by (cases "w = u") (auto simp: settled_as_def forgetEntry_def)
  moreover have "unsettled (entries (forgetEntry u r)) \<le> 1"
    using g(2) unsettled_filter [of _ "entries r"] le_trans by (fastforce simp: forgetEntry_def)
  ultimately show ?thesis
    using g unfolding good_def by (auto simp: forgetEntry_def distinct_map_filter)
qed


lemma key_simps [simp]:
  "fr_key (forgetEntry u r) = fr_key r" "fr_key (forgetNotice u r) = fr_key r" "fr_key (increment c r) = fr_key r"
  "fr_key (noSend now entry phase reason r) = fr_key r" "fr_key (putEntry entry r) = fr_key r"
  by (simp_all add: forgetEntry_def forgetNotice_def increment_def noSend_def putEntry_def Let_def)

text \<open>Replacing the outcome of an entry.\<close>

lemma entry_unique: "distinct (map ent_uid es) \<Longrightarrow> x \<in> set es \<Longrightarrow> y \<in> set es \<Longrightarrow> ent_uid x = ent_uid y \<Longrightarrow> x = y"
  by (metis distinct_map inj_onD)

lemma unsettled_not_settled:
  "distinct (map ent_uid es) \<Longrightarrow> entry \<in> set es \<Longrightarrow> ent_outcome entry = None \<Longrightarrow> \<not> settled_as es (ent_uid entry) s"
  unfolding settled_as_def by (metis entry_unique option.distinct(1))

lemma set_entry_le:
  assumes "distinct (map ent_uid es)" "entry \<in> set es" "ent_request entry' = ent_request entry"
    and "still (ent_outcome entry) (ent_outcome entry')"
  shows "entries_le es (set_entry entry' es)"
proof -
  have "ent_request (if ent_uid x = ent_uid entry' then entry' else x) = ent_request x
      \<and> still (ent_outcome x) (ent_outcome (if ent_uid x = ent_uid entry' then entry' else x))" if "x \<in> set es" for x
    using entry_unique [OF assms(1) that assms(2)] assms(3,4) by auto
  then show ?thesis by (auto simp: entries_le_def set_entry_def list_all2_conv_all_nth)
qed

lemma set_entry_settles:
  "entry \<in> set es \<Longrightarrow> ent_request entry' = ent_request entry \<Longrightarrow> ent_outcome entry' = Some out \<Longrightarrow> answers out s \<Longrightarrow>
     settled_as (set_entry entry' es) (ent_uid entry) s"
  unfolding settled_as_def set_entry_def by (intro bexI [of _ entry']) (auto intro!: image_eqI [of _ _ entry])

lemma set_entry_unsettled: "ent_outcome entry' \<noteq> None \<Longrightarrow> unsettled (set_entry entry' es) \<le> unsettled es"
  unfolding unsettled_def set_entry_def by (induction es) auto

lemma noSend_le:
  "distinct (map ent_uid (entries r)) \<Longrightarrow> entry \<in> set (entries r) \<Longrightarrow>
     entries_le (entries r) (entries (noSend now entry phase reason r))"
  by (simp add: noSend_def set_entry_le)

lemma entries_le_trans: "entries_le a b \<Longrightarrow> entries_le b c \<Longrightarrow> entries_le a c"
  unfolding entries_le_def list_all2_conv_all_nth using still_trans by (metis (no_types, lifting))

lemma entry_of_Some: "entry_of u es = Some x \<Longrightarrow> x \<in> set es \<and> ent_uid x = u"
  unfolding entry_of_def by (auto simp: find_Some_iff)

lemma entry_of_None: "entry_of u es = None \<longleftrightarrow> u \<notin> ent_uid ` set es"
  unfolding entry_of_def by (auto simp: find_None_iff)

text \<open>Operations extend the history and keep the invariant as long as the history stays consistent.\<close>

definition keeps :: "('sk, 'pk) crypto \<Rightarrow> 'n FaucetRole \<times> 'n history \<Rightarrow> 'n FaucetRole \<times> 'n history \<Rightarrow> bool" where
  "keeps C w w' \<longleftrightarrow>
     (\<exists>x. snd w' = snd w @ x) \<and> (api_consistent (snd w') \<longrightarrow> good C (fst w) (snd w) \<longrightarrow> good C (fst w') (snd w'))"

lemma keepsI: "(api_consistent (h @ x) \<Longrightarrow> good C r h \<Longrightarrow> good C r' (h @ x)) \<Longrightarrow> keeps C (r, h) (r', h @ x)"
  unfolding keeps_def by auto

lemma keepsI_same: "(api_consistent h \<Longrightarrow> good C r h \<Longrightarrow> good C r' h) \<Longrightarrow> keeps C (r, h) (r', h)"
  unfolding keeps_def by auto

lemma keepsD: "keeps C (r, h) (r', h') \<Longrightarrow> good C r h \<Longrightarrow> api_consistent h' \<Longrightarrow> good C r' h'"
  unfolding keeps_def by simp

lemma keeps_refl [simp]: "keeps C w w"
  unfolding keeps_def by simp

lemma keeps_consistent: "keeps C (r, h) (r', h') \<Longrightarrow> api_consistent h' \<Longrightarrow> api_consistent h"
  unfolding keeps_def using api_consistent_prefix by fastforce

lemma keeps_trans [trans]: "keeps C a b \<Longrightarrow> keeps C b c \<Longrightarrow> keeps C a c"
  unfolding keeps_def using api_consistent_prefix by (metis append_assoc)

lemma keeps_same_entries:
  "entries r' = entries r \<Longrightarrow> fr_key r' = fr_key r \<Longrightarrow> sends x = [] \<Longrightarrow> keeps C (r, h) (r', h @ x)"
  by (rule keepsI) (auto intro: good_le)

lemma keeps_settle: "entries_le (entries r) (entries r') \<Longrightarrow> fr_key r' = fr_key r \<Longrightarrow> keeps C (r, h) (r', h)"
  by (rule keepsI_same) (auto intro: good_le_same)

lemma sends_Cons [simp]:
  "sends (EGet name reply # h) = sends h" "sends (EApply cur out res # h) = sends h" "sends (EList items c # h) = sends h"
  "sends (ESend u s # h) = (u, s) # sends h"
  by (simp_all add: sends_def map_filter_def)

lemma keeps_noSend:
  assumes "entry \<in> set (entries r)"
  shows "keeps C (r, h) (noSend now entry phase reason r, h)"
proof (rule keepsI_same)
  assume g: "good C r h"
  show "good C (noSend now entry phase reason r) h"
    by (rule good_le_same [OF g noSend_le [OF goodD(1) [OF g] assms]]) simp
qed

lemma keeps_ObservePending: "keeps C (r, h) (ObservePending N e r, h)"
proof (cases "entry_of (pendingUID r) (entries r)")
  case None
  then show ?thesis by (auto simp: ObservePending_def intro!: keeps_settle)
next
  case (Some entry)
  show ?thesis
  proof (rule keepsI_same)
    assume g: "good C r h"
    have "entries_le (entries r) (set_entry (entry\<lparr>ent_outcome := Some out'\<rparr>) (entries r))"
      if "ent_outcome entry = Some out" "fe_TxID out' = fe_TxID out" "NoSend out' = NoSend out" for out out'
      using entry_of_Some [OF Some] that by (intro set_entry_le [OF goodD(1) [OF g], of entry]) simp_all
    then have "entries_le (entries r) (entries (ObservePending N e r))"
      using Some by (simp add: ObservePending_def Let_def split_beta split: option.split)
    moreover have "fr_key (ObservePending N e r) = fr_key r"
      using Some by (simp add: ObservePending_def Let_def split_beta split: option.split)
    ultimately show "good C (ObservePending N e r) h" using good_le_same [OF g] by blast
  qed
qed


subsection \<open>Publishing\<close>

lemma gone_missing:
  assumes "EGet name (Got q) \<in> set h" "reply = NotFound \<or> (\<exists>x. reply = Got x \<and> req_UID x \<noteq> req_UID q)"
  shows "gone (h @ [EGet name reply]) (req_UID q)"
  using assms unfolding gone_def by (intro exI [of _ h] exI [of _ name] exI [of _ reply] exI [of _ "[]"] exI [of _ q]) simp

text \<open>An entry with an outcome is only forgotten when its request has been told.\<close>

lemma good_settle:
  assumes "good C r h" "sends x = []" "entry \<in> set (entries r)" "ent_outcome entry = Some out"
    and "\<And>s :: 'n send. b \<Longrightarrow> answers out s \<Longrightarrow> told (h @ x) (ent_uid entry) s"
  shows "good C (if b then forgetEntry (ent_uid entry) r else r :: 'n FaucetRole) (h @ x)"
proof -
  have g: "good C r (h @ x)" by (rule good_le [OF assms(1) entries_le_refl refl assms(2)])
  have "told (h @ x) (ent_uid entry) s" if "settled_as (entries r) (ent_uid entry) s" b for s :: "'n send"
    using that assms(3-5) entry_unique [OF goodD(1) [OF g]] unfolding settled_as_def by (metis option.inject)
  then show ?thesis using g good_forget [OF g] by simp
qed

lemma keeps_flush_entry:
  assumes f: "flush_entry e v entry out r h = (r', h', res)" and mem: "entry \<in> set (entries r)" "ent_outcome entry = Some out"
  shows "keeps C (r, h) (r', h')"
proof -
  let ?q = "ent_request entry"
  define reply where "reply = api_get e h (req_Name ?q)"
  let ?get = "EGet (req_Name ?q) reply"
  show ?thesis
  proof (cases "reply = NotFound \<or> (\<exists>x. reply = Got x \<and> req_UID x \<noteq> req_UID ?q)")
    case True
    define s where "s = (fr_summary r)\<lparr>LastDeletedOutcome := Some (\<lparr>fb_Kind = ''StacksFaucetRequest'', fb_Name = req_Name ?q,
        fb_UID = req_UID ?q, fb_Fingerprint = []\<rparr>, out)\<rparr>"
    have gone: "(case reply of NotFound \<Rightarrow> True | Got current \<Rightarrow> req_UID current \<noteq> req_UID ?q | GetFailed _ \<Rightarrow> False)"
      using True by auto
    have r': "r' = (let r1 = r\<lparr>entries := set_entry (entry\<lparr>ent_orphaned := True\<rparr>) (entries r), fr_summary := s\<rparr>
          in if res = Inr () \<and> TerminalExecution (Some out) then forgetEntry (ent_uid entry) r1 else r1)"
      and h': "h' = h @ [?get]"
      using f gone unfolding flush_entry_def Let_def reply_def [symmetric] s_def by (auto split: if_split_asm)
    show ?thesis unfolding h'
    proof (rule keepsI)
      assume g: "good C r h"
      let ?r1 = "r\<lparr>entries := set_entry (entry\<lparr>ent_orphaned := True\<rparr>) (entries r), fr_summary := s\<rparr>"
      have le: "entries_le (entries r) (set_entry (entry\<lparr>ent_orphaned := True\<rparr>) (entries r))"
        by (rule set_entry_le [OF goodD(1) [OF g] mem(1)]) simp_all
      have g1: "good C ?r1 h" by (rule good_le_same [OF g]) (simp_all add: le)
      have m1: "entry\<lparr>ent_orphaned := True\<rparr> \<in> set (entries ?r1)"
        using mem(1) by (auto simp: set_entry_def intro!: image_eqI [of _ _ entry])
      have t: "told (h @ [?get]) (ent_uid (entry\<lparr>ent_orphaned := True\<rparr>)) s" for s
        using gone_missing [OF goodD(4) [OF g mem(1)] True] by (simp add: told_def)
      show "good C r' (h @ [?get])"
        unfolding r' Let_def using good_settle [OF g1 _ m1 _ t, of out "res = Inr () \<and> TerminalExecution (Some out)"] mem(2)
        by (auto split: if_splits)
    qed
  next
    case False
    show ?thesis
    proof (cases reply)
      case (Got current)
      with False have u: "req_UID current = req_UID ?q" by simp
      define res1 where "res1 = rbind (ApplyStatus current None [] False (Some out) ExecutionManager)
          (\<lambda>_. api_apply e (h @ [?get]) current out)"
      have eq: "flush_entry e v entry out r h =
          (if req_Admission current \<noteq> req_Admission ?q
           then (r, h @ [?get], Inl ''request admission changed before outcome acknowledgement'')
           else if req_Execution current = Some out
           then (if TerminalExecution (Some out) then forgetEntry (ent_uid entry) r else r, h @ [?get], Inr ())
           else case res1 of
               Inl err \<Rightarrow> (r, h @ [?get, EApply current out (Inl err)], Inl err)
             | Inr _ \<Rightarrow> (if TerminalExecution (Some out) then forgetEntry (ent_uid entry) r else r,
                         h @ [?get, EApply current out (Inr ())], Inr ()))"
        using Got u unfolding flush_entry_def Let_def reply_def [symmetric] res1_def by (simp cong: sum.case_cong)
      have seen: "req_Execution current = Some out \<Longrightarrow> TerminalExecution (Some out) \<Longrightarrow> answers out s \<Longrightarrow> told (h @ [?get]) (req_UID current) s" for s
        using Got by (auto simp: told_def)
      have applied: "TerminalExecution (Some out) \<Longrightarrow> answers out s \<Longrightarrow>
          told (h @ [?get, EApply current out (Inr ())]) (req_UID current) s" for s
        by (auto simp: told_def)
      have keep: "keeps C (r, h) (r, h @ x)" if "sends x = []" for x
        using that by (simp add: keeps_same_entries)
      have drop: "keeps C (r, h) (if TerminalExecution (Some out) then forgetEntry (ent_uid entry) r else r, h @ x)"
        if "sends x = []" "\<And>s. TerminalExecution (Some out) \<Longrightarrow> answers out s \<Longrightarrow> told (h @ x) (req_UID current) s" for x
        using that u mem by (intro keepsI good_settle) simp_all
      consider "req_Admission current \<noteq> req_Admission ?q"
        | "req_Admission current = req_Admission ?q" "req_Execution current = Some out"
        | err where "req_Admission current = req_Admission ?q" "req_Execution current \<noteq> Some out" "res1 = Inl err"
        | "req_Admission current = req_Admission ?q" "req_Execution current \<noteq> Some out" "res1 = Inr ()"
        by (cases res1) auto
      then show ?thesis
        using f [unfolded eq] keep drop [OF _ seen] drop [OF _ applied] by cases auto
    qed (use f False in \<open>auto simp: flush_entry_def Let_def reply_def [symmetric] intro!: keeps_same_entries\<close>)
  qed
qed

lemma keeps_flush_all: "flush_all e v uids r h = (r', h', res) \<Longrightarrow> keeps C (r, h) (r', h')"
proof (induction uids arbitrary: r h)
  case (Cons uid uids)
  show ?case
  proof (cases "\<exists>entry out. entry_of uid (entries r) = Some entry \<and> ent_outcome entry = Some out")
    case True
    then obtain entry out where x: "entry_of uid (entries r) = Some entry" "ent_outcome entry = Some out" by blast
    obtain r1 h1 res1 where f: "flush_entry e v entry out r h = (r1, h1, res1)" by (metis prod_cases3)
    note k = keeps_flush_entry [OF f _ x(2), of C]
    show ?thesis
      using Cons.prems x f k keeps_trans [OF k Cons.IH] entry_of_Some [OF x(1)] by (cases res1) simp_all
  next
    case False
    then show ?thesis using Cons by (auto split: option.splits)
  qed
qed simp

lemma keeps_flush: "flush e v r h = (r', h', res) \<Longrightarrow> keeps C (r, h) (r', h')"
  unfolding flush_def by (rule keeps_flush_all)

lemma flush_entry_unsettled:
  assumes "flush_entry e v entry out r h = (r', h', res)" "ent_outcome entry = Some out"
  shows "unsettled (entries r') \<le> unsettled (entries r)"
proof -
  define reply where "reply = api_get e h (req_Name (ent_request entry))"
  have s: "unsettled (set_entry (entry\<lparr>ent_orphaned := True\<rparr>) (entries r)) \<le> unsettled (entries r)"
    by (rule set_entry_unsettled) (simp add: assms(2))
  have f: "unsettled (filter P (set_entry (entry\<lparr>ent_orphaned := True\<rparr>) (entries r))) \<le> unsettled (entries r)" for P
    using unsettled_filter s by (rule le_trans)
  show ?thesis
    using assms(1) s f unfolding flush_entry_def Let_def reply_def [symmetric]
    by (cases reply) (auto simp: forgetEntry_def unsettled_filter split: if_split_asm sum.split_asm)
qed

lemma flush_all_unsettled: "flush_all e v uids r h = (r', h', res) \<Longrightarrow> unsettled (entries r') \<le> unsettled (entries r)"
proof (induction uids arbitrary: r h)
  case (Cons uid uids)
  then show ?case
    by (auto split: option.splits prod.splits sum.splits dest: flush_entry_unsettled le_trans intro: le_trans)
qed simp


lemma flush_unsettled: "flush e v r h = (r', h', res) \<Longrightarrow> unsettled (entries r') \<le> unsettled (entries r)"
  unfolding flush_def by (rule flush_all_unsettled)

subsection \<open>The queue\<close>

lemma CollectionChanged_keeps [simp]:
  "entries (CollectionChanged q d r) = entries r" "fr_key (CollectionChanged q d r) = fr_key r"
  by (auto simp: CollectionChanged_def split: option.split)

lemma fold_CollectionChanged_keeps [simp]:
  "entries (fold (\<lambda>item. CollectionChanged item d) items r) = entries r
   \<and> fr_key (fold (\<lambda>item. CollectionChanged item d) items r) = fr_key r"
  by (induction items arbitrary: r) simp_all

lemma keeps_rescanNotices: "rescanNotices e r h = (r', h', res) \<Longrightarrow> keeps C (r, h) (r', h')"
  by (auto simp: rescanNotices_def Let_def split: if_split_asm prod.split_asm intro!: keeps_same_entries)

lemma takeNotice_keeps:
  assumes "takeNotice busy now r = (r1, choice)"
  shows "entries r1 = entries r" "fr_key r1 = fr_key r" "fr_stream r1 = fr_stream r"
  using takeNotice_simps(2) [OF assms]
  by (metis FaucetRole.select_convs FaucetRole.update_convs(12) FaucetRole.surjective)+

text \<open>A request enters the entries from a notice, after a read that shows it without evidence.\<close>

lemma takeNotice_fresh:
  assumes "takeNotice busy now r = (r1, Some notice)"
  shows "entries r1 = entries r" "fr_key r1 = fr_key r" "nt_uid notice \<notin> ent_uid ` set (entries r)"
proof -
  note t = takeNotice_simps [OF assms]
  show "entries r1 = entries r" "fr_key r1 = fr_key r" using takeNotice_keeps [OF assms] by simp_all
  show "nt_uid notice \<notin> ent_uid ` set (entries r)" using t(3) [OF refl] unfolding t(1) by (simp add: entry_of_None)
qed

lemma forgetEntry_absent: "u \<notin> ent_uid ` set (entries r) \<Longrightarrow> entries (forgetEntry u r) = entries r"
  by (auto simp: forgetEntry_def filter_id_conv)

lemma putEntry_entries: "ent_uid entry \<notin> ent_uid ` set (entries r) \<Longrightarrow> entries (putEntry entry r) = entries r @ [entry]"
  using forgetEntry_absent [of "ent_uid entry" "forgetNotice (ent_uid entry) r"] by (simp add: putEntry_def Let_def)

lemma good_put:
  assumes "good C r h" "entries r' = entries r @ [entry]" "fr_key r' = fr_key r" "unsettled (entries r) = 0"
    and "ent_uid entry \<notin> ent_uid ` set (entries r)" "req_Name (ent_request entry) = name"
  shows "good C r' (h @ [EGet name (Got (ent_request entry))])"
proof -
  note g = goodD [OF assms(1)]
  have "settled_as (entries r') u s \<or> told (h @ [EGet name (Got (ent_request entry))]) u s" if "(u, s) \<in> set (sends h)" for u s
    using g(5) [OF that] told_append unfolding assms(2) settled_as_def by fastforce
  moreover have "unsettled (entries r') \<le> 1" using assms(4) unfolding assms(2) by (simp add: unsettled_def)
  ultimately show ?thesis
    using g(1,3,4) assms(2,3,5,6) paid_append [OF g(6)] unfolding good_def by auto
qed

lemma unsettled_0: "unsettled es = 0 \<longleftrightarrow> find (\<lambda>x. ent_outcome x = None) es = None"
  by (auto simp: unsettled_def find_None_iff filter_empty_conv)

lemma next_entry_result:
  assumes "next_entry e v r h = (r', h', res)"
  shows "keeps C (r, h) (r', h')" "\<And>entry. res = Inr entry \<Longrightarrow> entry \<in> set (entries r') \<and> ent_outcome entry = None"
proof -
  have "keeps C (r, h) (r', h') \<and> (\<forall>entry. res = Inr entry \<longrightarrow> entry \<in> set (entries r') \<and> ent_outcome entry = None)"
  proof (cases "find (\<lambda>x. ent_outcome x = None) (entries r)")
    case (Some x)
    with assms show ?thesis by (auto simp: next_entry_def find_Some_iff)
  next
    case None
    obtain r1 choice where t: "takeNotice (Pending (fr_stream r) \<noteq> 0) (fenv_now e ''notice'') r = (r1, choice)" by fastforce
    show ?thesis
    proof (cases choice)
      case None
      with t \<open>find _ _ = None\<close> assms show ?thesis
        using takeNotice_keeps [OF t] by (auto simp: next_entry_def intro!: keeps_settle)
    next
      case (Some notice)
      note fresh = takeNotice_fresh [OF t [unfolded Some]]
      define reply where "reply = api_get e h (nt_key notice)"
      show ?thesis
      proof (cases "\<exists>q. reply = Got q \<and> req_UID q = nt_uid notice \<and> res = Inr \<lparr>ent_request = q, ent_outcome = None, ent_orphaned = False\<rparr>
            \<and> r' = putEntry \<lparr>ent_request = q, ent_outcome = None, ent_orphaned = False\<rparr> r1 \<and> h' = h @ [EGet (nt_key notice) (Got q)]")
        case True
        then obtain q where q: "reply = Got q" "req_UID q = nt_uid notice"
          "res = Inr \<lparr>ent_request = q, ent_outcome = None, ent_orphaned = False\<rparr>"
          "r' = putEntry \<lparr>ent_request = q, ent_outcome = None, ent_orphaned = False\<rparr> r1"
          "h' = h @ [EGet (nt_key notice) (Got q)]" by blast
        let ?entry = "\<lparr>ent_request = q, ent_outcome = None, ent_orphaned = False\<rparr>"
        have es: "entries r' = entries r @ [?entry]" "fr_key r' = fr_key r"
          using putEntry_entries [of ?entry r1] fresh q(2,4) by simp_all
        have "keeps C (r, h) (r', h')"
          unfolding q(5)
        proof (rule keepsI)
          assume c: "api_consistent (h @ [EGet (nt_key notice) (Got q)])" and g: "good C r h"
          show "good C r' (h @ [EGet (nt_key notice) (Got q)])"
            using good_put [OF g es] api_consistentD(1) [OF c] fresh(3) q(2) \<open>find _ _ = None\<close> by (simp add: unsettled_0)
        qed
        then show ?thesis using es(1) q(3) by simp
      next
        case False
        have "\<exists>reason. res = Inl reason" "entries r' = entries r" "fr_key r' = fr_key r" "h' = h @ [EGet (nt_key notice) reply]"
          using assms t Some \<open>find _ _ = None\<close> False fresh(1,2)
          unfolding next_entry_def Let_def by (auto simp: reply_def split: if_split_asm get.split_asm)
        then show ?thesis by (auto intro!: keeps_same_entries)
      qed
    qed
  qed
  then show "keeps C (r, h) (r', h')" "\<And>entry. res = Inr entry \<Longrightarrow> entry \<in> set (entries r') \<and> ent_outcome entry = None"
    by blast+
qed


subsection \<open>Offers\<close>

lemma settle_offer_result:
  assumes "entry \<in> set (entries r)" "ent_outcome entry = None" "distinct (map ent_uid (entries r))"
  shows "settle_offer e entry auth reason r = forgetEntry (ent_uid entry) r
    \<or> entries_le (entries r) (entries (settle_offer e entry auth reason r))
      \<and> fr_key (settle_offer e entry auth reason r) = fr_key r"
proof -
  have "entries_le (entries r) (set_entry (entry\<lparr>ent_outcome := Some out\<rparr>) (entries r))" for out
    by (rule set_entry_le [OF assms(3,1)]) (simp_all add: assms(2))
  then show ?thesis
    using noSend_le [OF assms(3,1)] by (simp add: settle_offer_def Let_def split: option.split)
qed

lemma good_settle_offer:
  assumes g: "good C r h" and e: "entry \<in> set (entries r)" "ent_outcome entry = None"
  shows "good C (settle_offer env entry auth reason r) h"
proof -
  note d = goodD(1) [OF g]
  note unsettled_not_settled [OF d e]
  then show ?thesis
    using settle_offer_result [OF e d, of env auth reason] good_forget [OF g] good_le_same [OF g] by metis
qed

lemma good_send:
  assumes g: "good C r h" and "settled_as (entries r) u s" "u \<notin> fst ` set (sends h)" "paid_as_admitted C (fr_key r) h u s"
  shows "good C r (h @ [ESend u s])"
proof -
  note g' = goodD [OF g]
  have "settled_as (entries r) w z \<or> told (h @ [ESend u s]) w z" if "(w, z) \<in> set (sends (h @ [ESend u s]))" for w z
  proof -
    from that have "(w, z) \<in> set (sends h) \<or> w = u \<and> z = s" by auto
    then show ?thesis using assms(2) g'(5) told_append by blast
  qed
  moreover have "paid_as_admitted C (fr_key r) (h @ [ESend u s]) w z" if "(w, z) \<in> set (sends (h @ [ESend u s]))" for w z
  proof -
    from that have "(w, z) \<in> set (sends h) \<or> w = u \<and> z = s" by auto
    then show ?thesis using assms(4) g'(6) paid_append by blast
  qed
  ultimately show ?thesis using g' assms(3) unfolding good_def by auto
qed

text \<open>What a successful authorization has read.\<close>

lemma authorized_read:
  assumes "faucet_authorize e v r h entry = (None, reads)" "req_Admission (ent_request entry) = Some a"
  obtains current where "reads = [EGet (req_Name (ent_request entry)) (Got current)]" "req_UID current = ent_uid entry"
    "req_Execution current = None" "req_Admission current = Some a" "Decision a = ''Admitted''"
    "adm_Amount a = req_Amount current" "ValidAddress (adm_Destination a)"
proof -
  from assms(1) obtain current where c: "reads = [EGet (req_Name (ent_request entry)) (Got current)]"
    "req_UID current = ent_uid entry" "request_matches r v current" "req_Admission current = req_Admission (ent_request entry)"
    "req_Execution current = None"
    by (auto simp: faucet_authorize_def Let_def split: if_split_asm option.split_asm sum.split_asm get.split_asm)
  with assms(2) show ?thesis by (auto simp: request_matches_def split: option.splits intro: that)
qed

lemma authorized_admission:
  "faucet_authorize e v r h entry = (None, reads) \<Longrightarrow> \<exists>a. req_Admission (ent_request entry) = Some a"
  by (auto simp: faucet_authorize_def Let_def request_matches_def split: if_split_asm option.split_asm sum.split_asm get.split_asm)

text \<open>Once something was sent, the entry has an outcome.\<close>

lemma submit_once_reason:
  assumes "submit_once N later node tx s = (s', out, sent)" "pending s' = None"
  shows "refusal_reason (fst out)"
  using assms
  by (auto simp: submit_once_def Let_def refused_def Definite_def refusal_reason_def has_prefix_def trim_prefix_def
      split: submit_result.splits if_splits option.splits)

lemma settle_offer_settles:
  assumes "entry \<in> set (entries r)"
    and "case pending (fr_stream r) of Some p \<Rightarrow> pending_transaction p = send_tx s
      | None \<Rightarrow> refusal_reason reason \<and> LastTxID (facts (fr_stream r)) = TxID (send_tx s)"
  shows "settled_as (entries (settle_offer e entry auth reason r)) (ent_uid entry) s"
proof -
  have "settled_as (set_entry (entry\<lparr>ent_outcome := Some out\<rparr>) (entries r)) (ent_uid entry) s" if "answers out s" for out
    by (rule set_entry_settles [OF assms(1) _ _ that]) simp_all
  moreover have "answers ((execution r t entry phase why False)\<lparr>fe_TxID := TxID (send_tx s)\<rparr>) s" for t phase why
    by (simp add: answers_def execution_def Let_def)
  ultimately have put: "settled_as (set_entry (entry\<lparr>ent_outcome := Some ((execution r t entry phase why False)\<lparr>fe_TxID := TxID (send_tx s)\<rparr>)\<rparr>) (entries r))
      (ent_uid entry) s" for t phase why by blast
  have same: "execution (r\<lparr>pendingUID := u\<rparr>) = execution r" for u by (auto simp: execution_def fun_eq_iff)
  show ?thesis
    using assms(2) put by (cases "pending (fr_stream r)") (simp_all add: settle_offer_def Let_def same)
qed


lemma keeps_offer_entry:
  assumes o: "offer_entry C N e v entry (the (req_Admission (ent_request entry))) node amount FeeMicroSTX r h = (r', h', reason)"
    and mem: "entry \<in> set (entries r)" "ent_outcome entry = None"
    and amount: "parse_uint64 (adm_Amount (the (req_Admission (ent_request entry)))) = Inr amount" "amount \<noteq> 0"
  shows "keeps C (r, h) (r', h')"
proof -
  let ?a = "the (req_Admission (ent_request entry))"
  obtain auth reads where au: "faucet_authorize e v r h entry = (auth, reads)" by fastforce
  let ?args = "\<lparr>arg_clock = Some (fenv_clock e), arg_node = Some node, arg_amount = Some (uint amount + uint FeeMicroSTX),
       arg_authorize = Some (if auth = None then Inr () else Inl ''authorization''),
       arg_build = Some (faucet_build C (fr_key r) ?a FeeMicroSTX amount)\<rparr>"
  obtain s' why err sent where f: "Offer (Node.truncate N) ?args (fr_stream r) = (s', (why, err), sent)"
    by (rule prod_cases3 [of "Offer (Node.truncate N) ?args (fr_stream r)"]) (metis surj_pair)
  have r': "r' = settle_offer e entry auth why (r\<lparr>fr_stream := s'\<rparr>)"
    and h': "h' = h @ (if why = ''AuthorizationUnavailable'' \<or> sent \<noteq> [] then reads else []) @ map (ESend (ent_uid entry)) sent"
    using o au f by (auto simp: offer_entry_def Let_def)
  have reads: "sends reads = []"
    using au by (auto simp: faucet_authorize_def Let_def split: if_split_asm option.split_asm sum.split_asm)
  let ?r = "r\<lparr>fr_stream := s'\<rparr>"
  have settled: "good C r' (h @ x)" if "good C r h" "sends x = []" for x
    unfolding r' using good_settle_offer [OF good_le [OF that(1) _ _ that(2)], of ?r entry e auth why] mem by simp
  have idle: "keeps C (r, h) (r', h')" if "sent = []"
  proof -
    define x where "x = (if why = ''AuthorizationUnavailable'' then reads else [])"
    have "h' = h @ x" "sends x = []" using h' reads that by (simp_all add: x_def)
    with settled show ?thesis by (auto intro!: keepsI)
  qed
  from f show ?thesis
  proof (cases rule: Offer_result)
    case kept
    then show ?thesis by (simp add: idle)
  next
    case (adopted n)
    then show ?thesis by (simp add: idle)
  next
    case (sent later target n tx)
    then have auth: "auth = None" and b: "faucet_build C (fr_key r) ?a FeeMicroSTX amount n = Inr tx"
      by (auto simp: may_send_def split: if_split_asm)
    note eff = submit_once_effect [OF sent(3)]
    let ?s = "\<lparr>send_node = target, send_tx = tx, send_nonce = n, send_answer = node_Submit (Node.truncate N) target tx\<rparr>"
    have s1: "sent = [?s]" using eff(1) sent(2) by simp
    obtain a where a: "req_Admission (ent_request entry) = Some a" using authorized_admission au auth by blast
    obtain current where c: "reads = [EGet (req_Name (ent_request entry)) (Got current)]" "req_UID current = ent_uid entry"
      "req_Execution current = None" "req_Admission current = Some a" "Decision a = ''Admitted''"
      "adm_Amount a = req_Amount current" "ValidAddress (adm_Destination a)"
      using authorized_read [OF au [unfolded auth] a] by blast
    have h1: "h' = (h @ reads) @ [ESend (ent_uid entry) ?s]" unfolding h' s1 by simp
    show ?thesis unfolding h1 append_assoc
    proof (rule keepsI, unfold append_assoc [symmetric])
      assume con: "api_consistent ((h @ reads) @ [ESend (ent_uid entry) ?s])" and g: "good C r h"
      have "\<not> spent h (ent_uid entry)"
        using api_consistentD(2) [OF con [unfolded c(1) append_assoc append_Cons]] c(2,3) by simp
      then have "\<not> told h (ent_uid entry) z" for z using told_spent by blast
      moreover note unsettled_not_settled [OF goodD(1) [OF g] mem]
      ultimately have fresh: "ent_uid entry \<notin> fst ` set (sends (h @ reads))"
        using goodD(5) [OF g] reads by fastforce
      have paid: "paid_as_admitted C (fr_key r') (h @ reads) (ent_uid entry) ?s"
        unfolding paid_as_admitted_def
        using c a b amount r' settle_offer_result [of entry ?r e auth why] goodD(1) [OF g] mem by fastforce
      have pend: "case pending s' of Some p \<Rightarrow> pending_transaction p = tx | None \<Rightarrow> refusal_reason why \<and> LastTxID (facts s') = TxID tx"
        using submit_once_reason [OF sent(3)] eff(7,10) by (auto split: option.splits)
      have "settled_as (entries r') (ent_uid entry) ?s"
        unfolding r' by (rule settle_offer_settles) (use pend mem(1) in \<open>auto split: option.splits\<close>)
      then show "good C r' ((h @ reads) @ [ESend (ent_uid entry) ?s])"
        using good_send [OF settled [OF g reads] _ fresh paid] by blast
    qed
  qed
qed


lemma keeps_serve_entry:
  assumes s: "serve_entry C N e v entry r h = (r', h', reason)" and mem: "entry \<in> set (entries r)" "ent_outcome entry = None"
  shows "keeps C (r, h) (r', h')"
proof -
  have expire: "keeps C (r, h) (r1, h1)"
    if "flush e v (noSend now entry ''Expired'' why r) h = (r1, h1, res)" for now why r1 h1 res
    using keeps_trans [OF keeps_noSend [OF mem(1)] keeps_flush [OF that]] .
  have offer: "keeps C (r, h) (r2, h2)"
    if "parse_uint64 (adm_Amount (the (req_Admission (ent_request entry)))) = Inr amount" "amount \<noteq> 0"
      "offer_entry C N e v entry (the (req_Admission (ent_request entry))) node amount FeeMicroSTX r h = (r1, h1, why)"
      "flush e v r1 h1 = (r2, h2, res)" for amount node r1 h1 why r2 h2 res
    using keeps_trans [OF keeps_offer_entry [OF that(3) mem that(1,2)] keeps_flush [OF that(4)]] .
  show ?thesis
    using s unfolding serve_entry_def Let_def
    by (auto split: if_split_asm sum.split_asm option.split_asm prod.split_asm dest: expire offer)
qed

lemma result_keeps: "result reason r = (r', res) \<Longrightarrow> entries r' = entries r \<and> fr_key r' = fr_key r"
  by (auto simp: result_def Let_def)

lemma keeps_result: "result reason r = (r', res) \<Longrightarrow> keeps C (r, h) (r', h)"
  using result_keeps by (fastforce intro: keeps_settle)

text \<open>\<open>Step\<close> is one of its phases followed by the report.\<close>

lemma keeps_Step:
  assumes "faucet_Step C N e v r h = (r', h', res)"
  shows "keeps C (r, h) (r', h')"
proof -
  note leaf = keeps_trans [OF _ keeps_result]
  note c1 = keeps_trans [OF _ keeps_trans [OF keeps_ObservePending keeps_flush]]
  note c2 = keeps_trans [OF c1 keeps_rescanNotices]
  note c3 = keeps_trans [OF c2 next_entry_result(1)]
  have c4: "keeps C (x, h) (r6, h6)"
    if "flush e v (ObservePending N e x) h = (r3, h3, Inr u)" "rescanNotices e r3 h3 = (r4, h4, Inr w)"
      "next_entry e v r4 h4 = (r5, h5, Inr entry)" "serve_entry C N e v entry r5 h5 = (r6, h6, why)"
    for x r3 h3 r4 h4 r5 h5 r6 h6 entry u w why
    using keeps_trans [OF c3 [OF keeps_refl that(1-3)] keeps_serve_entry [OF that(4)]] next_entry_result(2) [OF that(3) refl] by simp
  have start: "keeps C (r, h) (r\<lparr>fr_applied := d\<rparr>, h)" "keeps C (r, h) (r\<lparr>fr_processNonce := n, fr_applied := d\<rparr>, h)"
    "keeps C (r, h) (r\<lparr>fr_processNonce := n\<rparr>, h)" "keeps C (r, h) (r\<lparr>fr_failed := True\<rparr>, h)"
    for d n by (rule keeps_settle; simp)+
  have failed: "keeps C (r, g) (r\<lparr>fr_failed := True\<rparr>, g)" for g by (rule keeps_settle) simp_all
  note c4' = keeps_trans [OF start(1) c4] keeps_trans [OF start(2) c4]
  note chain = start start(1) [THEN c1] start(2) [THEN c1] start(1) [THEN c2] start(2) [THEN c2]
    start(1) [THEN c3] start(2) [THEN c3] c4'
  show ?thesis
    using assms unfolding faucet_Step_def Let_def
    by (auto split: option.split_asm if_split_asm prod.split_asm sum.split_asm intro: keeps_result failed [THEN leaf] chain [THEN leaf])
qed


subsection \<open>Draining\<close>

lemma fold_noSend_le:
  assumes "distinct (map ent_uid (entries s))" "set xs \<subseteq> set (entries s)" "distinct (map ent_uid xs)"
  shows "entries_le (entries s) (entries (fold (\<lambda>x s. if ent_outcome x = None then noSend now x phase why s else s) xs s))
    \<and> fr_key (fold (\<lambda>x s. if ent_outcome x = None then noSend now x phase why s else s) xs s) = fr_key s"
  using assms
proof (induction xs arbitrary: s)
  case (Cons x xs)
  let ?s = "if ent_outcome x = None then noSend now x phase why s else s"
  have le: "entries_le (entries s) (entries ?s)" using Cons.prems by (simp add: noSend_le)
  have "y \<in> set (entries ?s)" if "y \<in> set xs" for y
  proof -
    have "ent_uid x \<notin> ent_uid ` set xs" using Cons.prems(3) by simp
    then have "ent_uid y \<noteq> ent_uid x" using that by (metis image_eqI)
    moreover have "y \<in> set (entries s)" using Cons.prems(2) that by auto
    ultimately show ?thesis by (force simp: noSend_def set_entry_def)
  qed
  then have "set xs \<subseteq> set (entries ?s)" by blast
  moreover have "distinct (map ent_uid (entries ?s))" using entries_le_map_uid [OF le] Cons.prems(1) by simp
  moreover have "distinct (map ent_uid xs)" using Cons.prems(3) by simp
  ultimately have "entries_le (entries ?s) (entries (fold (\<lambda>x s. if ent_outcome x = None then noSend now x phase why s else s) xs ?s))
    \<and> fr_key (fold (\<lambda>x s. if ent_outcome x = None then noSend now x phase why s else s) xs ?s) = fr_key ?s"
    by (intro Cons.IH)
  with entries_le_trans [OF le] show ?case by simp
qed simp

text \<open>Every entry without an outcome is given one.\<close>

lemma noSend_unsettled:
  assumes "entry \<in> set (entries r)" "ent_outcome entry = None"
  shows "x \<in> set (entries (noSend now entry phase why r)) \<Longrightarrow> ent_outcome x = None \<Longrightarrow>
     x \<in> set (entries r) \<and> ent_uid x \<noteq> ent_uid entry"
  using assms by (auto simp: noSend_def set_entry_def split: if_split_asm)

lemma fold_noSend_settles:
  assumes "\<forall>x \<in> set (entries s). ent_outcome x = None \<longrightarrow> x \<in> set xs"
  shows "unsettled (entries (fold (\<lambda>x s. if ent_outcome x = None then noSend now x phase why s else s) xs s)) = 0"
  using assms
proof (induction xs arbitrary: s)
  case Nil
  then show ?case by (auto simp: unsettled_def filter_empty_conv)
next
  case (Cons x xs)
  let ?s = "if ent_outcome x = None then noSend now x phase why s else s"
  have "y \<in> set xs" if y: "y \<in> set (entries ?s)" "ent_outcome y = None" for y
  proof (cases "ent_outcome x = None")
    case True
    with y have "y \<in> set (entries s) \<and> ent_uid y \<noteq> ent_uid x"
      by (auto simp: noSend_def set_entry_def split: if_split_asm)
    with Cons.prems y show ?thesis by auto
  next
    case False
    with Cons.prems y show ?thesis by auto
  qed
  then show ?case using Cons.IH by simp
qed

lemma keeps_refuse_unsent: "keeps C (r, h) (refuse_unsent now r, h)"
proof (rule keepsI_same)
  assume g: "good C r h"
  from fold_noSend_le [OF goodD(1) [OF g] subset_refl goodD(1) [OF g]] show "good C (refuse_unsent now r) h"
    unfolding refuse_unsent_def using good_le_same [OF g] by blast
qed

lemma refuse_unsent_settles: "unsettled (entries (refuse_unsent now r)) = 0"
  unfolding refuse_unsent_def by (rule fold_noSend_settles) simp

text \<open>One iteration of the loop.\<close>

lemma drain_notices_cases:
  assumes "drain_notices e v r h = (r', h', res)"
  obtains (finished) "takeNotice False 0 r = (r', None)" "h' = h" "res = Inr ()"
  | (stop) r1 notice reply where "takeNotice False 0 r = (r1, Some notice)" "h' = h @ [EGet (nt_key notice) reply]"
      "entries r' = entries r1" "fr_key r' = fr_key r1" "(\<exists>err. res = Inl err) \<or> fr_failed r'"
  | (skip) r1 notice reply where "takeNotice False 0 r = (r1, Some notice)"
      "drain_notices e v (forgetNotice (nt_uid notice) r1) (h @ [EGet (nt_key notice) reply]) = (r', h', res)"
  | (refuse) r1 notice q entry r3 h3 res3 where "takeNotice False 0 r = (r1, Some notice)" "req_UID q = nt_uid notice"
      "entry = \<lparr>ent_request = q, ent_outcome = None, ent_orphaned = False\<rparr>"
      "flush e v (noSend (fenv_now e ''execution'') entry ''Expired'' ''WorkerStoppedBeforeSend'' (putEntry entry r1))
         (h @ [EGet (nt_key notice) (Got q)]) = (r3, h3, res3)"
      "(\<exists>err. res = Inl err) \<and> (r', h') = (r3, h3) \<or> drain_notices e v r3 h3 = (r', h', res)"
proof -
  obtain r1 choice where t: "takeNotice False 0 r = (r1, choice)" by fastforce
  show thesis
  proof (cases choice)
    case None
    with assms t finished show thesis by (simp add: drain_notices.simps [of e v r h])
  next
    case (Some notice)
    define reply where "reply = api_get e h (nt_key notice)"
    note eq = assms [unfolded drain_notices.simps [of e v r h] t Some, simplified, folded reply_def]
    note cs = stop [OF t [unfolded Some], of reply] skip [OF t [unfolded Some], of reply]
    show thesis
    proof (cases reply)
      case (Got q)
      let ?entry = "\<lparr>ent_request = q, ent_outcome = None, ent_orphaned = False\<rparr>"
      obtain r3 h3 res3 where f: "flush e v (noSend (fenv_now e ''execution'') ?entry ''Expired'' ''WorkerStoppedBeforeSend''
          (putEntry ?entry r1)) (h @ [EGet (nt_key notice) (Got q)]) = (r3, h3, res3)" by (metis prod_cases3)
      show thesis
        using eq Got f cs refuse [OF t [unfolded Some], of q ?entry r3 h3 res3]
        by (auto simp: Let_def split: if_split_asm sum.split_asm)
    qed (use eq cs in \<open>auto simp: Let_def\<close>)
  qed
qed

lemma keeps_refused:
  assumes t: "takeNotice False 0 r = (r1, Some notice)" and q: "req_UID q = nt_uid notice"
    and entry: "entry = \<lparr>ent_request = q, ent_outcome = None, ent_orphaned = False\<rparr>"
    and r2: "r2 = noSend now entry ''Expired'' ''WorkerStoppedBeforeSend'' (putEntry entry r1)" and u: "unsettled (entries r) = 0"
  shows "keeps C (r, h) (r2, h @ [EGet (nt_key notice) (Got q)])" "unsettled (entries r2) = 0"
proof -
  note fresh = takeNotice_fresh [OF t]
  have es: "entries (putEntry entry r1) = entries r @ [entry]"
    using putEntry_entries [of entry r1] fresh(1,3) q entry by simp
  have "keeps C (r, h) (putEntry entry r1, h @ [EGet (nt_key notice) (Got q)])"
  proof (rule keepsI)
    assume c: "api_consistent (h @ [EGet (nt_key notice) (Got q)])" and g: "good C r h"
    show "good C (putEntry entry r1) (h @ [EGet (nt_key notice) (Got q)])"
      using good_put [OF g es _ u] api_consistentD(1) [OF c] fresh(2,3) q entry by simp
  qed
  moreover have "keeps C (putEntry entry r1, g) (r2, g)" for g
    unfolding r2 by (rule keeps_noSend) (simp add: es)
  ultimately show "keeps C (r, h) (r2, h @ [EGet (nt_key notice) (Got q)])" using keeps_trans by blast
  have "ent_outcome x \<noteq> None" if x: "x \<in> set (entries r2)" for x
  proof
    assume "ent_outcome x = None"
    then have "x \<in> set (entries r @ [entry])" "ent_uid x \<noteq> ent_uid entry"
      using noSend_unsettled [OF _ _ x [unfolded r2]] es entry by auto
    then show False using u \<open>ent_outcome x = None\<close> by (auto simp: unsettled_def filter_empty_conv)
  qed
  then show "unsettled (entries r2) = 0" by (auto simp: unsettled_def filter_empty_conv)
qed


lemma keeps_drain_notices:
  "drain_notices e v r h = (r', h', res) \<Longrightarrow> unsettled (entries r) = 0 \<Longrightarrow>
     keeps C (r, h) (r', h') \<and> unsettled (entries r') = 0"
proof (induction "length (notices r)" arbitrary: r h rule: less_induct)
  case less
  from less.prems(1) show ?case
  proof (cases rule: drain_notices_cases)
    case finished
    from takeNotice_keeps [OF finished(1)] finished(2) less.prems(2) show ?thesis by (simp add: keeps_settle)
  next
    case (stop r1 notice reply)
    from takeNotice_keeps [OF stop(1)] stop(2-4) less.prems(2) show ?thesis by (simp add: keeps_same_entries)
  next
    case (skip r1 notice reply)
    have "keeps C (r, h) (forgetNotice (nt_uid notice) r1, h @ [EGet (nt_key notice) reply])"
      using takeNotice_keeps [OF skip(1)] by (simp add: keeps_same_entries)
    moreover have "unsettled (entries (forgetNotice (nt_uid notice) r1)) = 0"
      using takeNotice_keeps [OF skip(1)] less.prems(2) by simp
    ultimately show ?thesis using less.hyps [OF forgetNotice_shrinks [OF skip(1)] skip(2)] keeps_trans by blast
  next
    case (refuse r1 notice q entry r3 h3 res3)
    note k = keeps_refused [OF refuse(1-3) refl less.prems(2), where now = "fenv_now e ''execution''"]
    have k3: "keeps C (r, h) (r3, h3)" by (rule keeps_trans [OF k(1) keeps_flush [OF refuse(4)]])
    have u3: "unsettled (entries r3) = 0" using flush_unsettled [OF refuse(4)] k(2) by simp
    have "length (notices r3) < length (notices r)"
      using flush_keeps [OF refuse(4) [symmetric]] forgetNotice_shrinks [OF refuse(1)] refuse(2,3) by simp
    from less.hyps [OF this _ u3] refuse(5) k3 u3 keeps_trans show ?thesis by blast
  qed
qed

lemma faucet_Drain_parts:
  assumes "faucet_Drain N e v r h = (r', h', done, res, err)"
  obtains r0 r3 h3 res3 r4 where "entries r0 = entries r" "fr_key r0 = fr_key r"
    "flush e v (refuse_unsent (fenv_now e ''execution'') (ObservePending N e r0)) h = (r3, h3, res3)"
    "(\<exists>x. res3 = Inl x \<and> err = Inl x \<and> r4 = r3 \<and> h' = h3) \<or> drain_notices e v r3 h3 = (r4, h', err)"
    "result ''Draining'' r4 = (r', res)" "done \<longleftrightarrow> fres_Pending res = 0 \<and> \<not> fr_failed r'"
proof -
  define r0 where "r0 = (case fv_participant v of
       Some p \<Rightarrow> (case part_Execution p of
           Some exec \<Rightarrow> if fr_processNonce r = [] then r\<lparr>fr_processNonce := we_ProcessNonce exec\<rparr> else r
         | None \<Rightarrow> r)
     | None \<Rightarrow> r)"
  have r0: "entries r0 = entries r" "fr_key r0 = fr_key r" by (simp_all add: r0_def split: option.split)
  obtain r3 h3 res3 where f: "flush e v (refuse_unsent (fenv_now e ''execution'') (ObservePending N e r0)) h = (r3, h3, res3)"
    by (metis prod_cases3)
  show thesis
  proof (cases res3)
    case (Inl x)
    show thesis
      by (rule that [OF r0 f, of r3])
        (use assms f Inl in \<open>simp_all add: faucet_Drain_def Let_def r0_def [symmetric] split: prod.split_asm\<close>)
  next
    case (Inr u)
    obtain r4 h4 res4 where d: "drain_notices e v r3 h3 = (r4, h4, res4)" by (metis prod_cases3)
    show thesis
      by (rule that [OF r0 f, of r4])
        (use assms f Inr d in \<open>simp_all add: faucet_Drain_def Let_def r0_def [symmetric] split: prod.split_asm\<close>)
  qed
qed

lemma keeps_Drain:
  assumes "faucet_Drain N e v r h = (r', h', done, res, err)"
  shows "keeps C (r, h) (r', h') \<and> unsettled (entries r') = 0"
proof -
  obtain r0 r3 h3 res3 r4 where d: "entries r0 = entries r" "fr_key r0 = fr_key r"
    "flush e v (refuse_unsent (fenv_now e ''execution'') (ObservePending N e r0)) h = (r3, h3, res3)"
    "(\<exists>x. res3 = Inl x \<and> err = Inl x \<and> r4 = r3 \<and> h' = h3) \<or> drain_notices e v r3 h3 = (r4, h', err)"
    "result ''Draining'' r4 = (r', res)" using faucet_Drain_parts [OF assms] by metis
  have "keeps C (r, h) (r0, h)" using d(1,2) by (simp add: keeps_settle)
  from keeps_trans [OF this keeps_trans [OF keeps_ObservePending keeps_trans [OF keeps_refuse_unsent keeps_flush [OF d(3)]]]]
  have k3: "keeps C (r, h) (r3, h3)" .
  have u3: "unsettled (entries r3) = 0" using flush_unsettled [OF d(3)] by (simp add: refuse_unsent_settles)
  have "keeps C (r, h) (r4, h') \<and> unsettled (entries r4) = 0"
    using d(4) keeps_drain_notices [OF _ u3] k3 u3 keeps_trans by blast
  then show ?thesis using keeps_trans [OF _ keeps_result [OF d(5)]] result_keeps [OF d(5)] by auto
qed

text \<open>The invariant holds in every execution whose history the API server could have produced.\<close>

definition faucet_inv :: "('sk, 'pk) crypto \<Rightarrow> 'n FaucetRole \<times> 'n history \<Rightarrow> bool" where
  "faucet_inv C w \<longleftrightarrow> (api_consistent (snd w) \<longrightarrow> good C (fst w) (snd w))"

lemma keeps_inv: "keeps C w w' \<Longrightarrow> faucet_inv C w \<Longrightarrow> faucet_inv C w'"
  unfolding keeps_def faucet_inv_def using api_consistent_prefix by metis

lemma NewFaucetRole_entries: "NewFaucetRole C namespace p pod key address = Inr r \<Longrightarrow> entries r = []"
  by (auto simp: NewFaucetRole_def split: sum.split_asm if_split_asm)

interpretation faucets: invariant_system "faucet_start C" "faucet_step C" "faucet_inv C" for C
proof
  fix w assume "faucet_start C w"
  then have "snd w = []" "entries (fst w) = []" by (auto simp: faucet_start_def dest: NewFaucetRole_entries)
  then show "faucet_inv C w" by (simp add: faucet_inv_def good_def unsettled_def)
next
  fix w w' n
  assume i: "faucet_inv C w" and "faucet_step C w n w'"
  from this(2) have "keeps C w w'"
    by cases (auto intro: keeps_Step keeps_ObservePending keeps_settle dest: keeps_Drain)
  then show "faucet_inv C w'" using i by (rule keeps_inv)
qed


section \<open>Properties\<close>

text \<open>C3: As long as the API server is consistent (names resolve to objects of that name, UIDs are not reused, nobody
  else clears execution evidence), one faucet process transmits at most one transaction per request, across
  every interleaving of steps, drains and collection events, and each transmission is the transfer of exactly
  the amount the request asks for, to the admitted destination, for a request read as admitted
  and without execution evidence.\<close>

theorem faucet_sent_once:
  assumes "faucet_runs C (r, h) ns" "api_consistent h"
  shows "distinct (map fst (sends h))
    \<and> (\<forall>(u, s) \<in> set (sends h). \<exists>name q a amount. EGet name (Got q) \<in> set h \<and> req_UID q = u \<and> req_Execution q = None
          \<and> req_Admission q = Some a \<and> Decision a = ''Admitted'' \<and> adm_Amount a = req_Amount q
          \<and> ValidAddress (adm_Destination a) \<and> parse_uint64 (req_Amount q) = Inr amount \<and> amount \<noteq> 0
          \<and> faucet_build C (fr_key r) a FeeMicroSTX amount (send_nonce s) = Inr (send_tx s))"
proof -
  have g: "good C r h" using faucets.inv_runs [OF assms(1)] assms(2) by (simp add: faucet_inv_def)
  have "\<exists>name q a amount. EGet name (Got q) \<in> set h \<and> req_UID q = u \<and> req_Execution q = None
          \<and> req_Admission q = Some a \<and> Decision a = ''Admitted'' \<and> adm_Amount a = req_Amount q
          \<and> ValidAddress (adm_Destination a) \<and> parse_uint64 (req_Amount q) = Inr amount \<and> amount \<noteq> 0
          \<and> faucet_build C (fr_key r) a FeeMicroSTX amount (send_nonce s) = Inr (send_tx s)"
    if "(u, s) \<in> set (sends h)" for u s
    using goodD(6) [OF g that] unfolding paid_as_admitted_def by metis
  then show ?thesis using goodD(3) [OF g] by blast
qed

text \<open>C33: When a drain reports that it is done, no queued request and no outcome is left in the process, and every
  transmission the process ever made has been accounted for to its request: a terminal outcome that names exactly the
  transaction sent, and does not claim that nothing was sent, has been written to that request or was read back from it, or the request
  was seen to be gone. This holds for every run of steps, drains and collection events against an API server that
  is consistent in the sense of the theorem on single transmission.\<close>

theorem faucet_drain_settled:
  assumes "faucet_runs C (r, h) ns" "faucet_Drain N e v r h = (r', h', True, res, err)" "api_consistent h'"
  shows "entries r' = [] \<and> notices r' = []
    \<and> (\<forall>(u, s) \<in> set (sends h').
          (\<exists>out. TerminalExecution (Some out) \<and> \<not> NoSend out \<and> fe_TxID out = TxID (send_tx s)
             \<and> ((\<exists>cur. EApply cur out (Inr ()) \<in> set h' \<and> req_UID cur = u)
                \<or> (\<exists>name q. EGet name (Got q) \<in> set h' \<and> req_UID q = u \<and> req_Execution q = Some out)))
          \<or> gone h' u)"
proof -
  from keeps_Drain [OF assms(2), of C] have "keeps C (r, h) (r', h')" by blast
  then have g: "good C r' h'"
    using keeps_inv [OF _ faucets.inv_runs [OF assms(1)]] assms(3) by (auto simp: faucet_inv_def)
  from faucet_Drain_parts [OF assms(2)] obtain r4 where "result ''Draining'' r4 = (r', res)" "fres_Pending res = 0"
    by metis
  then have e: "entries r' = []" "notices r' = []" by (auto simp: result_def Let_def)
  moreover have "told h' u s" if "(u, s) \<in> set (sends h')" for u s
    using goodD(5) [OF g that] e by (simp add: settled_as_def)
  ultimately show ?thesis unfolding told_def answers_def by (simp add: case_prod_beta)
qed

lemma first_notice_None: "first_notice ns = None \<longleftrightarrow> ns = []"
  by (cases ns) (auto split: option.split)

lemma drain_notices_empties:
  "drain_notices e v r h = (r', h', Inr ()) \<Longrightarrow> \<not> fr_failed r' \<Longrightarrow> notices r' = []"
proof (induction "length (notices r)" arbitrary: r h rule: less_induct)
  case less
  from less.prems(1) show ?case
  proof (cases rule: drain_notices_cases)
    case finished
    then show ?thesis by (auto simp: takeNotice_def Let_def first_notice_None)
  next
    case (stop r1 notice reply)
    then show ?thesis using less.prems(2) by simp
  next
    case (skip r1 notice reply)
    from less.hyps [OF forgetNotice_shrinks [OF skip(1)] skip(2) less.prems(2)] show ?thesis .
  next
    case (refuse r1 notice q entry r3 h3 res3)
    have "length (notices r3) < length (notices r)"
      using flush_keeps [OF refuse(4) [symmetric]] forgetNotice_shrinks [OF refuse(1)] refuse(2,3) by simp
    from less.hyps [OF this _ less.prems(2)] refuse(5) show ?thesis by simp
  qed
qed

text \<open>The drain loop always terminates, and a drain that returns without an error and without having lost state leaves
  no queued request behind: everything queued was refused, settled or gone, and the only entries left have an
  outcome that awaits settlement.\<close>

lemma faucet_drain_empties_queue:
  assumes "faucet_Drain N e v r h = (r', h', done, res, Inr ())" "\<not> fr_failed r'"
  shows "notices r' = [] \<and> (\<forall>x \<in> set (entries r'). ent_outcome x \<noteq> None)"
proof -
  from faucet_Drain_parts [OF assms(1)] obtain r3 h3 r4 where
    d: "drain_notices e v r3 h3 = (r4, h', Inr ())" and f: "result ''Draining'' r4 = (r', res)" by (metis Inl_Inr_False)
  have "notices r' = notices r4" "fr_failed r' = fr_failed r4" using f by (auto simp: result_def Let_def)
  then have "notices r' = []" using drain_notices_empties [OF d] assms(2) by simp
  moreover have "unsettled (entries r') = 0" using keeps_Drain [OF assms(1)] by blast
  ultimately show ?thesis by (simp add: unsettled_def filter_empty_conv)
qed


section \<open>A sample execution\<close>

text \<open>An admitted request is announced, read, offered to a node that refuses its nonce, and published as
  rejected; then the process is drained.\<close>

definition faucet_key :: string where
  "faucet_key = replicate 63 (CHR ''0'') @ ''a01''"

definition sample_frole :: "unit FaucetRole" where
  "sample_frole =
     \<lparr>fr_Namespace = ''ns'', fr_ParticipantUID = ''u'', fr_PodUID = ''w'', fr_key = faucet_key,
      fr_stream = new_stream (Address (public toy_crypto 10)), fr_processNonce = [], fr_applied = [], pendingUID = [],
      entries = [], fr_summary = \<lparr>sum_Active = 0, sum_Orphaned = 0, sum_Completed = 0, sum_Rejected = 0,
        sum_Expired = 0, LastDeletedOutcome = None\<rparr>,
      fr_failed = False, notices = [], rescan = False\<rparr>"

definition admitted_request :: StacksFaucetRequest where
  "admitted_request = sample_faucet_request\<lparr>req_Admission := Some sample_admission\<rparr>"

definition sample_fview :: faucet_view where
  "sample_fview =
     \<lparr>fv_network = Some (sample_network ''Running'' (Some sample_session)), fv_participant = Some faucet_participant,
      fv_digest = Some ''policy'', fv_Paused = False, fv_CachedApplied = False, fv_Authorize = Some (Inr ()),
      fv_acknowledged = None\<rparr>"

definition sample_fenv :: "unit faucet_env" where
  "sample_fenv =
     \<lparr>api_get = (\<lambda>_ _. Got admitted_request), api_apply = (\<lambda>_ _ _. Inr ()), api_list = (\<lambda>_. ([], True)),
      fenv_Resolve = Some (Inr \<lparr>fin_Node = Some (), fin_StartHeight = 100\<rparr>, Inr \<lparr>fin_Node = Some (), fin_StartHeight = 100\<rparr>),
      fenv_now = (\<lambda>_. 5), fenv_clock = (5, 6)\<rparr>"

definition sample_fnode :: "unit FaucetNode" where
  "sample_fnode =
     \<lparr>node_Account = (\<lambda>_ _. Inr \<lparr>AccountNonce = 7, Balance = Uint 5000, Locked = Uint 0, UnlockHeight = 0\<rparr>),
      node_Submit = (\<lambda>_ tx. SubmitRejected \<lparr>rej_reason = ''BadNonce'', rej_txid = TxID tx\<rparr>),
      node_Inclusion = (\<lambda>_ _. Inr not_found),
      faucet_Info = (\<lambda>_. Inr \<lparr>NetworkID = 0x80000000, BurnHeight = 120, StacksHeight = 9, Tip = []\<rparr>)\<rparr>"

lemma keys_Parse_faucet_key: "keys_Parse toy_crypto faucet_key = Inr (10, True)"
proof -
  have "length faucet_key = 66" "has_suffix faucet_key ''01''" "hex_decode (take 64 faucet_key) = Inr (replicate 31 0 @ [10])"
    by code_simp+
  then show ?thesis by (simp add: keys_Parse_def toy_crypto_def be_val_Cons)
qed

lemma sample_frole_new: "NewFaucetRole toy_crypto ''ns'' ''u'' ''w'' toy_key (Address (public toy_crypto 10)) = Inr sample_frole"
proof -
  have "length faucet_key = 66" "has_suffix faucet_key ''01''" "hex_decode (take 64 faucet_key) = Inr (replicate 31 0 @ [10])" by code_simp+
  moreover have "set_byte_slice toy_crypto (replicate 31 0 @ [10]) = (10, False)" "\<not> scalar_is_zero toy_crypto 10"
    "pub_key toy_crypto 10 = 10"
    by (simp_all add: toy_crypto_def be_val_Cons)
  ultimately have "FromPrivate toy_crypto faucet_key = Inr (public toy_crypto 10)"
    by (simp add: FromPrivate_def)
  then show ?thesis by (simp add: NewFaucetRole_def toy_key_compressed faucet_key_def [symmetric] sample_frole_def)
qed

lemma sample_faucet_build:
  "\<exists>tx. faucet_build toy_crypto faucet_key sample_admission 3000 500 7 = Inr tx \<and> Valid tx \<and> length (TxID tx) = 64"
proof -
  have d: "adm_Destination sample_admission = recipient_address" by (simp add: sample_admission_def)
  obtain a where "EncodeAddress 26 (replicate 20 0) = Inr a" using EncodeAddress_total by fastforce
  then have a: "recipient_address = sample_address" by (simp add: recipient_address_def sample_address_def)
  let ?o = "\<lparr>Version = Testnet, ChainID = 0x80000000, Nonce = 7, Fee = 3000, PostConditionMode = Deny, PrivateKey = faucet_key\<rparr>"
  have sg: "\<exists>tx. sign toy_crypto ?o payload = Inr tx" if "length payload \<le> 1000" for payload
    using that hash_sizes_toy by (simp add: sign_def keys_Parse_faucet_key Let_def hash_sizes_def)
  have "\<exists>tx. Transfer toy_crypto ?o sample_address 500 [] = Inr tx"
    by (simp add: Transfer_def Principal_def Encode_sample_address sample_address_no_dot str_bytes_def sg)
  then obtain tx where tx: "Transfer toy_crypto ?o sample_address 500 [] = Inr tx" by blast
  moreover have "Valid tx" by (rule Transfer_Valid [OF hash_sizes_toy tx])
  moreover from this have "length (TxID tx) = 64" by (auto simp: Valid_def ID_def dest: sym)
  ultimately show ?thesis by (simp add: faucet_build_def d a)
qed

abbreviation sample_notice :: faucetNotice where
  "sample_notice \<equiv> \<lparr>nt_key = ''r'', nt_uid = ''q'', nt_created = 0, nt_expires = 60 * second, nt_deleted = False\<rparr>"

abbreviation sample_entry :: faucetEntry where
  "sample_entry \<equiv> \<lparr>ent_request = admitted_request, ent_outcome = None, ent_orphaned = False\<rparr>"

lemma admitted_request_simps [simp]:
  "req_UID admitted_request = ''q''" "req_Name admitted_request = ''r''" "req_Execution admitted_request = None"
  "req_Admission admitted_request = Some sample_admission" "req_Namespace admitted_request = ''ns''"
  "req_Deleted admitted_request = False" "Deadline admitted_request = Inr (60 * second)"
  "req_ResourceVersion admitted_request = ''1''" "req_Phase admitted_request = []" "req_Created admitted_request = Some 0"
  by (simp_all add: admitted_request_def sample_faucet_request_def Deadline_def)

lemma sample_announced:
  "CollectionChanged admitted_request False sample_frole = sample_frole\<lparr>notices := [sample_notice]\<rparr>"
  by (simp add: CollectionChanged_def sample_frole_def sample_admission_def entry_of_def MatchingExecution_def)

lemma sample_matches:
  "fr_ParticipantUID r = ''u'' \<Longrightarrow> fr_PodUID r = ''w'' \<Longrightarrow> fr_Namespace r = ''ns'' \<Longrightarrow>
     request_matches r sample_fview admitted_request"
  using recipient_address_valid
  by (simp add: request_matches_def sample_fview_def sample_admission_def faucet_participant_def sample_session_defs
      admitted_request_def sample_faucet_request_def Deadline_def)

lemma sample_next:
  assumes "fr_ParticipantUID r = ''u''" "fr_PodUID r = ''w''" "fr_Namespace r = ''ns''" "entries r = []" "notices r = [sample_notice]"
    "pending (fr_stream r) = None"
  shows "next_entry sample_fenv sample_fview r h
    = (putEntry sample_entry r, h @ [EGet ''r'' (Got admitted_request)], Inr sample_entry)"
proof -
  have "takeNotice (Pending (fr_stream r) \<noteq> 0) 5 r = (r, Some sample_notice)"
    using assms by (simp add: takeNotice_def entry_of_def Pending_def)
  moreover have "api_get sample_fenv h name = Got admitted_request" "fenv_now sample_fenv w = 5" for h name w
    by (simp_all add: sample_fenv_def)
  ultimately show ?thesis using assms sample_matches [of r]
    by (simp add: next_entry_def Let_def MatchingExecution_def)
qed

lemma sample_authorized:
  assumes "fr_ParticipantUID r = ''u''" "fr_PodUID r = ''w''" "fr_Namespace r = ''ns''"
  shows "faucet_authorize sample_fenv sample_fview r h sample_entry = (None, [EGet ''r'' (Got admitted_request)])"
proof -
  have "api_get sample_fenv h name = Got admitted_request" "fenv_now sample_fenv w = 5" "\<exists>x. snd (the (fenv_Resolve sample_fenv)) = Inr x"
    for h name w by (simp_all add: sample_fenv_def)
  moreover have "fv_Authorize sample_fview = Some (Inr ())" "\<not> fv_CachedApplied sample_fview" "\<not> fv_Paused sample_fview"
    by (simp_all add: sample_fview_def)
  ultimately show ?thesis using sample_matches [OF assms] by (auto simp: faucet_authorize_def Let_def)
qed

lemma sample_offered:
  assumes "fr_ParticipantUID r = ''u''" "fr_PodUID r = ''w''" "fr_Namespace r = ''ns''" "fr_key r = faucet_key"
    "fr_stream r = new_stream a" "entries r = [sample_entry]" "sum_Rejected (fr_summary r) = 0"
  shows "\<exists>r' s out. offer_entry toy_crypto sample_fnode sample_fenv sample_fview sample_entry sample_admission () 500 3000 r h
      = (r', h @ [EGet ''r'' (Got admitted_request), ESend ''q'' s], ''RejectedBadNonce'')
    \<and> entries r' = [sample_entry\<lparr>ent_outcome := Some out\<rparr>] \<and> TerminalExecution (Some out) \<and> notices r' = notices r
    \<and> pendingUID r' = pendingUID r \<and> fr_failed r' = fr_failed r"
proof -
  obtain tx where tx: "faucet_build toy_crypto faucet_key sample_admission 3000 500 7 = Inr tx" "Valid tx" "length (TxID tx) = 64"
    using sample_faucet_build by blast
  have ref: "refused (SubmitRejected \<lparr>rej_reason = ''BadNonce'', rej_txid = TxID tx\<rparr>) tx = Some \<lparr>rej_reason = ''BadNonce'', rej_txid = TxID tx\<rparr>"
    by (simp add: refused_def Definite_def ValidationRejectionReason_def)
  have rr: "refusal_reason ''RejectedBadNonce''"
    by (simp add: refusal_reason_def has_prefix_def trim_prefix_def ValidationRejectionReason_def)
  let ?args = "\<lparr>arg_clock = Some (fenv_clock sample_fenv), arg_node = Some (), arg_amount = Some (uint (500 :: u64) + uint (3000 :: u64)),
      arg_authorize = Some (Inr ()), arg_build = Some (faucet_build toy_crypto (fr_key r) sample_admission 3000 500)\<rparr>"
  have "\<exists>s' s. Offer (Node.truncate sample_fnode) ?args (fr_stream r) = (s', (''RejectedBadNonce'', None), [s])
      \<and> pending s' = None \<and> LastTxID (facts s') = TxID tx"
    using tx ref assms(4,5)
    by (simp add: Offer_def submit_once_def Let_def sample_fnode_def sample_fenv_def Node.truncate_def new_stream_def empty_facts_def
        Uint_def int_value_def)
  then obtain s' s where o: "Offer (Node.truncate sample_fnode) ?args (fr_stream r) = (s', (''RejectedBadNonce'', None), [s])"
    "pending s' = None" "LastTxID (facts s') = TxID tx" by blast
  show ?thesis
    using sample_authorized [OF assms(1-3), of h] o rr assms(6,7) tx(3)
    by (simp add: offer_entry_def settle_offer_def Let_def execution_def set_entry_def increment_def TerminalExecution_def)
qed


lemma sample_flushed:
  assumes "entries r = [sample_entry\<lparr>ent_outcome := Some out\<rparr>]" "TerminalExecution (Some out)"
  shows "flush sample_fenv sample_fview r h
    = (forgetEntry ''q'' r, h @ [EGet ''r'' (Got admitted_request), EApply admitted_request out (Inr ())], Inr ())"
proof -
  have e: "api_get sample_fenv h name = Got admitted_request" "api_apply sample_fenv h q x = Inr ()" for h name q x
    by (simp_all add: sample_fenv_def)
  have "flush_entry sample_fenv sample_fview (sample_entry\<lparr>ent_outcome := Some out\<rparr>) out r h
      = (forgetEntry ''q'' r, h @ [EGet ''r'' (Got admitted_request), EApply admitted_request out (Inr ())], Inr ())"
    using assms e by (simp add: flush_entry_def Let_def ApplyStatus_def result_simps)
  then show ?thesis using assms by (simp add: flush_def entry_of_def)
qed

lemma sample_served:
  assumes "fr_ParticipantUID r = ''u''" "fr_PodUID r = ''w''" "fr_Namespace r = ''ns''" "fr_key r = faucet_key"
    "fr_stream r = new_stream a" "entries r = [sample_entry]" "sum_Rejected (fr_summary r) = 0" "notices r = []" "\<not> fr_failed r"
    "pendingUID r = []"
  shows "\<exists>r' s out reason. serve_entry toy_crypto sample_fnode sample_fenv sample_fview sample_entry r h
      = (r', h @ [EGet ''r'' (Got admitted_request), ESend ''q'' s, EGet ''r'' (Got admitted_request),
                  EApply admitted_request out (Inr ())], reason)
    \<and> entries r' = [] \<and> notices r' = [] \<and> pendingUID r' = [] \<and> \<not> fr_failed r'"
proof -
  obtain r1 s out where o: "offer_entry toy_crypto sample_fnode sample_fenv sample_fview sample_entry sample_admission () 500 3000 r h
      = (r1, h @ [EGet ''r'' (Got admitted_request), ESend ''q'' s], ''RejectedBadNonce'')"
    "entries r1 = [sample_entry\<lparr>ent_outcome := Some out\<rparr>]" "TerminalExecution (Some out)" "notices r1 = []"
    "pendingUID r1 = []" "\<not> fr_failed r1"
    using sample_offered [OF assms(1-7), of h] assms(8-10) by auto
  have p: "parse_uint64 ''3000'' = Inr 3000" by code_simp
  have a: "adm_Amount sample_admission = ''500''" "adm_Fee sample_admission = ''3000''" by (simp_all add: sample_admission_def)
  have v: "\<not> fv_Paused sample_fview" "\<not> fv_CachedApplied sample_fview" by (simp_all add: sample_fview_def)
  have e: "fenv_now sample_fenv w = 5" "fst (the (fenv_Resolve sample_fenv)) = Inr \<lparr>fin_Node = Some (), fin_StartHeight = 100\<rparr>" for w
    by (simp_all add: sample_fenv_def)
  have "serve_entry toy_crypto sample_fnode sample_fenv sample_fview sample_entry r h =
      (let (r1, h1, reason) = offer_entry toy_crypto sample_fnode sample_fenv sample_fview sample_entry sample_admission () 500 3000 r h
       in (case flush sample_fenv sample_fview r1 h1 of
             (r2, h2, Inl _) \<Rightarrow> (r2, h2, ''RequestPublicationUnavailable'')
           | (r2, h2, Inr _) \<Rightarrow> (r2, h2, reason)))"
    using a v e p sample_parse(1) assms(5)
    by (simp add: serve_entry_def Let_def Pending_def new_stream_def sample_fnode_def)
  then show ?thesis using o sample_flushed [OF o(2,3)] by (auto simp: forgetEntry_def)
qed


abbreviation sample_history :: "unit send \<Rightarrow> FaucetExecution \<Rightarrow> unit history" where
  "sample_history s out \<equiv>
     [EGet ''r'' (Got admitted_request), EGet ''r'' (Got admitted_request), ESend ''q'' s, EGet ''r'' (Got admitted_request),
      EApply admitted_request out (Inr ())]"

lemma sample_stepped:
  "\<exists>r' s out res. faucet_Step toy_crypto sample_fnode sample_fenv sample_fview (sample_frole\<lparr>notices := [sample_notice]\<rparr>) []
      = (r', sample_history s out, res)
    \<and> entries r' = [] \<and> notices r' = [] \<and> pendingUID r' = [] \<and> \<not> fr_failed r'"
proof -
  let ?r = "sample_frole\<lparr>notices := [sample_notice], fr_processNonce := ''n'', fr_applied := ''policy''\<rparr>"
  let ?r1 = "putEntry sample_entry ?r"
  have n: "next_entry sample_fenv sample_fview ?r []
      = (?r1, [EGet ''r'' (Got admitted_request)], Inr sample_entry)"
    using sample_next [of ?r "[]"] by (simp add: sample_frole_def new_stream_def)
  obtain r' s out reason where sv: "serve_entry toy_crypto sample_fnode sample_fenv sample_fview sample_entry ?r1
        [EGet ''r'' (Got admitted_request)] = (r', sample_history s out, reason)"
    "entries r' = []" "notices r' = []" "pendingUID r' = []" "\<not> fr_failed r'"
    using sample_served [of ?r1 "Address (public toy_crypto 10)" "[EGet ''r'' (Got admitted_request)]"]
    by (auto simp: sample_frole_def putEntry_def forgetEntry_def forgetNotice_def Let_def)
  have f: "flush sample_fenv sample_fview ?r [] = (?r, [], Inr ())" "rescanNotices sample_fenv ?r [] = (?r, [], Inr ())"
    "ObservePending sample_fnode sample_fenv ?r = ?r"
    by (simp_all add: flush_def rescanNotices_def ObservePending_def sample_frole_def)
  obtain i where i: "fenv_Resolve sample_fenv = Some i" by (simp add: sample_fenv_def)
  have x: "fv_network sample_fview = Some (sample_network ''Running'' (Some sample_session))"
    "fv_participant sample_fview = Some faucet_participant" "fv_digest sample_fview = Some ''policy''"
    "part_UID faucet_participant = ''u''"
    "part_Execution faucet_participant = Some \<lparr>we_PodUID = ''w'', we_ProcessNonce = ''n'', we_ProfileDigest = ''d'',
       we_NetworkGeneration = 3, we_Phase = ''Active'', we_Reason = [], we_ObservedAt = 0, we_Pending = 0\<rparr>"
    "fr_ParticipantUID sample_frole = ''u''" "fr_PodUID sample_frole = ''w''" "fr_processNonce sample_frole = []"
    "\<not> fr_failed sample_frole"
    by (simp_all add: sample_fview_def sample_fenv_def faucet_participant_def sample_participant_def sample_frole_def)
  have "faucet_Step toy_crypto sample_fnode sample_fenv sample_fview (sample_frole\<lparr>notices := [sample_notice]\<rparr>) []
      = (let (x, res) = result reason r' in (x, sample_history s out, res))"
    using n sv(1) f x i by (simp add: faucet_Step_def Let_def)
  then show ?thesis using sv by (auto simp: result_def Let_def split: prod.split)
qed


lemma sample_faucet_run:
  "\<exists>r s out. faucet_runs toy_crypto (r, sample_history s out) [(), ()] \<and> entries r = [] \<and> notices r = [] \<and> pendingUID r = []
     \<and> \<not> fr_failed r"
proof -
  obtain r s out res where st: "faucet_Step toy_crypto sample_fnode sample_fenv sample_fview (sample_frole\<lparr>notices := [sample_notice]\<rparr>) []
      = (r, sample_history s out, res)" "entries r = []" "notices r = []" "pendingUID r = []" "\<not> fr_failed r"
    using sample_stepped by blast
  have "faucet_start toy_crypto (sample_frole, [])" unfolding faucet_start_def using sample_frole_new by (metis fst_conv snd_conv)
  then have "faucet_runs toy_crypto (sample_frole, []) []" by (rule runs_start)
  moreover have "faucet_step toy_crypto (sample_frole, []) () (sample_frole\<lparr>notices := [sample_notice]\<rparr>, [])"
    unfolding sample_announced [symmetric] by (rule faucet_step.changed)
  ultimately have "faucet_runs toy_crypto (sample_frole\<lparr>notices := [sample_notice]\<rparr>, []) ([] @ [()])" by (rule runs_step)
  moreover have "faucet_step toy_crypto (sample_frole\<lparr>notices := [sample_notice]\<rparr>, []) () (r, sample_history s out)"
    using st(1) by (rule faucet_step.step)
  ultimately have "faucet_runs toy_crypto (r, sample_history s out) (([] @ [()]) @ [()])" by (rule runs_step)
  then show ?thesis using st by auto
qed

lemma sample_consistent: "api_consistent (sample_history s out)"
  unfolding api_consistent_def
proof (intro allI impI)
  fix p name x q
  assume h: "sample_history s out = p @ EGet name (Got x) # q"
  have "name = ''r'' \<and> x = admitted_request \<and> (\<forall>cur o'. EApply cur o' (Inr ()) \<notin> set p)
      \<and> (\<forall>n reply. EGet n reply \<in> set p \<longrightarrow> reply = Got admitted_request)"
    using h by (auto simp: Cons_eq_append_conv)
  then show "req_Name x = name \<and> (req_Execution x = None \<longrightarrow> \<not> spent p (req_UID x))"
    unfolding spent_def gone_def by fastforce
qed

theorem faucet_sent_once_witness:
  "\<exists>r s out. faucet_runs toy_crypto (r, sample_history s out) [(), ()] \<and> sends (sample_history s out) = [(''q'', s)]
     \<and> (\<exists>name q a amount. EGet name (Got q) \<in> set (sample_history s out) \<and> req_UID q = ''q'' \<and> req_Admission q = Some a
          \<and> faucet_build toy_crypto (fr_key r) a FeeMicroSTX amount (send_nonce s) = Inr (send_tx s))"
proof -
  obtain r s out where r: "faucet_runs toy_crypto (r, sample_history s out) [(), ()]" using sample_faucet_run by blast
  have s: "sends (sample_history s out) = [(''q'', s)]" by simp
  from faucet_sent_once [OF r sample_consistent] s r show ?thesis by fastforce
qed

lemma drain_notices_nil: "notices x = [] \<Longrightarrow> drain_notices e v x h = (x\<lparr>notices := []\<rparr>, h, Inr ())"
  by (simp add: drain_notices.simps [of _ _ x] takeNotice_def)

lemma sample_drained:
  assumes "entries r = []" "notices r = []" "pendingUID r = []" "\<not> fr_failed r"
  shows "\<exists>r' res. faucet_Drain sample_fnode sample_fenv sample_fview r h = (r', h, True, res, Inr ()) \<and> \<not> fr_failed r'"
proof -
  note d = drain_notices_nil
  have o: "ObservePending sample_fnode sample_fenv x = x" "refuse_unsent t x = x" "flush sample_fenv sample_fview x h = (x, h, Inr ())"
    if "entries x = []" "pendingUID x = []" for x t
    using that by (simp_all add: ObservePending_def refuse_unsent_def flush_def)
  obtain exec where p: "fv_participant sample_fview = Some faucet_participant" "part_Execution faucet_participant = Some exec"
    by (simp add: sample_fview_def faucet_participant_def)
  show ?thesis using assms
    by (cases "fr_processNonce r = []") (simp_all add: faucet_Drain_def Let_def p o d result_def)
qed

theorem faucet_drain_settled_witness:
  "\<exists>r s out. faucet_runs toy_crypto (r, sample_history s out) [(), ()] \<and> sends (sample_history s out) = [(''q'', s)]
     \<and> TerminalExecution (Some out) \<and> fe_TxID out = TxID (send_tx s)"
proof -
  obtain r s out where r: "faucet_runs toy_crypto (r, sample_history s out) [(), ()]" "entries r = []" "notices r = []"
    "pendingUID r = []" "\<not> fr_failed r" using sample_faucet_run by blast
  obtain r' res where d: "faucet_Drain sample_fnode sample_fenv sample_fview r (sample_history s out)
      = (r', sample_history s out, True, res, Inr ())" using sample_drained [OF r(2-5)] by blast
  have "\<not> gone (sample_history s out) ''q''"
  proof
    assume "gone (sample_history s out) ''q''"
    then obtain a name reply b q where "sample_history s out = a @ EGet name reply # b" "reply = NotFound \<or> (\<exists>x. reply = Got x \<and> req_UID x \<noteq> ''q'')"
      unfolding gone_def by blast
    moreover from this(1) have "EGet name reply \<in> set (sample_history s out)" by simp
    then have "reply = Got admitted_request" by auto
    ultimately show False by simp
  qed
  with faucet_drain_settled [OF r(1) d sample_consistent]
  have "\<exists>o'. TerminalExecution (Some o') \<and> fe_TxID o' = TxID (send_tx s)
      \<and> ((\<exists>cur. EApply cur o' (Inr ()) \<in> set (sample_history s out)) \<or> (\<exists>name q. EGet name (Got q) \<in> set (sample_history s out) \<and> req_Execution q = Some o'))"
    by auto
  then have "TerminalExecution (Some out)" "fe_TxID out = TxID (send_tx s)" by auto
  with r(1) show ?thesis by auto
qed

lemma faucet_drain_empties_queue_sample:
  "\<exists>r' h' res. faucet_Drain sample_fnode sample_fenv sample_fview (sample_frole\<lparr>notices := [sample_notice]\<rparr>) [] = (r', h', True, res, Inr ())
     \<and> \<not> fr_failed r' \<and> notices r' = []"
proof -
  let ?r = "sample_frole\<lparr>notices := [sample_notice], fr_processNonce := ''n''\<rparr>"
  let ?r2 = "noSend 5 sample_entry ''Expired'' ''WorkerStoppedBeforeSend'' (putEntry sample_entry ?r)"
  define out where "out = execution (putEntry sample_entry ?r) 5 sample_entry ''Expired'' ''WorkerStoppedBeforeSend'' True"
  have r2: "entries ?r2 = [sample_entry\<lparr>ent_outcome := Some out\<rparr>]" "notices ?r2 = []" "\<not> fr_failed ?r2" "fr_failed (forgetEntry u x) = fr_failed x"
    for u and x :: "unit FaucetRole"
    by (simp_all add: noSend_def putEntry_def forgetEntry_def forgetNotice_def sample_frole_def set_entry_def out_def increment_def Let_def)
  have t: "TerminalExecution (Some out)" by (simp add: TerminalExecution_def out_def execution_def)
  have e: "api_get sample_fenv h name = Got admitted_request" "fenv_now sample_fenv w = 5" for h name w
    by (simp_all add: sample_fenv_def)
  have k: "takeNotice False 0 ?r = (?r, Some sample_notice)" by (simp add: takeNotice_def entry_of_def sample_frole_def)
  have m: "request_matches ?r sample_fview admitted_request" by (rule sample_matches) (simp_all add: sample_frole_def)
  have f: "flush sample_fenv sample_fview ?r2 h = (forgetEntry ''q'' ?r2, h @ [EGet ''r'' (Got admitted_request),
      EApply admitted_request out (Inr ())], Inr ())" for h by (rule sample_flushed [OF r2(1) t])
  have "\<exists>h'. drain_notices sample_fenv sample_fview ?r [] = ((forgetEntry ''q'' ?r2)\<lparr>notices := []\<rparr>, h', Inr ())"
    using k m e f r2(2) unfolding drain_notices.simps [of sample_fenv sample_fview ?r]
    by (simp add: Let_def MatchingExecution_def drain_notices_nil)
  then obtain h' where d: "drain_notices sample_fenv sample_fview ?r [] = ((forgetEntry ''q'' ?r2)\<lparr>notices := []\<rparr>, h', Inr ())"
    by blast
  have o: "ObservePending sample_fnode sample_fenv ?r = ?r" "refuse_unsent 5 ?r = ?r" "flush sample_fenv sample_fview ?r [] = (?r, [], Inr ())"
    by (simp_all add: ObservePending_def refuse_unsent_def flush_def sample_frole_def)
  have "\<exists>r' res. faucet_Drain sample_fnode sample_fenv sample_fview (sample_frole\<lparr>notices := [sample_notice]\<rparr>) [] = (r', h', True, res, Inr ())
      \<and> \<not> fr_failed r'"
    using o d r2 e by (simp add: faucet_Drain_def Let_def sample_fview_def faucet_participant_def sample_frole_def result_def forgetEntry_def)
  then obtain r' res where "faucet_Drain sample_fnode sample_fenv sample_fview (sample_frole\<lparr>notices := [sample_notice]\<rparr>) [] = (r', h', True, res, Inr ())"
    "\<not> fr_failed r'" by blast
  with faucet_drain_empties_queue [OF this] show ?thesis by blast
qed

end
