(* ===== verification/Bitcoin_Worker.thy ===== *)
theory Bitcoin_Worker
  imports Block_Offers
begin

text \<open>
  Model of \<open>operators/network/internal/bitcoincontrol/worker.go\<close> (\<open>arm\<close>, \<open>withdraw\<close>, \<open>collect\<close>,
  \<open>account\<close>, \<open>release\<close>) and of the dispatch of \<open>mutate\<close> in \<open>wallets.go\<close>. The pure parts of each
  operation are functions of the record the worker read; the step relation interleaves any number of
  worker processes over one retained execution record at the API server. The server compares the
  version a writer read; a write may be applied although its acknowledgement is lost; answers of the node
  may be lost; a process may stop at any point; and other writers may change everything but the four
  fields only \<open>worker.go\<close> writes (\<open>Armed\<close>, \<open>LastReceipt\<close>, \<open>CompletedOffer\<close>, \<open>BlocksGenerated\<close>).
  Request identifiers are drawn from 128 random bits and taken to be fresh.
\<close>

section \<open>Arming\<close>

text \<open>What \<open>arm\<close> reads besides the record: the admission of the mutation with its target and
  initialization (\<open>authorizeMutation\<close>), the remaining reads of \<open>authorizeOffer\<close>, the chain of the
  target, a fresh request identifier and the clock.\<close>

record arm_env =
  arm_admitted :: "(BitcoinTargetIdentity \<times> BitcoinInitialization) result"
  arm_offer_reads :: "unit result"
  arm_chain :: "(int \<times> string) result"
  arm_random :: string
  arm_now :: time

definition productionBinding :: "BitcoinInitialization \<Rightarrow> Binding" where
  "productionBinding initial = (case init_StatusProduction initial of Some b \<Rightarrow> b | None \<Rightarrow> init_Production initial)"

text \<open>\<open>authorizeOffer\<close>: its guards on the offer, then the reads of override, producer and gate state, whose
  outcome is an argument.\<close>

definition authorizeOffer ::
  "BitcoinInitialization \<Rightarrow> time \<Rightarrow> unit result \<Rightarrow> BitcoinBlockOffer \<Rightarrow> unit result" where
  "authorizeOffer initial now reads offer =
     (if Number offer < 1 \<or> ExpectedHeight offer \<ge> Ceiling offer \<or> \<not> offerCountAuthorized initial offer
         \<or> \<not> now < ExpiresAt offer \<or> Initialization offer \<noteq> initialization_ref initial
         \<or> Production offer \<noteq> productionBinding initial \<or> init_StatusOffer initial \<noteq> Some offer
      then Inl ''generation opportunity is not currently authorized''
      else reads)"

definition final_preflight :: "(int \<times> string) result \<Rightarrow> BitcoinBlockOffer \<Rightarrow> unit result" where
  "final_preflight chain offer =
     (case chain of
        Inl _ \<Rightarrow> Inl ''final generation ceiling preflight differs''
      | Inr (height, tip) \<Rightarrow>
          if height \<noteq> ExpectedHeight offer \<or> tip \<noteq> ExpectedTip offer \<or> height \<ge> Ceiling offer
             \<or> offerBlocks offer > wrap64 (Ceiling offer - height)
          then Inl ''final generation ceiling preflight differs'' else Inr ())"

text \<open>\<open>arm\<close> from its read of the record to the status it writes: \<open>current\<close> is the record read,
  \<open>target\<close> the identity admitted before.\<close>

definition arm_record ::
  "string \<Rightarrow> arm_env \<Rightarrow> BitcoinTargetIdentity \<Rightarrow> BitcoinExecution \<Rightarrow> BitcoinArmedRPC \<Rightarrow> BitcoinExecution
     \<Rightarrow> (BitcoinExecution \<times> BitcoinArmedRPC) result" where
  "arm_record nonce e target record' operation current =
     (if exec_UID current \<noteq> exec_UID record' \<or> Armed current \<noteq> None then Inl ''execution authority changed''
      else rbind (arm_admitted e) (\<lambda>(fresh, initial).
        if fresh \<noteq> target then Inl ''target admission changed before arm''
        else
          let reservation = (case rpc_Action operation of Some act \<Rightarrow> act | None \<Rightarrow> initialization_ref initial) in
          if (case ReservedFor current of Some r \<Rightarrow> r \<noteq> reservation | None \<Rightarrow> False)
          then Inl ''another mutation owner retains exclusion''
          else rbind
            (case RpcOffer operation of
               None \<Rightarrow> Inr ()
             | Some offer \<Rightarrow>
                 if exec_Offer current \<noteq> Some offer \<or> Number offer \<le> CompletedOffer current
                 then Inl ''generation offer changed''
                 else rbind (authorizeOffer initial (arm_now e) (arm_offer_reads e) offer)
                   (\<lambda>_. final_preflight (arm_chain e) offer))
            (\<lambda>_. let op' = operation\<lparr>rpc_ID := nonce @ ''-'' @ arm_random e, ProcessNonce := nonce,
                       Reservation := reservation, RpcTarget := fresh, ArmedAt := arm_now e\<rparr>;
                     act' = (case (rpc_Action operation, ActionState current) of
                         (Some _, Some st) \<Rightarrow>
                           Inr (Some (if act_StartedAt st = None then st\<lparr>act_StartedAt := Some (arm_now e)\<rparr> else st))
                       | (Some _, None) \<Rightarrow> Inl ''nil pointer dereference''
                       | (None, st) \<Rightarrow> Inr st)
                 in rbind act' (\<lambda>st. Inr (current\<lparr>ReservedFor := Some reservation, ActionState := st,
                                   Armed := Some op', Phase := PhaseArmed\<rparr>, op')))))"

text \<open>The check after the confirmed write, from which \<open>arm\<close> either sends or withdraws.\<close>

definition arm_confirmed :: "arm_env \<Rightarrow> bool \<Rightarrow> BitcoinArmedRPC \<Rightarrow> bool" where
  "arm_confirmed e closed operation \<longleftrightarrow>
     (case arm_admitted e of
        Inl _ \<Rightarrow> False
      | Inr (confirmed, initial) \<Rightarrow>
          confirmed = RpcTarget operation \<and> \<not> closed
          \<and> (case RpcOffer operation of
               None \<Rightarrow> True
             | Some offer \<Rightarrow> authorizeOffer initial (arm_now e) (arm_offer_reads e) offer = Inr ()))"

definition withdraw_record :: "BitcoinArmedRPC \<Rightarrow> string \<Rightarrow> BitcoinExecution \<Rightarrow> BitcoinExecution \<Rightarrow> BitcoinExecution result" where
  "withdraw_record armed stopReason record' current =
     (if exec_UID current \<noteq> exec_UID record' \<or> Armed current \<noteq> Some armed
      then Inl ''cannot withdraw changed authority''
      else Inr (current\<lparr>ActionState := (case ActionState current of
                           Some st \<Rightarrow> Some (if stopReason \<noteq> [] \<and> act_StopReason st = []
                                          then st\<lparr>act_StopReason := stopReason\<rparr> else st)
                         | None \<Rightarrow> None),
                       Armed := None, Phase := PhaseIdle\<rparr>))"

section \<open>Dispatch and accounting\<close>

text \<open>\<open>mutate\<close> makes one native request, or refuses the inputs before any is made. The request of an import
  goes to the path of its wallet; the others to the endpoint itself.\<close>

datatype native_call =
    CallMarker RPCMethod string string string
  | CallGenerate string string string int
  | CallCreateWallet string string string
  | CallLoadWallet string string string
  | CallImportDescriptors string string string string
  | CallUnloadWallet string string string

definition mutate_call :: "BitcoinArmedRPC \<Rightarrow> native_call result" where
  "mutate_call request =
     (let endpoint = target_Endpoint (RpcTarget request) in
      if Method request = InvalidateBlock \<or> Method request = ReconsiderBlock
      then if rpc_Action request = None \<or> \<not> hashValid (rpc_BlockHash request) then Inl ''invalid finite marker inputs''
           else Inr (CallMarker (Method request) endpoint (rpc_ID request) (rpc_BlockHash request))
      else if Method request = Generate
      then if rpc_Action request \<noteq> None then Inr (CallGenerate endpoint (rpc_Address request) (rpc_ID request) 1)
           else (case RpcOffer request of
                   None \<Rightarrow> Inl ''missing generation inputs''
                 | Some offer \<Rightarrow>
                     Inr (CallGenerate endpoint (OfferAddress offer) (rpc_ID request)
                            (if offerBlocks offer > 1 then offerBlocks offer else 1)))
      else (case WalletOperation request of
              None \<Rightarrow> Inl ''missing wallet inputs''
            | Some wallet \<Rightarrow>
                (case Method request of
                   CreateWallet \<Rightarrow> Inr (CallCreateWallet endpoint (rpc_ID request) (op_Name wallet))
                 | LoadWallet \<Rightarrow> Inr (CallLoadWallet endpoint (rpc_ID request) (op_Name wallet))
                 | ImportDescriptor \<Rightarrow>
                     Inr (CallImportDescriptors endpoint (op_Name wallet) (rpc_ID request) (op_Descriptor wallet))
                 | UnloadWallet \<Rightarrow> Inr (CallUnloadWallet endpoint (rpc_ID request) (op_Name wallet))
                 | _ \<Rightarrow> Inl ''unsupported managed Bitcoin mutation'')))"

text \<open>The decoded result of that request, and the hash or error \<open>mutate\<close> returns for it.\<close>

datatype native_result = RawResult string | HashResult string | NameResult string | ImportedResult "bool list"
  | EmptyResult

definition mutate_reply :: "BitcoinArmedRPC \<Rightarrow> native_result result \<Rightarrow> string result" where
  "mutate_reply request reply =
     rbind (mutate_call request) (\<lambda>call. rbind reply (\<lambda>res.
       case (call, res) of
         (CallMarker _ _ _ _, RawResult raw) \<Rightarrow> if raw \<noteq> ''null'' then Inl ''invalid marker receipt'' else Inr []
       | (CallGenerate _ _ _ _, HashResult hash) \<Rightarrow> Inr hash
       | (CallCreateWallet _ _ name, NameResult n) \<Rightarrow> if n \<noteq> name then Inl ''wallet receipt name differs'' else Inr []
       | (CallLoadWallet _ _ name, NameResult n) \<Rightarrow> if n \<noteq> name then Inl ''wallet receipt name differs'' else Inr []
       | (CallImportDescriptors _ _ _ _, ImportedResult oks) \<Rightarrow>
           if oks \<noteq> [True] then Inl ''descriptor import receipt incomplete'' else Inr []
       | (CallUnloadWallet _ _ _, EmptyResult) \<Rightarrow> Inr []
       | _ \<Rightarrow> Inl ''malformed reply''))"

text \<open>\<open>account\<close>: \<open>Inr None\<close> when the receipt is already recorded, otherwise the status it writes.\<close>

definition account_record ::
  "int_n \<Rightarrow> BitcoinExecution \<Rightarrow> BitcoinRPCReceipt \<Rightarrow> BitcoinExecution \<Rightarrow> BitcoinExecution option result" where
  "account_record intN record' receipt current =
     (if exec_UID current \<noteq> exec_UID record' then Inl ''execution environment retired''
      else if (case LastReceipt current of Some r \<Rightarrow> rpc_ID (Request r) = rpc_ID (Request receipt) | None \<Rightarrow> False)
      then Inr None
      else if Armed current \<noteq> Some (Request receipt) then Inl ''receipt does not match outstanding authority''
      else
        let c1 = current\<lparr>LastReceipt := Some receipt\<rparr>;
            c2 = (if Method (Request receipt) = UnloadWallet
                  then c1\<lparr>PendingWalletRemoval := None,
                          Observation := map_option (\<lambda>o'. o'\<lparr>obs_Wallets := filter (\<lambda>w. Some (UID (wo_Wallet w)) \<noteq>
                            map_option (UID \<circ> op_Wallet) (WalletOperation (Request receipt))) (obs_Wallets o')\<rparr>) (Observation c1)\<rparr>
                  else c1);
            c3 = c2\<lparr>Armed := None, Phase := PhaseIdle\<rparr>
        in if rpc_Action (Request receipt) \<noteq> None
           then rbind (accountActionReceipt intN c3 receipt) (\<lambda>c4. Inr (Some c4))
           else if Method (Request receipt) = Generate
           then (case RpcOffer (Request receipt) of
                   Some offer \<Rightarrow>
                     Inr (Some (c3\<lparr>BlocksGenerated := wrap64 (BlocksGenerated c3 + offerBlocks offer),
                                   CompletedOffer := Number offer\<rparr>))
                 | None \<Rightarrow> Inl ''missing generation inputs'')
           else Inr (Some c3))"

section \<open>Processes over the API server\<close>

text \<open>Where one worker process is. Every stage but \<open>Free\<close> occupies its single local slot
  (\<open>active\<close>).\<close>

datatype stage =
    Free
  | Prepared BitcoinExecution nat BitcoinArmedRPC
  | Confirming BitcoinExecution BitcoinArmedRPC
  | Withdrawing BitcoinExecution nat BitcoinArmedRPC
  | Sending BitcoinExecution BitcoinArmedRPC
  | Awaiting BitcoinExecution BitcoinArmedRPC
  | Accounting BitcoinExecution BitcoinRPCReceipt
  | Recording BitcoinExecution BitcoinRPCReceipt BitcoinExecution nat

text \<open>A status update on its way to the server: its purpose, the record to store and the version it was
  computed from.\<close>

datatype purpose = ToArm BitcoinArmedRPC | ToWithdraw BitcoinArmedRPC | ToRecord BitcoinRPCReceipt

type_synonym update = "purpose \<times> BitcoinExecution \<times> nat"

text \<open>The record and its version at the server, the processes, the updates whose caller gave up waiting,
  and the histories of issued identifiers, transmitted requests and recorded receipts.\<close>

record world =
  server :: BitcoinExecution
  version :: nat
  stages :: "string \<Rightarrow> stage"
  late :: "update set"
  issued :: "string set"
  transmitted :: "BitcoinArmedRPC list"
  recorded :: "BitcoinRPCReceipt list"

definition same_authority :: "BitcoinExecution \<Rightarrow> BitcoinExecution \<Rightarrow> bool" where
  "same_authority r r' \<longleftrightarrow>
     exec_UID r' = exec_UID r \<and> Armed r' = Armed r \<and> LastReceipt r' = LastReceipt r
     \<and> CompletedOffer r' = CompletedOffer r \<and> BlocksGenerated r' = BlocksGenerated r"

abbreviation goto :: "world \<Rightarrow> string \<Rightarrow> stage \<Rightarrow> world" where
  "goto w n st \<equiv> w\<lparr>stages := (stages w)(n := st)\<rparr>"

definition store :: "world \<Rightarrow> purpose \<Rightarrow> BitcoinExecution \<Rightarrow> world" where
  "store w p r = w\<lparr>server := r, version := Suc (version w),
     recorded := recorded w @ (case p of ToRecord receipt \<Rightarrow> [receipt] | _ \<Rightarrow> [])\<rparr>"

inductive worker_step :: "world \<Rightarrow> string \<Rightarrow> world \<Rightarrow> bool" where
  arm_read:
    "stages w n = Free \<Longrightarrow> arm_record n e target record' operation (server w) = Inr (armed, op')
     \<Longrightarrow> rpc_ID op' \<notin> issued w
     \<Longrightarrow> worker_step w n (goto (w\<lparr>issued := insert (rpc_ID op') (issued w)\<rparr>) n (Prepared armed (version w) op'))"
| arm_write:
    "stages w n = Prepared armed (version w) op
     \<Longrightarrow> worker_step w n (goto (store w (ToArm op) armed) n (Confirming armed op))"
| arm_lost:
    "stages w n = Prepared armed v op
     \<Longrightarrow> worker_step w n (goto (w\<lparr>late := insert (ToArm op, armed, v) (late w)\<rparr>) n Free)"
| confirm:
    "stages w n = Confirming armed op \<Longrightarrow> arm_confirmed e False op \<Longrightarrow> worker_step w n (goto w n (Sending armed op))"
| withdraw_read:
    "stages w n = Confirming armed op \<Longrightarrow> \<not> arm_confirmed e closed op
     \<Longrightarrow> withdraw_record op reason armed (server w) = Inr r
     \<Longrightarrow> worker_step w n (goto w n (Withdrawing r (version w) op))"
| withdraw_write:
    "stages w n = Withdrawing r (version w) op \<Longrightarrow> worker_step w n (goto (store w (ToWithdraw op) r) n Free)"
| withdraw_lost:
    "stages w n = Withdrawing r v op
     \<Longrightarrow> worker_step w n (goto (w\<lparr>late := insert (ToWithdraw op, r, v) (late w)\<rparr>) n Free)"
| transmit:
    "stages w n = Sending armed op \<Longrightarrow> mutate_call op = Inr call
     \<Longrightarrow> worker_step w n (goto (w\<lparr>transmitted := transmitted w @ [op]\<rparr>) n (Awaiting armed op))"
| answer:
    "stages w n = Awaiting armed op \<Longrightarrow> mutate_reply op reply = Inr (ReceiptHash receipt) \<Longrightarrow> Request receipt = op
     \<Longrightarrow> worker_step w n (goto w n (Accounting armed receipt))"
| account_read:
    "stages w n = Accounting armed receipt \<Longrightarrow> account_record intN armed receipt (server w) = Inr (Some r)
     \<Longrightarrow> worker_step w n (goto w n (Recording armed receipt r (version w)))"
| account_write:
    "stages w n = Recording armed receipt r (version w)
     \<Longrightarrow> worker_step w n (goto (store w (ToRecord receipt) r) n Free)"
| account_lost:
    "stages w n = Recording armed receipt r v
     \<Longrightarrow> worker_step w n (goto (w\<lparr>late := insert (ToRecord receipt, r, v) (late w)\<rparr>) n (Accounting armed receipt))"
| stop: \<comment> \<open>an error return, a lost answer, an already recorded receipt, or the end of the process\<close>
    "worker_step w n (goto w n Free)"
| late_write: "(p, r, version w) \<in> late w \<Longrightarrow> worker_step w n (store w p r)"
| other_writer: \<comment> \<open>observations, offers, drains and acknowledgements\<close>
    "same_authority (server w) r \<Longrightarrow> worker_step w n (w\<lparr>server := r, version := Suc (version w)\<rparr>)"

definition worker_start :: "world \<Rightarrow> bool" where
  "worker_start w \<longleftrightarrow>
     stages w = (\<lambda>_. Free) \<and> late w = {} \<and> issued w = {} \<and> transmitted w = [] \<and> recorded w = []
     \<and> Armed (server w) = None \<and> LastReceipt (server w) = None \<and> CompletedOffer (server w) = 0
     \<and> BlocksGenerated (server w) = 0"

abbreviation worker_runs :: "world \<Rightarrow> string list \<Rightarrow> bool" where
  "worker_runs \<equiv> runs worker_start worker_step"

section \<open>The invariant of the processes\<close>

text \<open>The request a process holds, and the generation number and block count a request stands for.\<close>

fun held :: "stage \<Rightarrow> BitcoinArmedRPC option" where
  "held Free = None"
| "held (Prepared _ _ op) = Some op"
| "held (Confirming _ op) = Some op"
| "held (Withdrawing _ _ op) = Some op"
| "held (Sending _ op) = Some op"
| "held (Awaiting _ op) = Some op"
| "held (Accounting _ receipt) = Some (Request receipt)"
| "held (Recording _ receipt _ _) = Some (Request receipt)"

definition offer_number :: "BitcoinArmedRPC \<Rightarrow> int option" where
  "offer_number op =
     (if rpc_Action op = None \<and> Method op = Generate then map_option Number (RpcOffer op) else None)"

definition blocks_of :: "BitcoinArmedRPC \<Rightarrow> int" where
  "blocks_of op =
     (if Method op \<noteq> Generate then 0 else if rpc_Action op \<noteq> None then 1
      else case RpcOffer op of Some offer \<Rightarrow> offerBlocks offer | None \<Rightarrow> 0)"

text \<open>An update that can still be applied does what its purpose says to the record at the server.\<close>

definition applicable :: "world \<Rightarrow> purpose \<Rightarrow> BitcoinExecution \<Rightarrow> bool" where
  "applicable w p r \<longleftrightarrow>
     exec_UID r = exec_UID (server w)
     \<and> (case p of
          ToArm op \<Rightarrow>
            same_authority ((server w)\<lparr>Armed := Some op\<rparr>) r \<and> Armed (server w) = None
            \<and> rpc_ID op \<notin> rpc_ID ` set (transmitted w)
            \<and> (\<forall>k. offer_number op = Some k \<longrightarrow> CompletedOffer (server w) < k)
        | ToWithdraw op \<Rightarrow>
            same_authority ((server w)\<lparr>Armed := None\<rparr>) r \<and> Armed (server w) = Some op
            \<and> rpc_ID op \<notin> rpc_ID ` set (transmitted w)
        | ToRecord receipt \<Rightarrow>
            Armed (server w) = Some (Request receipt) \<and> Armed r = None \<and> LastReceipt r = Some receipt
            \<and> Request receipt \<in> set (transmitted w)
            \<and> CompletedOffer r = (case offer_number (Request receipt) of Some k \<Rightarrow> k | None \<Rightarrow> CompletedOffer (server w))
            \<and> BlocksGenerated r = wrap64 (BlocksGenerated (server w) + blocks_of (Request receipt)))"

definition update_ok :: "world \<Rightarrow> update \<Rightarrow> bool" where
  "update_ok w u \<longleftrightarrow> (case u of (p, r, v) \<Rightarrow> v \<le> version w \<and> (v = version w \<longrightarrow> applicable w p r))"

fun stage_ok :: "world \<Rightarrow> stage \<Rightarrow> bool" where
  "stage_ok w Free = True"
| "stage_ok w (Prepared r v op) = update_ok w (ToArm op, r, v)"
| "stage_ok w (Confirming a op) = (Armed (server w) = Some op \<and> rpc_ID op \<notin> rpc_ID ` set (transmitted w))"
| "stage_ok w (Withdrawing r v op) = update_ok w (ToWithdraw op, r, v)"
| "stage_ok w (Sending a op) =
     (Armed (server w) = Some op \<and> rpc_ID op \<notin> rpc_ID ` set (transmitted w) \<and> (\<exists>e. arm_confirmed e False op))"
| "stage_ok w (Awaiting a op) = (op \<in> set (transmitted w))"
| "stage_ok w (Accounting a receipt) = (Request receipt \<in> set (transmitted w))"
| "stage_ok w (Recording a receipt r v) =
     (Request receipt \<in> set (transmitted w) \<and> update_ok w (ToRecord receipt, r, v))"

definition holder :: "world \<Rightarrow> string \<Rightarrow> string \<Rightarrow> bool" where
  "holder w n x \<longleftrightarrow> (\<exists>op. held (stages w n) = Some op \<and> rpc_ID op = x)"

definition exclusive :: "world \<Rightarrow> bool" where
  "exclusive w \<longleftrightarrow>
     (\<forall>n m x. holder w n x \<longrightarrow> holder w m x \<longrightarrow> n = m)
     \<and> (\<forall>op r n. (ToWithdraw op, r, version w) \<in> late w \<longrightarrow> \<not> holder w n (rpc_ID op))
     \<and> (\<forall>n x. holder w n x \<longrightarrow> x \<in> issued w)
     \<and> (\<forall>op r v. (ToWithdraw op, r, v) \<in> late w \<longrightarrow> rpc_ID op \<in> issued w)
     \<and> rpc_ID ` set (transmitted w) \<subseteq> issued w"

definition histories :: "world \<Rightarrow> bool" where
  "histories w \<longleftrightarrow>
     distinct (map rpc_ID (transmitted w))
     \<and> (\<forall>op \<in> set (transmitted w). (\<exists>e. arm_confirmed e False op) \<and> (\<exists>c. mutate_call op = Inr c))
     \<and> sorted_wrt (<) (List.map_filter offer_number (transmitted w))
     \<and> (\<forall>op k. op \<in> set (transmitted w) \<longrightarrow> offer_number op = Some k \<longrightarrow>
          k \<le> CompletedOffer (server w) \<or> Armed (server w) = Some op)
     \<and> (\<forall>op k. Armed (server w) = Some op \<longrightarrow> offer_number op = Some k \<longrightarrow> CompletedOffer (server w) < k)
     \<and> distinct (map (rpc_ID \<circ> Request) (recorded w))
     \<and> Request ` set (recorded w) \<subseteq> set (transmitted w)
     \<and> (\<forall>op \<in> set (transmitted w). op \<in> Request ` set (recorded w) \<or> Armed (server w) = Some op)
     \<and> (\<forall>op. Armed (server w) = Some op \<longrightarrow> rpc_ID op \<notin> (rpc_ID \<circ> Request) ` set (recorded w))
     \<and> BlocksGenerated (server w) = wrap64 (\<Sum>receipt \<leftarrow> recorded w. blocks_of (Request receipt))"

definition worker_inv :: "world \<Rightarrow> bool" where
  "worker_inv w \<longleftrightarrow>
     (\<forall>n. stage_ok w (stages w n)) \<and> (\<forall>u \<in> late w. update_ok w u) \<and> exclusive w \<and> histories w"


lemma arm_record_effect:
  assumes "arm_record n e target record' operation cur = Inr (armed, op)"
  shows "Armed cur = None" "same_authority (cur\<lparr>Armed := Some op\<rparr>) armed"
    "\<And>k. offer_number op = Some k \<Longrightarrow> CompletedOffer cur < k"
    "exec_UID armed = exec_UID cur"
  using assms
  by (auto simp: arm_record_def result_simps same_authority_def offer_number_def Let_def
        split: if_splits option.splits)

lemma withdraw_record_effect:
  assumes "withdraw_record op reason record' cur = Inr r"
  shows "Armed cur = Some op" "same_authority (cur\<lparr>Armed := None\<rparr>) r"
    "exec_UID r = exec_UID cur"
  using assms by (auto simp: withdraw_record_def same_authority_def split: if_splits)

text \<open>A finite receipt changes the action state, and the block count when it generated.\<close>

lemma accountActionReceipt_shape:
  assumes "accountActionReceipt intN cur receipt = Inr r"
  shows "\<exists>st. r = (if Method (Request receipt) = Generate
      then cur\<lparr>BlocksGenerated := wrap64 (BlocksGenerated cur + 1), ActionState := Some st\<rparr>
      else cur\<lparr>ActionState := Some st\<rparr>)"
proof -
  obtain st act where sa: "ActionState cur = Some st" "rpc_Action (Request receipt) = Some act" "act_Request st = act"
    using assms by (cases "ActionState cur"; cases "rpc_Action (Request receipt)")
      (auto simp: accountActionReceipt_def split: if_splits)
  show ?thesis
  proof (cases "Method (Request receipt)")
    case Generate
    show ?thesis
      by (cases "act_Generation st"; cases "hashValid (ReceiptHash receipt)")
        (use assms sa Generate in \<open>auto simp: accountActionReceipt_def Let_def result_simps split: if_split_asm\<close>)
  qed (use assms sa in \<open>auto simp: accountActionReceipt_def Let_def\<close>)
qed

lemma account_record_effect:
  assumes "account_record intN record' receipt cur = Inr (Some r)"
  shows "Armed cur = Some (Request receipt)" "Armed r = None" "LastReceipt r = Some receipt"
    "exec_UID r = exec_UID cur"
    "CompletedOffer r = (case offer_number (Request receipt) of Some k \<Rightarrow> k | None \<Rightarrow> CompletedOffer cur)"
    "in_int64 (BlocksGenerated cur) \<Longrightarrow> BlocksGenerated r = wrap64 (BlocksGenerated cur + blocks_of (Request receipt))"
proof -
  show "Armed cur = Some (Request receipt)"
    using assms by (auto simp: account_record_def split: if_splits)
  define c2 where "c2 = (let c1 = cur\<lparr>LastReceipt := Some receipt\<rparr> in
      if Method (Request receipt) = UnloadWallet
      then c1\<lparr>PendingWalletRemoval := None,
              Observation := map_option (\<lambda>o'. o'\<lparr>obs_Wallets := filter (\<lambda>w. Some (UID (wo_Wallet w)) \<noteq>
                map_option (UID \<circ> op_Wallet) (WalletOperation (Request receipt))) (obs_Wallets o')\<rparr>) (Observation c1)\<rparr>
      else c1)"
  define c3 where "c3 = c2\<lparr>Armed := None, Phase := PhaseIdle\<rparr>"
  have c3: "Armed c3 = None" "LastReceipt c3 = Some receipt" "exec_UID c3 = exec_UID cur"
    "CompletedOffer c3 = CompletedOffer cur" "BlocksGenerated c3 = BlocksGenerated cur"
    by (simp_all add: c3_def c2_def Let_def)
  have r: "(if rpc_Action (Request receipt) \<noteq> None
      then rbind (accountActionReceipt intN c3 receipt) (\<lambda>c4. Inr (Some c4))
      else if Method (Request receipt) = Generate
      then (case RpcOffer (Request receipt) of
              Some offer \<Rightarrow> Inr (Some (c3\<lparr>BlocksGenerated := wrap64 (BlocksGenerated c3 + offerBlocks offer),
                                 CompletedOffer := Number offer\<rparr>))
            | None \<Rightarrow> Inl ''missing generation inputs'')
      else Inr (Some c3)) = Inr (Some r)"
    using assms unfolding account_record_def c3_def c2_def Let_def by (simp split: if_splits)
  consider (act) "rpc_Action (Request receipt) \<noteq> None" "accountActionReceipt intN c3 receipt = Inr r"
    | (gen) offer where "rpc_Action (Request receipt) = None" "Method (Request receipt) = Generate"
        "RpcOffer (Request receipt) = Some offer"
        "r = c3\<lparr>BlocksGenerated := wrap64 (BlocksGenerated c3 + offerBlocks offer), CompletedOffer := Number offer\<rparr>"
    | (other) "rpc_Action (Request receipt) = None" "Method (Request receipt) \<noteq> Generate" "r = c3"
    using r by (auto simp: result_simps split: if_splits option.splits)
  then have "Armed r = None \<and> LastReceipt r = Some receipt \<and> exec_UID r = exec_UID cur
    \<and> CompletedOffer r = (case offer_number (Request receipt) of Some k \<Rightarrow> k | None \<Rightarrow> CompletedOffer cur)
    \<and> (in_int64 (BlocksGenerated cur) \<longrightarrow> BlocksGenerated r = wrap64 (BlocksGenerated cur + blocks_of (Request receipt)))"
  proof cases
    case act
    then show ?thesis using accountActionReceipt_shape [OF act(2)] c3
      by (cases "Method (Request receipt) = Generate") (auto simp: offer_number_def blocks_of_def)
  qed (use c3 in \<open>auto simp: offer_number_def blocks_of_def\<close>)
  then show "Armed r = None" "LastReceipt r = Some receipt" "exec_UID r = exec_UID cur"
    "CompletedOffer r = (case offer_number (Request receipt) of Some k \<Rightarrow> k | None \<Rightarrow> CompletedOffer cur)"
    "in_int64 (BlocksGenerated cur) \<Longrightarrow> BlocksGenerated r = wrap64 (BlocksGenerated cur + blocks_of (Request receipt))"
    by blast+
qed

text \<open>Where a process is does not matter to the other parts of the invariant.\<close>

lemma update_ok_local [simp]:
  "update_ok (w\<lparr>stages := f\<rparr>) = update_ok w" "update_ok (w\<lparr>late := l\<rparr>) = update_ok w"
  "update_ok (w\<lparr>issued := i\<rparr>) = update_ok w"
  by (simp_all add: fun_eq_iff update_ok_def applicable_def cong: purpose.case_cong option.case_cong)

lemma stage_ok_local [simp]:
  "stage_ok (w\<lparr>stages := f\<rparr>) st = stage_ok w st" "stage_ok (w\<lparr>late := l\<rparr>) st = stage_ok w st"
  "stage_ok (w\<lparr>issued := i\<rparr>) st = stage_ok w st"
  by (cases st; simp)+

lemma histories_local [simp]:
  "histories (w\<lparr>stages := f\<rparr>) = histories w" "histories (w\<lparr>late := l\<rparr>) = histories w"
  "histories (w\<lparr>issued := i\<rparr>) = histories w"
  by (simp_all add: histories_def)

lemma worker_invD:
  assumes "worker_inv w"
  shows "stage_ok w (stages w n)" "u \<in> late w \<Longrightarrow> update_ok w u" "exclusive w" "histories w"
  using assms by (auto simp: worker_inv_def)

lemma exclusive_goto:
  assumes "exclusive w" "held st = None \<or> held st = held (stages w n)"
  shows "exclusive (goto w n st)"
proof -
  have h: "holder (goto w n st) m x \<Longrightarrow> holder w m x" for m x
    using assms(2) by (auto simp: holder_def split: if_splits)
  show ?thesis using assms(1) unfolding exclusive_def by (auto dest!: h)
qed

lemma goto_inv:
  assumes "\<And>m. m \<noteq> n \<Longrightarrow> stage_ok w (stages w m)" "stage_ok w st"
    and "\<forall>u \<in> late w. update_ok w u" "exclusive w" "histories w"
    and "held st = None \<or> held st = held (stages w n)"
  shows "worker_inv (goto w n st)"
  using assms exclusive_goto [OF assms(4,6)] by (simp add: worker_inv_def)

lemma goto_same:
  "worker_inv w \<Longrightarrow> stage_ok w st \<Longrightarrow> held st = None \<or> held st = held (stages w n) \<Longrightarrow> worker_inv (goto w n st)"
  by (rule goto_inv) (auto simp: worker_inv_def)

text \<open>Versions: an update from the current version can be applied, and afterwards none of the earlier
  ones can.\<close>

lemma update_okD: "update_ok w (p, r, version w) \<Longrightarrow> applicable w p r"
  by (simp add: update_ok_def)

lemma update_ok_stale: "update_ok w u \<Longrightarrow> version w < version w' \<Longrightarrow> update_ok w' u"
  by (cases u) (auto simp: update_ok_def)

lemma stage_ok_stale:
  assumes "stage_ok w st" "version w < version w'" "transmitted w' = transmitted w"
    and "\<And>a op. st = Confirming a op \<or> st = Sending a op \<Longrightarrow> Armed (server w') = Armed (server w)"
  shows "stage_ok w' st"
  using assms by (cases st) (auto intro: update_ok_stale)

lemma in_int64_wrap64: "in_int64 (wrap64 x)"
  using signed_take_bit_int_greater_eq_minus_exp [of 63 x] signed_take_bit_int_less_exp [of 63 x]
  by (simp add: in_int64_def)

lemma in_int64_blocks: "histories w \<Longrightarrow> in_int64 (BlocksGenerated (server w))"
  by (simp add: histories_def in_int64_wrap64)

lemma wrap64_add: "wrap64 (wrap64 a + b) = wrap64 (a + b)"
  by (metis signed_take_bit_add signed_take_bit_signed_take_bit min.idem)

lemma store_simps [simp]:
  "server (store w p r) = r" "version (store w p r) = Suc (version w)" "stages (store w p r) = stages w"
  "late (store w p r) = late w" "issued (store w p r) = issued w" "transmitted (store w p r) = transmitted w"
  by (simp_all add: store_def)

lemma recorded_store [simp]:
  "recorded (store w (ToRecord receipt) r) = recorded w @ [receipt]"
  "recorded (store w (ToArm op) r) = recorded w" "recorded (store w (ToWithdraw op) r) = recorded w"
  by (simp_all add: store_def)

lemma histories_store:
  assumes "histories w" "applicable w p r"
  shows "histories (store w p r)"
proof (cases p)
  case (ToArm op)
  then show ?thesis using assms
    by (auto simp: histories_def applicable_def same_authority_def image_subset_iff)
next
  case (ToWithdraw op)
  then have a: "Armed (server w) = Some op" "Armed r = None" "rpc_ID op \<notin> rpc_ID ` set (transmitted w)"
    "CompletedOffer r = CompletedOffer (server w)" "BlocksGenerated r = BlocksGenerated (server w)"
    using assms(2) by (simp_all add: applicable_def same_authority_def)
  then have a': "op \<notin> set (transmitted w)" by blast
  have "k \<le> CompletedOffer (server w)" if "x \<in> set (transmitted w)" "offer_number x = Some k" for x k
    using assms(1) a(1) a' that unfolding histories_def by (metis option.inject)
  moreover have "x \<in> Request ` set (recorded w)" if "x \<in> set (transmitted w)" for x
    using assms(1) a(1) a' that unfolding histories_def by (metis option.inject)
  ultimately show ?thesis using assms(1) a(2,4,5) ToWithdraw by (simp add: histories_def)
next
  case (ToRecord receipt)
  let ?op = "Request receipt"
  have a: "Armed (server w) = Some ?op" "Armed r = None" "?op \<in> set (transmitted w)"
    "CompletedOffer r = (case offer_number ?op of Some k \<Rightarrow> k | None \<Rightarrow> CompletedOffer (server w))"
    "BlocksGenerated r = wrap64 (BlocksGenerated (server w) + blocks_of ?op)"
    using assms(2) ToRecord by (simp_all add: applicable_def)
  have h: "\<And>op k. op \<in> set (transmitted w) \<Longrightarrow> offer_number op = Some k \<Longrightarrow> k \<le> CompletedOffer (server w) \<or> op = ?op"
    "\<And>k. offer_number ?op = Some k \<Longrightarrow> CompletedOffer (server w) < k"
    "rpc_ID ?op \<notin> (rpc_ID \<circ> Request) ` set (recorded w)"
    "\<And>op. op \<in> set (transmitted w) \<Longrightarrow> op \<in> Request ` set (recorded w) \<or> op = ?op"
    using assms(1) a(1) by (simp_all add: histories_def) metis+
  have "k \<le> CompletedOffer r" if "op \<in> set (transmitted w)" "offer_number op = Some k" for op k
    using h(1) [OF that] h(2) a(4) that(2) by (cases "offer_number ?op") fastforce+
  moreover have "wrap64 (BlocksGenerated (server w) + blocks_of ?op)
      = wrap64 (\<Sum>receipt \<leftarrow> recorded w @ [receipt]. blocks_of (Request receipt))"
    using assms(1) by (simp add: histories_def wrap64_add)
  moreover have "\<forall>op \<in> set (transmitted w). op \<in> Request ` set (recorded w @ [receipt])"
    using h(4) by auto
  ultimately show ?thesis using assms(1) a(2,3,5) h(3) ToRecord
    unfolding histories_def by (simp add: image_comp)
qed

text \<open>The exclusions of the invariant, one by one.\<close>

lemma exclusiveD:
  assumes "exclusive w"
  shows "holder w n x \<Longrightarrow> holder w m x \<Longrightarrow> n = m"
    "(ToWithdraw op, r, version w) \<in> late w \<Longrightarrow> \<not> holder w n (rpc_ID op)"
    "holder w n x \<Longrightarrow> x \<in> issued w" "(ToWithdraw op, r, v) \<in> late w \<Longrightarrow> rpc_ID op \<in> issued w"
    "op \<in> set (transmitted w) \<Longrightarrow> rpc_ID op \<in> issued w"
proof -
  note e = assms [unfolded exclusive_def]
  note r = e [THEN conjunct2] e [THEN conjunct2, THEN conjunct2] e [THEN conjunct2, THEN conjunct2, THEN conjunct2]
  show "holder w n x \<Longrightarrow> holder w m x \<Longrightarrow> n = m" using e [THEN conjunct1] by blast
  show "(ToWithdraw op, r, version w) \<in> late w \<Longrightarrow> \<not> holder w n (rpc_ID op)" using r(1) [THEN conjunct1] by blast
  show "holder w n x \<Longrightarrow> x \<in> issued w" using r(2) [THEN conjunct1] by blast
  show "(ToWithdraw op, r, v) \<in> late w \<Longrightarrow> rpc_ID op \<in> issued w" using r(3) [THEN conjunct1] by blast
  show "op \<in> set (transmitted w) \<Longrightarrow> rpc_ID op \<in> issued w" using r(3) [THEN conjunct2] by blast
qed

lemma held_holder: "held (stages w n) = Some op \<Longrightarrow> holder w n (rpc_ID op)"
  by (auto simp: holder_def)

lemma exclusive_newer:
  assumes "exclusive w" "\<forall>u \<in> late w. update_ok w u"
    and "version w < version w'" "stages w' = stages w" "late w' = late w" "issued w' = issued w"
      "transmitted w' = transmitted w"
  shows "exclusive w'"
proof -
  have "holder w' = holder w" using assms(4) by (simp add: holder_def fun_eq_iff)
  moreover have "(p, r, version w') \<notin> late w" for p r using assms(2,3) by (force simp: update_ok_def)
  ultimately show ?thesis using assms by (simp add: exclusive_def)
qed

text \<open>Applying an update keeps every process in place but those that hold the request a withdrawal
  clears.\<close>

lemma stage_ok_store:
  assumes "stage_ok w st" "applicable w p r" "\<And>op. p = ToWithdraw op \<Longrightarrow> held st \<noteq> Some op"
  shows "stage_ok (store w p r) st"
proof (rule stage_ok_stale [OF assms(1)])
  fix a op
  assume "st = Confirming a op \<or> st = Sending a op"
  with assms show "Armed (server (store w p r)) = Armed (server w)"
    by (cases p) (auto simp: applicable_def)
qed simp_all

lemma store_goto_inv:
  assumes "worker_inv w" "applicable w p r" "stage_ok (store w p r) st"
    and "held st = None \<or> held st = held (stages w n)"
    and "\<And>op m. p = ToWithdraw op \<Longrightarrow> m \<noteq> n \<Longrightarrow> held (stages w m) \<noteq> Some op"
  shows "worker_inv (goto (store w p r) n st)"
proof (rule goto_inv)
  note inv = worker_invD [OF assms(1)]
  show "stage_ok (store w p r) (stages (store w p r) m)" if "m \<noteq> n" for m
    using stage_ok_store [OF inv(1) assms(2)] assms(5) that by simp
  show "\<forall>u \<in> late (store w p r). update_ok (store w p r) u"
    using update_ok_stale [OF inv(2)] by simp
  show "exclusive (store w p r)" by (rule exclusive_newer [OF inv(3)]) (use inv(2) in auto)
  show "histories (store w p r)" by (rule histories_store [OF inv(4) assms(2)])
qed (use assms in simp_all)

lemma late_write_inv:
  assumes "worker_inv w" "(p, r, version w) \<in> late w"
  shows "worker_inv (store w p r)"
proof -
  note inv = worker_invD [OF assms(1)]
  have app: "applicable w p r" using inv(2) assms(2) by (blast intro: update_okD)
  have "held (stages w m) \<noteq> Some op" if "p = ToWithdraw op" for op m
    using exclusiveD(2) [OF inv(3)] assms(2) that held_holder by blast
  then have "stage_ok (store w p r) (stages w m)" for m
    by (intro stage_ok_store [OF inv(1) app])
  moreover have "exclusive (store w p r)" by (rule exclusive_newer [OF inv(3)]) (use inv(2) in auto)
  ultimately show ?thesis
    using histories_store [OF inv(4) app] update_ok_stale [OF inv(2)] by (simp add: worker_inv_def)
qed

text \<open>The steps that are not one of the two above.\<close>

lemma arm_read_inv:
  assumes "worker_inv w" "stages w n = Free" "rpc_ID op \<notin> issued w"
    and "arm_record n e target record' operation (server w) = Inr (armed, op)"
  shows "worker_inv (goto (w\<lparr>issued := insert (rpc_ID op) (issued w)\<rparr>) n (Prepared armed (version w) op))"
    (is "worker_inv ?w'")
proof -
  note inv = worker_invD [OF assms(1)] and ex = exclusiveD [OF worker_invD(3) [OF assms(1)]]
  have "rpc_ID op \<notin> rpc_ID ` set (transmitted w)" using ex(5) assms(3) by auto
  then have "update_ok w (ToArm op, armed, version w)"
    using arm_record_effect [OF assms(4)] by (simp add: update_ok_def applicable_def)
  then have "stage_ok ?w' (stages ?w' m)" for m using inv(1) by simp
  moreover have h: "holder ?w' m x \<longleftrightarrow> (if m = n then x = rpc_ID op else holder w m x)" for m x
    by (auto simp: holder_def)
  have fresh: "(ToWithdraw x, r, v) \<in> late w \<Longrightarrow> rpc_ID x \<noteq> rpc_ID op" for x r v
    using ex(4) assms(3) by metis
  have "exclusive ?w'"
    unfolding exclusive_def h using ex assms(3) by (auto split: if_splits dest: fresh)
  ultimately show ?thesis using inv(2,4) by (simp add: worker_inv_def)
qed

lemma transmit_inv:
  assumes "worker_inv w" "stages w n = Sending armed op" "mutate_call op = Inr call"
  shows "worker_inv (goto (w\<lparr>transmitted := transmitted w @ [op]\<rparr>) n (Awaiting armed op))"
proof -
  let ?w = "w\<lparr>transmitted := transmitted w @ [op]\<rparr>"
  note inv = worker_invD [OF assms(1)] and ex = exclusiveD [OF worker_invD(3) [OF assms(1)]]
  have s: "Armed (server w) = Some op" "rpc_ID op \<notin> rpc_ID ` set (transmitted w)" "\<exists>e. arm_confirmed e False op"
    using inv(1) [of n] assms(2) by auto
  have hn: "holder w n (rpc_ID op)" using assms(2) by (simp add: holder_def)
  have keep: "update_ok ?w (p, r, v)"
    if "update_ok w (p, r, v)" "\<And>x. p = ToWithdraw x \<Longrightarrow> v = version w \<Longrightarrow> rpc_ID x \<noteq> rpc_ID op" for p r v
    using that s by (cases p) (auto simp: update_ok_def applicable_def)
  have late: "update_ok ?w u" if "u \<in> late w" for u
  proof (cases u)
    case (fields p r v)
    then have "(p, r, v) \<in> late w" using that by simp
    with ex(2) hn have "p = ToWithdraw x \<Longrightarrow> v = version w \<Longrightarrow> rpc_ID x \<noteq> rpc_ID op" for x by metis
    with keep inv(2) [OF that] show ?thesis using fields by blast
  qed
  have "stage_ok ?w (stages w m)" if "m \<noteq> n" for m
  proof -
    have "rpc_ID x \<noteq> rpc_ID op" if "held (stages w m) = Some x" for x
      using ex(1) [OF hn, of m] \<open>m \<noteq> n\<close> held_holder [OF that] by force
    then show ?thesis using inv(1) [of m] by (cases "stages w m") (auto intro: keep)
  qed
  moreover have "exclusive ?w"
    using inv(3) ex(3) [OF hn] by (auto simp: exclusive_def holder_def)
  moreover have "histories ?w"
  proof -
    have "k < j" if "x \<in> set (transmitted w)" "offer_number x = Some k" "offer_number op = Some j" for x k j
      using inv(4) s that unfolding histories_def by (metis image_eqI le_less_trans option.inject)
    then have "sorted_wrt (<) (List.map_filter offer_number (transmitted w @ [op]))"
      using inv(4) by (auto simp: histories_def sorted_wrt_append map_filter_def split: option.splits)
    then show ?thesis using inv(4) s assms(3) by (auto simp: histories_def)
  qed
  ultimately show ?thesis using late by (intro goto_inv) (auto simp: assms(2))
qed

lemma lost_inv:
  assumes "worker_inv w" "update_ok w (p, r, v)" "stage_ok w st"
    and "held st = None \<or> held st = held (stages w n)"
    and "\<And>op. p = ToWithdraw op \<Longrightarrow> st = Free \<and> held (stages w n) = Some op"
  shows "worker_inv (goto (w\<lparr>late := insert (p, r, v) (late w)\<rparr>) n st)" (is "worker_inv ?w'")
proof -
  note inv = worker_invD [OF assms(1)]
  have e: "exclusive (goto w n st)" by (rule exclusive_goto [OF inv(3) assms(4)])
  have h: "holder ?w' = holder (goto w n st)" by (simp add: holder_def fun_eq_iff)
  have "\<not> holder (goto w n st) m (rpc_ID op) \<and> rpc_ID op \<in> issued w" if "p = ToWithdraw op" for m op
  proof -
    have op: "st = Free" "holder w n (rpc_ID op)" using assms(5) [OF that] by (auto simp: holder_def)
    then have "m \<noteq> n \<Longrightarrow> \<not> holder w m (rpc_ID op)" using exclusiveD(1) [OF inv(3)] by metis
    with op(1) exclusiveD(3) [OF inv(3) op(2)] show ?thesis by (auto simp: holder_def)
  qed
  then have "exclusive ?w'"
    using e unfolding exclusive_def h by auto
  then show ?thesis using inv assms(2,3) by (auto simp: worker_inv_def)
qed

lemma other_writer_inv:
  assumes "worker_inv w" "same_authority (server w) r"
  shows "worker_inv (w\<lparr>server := r, version := Suc (version w)\<rparr>)" (is "worker_inv ?w'")
proof -
  note inv = worker_invD [OF assms(1)]
  have "stage_ok ?w' (stages w m)" for m
    by (rule stage_ok_stale [OF inv(1)]) (use assms(2) in \<open>simp_all add: same_authority_def\<close>)
  moreover have "exclusive ?w'" by (rule exclusive_newer [OF inv(3)]) (use inv(2) in auto)
  moreover have "histories ?w'" using inv(4) assms(2) by (simp add: histories_def same_authority_def)
  ultimately show ?thesis using update_ok_stale [OF inv(2)] by (simp add: worker_inv_def)
qed

lemma worker_inv_step: "worker_step w n w' \<Longrightarrow> worker_inv w \<Longrightarrow> worker_inv w'"
proof (induction rule: worker_step.induct)
  case (arm_read w n e target record' operation armed op')
  then show ?case by (intro arm_read_inv) auto
next
  case (arm_write w n armed op)
  then have "applicable w (ToArm op) armed"
    using worker_invD(1) [of w n] by (auto intro: update_okD)
  with arm_write show ?case
    by (intro store_goto_inv) (auto simp: applicable_def same_authority_def)
next
  case (arm_lost w n armed v op)
  then show ?case using worker_invD(1) [of w n] by (intro lost_inv) auto
next
  case (confirm w n armed op e)
  then show ?case using worker_invD(1) [of w n] by (intro goto_same) auto
next
  case (withdraw_read w n armed op e closed reason r)
  then show ?case using worker_invD(1) [of w n] withdraw_record_effect [OF withdraw_read(3)]
    by (intro goto_same) (auto simp: update_ok_def applicable_def)
next
  case (withdraw_write w n r op)
  have "held (stages w m) \<noteq> Some op" if "m \<noteq> n" for m
    using exclusiveD(1) [OF worker_invD(3) [OF withdraw_write(2)], of m "rpc_ID op" n] that
      withdraw_write(1) held_holder [of w n op] held_holder [of w m op] by auto
  with withdraw_write show ?case using worker_invD(1) [of w n]
    by (intro store_goto_inv) (auto intro: update_okD)
next
  case (withdraw_lost w n r v op)
  then show ?case using worker_invD(1) [of w n] by (intro lost_inv) auto
next
  case (transmit w n armed op call)
  then show ?case by (intro transmit_inv)
next
  case (answer w n armed op reply receipt)
  then show ?case using worker_invD(1) [of w n] by (intro goto_same) auto
next
  case (account_read w n armed receipt intN r)
  then show ?case
    using worker_invD(1) [of w n] account_record_effect [OF account_read(2)] in_int64_blocks [OF worker_invD(4)]
    by (intro goto_same) (auto simp: update_ok_def applicable_def)
next
  case (account_write w n armed receipt r)
  then show ?case using worker_invD(1) [of w n] by (intro store_goto_inv) (auto intro: update_okD)
next
  case (account_lost w n armed receipt r v)
  then show ?case using worker_invD(1) [of w n] by (intro lost_inv) auto
next
  case (stop w n)
  then show ?case by (intro goto_same) auto
qed (auto intro: late_write_inv other_writer_inv)

interpretation workers: invariant_system worker_start worker_step worker_inv
proof unfold_locales
  show "worker_start w \<Longrightarrow> worker_inv w" for w
    by (auto simp: worker_start_def worker_inv_def exclusive_def holder_def histories_def map_filter_def)
qed (rule worker_inv_step)

section \<open>What the processes transmit and record\<close>

lemma step_transmits:
  "worker_step w n w' \<Longrightarrow> transmitted w' = transmitted w @ [op] \<Longrightarrow> \<exists>armed. stages w n = Sending armed op"
  by (cases rule: worker_step.cases) auto

text \<open>C1: Mutating requests are serialized across processes and restarts. However worker processes
  interleave, stop, lose answers or have updates applied late, no request is ever transmitted twice; a
  request is transmitted only while it is the durably armed one, and only after the receipt of every
  request transmitted before it was recorded. A request whose answer was lost stays armed and
  blocks all others.\<close>

theorem requests_serialized:
  assumes "worker_runs w ns"
  shows "distinct (map rpc_ID (transmitted w))
    \<and> (\<forall>op \<in> set (transmitted w). op \<in> Request ` set (recorded w) \<or> Armed (server w) = Some op)
    \<and> (\<forall>n w' op. worker_step w n w' \<and> transmitted w' = transmitted w @ [op] \<longrightarrow>
        Armed (server w) = Some op \<and> set (transmitted w) = Request ` set (recorded w))"
proof (intro conjI ballI allI impI; (elim conjE)?)
  have inv: "worker_inv w" by (rule workers.inv_runs [OF assms])
  note h = worker_invD(4) [OF inv]
  show "distinct (map rpc_ID (transmitted w))" using h by (simp add: histories_def)
  have settled: "x \<in> Request ` set (recorded w) \<or> Armed (server w) = Some x" if "x \<in> set (transmitted w)" for x
    using h that by (simp add: histories_def)
  then show "op \<in> Request ` set (recorded w) \<or> Armed (server w) = Some op" if "op \<in> set (transmitted w)" for op
    using that .
  fix n w' op
  assume "worker_step w n w'" "transmitted w' = transmitted w @ [op]"
  then obtain armed where "stages w n = Sending armed op" using step_transmits by blast
  then have op: "Armed (server w) = Some op" "rpc_ID op \<notin> rpc_ID ` set (transmitted w)"
    using worker_invD(1) [OF inv, of n] by auto
  moreover have "Request ` set (recorded w) \<subseteq> set (transmitted w)" using h by (simp add: histories_def)
  ultimately show "Armed (server w) = Some op" "set (transmitted w) = Request ` set (recorded w)"
    using settled by force+
qed

text \<open>C5: Every block offer is transmitted at most once, and offers are transmitted in the order of their
  numbers. In every execution the numbers of the transmitted offers strictly increase, and each is
  covered by the completed cursor unless its request is still armed, in which case it lies strictly
  above the cursor.\<close>

theorem offers_transmitted_in_order:
  assumes "worker_runs w ns"
  shows "sorted_wrt (<) (List.map_filter offer_number (transmitted w))
    \<and> (\<forall>op k. op \<in> set (transmitted w) \<longrightarrow> offer_number op = Some k \<longrightarrow>
        (if Armed (server w) = Some op then CompletedOffer (server w) < k else k \<le> CompletedOffer (server w)))"
  using worker_invD(4) [OF workers.inv_runs [OF assms]] by (auto simp: histories_def)

text \<open>C16: Receipts are recorded once and the block counter is exact. In every execution each recorded receipt
  answers a transmitted request, no request is recorded twice even when an update was applied without
  being acknowledged, and the counter of generated blocks is the sum of the blocks of the recorded receipts
  in 64-bit arithmetic.\<close>

theorem receipts_recorded_once:
  assumes "worker_runs w ns"
  shows "distinct (map (rpc_ID \<circ> Request) (recorded w)) \<and> Request ` set (recorded w) \<subseteq> set (transmitted w)
    \<and> BlocksGenerated (server w) = wrap64 (\<Sum>receipt \<leftarrow> recorded w. blocks_of (Request receipt))"
  using worker_invD(4) [OF workers.inv_runs [OF assms]] by (simp_all add: histories_def)

lemma arm_confirmed_offer:
  assumes "arm_confirmed e False op" "RpcOffer op = Some offer"
  shows "\<exists>initial. offerCountAuthorized initial offer \<and> Initialization offer = initialization_ref initial
      \<and> arm_now e < ExpiresAt offer"
  using assms by (auto simp: arm_confirmed_def authorizeOffer_def split: sum.splits if_splits prod.splits)

lemma offerCountAuthorized_bounds:
  assumes "offerCountAuthorized initial offer"
  shows "1 \<le> offerBlocks offer" "offerBlocks offer \<le> MaxGeneratedBlocks"
    "ExpectedHeight offer + offerBlocks offer \<le> Ceiling offer"
  using assms by (auto simp: offerCountAuthorized_def offerBlocks_def batchLimit_def Let_def split: if_splits)


section \<open>A sample execution\<close>

definition sample_env :: arm_env where
  "sample_env = \<lparr>arm_admitted = Inr (sample_identity, sample_initialization\<lparr>init_StatusOffer := Some sample_offer\<rparr>),
     arm_offer_reads = Inr (), arm_chain = Inr (100, sample_txid), arm_random = ''1'', arm_now = 0\<rparr>"

definition sample_idle :: BitcoinExecution where
  "sample_idle = sample_execution\<lparr>LastReceipt := None, CompletedOffer := 0, BlocksGenerated := 0\<rparr>"

definition sample_world :: world where
  "sample_world = \<lparr>server = sample_idle, version = 0, stages = (\<lambda>_. Free), late = {}, issued = {}, transmitted = [],
     recorded = []\<rparr>"

definition sample_operation :: BitcoinArmedRPC where
  "sample_operation = sample_request\<lparr>rpc_ID := [], ProcessNonce := []\<rparr>"

definition sample_receipt :: BitcoinRPCReceipt where
  "sample_receipt = \<lparr>Request = sample_request, ReceivedAt = second, ReceiptHash = sample_txid\<rparr>"

definition sample_armed :: BitcoinExecution where
  "sample_armed = sample_idle\<lparr>ReservedFor := Some (initialization_ref sample_initialization),
     Armed := Some sample_request, Phase := PhaseArmed\<rparr>"

definition sample_done :: BitcoinExecution where
  "sample_done = sample_armed\<lparr>LastReceipt := Some sample_receipt, Armed := None, Phase := PhaseIdle,
     BlocksGenerated := 8, CompletedOffer := 5\<rparr>"

lemma sample_operations:
  "arm_record ''w'' sample_env sample_identity sample_idle sample_operation sample_idle = Inr (sample_armed, sample_request)"
  "arm_confirmed sample_env False sample_request"
  "mutate_call sample_request = Inr (CallGenerate ''http://10.0.0.1:18443'' ''miner'' ''w-1'' 8)"
  "account_record (\<lambda>s t n. 0) sample_armed sample_receipt sample_armed = Inr (Some sample_done)"
  "mutate_reply sample_request (Inr (HashResult sample_txid)) = Inr sample_txid"
  by code_simp+

text \<open>One offer of eight blocks is armed and transmitted, then its receipt recorded.\<close>

lemma sample_transmitted:
  "\<exists>w. worker_runs w (replicate 4 ''w'') \<and> transmitted w = [sample_request] \<and> recorded w = []
     \<and> server w = sample_armed \<and> version w = 1 \<and> stages w ''w'' = Awaiting sample_armed sample_request"
proof -
  let ?a = sample_armed and ?q = sample_request
  have start: "worker_runs sample_world []" "stages sample_world ''w'' = Free" "server sample_world = sample_idle"
    "issued sample_world = {}"
    by (auto intro!: runs_start simp: worker_start_def sample_world_def sample_idle_def sample_execution_def)
  define w1 where "w1 = goto (sample_world\<lparr>issued := {rpc_ID ?q}\<rparr>) ''w'' (Prepared ?a 0 ?q)"
  have s1: "worker_step sample_world ''w'' w1"
    using arm_read [of sample_world "''w''" sample_env sample_identity sample_idle sample_operation ?a ?q]
      sample_operations(1) start by (simp add: w1_def sample_world_def)
  define w2 where "w2 = goto (store w1 (ToArm ?q) ?a) ''w'' (Confirming ?a ?q)"
  have s2: "worker_step w1 ''w'' w2"
    using arm_write [of w1 "''w''" ?a ?q] by (simp add: w1_def w2_def sample_world_def)
  define w3 where "w3 = goto w2 ''w'' (Sending ?a ?q)"
  have s3: "worker_step w2 ''w'' w3"
    using confirm [of w2 "''w''" ?a ?q sample_env] sample_operations(2) by (simp add: w2_def w3_def)
  define w4 where "w4 = goto (w3\<lparr>transmitted := transmitted w3 @ [?q]\<rparr>) ''w'' (Awaiting ?a ?q)"
  have s4: "worker_step w3 ''w'' w4"
    using transmit [of w3 "''w''" ?a ?q] sample_operations(3) by (simp add: w3_def w4_def)
  have "worker_runs w4 ([''w''] @ [''w''] @ [''w''] @ [''w''])"
    using runs_step [OF runs_step [OF runs_step [OF runs_step [OF start(1) s1] s2] s3] s4] by simp
  moreover have "transmitted w4 = [?q]" "recorded w4 = []" "server w4 = ?a" "version w4 = 1"
    "stages w4 ''w'' = Awaiting ?a ?q"
    by (simp_all add: w4_def w3_def w2_def w1_def sample_world_def)
  ultimately show ?thesis by (intro exI [of _ w4]) (simp add: numeral_eq_Suc)
qed

lemma sample_recorded:
  "\<exists>w. worker_runs w (replicate 7 ''w'') \<and> transmitted w = [sample_request] \<and> recorded w = [sample_receipt]
     \<and> server w = sample_done"
proof -
  let ?a = sample_armed and ?q = sample_request and ?r = sample_receipt
  from sample_transmitted obtain w where w: "worker_runs w (replicate 4 ''w'')" "transmitted w = [?q]" "recorded w = []"
    "server w = ?a" "version w = 1" "stages w ''w'' = Awaiting ?a ?q" by blast
  define w1 where "w1 = goto w ''w'' (Accounting ?a ?r)"
  have s1: "worker_step w ''w'' w1"
    using answer [of w "''w''" ?a ?q "Inr (HashResult sample_txid)" ?r] w sample_operations(5)
    by (simp add: w1_def sample_receipt_def)
  define w2 where "w2 = goto w1 ''w'' (Recording ?a ?r sample_done 1)"
  have s2: "worker_step w1 ''w'' w2"
    using account_read [of w1 "''w''" ?a ?r "\<lambda>s t n. 0" sample_done] sample_operations(4) w by (simp add: w1_def w2_def)
  define w3 where "w3 = goto (store w2 (ToRecord ?r) sample_done) ''w'' Free"
  have s3: "worker_step w2 ''w'' w3"
    using account_write [of w2 "''w''" ?a ?r sample_done] w by (simp add: w1_def w2_def w3_def)
  have "worker_runs w3 (replicate 4 ''w'' @ [''w''] @ [''w''] @ [''w''])"
    using runs_step [OF runs_step [OF runs_step [OF w(1) s1] s2] s3] by simp
  moreover have "transmitted w3 = [?q]" "recorded w3 = [?r]" "server w3 = sample_done"
    using w by (simp_all add: w3_def w2_def w1_def)
  ultimately show ?thesis by (intro exI [of _ w3]) (simp add: numeral_eq_Suc)
qed

theorem requests_serialized_witness:
  "\<exists>w. worker_runs w (replicate 4 ''w'') \<and> transmitted w = [sample_request] \<and> recorded w = [] \<and> Armed (server w) = Some sample_request"
proof -
  from sample_transmitted obtain w where w: "worker_runs w (replicate 4 ''w'')" "transmitted w = [sample_request]"
    "recorded w = []" by blast
  with requests_serialized [OF w(1)] have "Armed (server w) = Some sample_request" by auto
  with w show ?thesis by blast
qed

theorem offers_transmitted_in_order_witness:
  "\<exists>w. worker_runs w (replicate 7 ''w'') \<and> transmitted w = [sample_request] \<and> 5 \<le> CompletedOffer (server w)"
proof -
  from sample_recorded obtain w where w: "worker_runs w (replicate 7 ''w'')" "transmitted w = [sample_request]"
    "server w = sample_done" by blast
  have "offer_number sample_request = Some 5" "Armed sample_done = None" by code_simp+
  with offers_transmitted_in_order [OF w(1)] w have "5 \<le> CompletedOffer (server w)" by auto
  with w show ?thesis by blast
qed

theorem receipts_recorded_once_witness:
  "\<exists>w. worker_runs w (replicate 7 ''w'') \<and> recorded w = [sample_receipt] \<and> BlocksGenerated (server w) = 8"
proof -
  from sample_recorded obtain w where w: "worker_runs w (replicate 7 ''w'')" "recorded w = [sample_receipt]" by blast
  have "wrap64 (\<Sum>receipt \<leftarrow> [sample_receipt]. blocks_of (Request receipt)) = 8" by code_simp
  with receipts_recorded_once [OF w(1)] w show ?thesis by auto
qed


end
