(* ===== verification/Bitcoin_Gates.thy ===== *)
theory Bitcoin_Gates
  imports Bitcoin_Worker Worker_Session Foundation_Policy
begin

text \<open>
  Model of the authority a Bitcoin opportunity needs: the identity checks of
  \<open>operators/network/internal/bitcoincontrol/admission.go\<close>, the frozen gates of \<open>gates.go\<close>
  (\<open>currentGate\<close>, \<open>advancementReady\<close>, \<open>awaitingFirstAnchor\<close>) and the selected producer of
  \<open>production_binding.go\<close>. A digest that the code recomputes from a specification is a field beside it. What
  a controller reads is a snapshot of the API server: a function of the names, with the clock, the outcome
  of the admission checks of package \<open>foundation\<close> and of a write. Operations take one snapshot for each
  place of the code that reads, so that anything may change between two reads.
\<close>

section \<open>Objects\<close>

record Gate =
  gate_Name :: string
  gate_Ceiling :: int

record BootstrapRequirement =
  req_Kind :: string
  req_Participant :: Binding
  req_MiningEnabled :: bool

record StacksGenesis =
  gs_UID :: string
  gs_Owner :: string
  gs_Deleted :: bool
  gs_SourceNetworkUID :: string
  gs_ChainDigest :: string
  gs_SpecDigest :: string
  gs_Epochs :: "(string \<times> int) list"
  gs_Gates :: "Gate list"
  gs_Requirements :: "BootstrapRequirement list"

text \<open>A gate observation is its name and the time of its completion.\<close>

record InitializationStatus =
  is_GenesisUID :: string
  is_GenesisDigest :: string
  is_GateIndex :: int
  is_AuthorizedCeiling :: int
  is_Completed :: bool
  is_Gates :: "(string \<times> time option) list"

record BitcoinStatus =
  bs_InitializationRef :: "Binding option"
  bs_ExecutionRefs :: "Binding list"

record BitcoinNetwork = StacksNetwork +
  bn_GenesisRef :: "Binding option"
  bn_GenesisDigest :: string
  bn_Initialization :: "InitializationStatus option"
  bn_Bitcoin :: "BitcoinStatus option"

record StacksProtocolObservation =
  pv_Available :: bool
  pv_Reason :: string
  pv_PodUID :: string
  pv_ContainerID :: string
  pv_ConfigurationDigest :: string
  pv_GenesisUID :: string
  pv_ObservedAt :: time
  pv_HighestStacksHeight :: u64
  pv_NetworkID :: u64
  pv_BurnHeight :: u64
  pv_StacksHeight :: u64
  pv_StacksTip :: string
  pv_FullySynced :: bool

record ParticipantRuntimeStatus =
  rt_Protocol :: "StacksProtocolObservation option"
  rt_ObservedGeneration :: int
  rt_PolicyDigest :: string
  rt_ConfigRef :: "Binding option"
  rt_ConfigurationDigest :: string
  rt_RPCSecretRef :: "Binding option"
  rt_PodRef :: "Binding option"
  rt_ContainerID :: string
  rt_Terminated :: bool

record InitializationPolicy =
  ip_TargetNodeRef :: string
  ip_MinimumHeight :: int
  ip_MatureOutputsPerMiner :: int
  ip_BatchGeneration :: bool

record BitcoinBlockProductionSpec =
  pp_Schedule :: "block_schedule option"
  pp_Targets :: "(string \<times> int) list"
  pp_PayoutWalletRef :: "string option"
  pp_Initialization :: "InitializationPolicy option"

text \<open>\<open>bc_Unverified\<close> is that the node's configuration declares itself unverified.\<close>

record BitcoinNodeConfiguration =
  bc_Unverified :: bool
  bc_WalletRefs :: "string list"

record Admission =
  adm_PolicyDigest :: string
  adm_ConfigurationDigest :: string
  adm_Dependencies :: "Binding list"
  adm_BitcoinNode :: "BitcoinNodeConfiguration option"
  adm_BitcoinBlockProduction :: "BitcoinBlockProductionSpec option"

text \<open>The execution status of a management worker with the fields bootstrap gates read.\<close>

record StackerExecutionStatus = WorkerExecutionStatus +
  we_ObservedGeneration :: int
  we_AppliedPolicyDigest :: string
  we_Transactions :: "TransactionExecutionStatus option"

text \<open>A condition is whether it is true and the generation it was observed for.\<close>

record BitcoinParticipant =
  bp_Name :: string
  bp_UID :: string
  bp_Owner :: string
  bp_Deleted :: bool
  bp_Generation :: int
  bp_NetworkUID :: string
  bp_ParticipantName :: string
  bp_Kind :: string
  bp_Suspended :: bool
  bp_Paused :: bool
  bp_Admission :: "Admission option"
  bp_AdmissionDigest :: string
  bp_Runtime :: "ParticipantRuntimeStatus option"
  bp_WorkloadReady :: "(bool \<times> int) option"
  bp_ConfigVerified :: "(bool \<times> int) option"
  bp_Execution :: "StackerExecutionStatus option"
  bp_Scheduling :: "BitcoinSchedulingStatus option"

record BitcoinBlockScheduleOverride =
  ov_Name :: string
  ov_UID :: string
  ov_CreationTimestamp :: time
  ov_Deleted :: bool
  ov_Generation :: int
  ov_Finalizers :: "string list"
  ov_NetworkUID :: string
  ov_ProductionRef :: string
  ov_Schedule :: "block_schedule option"
  ov_ScheduleRef :: "string option"
  ov_Duration :: duration
  ov_Phase :: string
  ov_ObservedGeneration :: int
  ov_Admission :: "BitcoinActiveOverride option"
  ov_PendingExpiresAt :: "time option"
  ov_Reason :: string

text \<open>A reusable schedule, with the digest of its specification.\<close>

record BitcoinBlockSchedule =
  bsch_Name :: string
  bsch_UID :: string
  bsch_Deleted :: bool
  bsch_Generation :: int
  bsch_Spec :: block_schedule
  bsch_SpecDigest :: string

record snapshot =
  sn_now :: time
  sn_draw :: "int \<Rightarrow> int"
  sn_initialization :: "string \<Rightarrow> BitcoinInitialization get"
  sn_network :: "BitcoinNetwork get"
  sn_genesis :: "string \<Rightarrow> StacksGenesis get"
  sn_participant :: "string \<Rightarrow> BitcoinParticipant get"
  sn_execution :: "string \<Rightarrow> BitcoinExecution get"
  sn_override :: "string \<Rightarrow> BitcoinBlockScheduleOverride get"
  sn_overrides :: "(BitcoinBlockScheduleOverride list \<times> bool) result"
  sn_schedule :: "string \<Rightarrow> BitcoinBlockSchedule get"
  sn_publicWallet :: "string \<Rightarrow> FrozenBitcoinWallet result"
  sn_eligibility :: "BitcoinParticipant \<Rightarrow> unit result"
  sn_admission :: "BitcoinNetwork \<Rightarrow> BitcoinParticipant \<Rightarrow> unit result"
  sn_bindings :: "BitcoinNetwork \<Rightarrow> Binding list \<Rightarrow> unit result"
  sn_write :: "unit result"

definition fetched :: "'a get \<Rightarrow> 'a result" where
  "fetched g = (case g of Got x \<Rightarrow> Inr x | NotFound \<Rightarrow> Inl ''not found'' | GetFailed e \<Rightarrow> Inl e)"

lemma fetched_eq [simp]: "fetched g = Inr x \<longleftrightarrow> g = Got x"
  by (cases g) (auto simp: fetched_def)

text \<open>\<open>objectref.Participant\<close>.\<close>

definition participant_ref :: "BitcoinParticipant \<Rightarrow> Binding" where
  "participant_ref p =
     \<lparr>Kind = ''StacksNetworkParticipant'', Name = bp_Name p, UID = bp_UID p, Fingerprint = []\<rparr>"

section \<open>Identity (admission.go)\<close>

definition bitcoin_failed :: "BitcoinNetwork \<Rightarrow> bool" where
  "bitcoin_failed root \<longleftrightarrow> network_failed (StacksNetwork.truncate root)"

definition participantIdentity :: "BitcoinNetwork \<Rightarrow> BitcoinParticipant \<Rightarrow> bool" where
  "participantIdentity root p \<longleftrightarrow>
     net_UID root \<noteq> [] \<and> \<not> net_Deleted root \<and> \<not> bp_Deleted p \<and> bp_NetworkUID p = net_UID root
     \<and> bp_Owner p = net_UID root
     \<and> (case bp_Admission p of None \<Rightarrow> False | Some a \<Rightarrow> adm_ConfigurationDigest a = adm_PolicyDigest a)
     \<and> list_ex (\<lambda>e. entry_Name e = bp_ParticipantName p \<and> entry_Kind e = bp_Kind p) (net_Participants root)
     \<and> list_ex (\<lambda>i. ii_Name i = bp_ParticipantName p \<and> ii_UID i = bp_UID p \<and> \<not> ii_Removing i) (net_Identities root)"

definition participantCurrent :: "BitcoinNetwork \<Rightarrow> BitcoinParticipant \<Rightarrow> bool" where
  "participantCurrent root p \<longleftrightarrow> \<not> bitcoin_failed root \<and> participantIdentity root p"

definition policy_digest :: "BitcoinParticipant \<Rightarrow> string" where
  "policy_digest p = (case bp_Admission p of Some a \<Rightarrow> adm_PolicyDigest a | None \<Rightarrow> [])"

definition production_policy :: "BitcoinParticipant \<Rightarrow> BitcoinBlockProductionSpec option" where
  "production_policy p = Option.bind (bp_Admission p) adm_BitcoinBlockProduction"

section \<open>Frozen gates (gates.go)\<close>

record gateAuthority =
  ga_genesis :: StacksGenesis
  ga_gate :: Gate
  ga_index :: nat

text \<open>The loop over the gates: names in order, rising ceilings, everything before the index completed
  and nothing from it on.\<close>

fun check_gates ::
  "nat \<Rightarrow> nat \<Rightarrow> int option \<Rightarrow> Gate list \<Rightarrow> (string \<times> time option) list \<Rightarrow> unit result" where
  "check_gates index i prev (g # gs) ((n, completed) # ss) =
     (if n \<noteq> gate_Name g \<or> (case prev of Some c \<Rightarrow> gate_Ceiling g \<le> c | None \<Rightarrow> False)
      then Inl ''bootstrap gate order differs''
      else if i < index \<and> completed = None then Inl ''prior bootstrap gate is incomplete''
      else if i \<ge> index \<and> completed \<noteq> None then Inl ''bootstrap completion index differs''
      else check_gates index (Suc i) (Some (gate_Ceiling g)) gs ss)"
| "check_gates index i prev _ _ = Inr ()"

definition first_gate :: "Gate list \<Rightarrow> BitcoinInitialization \<Rightarrow> bool" where
  "first_gate gates initial \<longleftrightarrow>
     (case gates of [] \<Rightarrow> False
      | g # _ \<Rightarrow> gate_Name g = ''PrepareBitcoin'' \<and> gate_Ceiling g = MinimumHeight initial)"

text \<open>The genesis both \<open>currentGate\<close> and \<open>baselineCompleted\<close> read, with its identity checks.\<close>

definition owned_genesis :: "BitcoinNetwork \<Rightarrow> Binding \<Rightarrow> StacksGenesis \<Rightarrow> bool" where
  "owned_genesis root ref genesis \<longleftrightarrow>
     gs_UID genesis = UID ref \<and> gs_SourceNetworkUID genesis = net_UID root \<and> \<not> gs_Deleted genesis
     \<and> gs_Owner genesis = net_UID root \<and> gs_ChainDigest genesis = bn_GenesisDigest root
     \<and> gs_SpecDigest genesis = Fingerprint ref"

definition currentGate :: "snapshot \<Rightarrow> BitcoinNetwork \<Rightarrow> BitcoinInitialization \<Rightarrow> gateAuthority result" where
  "currentGate S root initial =
     (case bn_GenesisRef root of
        None \<Rightarrow> Inl ''bootstrap gate authority unavailable''
      | Some ref \<Rightarrow>
          if Kind ref \<noteq> ''StacksGenesis'' \<or> Name ref \<noteq> Name (init_Genesis initial)
             \<or> UID ref \<noteq> UID (init_Genesis initial) \<or> Fingerprint ref \<noteq> Fingerprint (init_Genesis initial)
          then Inl ''bootstrap gate authority unavailable''
          else rbind (fetched (sn_genesis S (Name ref))) (\<lambda>genesis.
            if \<not> owned_genesis root ref genesis then Inl ''bootstrap genesis identity differs''
            else
              let gates = gs_Gates genesis in
              case bn_Initialization root of
                None \<Rightarrow>
                  if \<not> first_gate gates initial then Inl ''initial frozen gate unavailable''
                  else Inr \<lparr>ga_genesis = genesis, ga_gate = gates ! 0, ga_index = 0\<rparr>
              | Some state \<Rightarrow>
                  if is_Completed state \<or> is_AuthorizedCeiling state \<le> 0 \<or> is_GenesisUID state \<noteq> UID ref
                     \<or> is_GenesisDigest state \<noteq> bn_GenesisDigest root
                  then Inl ''bootstrap gate authority unavailable''
                  else
                    let index = nat (is_GateIndex state) in
                    if is_GateIndex state < 0 \<or> is_GateIndex state \<ge> int (length gates)
                       \<or> length (is_Gates state) \<noteq> length gates
                       \<or> gate_Ceiling (gates ! index) \<noteq> is_AuthorizedCeiling state
                       \<or> \<not> first_gate gates initial
                    then Inl ''bootstrap ceiling differs from frozen requirements''
                    else rbind (check_gates index 0 None gates (is_Gates state)) (\<lambda>_.
                      if index > 0 \<and> PreparedAt initial = None then Inl ''missing retained Bitcoin preparation''
                      else Inr \<lparr>ga_genesis = genesis, ga_gate = gates ! index, ga_index = index\<rparr>)))"

definition zero_hash :: string where "zero_hash = replicate 64 (CHR ''0'')"

definition awaitingFirstAnchor :: "BitcoinNetwork \<Rightarrow> ParticipantRuntimeStatus \<Rightarrow> int \<Rightarrow> time \<Rightarrow> bool" where
  "awaitingFirstAnchor root runtime height now =
     (case (rt_Protocol runtime, bn_GenesisRef root, rt_PodRef runtime) of
        (Some view, Some ref, Some pod) \<Rightarrow>
          \<not> pv_Available view \<and> pv_Reason view = ''AwaitingFirstAnchor'' \<and> pv_NetworkID view = 0x80000000
          \<and> pv_StacksHeight view = 0 \<and> pv_HighestStacksHeight view = 0 \<and> pv_StacksTip view = zero_hash
          \<and> pv_FullySynced view \<and> height \<ge> 0 \<and> pv_BurnHeight view = of_int height
          \<and> pv_GenesisUID view = UID ref \<and> pv_PodUID view = UID pod
          \<and> pv_ContainerID view = rt_ContainerID runtime
          \<and> pv_ConfigurationDigest view = rt_ConfigurationDigest runtime
          \<and> pv_ObservedAt view \<noteq> 0 \<and> \<not> pv_ObservedAt view > now \<and> now - pv_ObservedAt view \<le> ObservationFreshness
      | _ \<Rightarrow> False)"

text \<open>What the loop over the captured participants has found: pending enrollment demand, a miner waiting for
  its first anchor, and a chain that already has blocks.\<close>

record demand =
  dm_pending :: bool
  dm_firstAnchor :: bool
  dm_establishedChain :: bool

definition verified_condition :: "(bool \<times> int) option \<Rightarrow> int \<Rightarrow> bool" where
  "verified_condition c generation \<longleftrightarrow> c = Some (True, generation)"

definition actor_ready :: "BitcoinParticipant \<Rightarrow> bool" where
  "actor_ready p =
     (case bp_Runtime p of
        None \<Rightarrow> False
      | Some rt \<Rightarrow>
          \<not> bp_Suspended p \<and> rt_ObservedGeneration rt = bp_Generation p \<and> rt_PolicyDigest rt = policy_digest p
          \<and> (case rt_PodRef rt of None \<Rightarrow> False | Some b \<Rightarrow> UID b \<noteq> [])
          \<and> (case rt_ConfigRef rt of None \<Rightarrow> False | Some b \<Rightarrow> UID b \<noteq> [])
          \<and> rt_ContainerID rt \<noteq> [] \<and> \<not> rt_Terminated rt)"

definition enrollment_demand :: "BitcoinNetwork \<Rightarrow> BitcoinParticipant \<Rightarrow> time \<Rightarrow> bool" where
  "enrollment_demand root p now =
     (case bp_Execution p of
        None \<Rightarrow> False
      | Some ex \<Rightarrow>
          \<not> (we_Pending ex < 1) \<and> we_ProcessNonce ex \<noteq> [] \<and> we_Phase ex = ''Active''
          \<and> we_ObservedGeneration ex = bp_Generation p \<and> we_NetworkGeneration ex = net_Generation root
          \<and> we_AppliedPolicyDigest ex = policy_digest p
          \<and> \<not> now - we_ObservedAt ex > 10 * second \<and> \<not> we_ObservedAt ex > now
          \<and> (case we_Transactions ex of None \<Rightarrow> False | Some tx \<Rightarrow> Offered tx \<ge> 1 \<and> hashValid (LastTxID tx))
          \<and> list_ex (\<lambda>identity. ii_UID identity = bp_UID p
               \<and> (case ii_Worker identity of
                    None \<Rightarrow> False
                  | Some worker \<Rightarrow>
                      ws_Shutdown worker = None \<and> ws_Disposal worker = None
                      \<and> wp_UID (ws_Pod worker) = we_PodUID ex \<and> ws_ProfileDigest worker = we_ProfileDigest ex))
              (net_Identities root))"

definition has_blocks :: "BitcoinNetwork \<Rightarrow> BitcoinParticipant \<Rightarrow> bool" where
  "has_blocks root p =
     (case (Option.bind (bp_Runtime p) rt_Protocol, bn_GenesisRef root) of
        (Some view, Some ref) \<Rightarrow>
          pv_GenesisUID view = UID ref \<and> (pv_HighestStacksHeight view > 0 \<or> pv_StacksHeight view > 0)
      | _ \<Rightarrow> False)"

definition scan_requirement ::
  "snapshot \<Rightarrow> BitcoinNetwork \<Rightarrow> BitcoinInitialization \<Rightarrow> int \<Rightarrow> time \<Rightarrow> BootstrapRequirement \<Rightarrow> demand
     \<Rightarrow> demand result" where
  "scan_requirement S root initial height now required d =
     (if UID (req_Participant required) = UID (init_Production initial) then Inr d
      else rbind (fetched (sn_participant S (Name (req_Participant required)))) (\<lambda>p.
        if bp_UID p \<noteq> UID (req_Participant required) \<or> \<not> participantCurrent root p
        then Inl ''captured participant identity unavailable''
        else if bp_Kind p \<noteq> req_Kind required then Inl ''captured participant role differs''
        else if req_Kind required = ''StacksNode'' \<or> req_Kind required = ''StacksSigner''
        then if \<not> actor_ready p then Inl ''captured Stacks actor is not ready''
             else if \<not> verified_condition (bp_WorkloadReady p) (bp_Generation p)
                  \<or> \<not> verified_condition (bp_ConfigVerified p) (bp_Generation p)
             then Inl ''captured Stacks actor is not verified''
             else if bp_Kind p = ''StacksNode''
             then Inr (d\<lparr>dm_establishedChain := dm_establishedChain d \<or> has_blocks root p,
                         dm_firstAnchor := dm_firstAnchor d \<or> req_MiningEnabled required
                           \<and> (case bp_Runtime p of
                                Some rt \<Rightarrow> awaitingFirstAnchor root rt height now | None \<Rightarrow> False)\<rparr>)
             else Inr d
        else if req_Kind required = ''StacksStacker''
        then if bp_Paused p then Inr d
             else Inr (d\<lparr>dm_pending := dm_pending d \<or> enrollment_demand root p now\<rparr>)
        else Inr d))"

fun scan_requirements ::
  "snapshot \<Rightarrow> BitcoinNetwork \<Rightarrow> BitcoinInitialization \<Rightarrow> int \<Rightarrow> time \<Rightarrow> BootstrapRequirement list \<Rightarrow> demand
     \<Rightarrow> demand result" where
  "scan_requirements S root initial height now [] d = Inr d"
| "scan_requirements S root initial height now (r # rs) d =
     rbind (scan_requirement S root initial height now r d) (scan_requirements S root initial height now rs)"

text \<open>The activation height of PoX-4: one block after the last epoch named 2.5.\<close>

definition pox4_activation :: "(string \<times> int) list \<Rightarrow> int" where
  "pox4_activation epochs =
     fold (\<lambda>(name, start) a. if name = ''2.5'' \<and> start \<ge> 0 \<and> start < max_int64 then start + 1 else a) epochs (-1)"

definition advancementReady ::
  "snapshot \<Rightarrow> BitcoinNetwork \<Rightarrow> BitcoinInitialization \<Rightarrow> gateAuthority \<Rightarrow> int \<Rightarrow> time \<Rightarrow> bool result" where
  "advancementReady S root initial authority height now =
     (if ga_index authority = 0 then Inr True
      else rbind (scan_requirements S root initial height now (gs_Requirements (ga_genesis authority))
                    \<lparr>dm_pending = False, dm_firstAnchor = False, dm_establishedChain = False\<rparr>) (\<lambda>d.
        if gate_Name (ga_gate authority) = ''EnrollPoX4''
        then
          let activation = pox4_activation (gs_Epochs (ga_genesis authority)) in
          if activation < 0 \<or> activation \<ge> gate_Ceiling (ga_gate authority)
          then Inl ''PoX activation window unavailable''
          else if height \<ge> activation
          then Inr (dm_pending d \<or> dm_firstAnchor d \<and> \<not> dm_establishedChain d)
          else Inr True
        else Inr True))"

section \<open>The selected producer (production_binding.go)\<close>

text \<open>The UID of the last retained identity with that name which is not being removed.\<close>

definition allocated_uid :: "BitcoinNetwork \<Rightarrow> string \<Rightarrow> string" where
  "allocated_uid root name =
     (case find (\<lambda>i. ii_Name i = name \<and> \<not> ii_Removing i) (rev (net_Identities root)) of
        Some i \<Rightarrow> ii_UID i | None \<Rightarrow> [])"

definition frozen_initialization :: "BitcoinNetwork \<Rightarrow> BitcoinInitialization \<Rightarrow> InitializationPolicy \<Rightarrow> unit result" where
  "frozen_initialization root record' initial =
     (if ip_MinimumHeight initial \<noteq> MinimumHeight record'
         \<or> ip_MatureOutputsPerMiner initial \<noteq> MatureOutputsPerMiner record'
         \<or> ip_BatchGeneration initial \<noteq> BatchGeneration record'
      then Inl ''replacement changes frozen initialization''
      else
        let completed = (case bn_Initialization root of Some state \<Rightarrow> is_Completed state | None \<Rightarrow> False) in
        if \<not> list_ex (\<lambda>i. ii_Name i = ip_TargetNodeRef initial \<and> ii_UID i = UID (init_Target record')
                          \<and> (\<not> ii_Removing i \<or> completed)) (net_Identities root)
        then Inl ''replacement changes frozen initial target'' else Inr ())"

definition currentProduction :: "snapshot \<Rightarrow> BitcoinNetwork \<Rightarrow> BitcoinInitialization \<Rightarrow> BitcoinParticipant result" where
  "currentProduction S root record' =
     (case filter (\<lambda>e. entry_Kind e = ''BitcoinBlockProduction'') (net_Participants root) of
        [] \<Rightarrow> Inl ''production participant removed''
      | _ # _ # _ \<Rightarrow> Inl ''multiple selected Bitcoin producers''
      | [entry] \<Rightarrow>
          let uid = allocated_uid root (entry_Name entry) in
          if uid = [] then Inl ''producer allocation unavailable''
          else
            let bound = productionBinding record';
                name = (if UID bound = uid then Name bound
                        else if UID (init_Production record') = uid then Name (init_Production record')
                        else ParticipantName (net_UID root) (entry_Name entry))
            in rbind (fetched (sn_participant S name)) (\<lambda>p.
              if bp_UID p \<noteq> uid \<or> \<not> participantCurrent root p \<or> bp_Kind p \<noteq> ''BitcoinBlockProduction''
              then Inl ''producer identity unavailable''
              else case production_policy p of
                None \<Rightarrow> Inl ''producer identity unavailable''
              | Some policy \<Rightarrow>
                  (case pp_Initialization policy of
                     None \<Rightarrow> Inr p
                   | Some initial \<Rightarrow> rbind (frozen_initialization root record' initial) (\<lambda>_. Inr p))))"

end
