(* ===== verification/Bitcoin_Scheduler.thy ===== *)
theory Bitcoin_Scheduler
  imports Bitcoin_Gates
begin

text \<open>
  Model of the scheduler of \<open>operators/network/internal/bitcoincontrol\<close>: \<open>scheduler.go\<close> (\<open>Reconcile\<close>), the timing
  overrides of \<open>overrides.go\<close>, and the weighted baseline decisions of \<open>baseline.go\<close> and
  \<open>baseline_inputs.go\<close>. One reconciliation reads the API server at the places of type \<open>place\<close>, each with a
  snapshot of its own, and returns the writes it issued in order with its result: an error or the
  delay until the next reconciliation (\<open>0\<close> for none). Instants are kept in full resolution.
\<close>

section \<open>Reads, writes and reports\<close>

datatype place =
    AtRecord | AtRoot
  | AtOverride | AtOverrideProducer | AtOverrideClock | AtOverrideSchedule | AtOverrideEnd | AtOverrideWrite
  | AtActivation | AtDeadline | AtGate | AtProducer | AtExecutions | AtNodes | AtCeiling | AtPrepared | AtMaturity
  | AtEligibility | AtAdvance | AtOutstanding | AtPublish | AtWaiting | AtInterval | AtArmed | AtDue | AtNext | AtExpiry
  | AtReceipts | AtCompleted | AtInputs | AtSummary | AtObserved | AtDecision | AtTarget | AtWeights
  | AtReport | AtProjection | AtDelay

type_synonym reads = "place \<Rightarrow> snapshot"

datatype sched_write =
    WriteStatus BitcoinInitialization
  | WriteOffer BitcoinExecution BitcoinBlockOffer
  | WriteScheduling BitcoinParticipant BitcoinSchedulingStatus

type_synonym outcome = "sched_write list \<times> int result"

text \<open>What a reconciliation decides to report: the offer to publish first, the record with its phase and
  reason, and whether to continue at once.\<close>

record plan =
  pl_offer :: "(BitcoinExecution \<times> BitcoinBlockOffer) option"
  pl_record :: BitcoinInitialization
  pl_phase :: string
  pl_reason :: string
  pl_soon :: bool

type_synonym decision = "plan result"

abbreviation report :: "BitcoinInitialization \<Rightarrow> string \<Rightarrow> string \<Rightarrow> decision" where
  "report r phase reason \<equiv>
     Inr \<lparr>pl_offer = None, pl_record = r, pl_phase = phase, pl_reason = reason, pl_soon = False\<rparr>"

text \<open>An early return of the reconciliation is the left value of a sum.\<close>

definition decided :: "decision + decision \<Rightarrow> decision" where
  "decided d = (case d of Inl x \<Rightarrow> x | Inr x \<Rightarrow> x)"

lemma decided_simps [simp]: "decided (Inl d) = d" "decided (Inr d) = d"
  by (simp_all add: decided_def)

definition schedulerDelay :: "BitcoinInitialization \<Rightarrow> time \<Rightarrow> int" where
  "schedulerDelay record' now =
     (case NextOpportunityAt record' of
        Some due \<Rightarrow> if due > now then min poll_interval (due - now) else poll_interval
      | None \<Rightarrow> poll_interval)"

definition millisecond :: int where "millisecond = 1000000"

section \<open>Timing overrides (overrides.go)\<close>

abbreviation OverrideFinalizer :: string where "OverrideFinalizer \<equiv> ''bitcoin.stacks.org/schedule-override''"

definition overrideTerminal :: "string \<Rightarrow> bool" where
  "overrideTerminal phase \<longleftrightarrow> phase = ''Completed'' \<or> phase = ''Expired'' \<or> phase = ''Cancelled''"

definition overrideSchedule ::
  "snapshot \<Rightarrow> BitcoinBlockScheduleOverride \<Rightarrow> (block_schedule \<times> Binding option) result" where
  "overrideSchedule S request =
     rbind
       (case (ov_Schedule request, ov_ScheduleRef request) of
          (Some schedule, None) \<Rightarrow> Inr (schedule, None)
        | (None, Some name) \<Rightarrow>
            rbind (fetched (sn_schedule S name)) (\<lambda>object.
              if bsch_UID object = [] \<or> bsch_Deleted object then Inl ''schedule identity unavailable''
              else Inr (bsch_Spec object,
                        Some \<lparr>Kind = ''BitcoinBlockSchedule'', Name = bsch_Name object, UID = bsch_UID object,
                              Fingerprint = bsch_SpecDigest object\<rparr>))
        | _ \<Rightarrow> Inl ''exactly one schedule required'')
       (\<lambda>(schedule, pin). rbind (cadenceBounds (Some schedule)) (\<lambda>_. Inr (schedule, pin)))"

text \<open>\<open>objectref.BitcoinScheduleOverride\<close>.\<close>

definition override_ref :: "BitcoinBlockScheduleOverride \<Rightarrow> Binding" where
  "override_ref request =
     \<lparr>Kind = ''BitcoinBlockScheduleOverride'', Name = ov_Name request, UID = ov_UID request, Fingerprint = []\<rparr>"

definition effectiveSchedule :: "BitcoinInitialization \<Rightarrow> block_schedule option \<Rightarrow> block_schedule option" where
  "effectiveSchedule record' baseline =
     (case init_Override record' of Some active \<Rightarrow> Some (ao_Schedule active) | None \<Rightarrow> baseline)"

definition withdraw_stage :: "BitcoinBaselineStatus \<Rightarrow> BitcoinBaselineStatus" where
  "withdraw_stage b =
     (if Stage b = ''Selected'' \<or> Stage b = ''Offered''
      then b\<lparr>Scheduling := (Scheduling b)\<lparr>Unassigned := wrap64 (Unassigned (Scheduling b) + 1)\<rparr>, Stage := ''Unassigned''\<rparr>
      else b)"

definition withdrawBaseline :: "BitcoinInitialization \<Rightarrow> BitcoinInitialization" where
  "withdrawBaseline record' =
     record'\<lparr>init_Baseline := map_option withdraw_stage (init_Baseline record'),
             NextOpportunityAt := None, init_StatusOffer := None\<rparr>"

definition withdrawTiming :: "BitcoinInitialization \<Rightarrow> BitcoinInitialization" where
  "withdrawTiming record' =
     (if init_Baseline record' \<noteq> None then withdrawBaseline record'
      else record'\<lparr>NextOpportunityAt := None, init_StatusOffer := None\<rparr>)"

definition overrideBinding :: "BitcoinInitialization \<Rightarrow> Binding option" where
  "overrideBinding record' = map_option ao_Override (init_Override record')"

definition closed_network :: "BitcoinNetwork \<Rightarrow> bool" where
  "closed_network root \<longleftrightarrow> net_Deleted root \<or> bitcoin_failed root \<or> net_Operation root = ''Stopped''"

text \<open>Whether the retained activation still holds, for the request it names when that still exists.\<close>

definition override_valid ::
  "reads \<Rightarrow> BitcoinNetwork \<Rightarrow> BitcoinInitialization \<Rightarrow> BitcoinActiveOverride \<Rightarrow> BitcoinBlockScheduleOverride \<Rightarrow> bool" where
  "override_valid C root record' active request \<longleftrightarrow>
     \<not> ov_Deleted request \<and> \<not> overrideTerminal (ov_Phase request) \<and> \<not> closed_network root
     \<and> (case currentProduction (C AtOverrideProducer) root record' of
          Inl _ \<Rightarrow> False | Inr production \<Rightarrow> participant_ref production = ao_Production active)
     \<and> sn_now (C AtOverrideClock) < ao_ExpiresAt active
     \<and> overrideSchedule (C AtOverrideSchedule) request = Inr (ao_Schedule active, ao_ScheduleRef active)"

definition override_candidate ::
  "snapshot \<Rightarrow> BitcoinNetwork \<Rightarrow> BitcoinParticipant \<Rightarrow> BitcoinBlockScheduleOverride \<Rightarrow> bool" where
  "override_candidate S root production request \<longleftrightarrow>
     ov_NetworkUID request = net_UID root \<and> \<not> ov_Deleted request \<and> \<not> overrideTerminal (ov_Phase request)
     \<and> ov_Admission request = None \<and> sn_now S < ov_CreationTimestamp request + 300 * second
     \<and> ov_ProductionRef request = bp_ParticipantName production \<and> OverrideFinalizer \<in> set (ov_Finalizers request)"

fun first_activation ::
  "reads \<Rightarrow> BitcoinNetwork \<Rightarrow> BitcoinParticipant \<Rightarrow> BitcoinBlockScheduleOverride list \<Rightarrow> BitcoinActiveOverride option" where
  "first_activation C root production [] = None"
| "first_activation C root production (request # rest) =
     (if \<not> override_candidate (C AtOverride) root production request then first_activation C root production rest
      else case (overrideSchedule (C AtOverrideSchedule) request, snd (ov_Duration request)) of
        (Inr (schedule, pin), Inr duration) \<Rightarrow>
          if duration \<le> 0 \<or> duration > 3600 * second then first_activation C root production rest
          else let now = sn_now (C AtActivation) in
            Some \<lparr>ao_Override = override_ref request, ao_Production = participant_ref production,
                  ao_Schedule = schedule, ao_ScheduleRef = pin, ao_StartedAt = now, ao_ExpiresAt = now + duration\<rparr>
      | _ \<Rightarrow> first_activation C root production rest)"

text \<open>\<open>reconcileOverride\<close>: the record it leaves, its writes, and whether the reconciliation ends here.\<close>

definition write_override :: "reads \<Rightarrow> BitcoinInitialization \<Rightarrow> BitcoinInitialization \<times> sched_write list \<times> bool result" where
  "write_override C record' = (record', [WriteStatus record'], rbind (sn_write (C AtOverrideWrite)) (\<lambda>_. Inr True))"

definition reconcileOverride ::
  "reads \<Rightarrow> BitcoinNetwork \<Rightarrow> BitcoinInitialization \<Rightarrow> BitcoinInitialization \<times> sched_write list \<times> bool result" where
  "reconcileOverride C root record' =
     (case init_Override record' of
        Some active \<Rightarrow>
          (case sn_override (C AtOverride) (Name (ao_Override active)) of
             GetFailed e \<Rightarrow> (record', [], Inl e)
           | got \<Rightarrow>
               let current = (case got of
                     Got r \<Rightarrow> if ov_UID r = UID (ao_Override active) then Some r else None | _ \<Rightarrow> None) in
               (case current of
                  Some request \<Rightarrow>
                    if override_valid C root record' active request then (record', [], Inr False)
                    else if ov_Admission request \<noteq> Some active then (record', [], Inr True)
                    else if \<not> sn_now (C AtOverrideEnd) < ao_ExpiresAt active \<and> \<not> overrideTerminal (ov_Phase request)
                    then (record', [], Inr True)
                    else write_override C (withdrawTiming (record'\<lparr>init_Override := None\<rparr>))
                | None \<Rightarrow> write_override C (withdrawTiming (record'\<lparr>init_Override := None\<rparr>))))
      | None \<Rightarrow>
          if closed_network root then (record', [], Inr False)
          else case currentProduction (C AtOverrideProducer) root record' of
            Inl _ \<Rightarrow> (record', [], Inr False)
          | Inr production \<Rightarrow>
              (case sn_overrides (C AtOverride) of
                 Inl e \<Rightarrow> (record', [], Inl e)
               | Inr (items, continue') \<Rightarrow>
                   if length items > 1000 \<or> continue' then (record', [], Inl ''override inventory incomplete'')
                   else case first_activation C root production
                               (sort_key ov_CreationTimestamp (sort_key ov_UID items)) of
                     None \<Rightarrow> (record', [], Inr False)
                   | Some active \<Rightarrow> write_override C (withdrawTiming (record'\<lparr>init_Override := Some active\<rparr>))))"

text \<open>\<open>authorizeTimingOverride\<close>, the worker's last check of the activation, at one snapshot.\<close>

definition authorizeTimingOverride ::
  "snapshot \<Rightarrow> BitcoinNetwork \<Rightarrow> BitcoinInitialization \<Rightarrow> BitcoinBlockOffer \<Rightarrow> unit result" where
  "authorizeTimingOverride S root initial offer =
     (case init_Override initial of
        None \<Rightarrow> if Override offer \<noteq> None then Inl ''override activation withdrawn'' else Inr ()
      | Some active \<Rightarrow>
          if Override offer \<noteq> Some (ao_Override active) \<or> ao_Production active \<noteq> Production offer
             \<or> \<not> sn_now S < ao_ExpiresAt active
          then Inl ''override activation differs or expired''
          else rbind (fetched (sn_override S (Name (ao_Override active)))) (\<lambda>request.
            if ov_UID request \<noteq> UID (ao_Override active) \<or> ov_NetworkUID request \<noteq> net_UID root
               \<or> ov_Deleted request \<or> overrideTerminal (ov_Phase request)
               \<or> OverrideFinalizer \<notin> set (ov_Finalizers request)
            then Inl ''override request unavailable''
            else if overrideSchedule S request \<noteq> Inr (ao_Schedule active, ao_ScheduleRef active)
            then Inl ''override schedule identity differs'' else Inr ()))"

section \<open>Bootstrap (scheduler.go)\<close>

text \<open>\<open>allRecords\<close>: every retained execution record, by the UID of its participant.\<close>

fun collect_executions ::
  "snapshot \<Rightarrow> BitcoinInitialization \<Rightarrow> Binding list \<Rightarrow> (string \<Rightarrow> BitcoinExecution option)
     \<Rightarrow> decision + (string \<Rightarrow> BitcoinExecution option)" where
  "collect_executions S record' [] m = Inr m"
| "collect_executions S record' (ref # refs) m =
     (case sn_execution S (Name ref) of
        Got candidate \<Rightarrow>
          if exec_UID candidate \<noteq> UID ref then Inl (report record' ''Blocked'' ''ExecutionRecordReplaced'')
          else collect_executions S record' refs (m(UID (exec_Participant candidate) \<mapsto> candidate))
      | _ \<Rightarrow> Inl (report record' ''Blocked'' ''ExecutionRecordUnavailable''))"

definition ordered_nodes :: "BitcoinInitialization \<Rightarrow> Binding list" where
  "ordered_nodes record' =
     filter (\<lambda>n. UID n = UID (init_Target record')) (init_Nodes record')
     @ filter (\<lambda>n. UID n \<noteq> UID (init_Target record')) (init_Nodes record')"

text \<open>What the loop over the nodes has established so far.\<close>

record node_scan =
  ns_record :: BitcoinInitialization
  ns_target :: "BitcoinExecution option"
  ns_height :: int
  ns_tip :: string
  ns_mature :: "string \<Rightarrow> int"

definition node_actor :: "snapshot \<Rightarrow> BitcoinNetwork \<Rightarrow> Binding \<Rightarrow> BitcoinObservation \<Rightarrow> BitcoinParticipant option" where
  "node_actor S root node observation =
     (case sn_participant S (Name node) of
        Got p \<Rightarrow>
          if bp_UID p = UID node \<and> participantCurrent root p
             \<and> (case bp_Runtime p of
                  None \<Rightarrow> False
                | Some rt \<Rightarrow>
                    map_option UID (rt_PodRef rt) = Some (UID (target_Pod (obs_Target observation)))
                    \<and> rt_ContainerID rt = target_ContainerID (obs_Target observation)
                    \<and> policy_digest p = target_PolicyDigest (obs_Target observation)
                    \<and> rt_ConfigRef rt = Some (target_Configuration (obs_Target observation))
                    \<and> rt_RPCSecretRef rt = Some (target_Credentials (obs_Target observation)))
          then Some p else None
      | _ \<Rightarrow> None)"

definition fresh_observation :: "int \<Rightarrow> time \<Rightarrow> BitcoinObservation \<Rightarrow> bool" where
  "fresh_observation freshness now observation \<longleftrightarrow>
     \<not> now - obs_ObservedAt observation > freshness \<and> \<not> obs_ObservedAt observation > now"

definition wallet_bound :: "Binding list \<Rightarrow> BitcoinWalletObservation list \<Rightarrow> string \<Rightarrow> bool" where
  "wallet_bound deps observed name \<longleftrightarrow>
     list_ex (\<lambda>w. list_ex (\<lambda>b. Kind b = ''BitcoinWallet'' \<and> Name b = name \<and> UID b = UID (wo_Wallet w)
                              \<and> Fingerprint b = Fingerprint (wo_Wallet w)) deps) observed"

fun mature_outputs :: "BitcoinWalletObservation list \<Rightarrow> (string \<Rightarrow> int) \<Rightarrow> string \<Rightarrow> int" where
  "mature_outputs [] m = m"
| "mature_outputs (w # ws) m =
     mature_outputs ws
       (if wo_MatureOutputs w > m (UID (wo_Wallet w)) then m(UID (wo_Wallet w) := wo_MatureOutputs w) else m)"

definition scan_wallets :: "BitcoinParticipant \<Rightarrow> BitcoinObservation \<Rightarrow> node_scan \<Rightarrow> decision + node_scan" where
  "scan_wallets p observation ns =
     (case bp_Admission p of
        None \<Rightarrow> Inl (Inl ''nil pointer dereference'')
      | Some admission \<Rightarrow>
          (case adm_BitcoinNode admission of
             None \<Rightarrow> Inl (Inl ''nil pointer dereference'')
           | Some config \<Rightarrow>
               if length (obs_Wallets observation) \<noteq> length (bc_WalletRefs config)
               then Inl (report (ns_record ns) ''Waiting'' ''WalletInventoryIncomplete'')
               else if \<not> list_all (wallet_bound (adm_Dependencies admission) (obs_Wallets observation)) (bc_WalletRefs config)
               then Inl (report (ns_record ns) ''Waiting'' ''WalletIdentityUnavailable'')
               else if \<not> list_all wo_Ready (obs_Wallets observation)
               then Inl (report (ns_record ns) ''Waiting'' ''WalletsPreparing'')
               else Inr (ns\<lparr>ns_mature := mature_outputs (obs_Wallets observation) (ns_mature ns)\<rparr>)))"

definition scan_node ::
  "snapshot \<Rightarrow> int \<Rightarrow> BitcoinNetwork \<Rightarrow> (string \<Rightarrow> BitcoinExecution option) \<Rightarrow> Binding \<Rightarrow> node_scan
     \<Rightarrow> decision + node_scan" where
  "scan_node S freshness root executions node ns =
     (let r = ns_record ns; isTarget = (UID node = UID (init_Target r)) in
      case executions (UID node) of
        None \<Rightarrow> Inl (report r ''Blocked'' ''ExecutionBindingUnavailable'')
      | Some execution \<Rightarrow>
          if exec_NetworkUID execution \<noteq> net_UID root \<or> exec_Owner execution \<noteq> net_UID root
          then Inl (report r ''Blocked'' ''ExecutionBindingUnavailable'')
          else if Armed execution \<noteq> None then Inl (report r ''Waiting'' ''RPCOutstanding'')
          else case Observation execution of
            None \<Rightarrow> Inl (report r ''Waiting'' ''NodeObservationUnavailable'')
          | Some observation \<Rightarrow>
              if \<not> fresh_observation freshness (sn_now S) observation
              then Inl (report r ''Waiting'' ''NodeObservationUnavailable'')
              else case node_actor S root node observation of
                None \<Rightarrow> Inl (report r ''Waiting'' ''NodeObservationIdentityChanged'')
              | Some p \<Rightarrow>
                  let r1 = (if isTarget \<and> obs_Height observation \<ge> MinimumHeight r \<and> FirstCeilingObservedAt r = None
                            then r\<lparr>FirstCeilingObservedAt := Some (obs_ObservedAt observation)\<rparr> else r);
                      ns1 = ns\<lparr>ns_record := r1, ns_target := (if isTarget then Some execution else ns_target ns)\<rparr>
                  in if ns_height ns < 0
                     then scan_wallets p observation
                            (ns1\<lparr>ns_height := obs_Height observation, ns_tip := obs_Tip observation\<rparr>)
                     else if ns_height ns \<noteq> obs_Height observation \<or> ns_tip ns \<noteq> obs_Tip observation
                     then Inl (report r1 ''Waiting'' ''CoreViewsDiverged'')
                     else scan_wallets p observation ns1)"

fun scan_nodes ::
  "snapshot \<Rightarrow> int \<Rightarrow> BitcoinNetwork \<Rightarrow> (string \<Rightarrow> BitcoinExecution option) \<Rightarrow> Binding list \<Rightarrow> node_scan
     \<Rightarrow> decision + node_scan" where
  "scan_nodes S freshness root executions [] ns = Inr ns"
| "scan_nodes S freshness root executions (node # nodes) ns =
     rbind (scan_node S freshness root executions node ns) (scan_nodes S freshness root executions nodes)"

text \<open>The position of the agreed height against the gate: a report when there is nothing to generate.\<close>

definition gate_position :: "reads \<Rightarrow> gateAuthority \<Rightarrow> node_scan \<Rightarrow> decision + unit" where
  "gate_position C authority ns =
     (let r = ns_record ns; height = ns_height ns; ceiling = gate_Ceiling (ga_gate authority) in
      if height > ceiling then Inl (report r ''Blocked'' ''FrozenCeilingExceeded'')
      else if ga_index authority = 0 \<and> height \<ge> MinimumHeight r
      then if height \<noteq> MinimumHeight r then Inl (report r ''Blocked'' ''FrozenCeilingExceeded'')
        else
          let first = (case FirstCeilingObservedAt r of Some t \<Rightarrow> t | None \<Rightarrow> sn_now (C AtCeiling));
              prepared = list_all (\<lambda>w. ns_mature ns (UID (FrozenWallet w)) \<ge> MatureOutputsPerMiner r) (MinerWallets r);
              r1 = r\<lparr>FirstCeilingObservedAt := Some first,
                     PreparedAt := (if prepared \<and> PreparedAt r = None then Some (sn_now (C AtPrepared)) else PreparedAt r),
                     NextOpportunityAt := None\<rparr>
          in Inl (if \<not> prepared \<and> sn_now (C AtMaturity) - first \<ge> 120 * second
                  then report r1 ''Blocked'' ''PrepareBitcoinObservationDeadline''
                  else if \<not> prepared then report r1 ''Held'' ''MinerMaturityUnconfirmed''
                  else report r1 ''Held'' ''NextGateNotImplemented'')
      else if PreparedAt r \<noteq> None \<and> height < MinimumHeight r
      then Inl (report r ''Blocked'' ''PreparedChainRegressed'')
      else if height \<ge> ceiling then Inl (report (r\<lparr>NextOpportunityAt := None\<rparr>) ''Held'' ''FrozenGateReached'')
      else Inr ())"

definition may_advance ::
  "reads \<Rightarrow> BitcoinNetwork \<Rightarrow> gateAuthority \<Rightarrow> BitcoinParticipant \<Rightarrow> node_scan \<Rightarrow> decision + unit" where
  "may_advance C root authority production ns =
     (let r = ns_record ns in
      case sn_eligibility (C AtEligibility) production of
        Inl _ \<Rightarrow> Inl (report (r\<lparr>NextOpportunityAt := None, init_StatusOffer := None\<rparr>) ''Blocked'' ''ProductionSourceUnavailable'')
      | Inr _ \<Rightarrow>
          (case advancementReady (C AtAdvance) root r authority (ns_height ns) (sn_now (C AtAdvance)) of
             Inl _ \<Rightarrow> Inl (report r ''Waiting'' ''StacksReadinessUnavailable'')
           | Inr False \<Rightarrow> Inl (report r ''Waiting'' ''AwaitingEnrollmentDemand'')
           | Inr True \<Rightarrow> Inr ()))"

text \<open>The observation that selected the last accounted offer is not used again.\<close>

definition awaiting_observation :: "BitcoinExecution \<Rightarrow> node_scan \<Rightarrow> bool" where
  "awaiting_observation target ns =
     (case (LastReceipt target, Observation target) of
        (Some receipt, Some observation) \<Rightarrow>
          (case RpcOffer (Request receipt) of
             None \<Rightarrow> False
           | Some offer \<Rightarrow>
               Number offer = LastAccountedOffer (ns_record ns) \<and> ns_height ns = ExpectedHeight offer
               \<and> ns_tip ns = ExpectedTip offer \<and> \<not> obs_ObservedAt observation > ReceivedAt receipt)
      | _ \<Rightarrow> False)"

definition outstanding_offer ::
  "time \<Rightarrow> BitcoinParticipant \<Rightarrow> node_scan \<Rightarrow> BitcoinBlockOffer \<Rightarrow> bool" where
  "outstanding_offer now production ns offer \<longleftrightarrow>
     Number offer > LastAccountedOffer (ns_record ns) \<and> now < ExpiresAt offer
     \<and> ExpectedHeight offer = ns_height ns \<and> ExpectedTip offer = ns_tip ns
     \<and> PolicyDigest offer = policy_digest production \<and> Production offer = participant_ref production"

definition funded_count :: "BitcoinInitialization \<Rightarrow> string \<Rightarrow> int" where
  "funded_count r uid = fold (\<lambda>c n. if WalletUID c = uid then Outputs c else n) (Funded r) 0"

text \<open>The wallet of the next opportunity with the outputs it still needs.\<close>

definition next_wallet :: "BitcoinInitialization \<Rightarrow> FrozenBitcoinWallet \<times> int" where
  "next_wallet r =
     (if PreparedAt r \<noteq> None then (PayoutWallet r, 0)
      else case find (\<lambda>w. funded_count r (UID (FrozenWallet w)) < MatureOutputsPerMiner r) (MinerWallets r) of
        None \<Rightarrow> (PayoutWallet r, 0)
      | Some w \<Rightarrow> (w, wrap32 (MatureOutputsPerMiner r - funded_count r (UID (FrozenWallet w)))))"

definition last_number :: "BitcoinInitialization \<Rightarrow> BitcoinExecution \<Rightarrow> int" where
  "last_number r target =
     (let n1 = max (LastAccountedOffer r) (CompletedOffer target);
          n2 = (case init_StatusOffer r of Some offer \<Rightarrow> max n1 (Number offer) | None \<Rightarrow> n1)
      in case exec_Offer target of Some offer \<Rightarrow> max n2 (Number offer) | None \<Rightarrow> n2)"

definition bootstrap_offer ::
  "reads \<Rightarrow> gateAuthority \<Rightarrow> BitcoinParticipant \<Rightarrow> BitcoinExecution \<Rightarrow> node_scan \<Rightarrow> int \<Rightarrow> BitcoinBlockOffer" where
  "bootstrap_offer C authority production target ns interval =
     (let r = ns_record ns; (wallet, remaining) = next_wallet r; ceiling = gate_Ceiling (ga_gate authority) in
      \<lparr>Count = (if ga_index authority = 0 then bootstrapBatch r (ns_height ns) ceiling remaining else 0),
       Override = overrideBinding r, Mode = [], OfferTarget = None, Initialization = initialization_ref r,
       Production = participant_ref production, PolicyDigest = policy_digest production,
       Number = last_number r target + 1, OfferAddress = WalletAddress wallet, Wallet = FrozenWallet wallet,
       ExpectedHeight = ns_height ns, ExpectedTip = ns_tip ns, Ceiling = ceiling,
       ExpiresAt = sn_now (C AtExpiry) + max interval (30 * second)\<rparr>)"

definition opportunity ::
  "reads \<Rightarrow> gateAuthority \<Rightarrow> BitcoinParticipant \<Rightarrow> BitcoinExecution \<Rightarrow> node_scan \<Rightarrow> decision" where
  "opportunity C authority production target ns =
     (let r = ns_record ns in
      if awaiting_observation target ns then report r ''Waiting'' ''AwaitingPostReceiptObservation''
      else case Option.bind (init_StatusOffer r) (\<lambda>offer.
                  if outstanding_offer (sn_now (C AtOutstanding)) production ns offer then Some offer else None) of
        Some offer \<Rightarrow>
          Inr \<lparr>pl_offer = (if exec_Offer target \<noteq> Some offer then Some (target, offer) else None), pl_record = r,
               pl_phase = ''Preparing'', pl_reason = ''OpportunityOutstanding'', pl_soon = False\<rparr>
      | None \<Rightarrow>
          if (case NextOpportunityAt r of Some next \<Rightarrow> sn_now (C AtWaiting) < next | None \<Rightarrow> False)
          then report r ''Preparing'' ''CadenceWaiting''
          else case schedule_interval (sn_draw (C AtInterval))
                      (effectiveSchedule r (Option.bind (production_policy production) pp_Schedule)) of
            Inl _ \<Rightarrow> report r ''Blocked'' ''CadenceUnavailable''
          | Inr interval \<Rightarrow>
              (case NextOpportunityAt r of
                 None \<Rightarrow> report (r\<lparr>NextOpportunityAt := Some (sn_now (C AtArmed) + interval)\<rparr>) ''Preparing'' ''CadenceArmed''
               | Some next \<Rightarrow>
                   if sn_now (C AtDue) < next then report r ''Preparing'' ''CadenceWaiting''
                   else if last_number r target = max_int64
                   then report r ''Blocked'' ''OpportunityCounterExhausted''
                   else Inr \<lparr>pl_offer = None,
                             pl_record = r\<lparr>NextOpportunityAt := Some (sn_now (C AtNext) + interval),
                                           init_StatusOffer := Some (bootstrap_offer C authority production target ns interval)\<rparr>,
                             pl_phase = ''Preparing'', pl_reason = ''OpportunitySelected'', pl_soon = True\<rparr>))"

definition execution_refs :: "BitcoinNetwork \<Rightarrow> Binding list" where
  "execution_refs root = (case bn_Bitcoin root of Some b \<Rightarrow> bs_ExecutionRefs b | None \<Rightarrow> [])"

definition adopt_production :: "BitcoinParticipant \<Rightarrow> BitcoinInitialization \<Rightarrow> BitcoinInitialization" where
  "adopt_production production r =
     (if init_StatusProduction r \<noteq> Some (participant_ref production)
      then r\<lparr>init_StatusProduction := Some (participant_ref production), NextOpportunityAt := None\<rparr> else r)"

definition bootstrap_account ::
  "BitcoinNetwork \<Rightarrow> (string \<Rightarrow> BitcoinExecution option) \<Rightarrow> BitcoinInitialization \<Rightarrow> BitcoinInitialization" where
  "bootstrap_account root executions r =
     (case executions (UID (init_Target r)) of
        Some target \<Rightarrow> fst (accountBootstrapReceipt (net_UID root) r target) | None \<Rightarrow> r)"

text \<open>The rest of the reconciliation once every node was observed.\<close>

definition bootstrap_tail ::
  "reads \<Rightarrow> BitcoinNetwork \<Rightarrow> gateAuthority \<Rightarrow> BitcoinParticipant \<Rightarrow> node_scan \<Rightarrow> decision + decision" where
  "bootstrap_tail C root authority production ns =
     (case ns_target ns of
        None \<Rightarrow> Inl (report (ns_record ns) ''Blocked'' ''InitializationTargetUnavailable'')
      | Some target \<Rightarrow>
          if ns_height ns < 0
          then Inl (report (ns_record ns) ''Blocked'' ''InitializationTargetUnavailable'')
          else rbind (gate_position C authority ns) (\<lambda>_.
            rbind (may_advance C root authority production ns) (\<lambda>_.
              Inr (opportunity C authority production target ns))))"

definition reconcileBootstrap :: "reads \<Rightarrow> int \<Rightarrow> BitcoinNetwork \<Rightarrow> BitcoinInitialization \<Rightarrow> decision" where
  "reconcileBootstrap C freshness root record' =
     decided
       (if bitcoin_failed root then Inl (report record' ''Blocked'' ''NetworkFailed'')
        else if net_Deleted root \<or> net_Operation root = ''Stopped''
        then Inl (report (record'\<lparr>NextOpportunityAt := None\<rparr>) ''Abandoned'' ''NetworkStopped'')
        else if PreparedAt record' = None
                \<and> (case FirstCeilingObservedAt record' of
                     Some t \<Rightarrow> \<not> sn_now (C AtDeadline) < t + 120 * second | None \<Rightarrow> False)
        then Inl (report (record'\<lparr>NextOpportunityAt := None\<rparr>) ''Blocked'' ''PrepareBitcoinObservationDeadline'')
        else case currentGate (C AtGate) root record' of
          Inl _ \<Rightarrow> Inl (report record' ''Held'' ''BootstrapGateAuthorityUnavailable'')
        | Inr authority \<Rightarrow>
            (case currentProduction (C AtProducer) root record' of
               Inl _ \<Rightarrow> Inl (report record' ''Blocked'' ''ProductionIdentityUnavailable'')
             | Inr production \<Rightarrow>
                 let r1 = adopt_production production record' in
                 if net_Operation root = ''Paused'' \<or> bp_Paused production
                 then Inl (report (r1\<lparr>NextOpportunityAt := None\<rparr>) ''Paused'' ''DesiredPause'')
                 else rbind (collect_executions (C AtExecutions) r1 (execution_refs root) (\<lambda>_. None)) (\<lambda>executions.
                   let r2 = bootstrap_account root executions r1 in
                   rbind (scan_nodes (C AtNodes) freshness root executions (ordered_nodes r2)
                            \<lparr>ns_record = r2, ns_target = None, ns_height = -1, ns_tip = [], ns_mature = (\<lambda>_. 0)\<rparr>)
                     (bootstrap_tail C root authority production))))"

end
