(* ===== verification/Bitcoin_Baseline.thy ===== *)
theory Bitcoin_Baseline
  imports Bitcoin_Scheduler
begin

text \<open>
  Model of the baseline half of the scheduler (\<open>baseline.go\<close>, \<open>baseline_inputs.go\<close> of
  \<open>operators/network/internal/bitcoincontrol\<close>) and of the whole \<open>Reconcile\<close> of \<open>scheduler.go\<close>. After bootstrap
  every due opportunity is one durable decision: select a target by weight, commit the offer, publish it to
  the target's execution record, and count what became of it.
\<close>

section \<open>Completed initialization and admitted inputs (baseline_inputs.go)\<close>

fun check_completed :: "int option \<Rightarrow> Gate list \<Rightarrow> (string \<times> time option) list \<Rightarrow> unit result" where
  "check_completed prev (g # gs) ((n, completed) # ss) =
     (if n \<noteq> gate_Name g \<or> completed = None \<or> (case prev of Some c \<Rightarrow> gate_Ceiling g \<le> c | None \<Rightarrow> False)
      then Inl ''captured gate completion unavailable''
      else check_completed (Some (gate_Ceiling g)) gs ss)"
| "check_completed prev _ _ = Inr ()"

definition baselineCompleted :: "snapshot \<Rightarrow> BitcoinNetwork \<Rightarrow> BitcoinInitialization \<Rightarrow> unit result" where
  "baselineCompleted S root initial =
     (case (bn_Initialization root, bn_GenesisRef root) of
        (Some state, Some ref) \<Rightarrow>
          if \<not> is_Completed state \<or> PreparedAt initial = None \<or> ref \<noteq> init_Genesis initial
             \<or> is_GenesisUID state \<noteq> UID ref \<or> is_GenesisDigest state \<noteq> bn_GenesisDigest root
          then Inl ''completed initialization binding unavailable''
          else rbind (fetched (sn_genesis S (Name ref))) (\<lambda>genesis.
            if \<not> owned_genesis root ref genesis then Inl ''completed genesis identity differs''
            else
              let gates = gs_Gates genesis in
              if gates = [] \<or> length gates \<noteq> length (is_Gates state) \<or> is_GateIndex state \<noteq> int (length gates)
                 \<or> \<not> first_gate gates initial \<or> is_AuthorizedCeiling state \<noteq> gate_Ceiling (last gates)
              then Inl ''completed gate inventory differs''
              else check_completed None gates (is_Gates state))
      | _ \<Rightarrow> Inl ''completed initialization binding unavailable'')"

definition empty_scheduling :: "Binding \<Rightarrow> BitcoinSchedulingStatus" where
  "empty_scheduling ref =
     \<lparr>sc_Override = None, sc_Initialization = ref, sc_AdmissionDigest = [], sc_PolicyDigest = [], sc_Schedule = None,
      sc_ScheduleRef = None, sc_ScheduleGeneration = 0, sc_Targets = [], sc_NextOpportunityAt = None,
      Opportunities = 0, Assigned = 0, Acknowledged = 0, LastAcknowledgedAt = None, sc_ObservedAt = None,
      EligibleTargets = 0, sc_ProgressWindowSeconds = 0, Skipped = 0, Unassigned = 0, sc_Reason = []\<rparr>"

text \<open>The loop over the admitted dependencies: the pinned payout wallet, and at most one pinned schedule that
  must still be the admitted one.\<close>

record pinned =
  pin_payout :: "Binding option"
  pin_schedule :: "Binding option"
  pin_generation :: int

fun scan_dependencies ::
  "snapshot \<Rightarrow> string \<Rightarrow> block_schedule \<Rightarrow> Binding list \<Rightarrow> pinned \<Rightarrow> pinned result" where
  "scan_dependencies S payoutName schedule [] p = Inr p"
| "scan_dependencies S payoutName schedule (dep # deps) p =
     (let p1 = (if Kind dep = ''BitcoinWallet'' \<and> Name dep = payoutName then p\<lparr>pin_payout := Some dep\<rparr> else p) in
      if Kind dep = ''BitcoinBlockSchedule''
      then if pin_schedule p1 \<noteq> None then Inl ''ambiguous admitted schedule''
        else case sn_schedule S (Name dep) of
          Got object \<Rightarrow>
            if bsch_UID object \<noteq> UID dep \<or> bsch_Deleted object \<or> bsch_SpecDigest object \<noteq> Fingerprint dep
               \<or> schedule \<noteq> bsch_Spec object
            then Inl ''admitted schedule identity unavailable''
            else scan_dependencies S payoutName schedule deps
                   (p1\<lparr>pin_schedule := Some dep, pin_generation := bsch_Generation object\<rparr>)
        | _ \<Rightarrow> Inl ''admitted schedule identity unavailable''
      else scan_dependencies S payoutName schedule deps p1)"

text \<open>The UID of the last retained identity with that name.\<close>

definition identity_uid :: "BitcoinNetwork \<Rightarrow> string \<Rightarrow> string" where
  "identity_uid root name =
     (case find (\<lambda>i. ii_Name i = name) (rev (net_Identities root)) of Some i \<Rightarrow> ii_UID i | None \<Rightarrow> [])"

fun resolve_targets ::
  "BitcoinNetwork \<Rightarrow> Binding list \<Rightarrow> string list \<Rightarrow> (string \<times> int) list \<Rightarrow> BitcoinScheduledTarget list result" where
  "resolve_targets root deps seen [] = Inr []"
| "resolve_targets root deps seen ((name, weight) # targets) =
     (if weight < 1 \<or> name \<in> set seen then Inl ''invalid weighted target''
      else
        let uid = identity_uid root name in
        case find (\<lambda>d. Kind d = ''StacksNetworkParticipant'' \<and> UID d = uid \<and> uid \<noteq> []) deps of
          None \<Rightarrow> Inl ''target admission binding unavailable''
        | Some pin \<Rightarrow>
            rbind (resolve_targets root deps (name # seen) targets) (\<lambda>rest.
              Inr (\<lparr>st_Participant = pin, st_Weight = weight\<rparr> # rest)))"

definition progress_seconds :: "int \<Rightarrow> int" where
  "progress_seconds upper = (ProgressWindow upper + second - 1) div second"

definition resolveBaselineInputs ::
  "snapshot \<Rightarrow> BitcoinNetwork \<Rightarrow> BitcoinInitialization \<Rightarrow> BitcoinParticipant \<Rightarrow> BitcoinSchedulingStatus result" where
  "resolveBaselineInputs S root initial p =
     (case (bp_Admission p, production_policy p) of
        (Some admission, Some policy) \<Rightarrow>
          if \<not> participantCurrent root p \<or> bp_Kind p \<noteq> ''BitcoinBlockProduction''
          then Inl ''admitted production identity unavailable''
          else (case (pp_Schedule policy, pp_PayoutWalletRef policy, pp_Initialization policy) of
            (Some schedule, Some payoutName, Some frozen) \<Rightarrow>
              if ip_MinimumHeight frozen \<noteq> MinimumHeight initial
                 \<or> ip_MatureOutputsPerMiner frozen \<noteq> MatureOutputsPerMiner initial
                 \<or> ip_BatchGeneration frozen \<noteq> BatchGeneration initial
              then Inl ''baseline policy incomplete''
              else rbind (sn_eligibility S p) (\<lambda>_.
                rbind (scan_dependencies S payoutName schedule (adm_Dependencies admission)
                         \<lparr>pin_payout = None, pin_schedule = None, pin_generation = 0\<rparr>) (\<lambda>pins.
                  let payout = FrozenWallet (PayoutWallet initial) in
                  if pin_payout pins \<noteq> Some payout then Inl ''captured payout identity differs''
                  else rbind (sn_bindings S root [payout]) (\<lambda>_.
                    rbind (sn_publicWallet S (Name payout)) (\<lambda>observed.
                      if observed \<noteq> PayoutWallet initial then Inl ''captured public payout differs''
                      else if pp_Targets policy = [] \<or> length (pp_Targets policy) > 100
                      then Inl ''admitted baseline targets unavailable''
                      else rbind (resolve_targets root (adm_Dependencies admission) [] (pp_Targets policy)) (\<lambda>targets.
                        rbind (cadenceBounds (Some schedule)) (\<lambda>(_, upper).
                          Inr ((empty_scheduling (initialization_ref initial))
                                 \<lparr>sc_ScheduleRef := pin_schedule pins, sc_ScheduleGeneration := pin_generation pins,
                                  sc_Targets := targets, sc_PolicyDigest := adm_PolicyDigest admission,
                                  sc_AdmissionDigest := bp_AdmissionDigest p, sc_Schedule := Some schedule,
                                  sc_ProgressWindowSeconds := progress_seconds upper\<rparr>)))))))
          | _ \<Rightarrow> Inl ''baseline policy incomplete'')
      | _ \<Rightarrow> Inl ''admitted production identity unavailable'')"

text \<open>\<open>selectBaselineTarget\<close>: one draw below the total weight, whose range is checked by the code.\<close>

fun total_weight :: "BitcoinScheduledTarget list \<Rightarrow> int \<Rightarrow> int result" where
  "total_weight [] acc = Inr acc"
| "total_weight (t # ts) acc =
     (if st_Weight t < 1 \<or> acc > max_int64 - st_Weight t then Inl ''invalid target weights''
      else total_weight ts (acc + st_Weight t))"

fun pick_target :: "int \<Rightarrow> BitcoinScheduledTarget list \<Rightarrow> Binding result" where
  "pick_target draw [] = Inl ''target draw unavailable''"
| "pick_target draw (t # ts) = (if draw < st_Weight t then Inr (st_Participant t) else pick_target (draw - st_Weight t) ts)"

definition selectBaselineTarget :: "(int \<Rightarrow> int) \<Rightarrow> BitcoinScheduledTarget list \<Rightarrow> Binding result" where
  "selectBaselineTarget draw targets =
     rbind (total_weight targets 0) (\<lambda>weight.
       if weight = 0 then Inl ''no weighted targets''
       else let d = draw weight in
         if d < 0 \<or> d \<ge> weight then Inl ''invalid target draw'' else pick_target d targets)"

section \<open>Receipts (baseline.go)\<close>

definition on_baseline :: "(BitcoinBaselineStatus \<Rightarrow> BitcoinBaselineStatus) \<Rightarrow> BitcoinInitialization \<Rightarrow> BitcoinInitialization" where
  "on_baseline f r = r\<lparr>init_Baseline := map_option f (init_Baseline r)\<rparr>"

definition on_scheduling ::
  "(BitcoinSchedulingStatus \<Rightarrow> BitcoinSchedulingStatus) \<Rightarrow> BitcoinBaselineStatus \<Rightarrow> BitcoinBaselineStatus" where
  "on_scheduling f b = b\<lparr>Scheduling := f (Scheduling b)\<rparr>"

definition count_assigned :: "BitcoinBaselineStatus \<Rightarrow> BitcoinBaselineStatus" where
  "count_assigned b = (on_scheduling (\<lambda>s. s\<lparr>Assigned := wrap64 (Assigned s + 1)\<rparr>) b)\<lparr>Stage := ''Assigned''\<rparr>"

definition count_skipped :: "BitcoinBaselineStatus \<Rightarrow> BitcoinBaselineStatus" where
  "count_skipped b = (on_scheduling (\<lambda>s. s\<lparr>Skipped := wrap64 (Skipped s + 1)\<rparr>) b)\<lparr>Stage := ''Skipped''\<rparr>"

definition count_unassigned :: "BitcoinBaselineStatus \<Rightarrow> BitcoinBaselineStatus" where
  "count_unassigned b = (on_scheduling (\<lambda>s. s\<lparr>Unassigned := wrap64 (Unassigned s + 1)\<rparr>) b)\<lparr>Stage := ''Unassigned''\<rparr>"

text \<open>A published offer whose assignment was not recorded is recorded now.\<close>

definition assign_published :: "BitcoinExecution \<Rightarrow> BitcoinInitialization \<Rightarrow> BitcoinInitialization" where
  "assign_published execution r =
     (case (init_Baseline r, init_StatusOffer r) of
        (Some b, Some offer) \<Rightarrow>
          if Stage b = ''Offered'' \<and> OfferTarget offer = Some (exec_Participant execution)
             \<and> exec_Offer execution = Some offer
          then on_baseline count_assigned r else r
      | _ \<Rightarrow> r)"

definition baseline_receipt ::
  "BitcoinInitialization \<Rightarrow> BitcoinBaselineStatus \<Rightarrow> BitcoinExecution \<Rightarrow> (int \<times> time) option" where
  "baseline_receipt r b execution =
     (case LastReceipt execution of
        None \<Rightarrow> None
      | Some receipt \<Rightarrow>
          (case RpcOffer (Request receipt) of
             None \<Rightarrow> None
           | Some offer \<Rightarrow>
               if Method (Request receipt) \<noteq> Generate \<or> Mode offer \<noteq> ''Baseline''
                  \<or> Initialization offer \<noteq> initialization_ref r \<or> OfferTarget offer \<noteq> Some (exec_Participant execution)
                  \<or> target_Participant (RpcTarget (Request receipt)) \<noteq> exec_Participant execution
                  \<or> Number offer > Sequence b \<or> Number offer \<noteq> CompletedOffer execution
                  \<or> \<not> hashValid (ReceiptHash receipt)
               then None else Some (Number offer, ReceivedAt receipt)))"

fun put_cursor :: "string \<Rightarrow> int \<Rightarrow> (string \<times> int) list \<Rightarrow> (string \<times> int) list" where
  "put_cursor uid number [] = [(uid, number)]"
| "put_cursor uid number ((u, n) # cs) = (if u = uid then (u, number) # cs else (u, n) # put_cursor uid number cs)"

definition cursor :: "BitcoinBaselineStatus \<Rightarrow> string \<Rightarrow> int" where
  "cursor b uid = (case map_of (Receipts b) uid of Some n \<Rightarrow> n | None \<Rightarrow> 0)"

definition acknowledge :: "string \<Rightarrow> int \<Rightarrow> time \<Rightarrow> BitcoinBaselineStatus \<Rightarrow> BitcoinBaselineStatus" where
  "acknowledge uid number receivedAt b =
     (if number \<le> cursor b uid \<or> Acknowledged (Scheduling b) = max_int64
         \<or> map_of (Receipts b) uid = None \<and> length (Receipts b) \<ge> 1000
      then b
      else (on_scheduling (\<lambda>s. s\<lparr>Acknowledged := wrap64 (Acknowledged s + 1),
                                 LastAcknowledgedAt := (case LastAcknowledgedAt s of
                                   None \<Rightarrow> Some receivedAt
                                 | Some t \<Rightarrow> Some (if receivedAt > t then receivedAt else t))\<rparr>) b)
             \<lparr>Receipts := put_cursor uid number (Receipts b)\<rparr>)"

definition account_execution :: "BitcoinNetwork \<Rightarrow> BitcoinExecution \<Rightarrow> BitcoinInitialization \<Rightarrow> BitcoinInitialization" where
  "account_execution root execution r =
     (let (r1, accounted) = accountBootstrapReceipt (net_UID root) r execution;
          r2 = (if accounted then on_baseline (\<lambda>b. b\<lparr>Sequence := max (Sequence b) (LastAccountedOffer r1)\<rparr>) r1 else r1);
          r3 = assign_published execution r2
      in case init_Baseline r3 of
           None \<Rightarrow> r3
         | Some b \<Rightarrow>
             (case baseline_receipt r3 b execution of
                None \<Rightarrow> r3
              | Some (number, receivedAt) \<Rightarrow> on_baseline (acknowledge (exec_UID execution) number receivedAt) r3))"

type_synonym executions = "string \<Rightarrow> BitcoinExecution option"

fun accountBaselineReceipts ::
  "snapshot \<Rightarrow> BitcoinNetwork \<Rightarrow> Binding list \<Rightarrow> BitcoinInitialization \<Rightarrow> executions \<Rightarrow> BitcoinInitialization \<times> executions" where
  "accountBaselineReceipts S root [] r m = (r, m)"
| "accountBaselineReceipts S root (ref # refs) r m =
     (case sn_execution S (Name ref) of
        Got execution \<Rightarrow>
          if exec_UID execution \<noteq> UID ref \<or> exec_NetworkUID execution \<noteq> net_UID root
             \<or> exec_Owner execution \<noteq> net_UID root
          then accountBaselineReceipts S root refs r m
          else accountBaselineReceipts S root refs (account_execution root execution r)
                 (m(UID (exec_Participant execution) \<mapsto> execution))
      | _ \<Rightarrow> accountBaselineReceipts S root refs r m)"

section \<open>Targets\<close>

definition runtime_ready :: "BitcoinParticipant \<Rightarrow> ParticipantRuntimeStatus \<Rightarrow> bool" where
  "runtime_ready p rt \<longleftrightarrow>
     verified_condition (bp_WorkloadReady p) (bp_Generation p) \<and> rt_ObservedGeneration rt = bp_Generation p
     \<and> rt_PolicyDigest rt = policy_digest p \<and> rt_PodRef rt \<noteq> None \<and> rt_ConfigRef rt \<noteq> None
     \<and> rt_RPCSecretRef rt \<noteq> None \<and> rt_ContainerID rt \<noteq> [] \<and> \<not> rt_Terminated rt"

definition target_free :: "BitcoinInitialization \<Rightarrow> BitcoinExecution \<Rightarrow> bool" where
  "target_free initial execution \<longleftrightarrow>
     Armed execution = None \<and> PendingWalletRemoval execution = None
     \<and> (case ReservedFor execution of Some b \<Rightarrow> b = initialization_ref initial | None \<Rightarrow> True)
     \<and> generationAccounted initial execution"

definition target_observed ::
  "int \<Rightarrow> time \<Rightarrow> BitcoinParticipant \<Rightarrow> ParticipantRuntimeStatus \<Rightarrow> BitcoinObservation \<Rightarrow> bool" where
  "target_observed freshness now p rt observation \<longleftrightarrow>
     fresh_observation freshness now observation
     \<and> UID (target_Participant (obs_Target observation)) = bp_UID p
     \<and> map_option UID (rt_PodRef rt) = Some (UID (target_Pod (obs_Target observation)))
     \<and> target_ContainerID (obs_Target observation) = rt_ContainerID rt
     \<and> target_PolicyDigest (obs_Target observation) = rt_PolicyDigest rt
     \<and> rt_ConfigRef rt = Some (target_Configuration (obs_Target observation))
     \<and> rt_RPCSecretRef rt = Some (target_Credentials (obs_Target observation))
     \<and> obs_Height observation \<noteq> max_int64"

definition observeBaselineTarget ::
  "snapshot \<Rightarrow> int \<Rightarrow> BitcoinNetwork \<Rightarrow> BitcoinInitialization \<Rightarrow> Binding option \<Rightarrow> executions \<Rightarrow> BitcoinExecution result" where
  "observeBaselineTarget S freshness root initial pin executions =
     (case pin of
        None \<Rightarrow> Inl ''SelectedTargetUnavailable''
      | Some pin \<Rightarrow>
          (case sn_participant S (Name pin) of
             Got p \<Rightarrow>
               if bp_UID p \<noteq> UID pin \<or> bp_Kind p \<noteq> ''BitcoinNode'' \<or> \<not> participantCurrent root p \<or> bp_Suspended p
               then Inl ''SelectedTargetUnavailable''
               else if \<not> is_ok (sn_eligibility S p) then Inl ''SelectedAdmissionUnavailable''
               else if \<not> is_ok (sn_admission S root p) then Inl ''SelectedDependencyUnavailable''
               else (case bp_Runtime p of
                 None \<Rightarrow> Inl ''SelectedTargetNotReady''
               | Some rt \<Rightarrow>
                   if \<not> runtime_ready p rt then Inl ''SelectedTargetNotReady''
                   else (case Option.bind (bp_Admission p) adm_BitcoinNode of
                     None \<Rightarrow> Inl ''SelectedTargetUnverified''
                   | Some config \<Rightarrow>
                       if bc_Unverified config then Inl ''SelectedTargetUnverified''
                       else (case executions (UID pin) of
                         None \<Rightarrow> Inl ''SelectedExecutionUnavailable''
                       | Some execution \<Rightarrow>
                           if exec_Deleted execution \<or> Name (exec_Participant execution) \<noteq> Name pin
                           then Inl ''SelectedExecutionUnavailable''
                           else if \<not> target_free initial execution then Inl ''SelectedTargetBusy''
                           else (case Observation execution of
                             None \<Rightarrow> Inl ''SelectedObservationUnavailable''
                           | Some observation \<Rightarrow>
                               if \<not> target_observed freshness (sn_now S) p rt observation
                               then Inl ''SelectedObservationUnavailable''
                               else if length (obs_Wallets observation) \<noteq> length (bc_WalletRefs config)
                                  \<or> \<not> list_all (\<lambda>w. wo_Ready w \<and> wo_Wallet w \<in>
                                        set (case bp_Admission p of Some a \<Rightarrow> adm_Dependencies a | None \<Rightarrow> []))
                                      (obs_Wallets observation)
                               then Inl ''SelectedWalletsPreparing''
                               else Inr execution))))
           | _ \<Rightarrow> Inl ''SelectedTargetUnavailable''))"

definition baselineTarget ::
  "snapshot \<Rightarrow> int \<Rightarrow> BitcoinNetwork \<Rightarrow> BitcoinInitialization \<Rightarrow> Binding option \<Rightarrow> executions \<Rightarrow> BitcoinExecution result" where
  "baselineTarget S freshness root initial pin executions =
     (case Option.bind pin (\<lambda>b. executions (UID b)) of
        None \<Rightarrow> Inl ''SelectedExecutionUnavailable''
      | Some cached \<Rightarrow>
          (case sn_execution S (exec_Name cached) of
             Got current \<Rightarrow>
               if exec_UID current \<noteq> exec_UID cached \<or> exec_NetworkUID current \<noteq> net_UID root
                  \<or> exec_Owner current \<noteq> net_UID root
               then Inl ''SelectedExecutionUnavailable''
               else observeBaselineTarget S freshness root initial pin
                      (\<lambda>u. if Some u = map_option UID pin then Some current else None)
           | _ \<Rightarrow> Inl ''SelectedExecutionUnavailable''))"

section \<open>Decisions (reconcileBaseline)\<close>

definition begin_baseline :: "BitcoinInitialization \<Rightarrow> BitcoinInitialization" where
  "begin_baseline r =
     (if init_Baseline r \<noteq> None then r
      else r\<lparr>init_Baseline := Some
               \<lparr>Scheduling = empty_scheduling (initialization_ref r),
                Sequence = (case init_StatusOffer r of
                  Some offer \<Rightarrow> max (LastAccountedOffer r) (Number offer) | None \<Rightarrow> LastAccountedOffer r),
                SelectedTarget = None, Stage = [], Receipts = []\<rparr>,
             NextOpportunityAt := None, init_StatusOffer := None\<rparr>)"

definition withdrawn :: "BitcoinInitialization \<Rightarrow> BitcoinInitialization" where
  "withdrawn r = on_baseline (on_scheduling (\<lambda>s. s\<lparr>EligibleTargets := 0\<rparr>)) (withdrawBaseline r)"

definition stamped :: "time \<Rightarrow> BitcoinInitialization \<Rightarrow> BitcoinInitialization" where
  "stamped now = on_baseline (on_scheduling (\<lambda>s. s\<lparr>sc_ObservedAt := Some (now - now mod second)\<rparr>))"

text \<open>The effective inputs: the admitted ones under the timing override in force.\<close>

definition effective_inputs :: "BitcoinInitialization \<Rightarrow> BitcoinSchedulingStatus \<Rightarrow> BitcoinSchedulingStatus" where
  "effective_inputs r inputs =
     (let schedule = effectiveSchedule r (sc_Schedule inputs);
          upper = (case cadenceBounds schedule of Inr (_, high) \<Rightarrow> high | Inl _ \<Rightarrow> 0)
      in inputs\<lparr>sc_Override := init_Override r, sc_Schedule := schedule, sc_ProgressWindowSeconds := progress_seconds upper\<rparr>)"

definition adopt_inputs :: "BitcoinSchedulingStatus \<Rightarrow> BitcoinBaselineStatus \<Rightarrow> BitcoinBaselineStatus" where
  "adopt_inputs inputs b =
     b\<lparr>Scheduling := inputs\<lparr>Opportunities := Opportunities (Scheduling b), Assigned := Assigned (Scheduling b),
                           Acknowledged := Acknowledged (Scheduling b), Skipped := Skipped (Scheduling b),
                           Unassigned := Unassigned (Scheduling b),
                           LastAcknowledgedAt := LastAcknowledgedAt (Scheduling b)\<rparr>,
       SelectedTarget := None, Stage := []\<rparr>"

definition baseline_offer ::
  "BitcoinInitialization \<Rightarrow> BitcoinBaselineStatus \<Rightarrow> BitcoinParticipant \<Rightarrow> BitcoinSchedulingStatus \<Rightarrow> BitcoinObservation
     \<Rightarrow> time \<Rightarrow> BitcoinBlockOffer" where
  "baseline_offer r b production inputs observation next =
     \<lparr>Count = 0, Override = overrideBinding r, Mode = ''Baseline'', OfferTarget = SelectedTarget b,
      Initialization = initialization_ref r, Production = participant_ref production,
      PolicyDigest = sc_PolicyDigest inputs, Number = Sequence b, OfferAddress = WalletAddress (PayoutWallet r),
      Wallet = FrozenWallet (PayoutWallet r), ExpectedHeight = obs_Height observation,
      ExpectedTip = obs_Tip observation, Ceiling = max_int64, ExpiresAt = next\<rparr>"

text \<open>An open decision, selected or offered, before its next opportunity is due.\<close>

definition settle_decision ::
  "reads \<Rightarrow> int \<Rightarrow> BitcoinNetwork \<Rightarrow> BitcoinParticipant \<Rightarrow> BitcoinSchedulingStatus \<Rightarrow> executions
     \<Rightarrow> BitcoinInitialization \<Rightarrow> BitcoinBaselineStatus \<Rightarrow> time \<Rightarrow> decision" where
  "settle_decision C freshness root production inputs executions r b next =
     (if \<not> sn_now (C AtDecision) < next
      then report (on_baseline count_unassigned (r\<lparr>init_StatusOffer := None\<rparr>)) ''Preparing'' ''OpportunityExpiredBeforeAssignment''
      else case baselineTarget (C AtTarget) freshness root r (SelectedTarget b) executions of
        Inl reason \<Rightarrow> report (on_baseline count_skipped (r\<lparr>init_StatusOffer := None\<rparr>)) ''Preparing'' reason
      | Inr target \<Rightarrow>
          if Stage b = ''Selected''
          then (case Observation target of
                  None \<Rightarrow> Inl ''nil pointer dereference''
                | Some observation \<Rightarrow>
                    Inr \<lparr>pl_offer = None,
                         pl_record = (on_baseline (\<lambda>b. b\<lparr>Stage := ''Offered''\<rparr>) r)
                           \<lparr>init_StatusOffer := Some (baseline_offer r b production inputs observation next)\<rparr>,
                         pl_phase = ''Preparing'', pl_reason = ''BaselineOfferCommitted'', pl_soon = True\<rparr>)
          else (case init_StatusOffer r of
                  None \<Rightarrow> report r ''Blocked'' ''CommittedOfferUnavailable''
                | Some offer \<Rightarrow>
                    if Number offer \<noteq> Sequence b then report r ''Blocked'' ''CommittedOfferUnavailable''
                    else Inr \<lparr>pl_offer = (if exec_Offer target \<noteq> Some offer then Some (target, offer) else None),
                              pl_record = on_baseline count_assigned r, pl_phase = ''Preparing'',
                              pl_reason = ''BaselineOfferAssigned'', pl_soon = False\<rparr>))"

definition select_decision ::
  "reads \<Rightarrow> BitcoinSchedulingStatus \<Rightarrow> BitcoinInitialization \<Rightarrow> BitcoinBaselineStatus \<Rightarrow> decision" where
  "select_decision C inputs r b =
     (if Sequence b = max_int64 \<or> Opportunities (Scheduling b) = max_int64
      then report r ''Blocked'' ''OpportunityCounterExhausted''
      else case schedule_interval (sn_draw (C AtInterval)) (sc_Schedule inputs) of
        Inl _ \<Rightarrow> report r ''Blocked'' ''CadenceUnavailable''
      | Inr interval \<Rightarrow>
          (case selectBaselineTarget (sn_draw (C AtWeights)) (sc_Targets inputs) of
             Inl _ \<Rightarrow> report r ''Blocked'' ''TargetSelectionUnavailable''
           | Inr target \<Rightarrow>
               Inr \<lparr>pl_offer = None,
                    pl_record = (on_baseline (\<lambda>b. (on_scheduling (\<lambda>s. s\<lparr>Opportunities := wrap64 (Opportunities s + 1)\<rparr>) b)
                                   \<lparr>Sequence := wrap64 (Sequence b + 1), SelectedTarget := Some target, Stage := ''Selected''\<rparr>) r)
                      \<lparr>NextOpportunityAt := Some (sn_now (C AtDecision) + interval), init_StatusOffer := None\<rparr>,
                    pl_phase = ''Preparing'', pl_reason = ''BaselineTargetSelected'', pl_soon = True\<rparr>))"

definition baseline_opportunity ::
  "reads \<Rightarrow> int \<Rightarrow> BitcoinNetwork \<Rightarrow> BitcoinParticipant \<Rightarrow> BitcoinSchedulingStatus \<Rightarrow> executions
     \<Rightarrow> BitcoinInitialization \<Rightarrow> BitcoinBaselineStatus \<Rightarrow> decision" where
  "baseline_opportunity C freshness root production inputs executions r b =
     (case NextOpportunityAt r of
        None \<Rightarrow>
          (case schedule_interval (sn_draw (C AtInterval)) (sc_Schedule inputs) of
             Inl _ \<Rightarrow> report r ''Blocked'' ''CadenceUnavailable''
           | Inr interval \<Rightarrow>
               report (r\<lparr>NextOpportunityAt := Some (sn_now (C AtDecision) + interval)\<rparr>) ''Preparing'' ''BaselineCadenceArmed'')
      | Some next \<Rightarrow>
          if Stage b = ''Selected'' \<or> Stage b = ''Offered''
          then settle_decision C freshness root production inputs executions r b next
          else if sn_now (C AtDecision) < next then report r ''Preparing'' ''BaselineCadenceWaiting''
          else select_decision C inputs r b)"

text \<open>The summary of the targets that could take an opportunity now, from cached reads.\<close>

definition eligible_targets ::
  "snapshot \<Rightarrow> int \<Rightarrow> BitcoinNetwork \<Rightarrow> BitcoinInitialization \<Rightarrow> executions \<Rightarrow> BitcoinScheduledTarget list \<Rightarrow> int" where
  "eligible_targets S freshness root r executions targets =
     int (length (filter (\<lambda>t. is_ok (observeBaselineTarget S freshness root r (Some (st_Participant t)) executions)) targets))"

text \<open>The baseline branch: the participant whose scheduling projection is published, if any, and the decision.\<close>

definition reconcileBaseline ::
  "reads \<Rightarrow> int \<Rightarrow> BitcoinNetwork \<Rightarrow> BitcoinInitialization \<Rightarrow> BitcoinParticipant option \<times> decision" where
  "reconcileBaseline C freshness root record' =
     (let (r, executions) = accountBaselineReceipts (C AtReceipts) root (execution_refs root) (begin_baseline record') (\<lambda>_. None) in
      if closed_network root
      then (None, if bitcoin_failed root then report (withdrawn r) ''Blocked'' ''NetworkFailed''
                  else report (withdrawn r) ''Abandoned'' ''NetworkStopped'')
      else case baselineCompleted (C AtCompleted) root r of
        Inl _ \<Rightarrow>
          (None, report (stamped (sn_now (C AtObserved)) (withdrawn r)) ''Blocked'' ''InitializationCompletionUnavailable'')
      | Inr _ \<Rightarrow>
          (case currentProduction (C AtProducer) root r of
             Inl _ \<Rightarrow> (None, report (stamped (sn_now (C AtObserved)) (withdrawn r)) ''Blocked'' ''ProductionIdentityUnavailable'')
           | Inr production \<Rightarrow>
               (Some production,
                case resolveBaselineInputs (C AtInputs) root r production of
                  Inl _ \<Rightarrow> report (stamped (sn_now (C AtObserved)) (withdrawn r)) ''Blocked'' ''BaselineInputsUnavailable''
                | Inr admitted \<Rightarrow>
                    let inputs = effective_inputs r admitted in
                    (case init_Baseline r of
                       None \<Rightarrow> Inl ''nil pointer dereference''
                     | Some b \<Rightarrow>
                         if sc_AdmissionDigest (Scheduling b) \<noteq> sc_AdmissionDigest inputs
                            \<or> sc_Override (Scheduling b) \<noteq> sc_Override inputs
                         then report ((on_baseline (adopt_inputs inputs) (withdrawBaseline r))
                                        \<lparr>init_StatusProduction := Some (participant_ref production)\<rparr>)
                                ''Preparing'' ''BaselinePolicyAdopted''
                         else
                           let r1 = stamped (sn_now (C AtObserved))
                                 (on_baseline (on_scheduling (\<lambda>s. s\<lparr>EligibleTargets :=
                                    eligible_targets (C AtSummary) freshness root r executions (sc_Targets inputs)\<rparr>)) r)
                           in if net_Operation root = ''Paused'' \<or> bp_Paused production
                              then report (withdrawBaseline r1) ''Paused'' ''DesiredPause''
                              else case init_Baseline r1 of
                                None \<Rightarrow> Inl ''nil pointer dereference''
                              | Some b1 \<Rightarrow> baseline_opportunity C freshness root production inputs executions r1 b1))))"

section \<open>The whole reconciliation (scheduler.go)\<close>

definition publish_offer :: "reads \<Rightarrow> plan \<Rightarrow> sched_write list \<times> unit result" where
  "publish_offer C p =
     (case pl_offer p of None \<Rightarrow> ([], Inr ()) | Some (target, offer) \<Rightarrow> ([WriteOffer target offer], sn_write (C AtPublish)))"

definition publish_status :: "reads \<Rightarrow> BitcoinInitialization \<Rightarrow> BitcoinInitialization \<Rightarrow> sched_write list \<times> unit result" where
  "publish_status C before r = (if r = before then ([], Inr ()) else ([WriteStatus r], sn_write (C AtReport)))"

definition publish_scheduling ::
  "reads \<Rightarrow> BitcoinParticipant option \<Rightarrow> BitcoinInitialization \<Rightarrow> sched_write list \<times> unit result" where
  "publish_scheduling C production r =
     (case (production, init_Baseline r) of
        (Some p, Some b) \<Rightarrow>
          if bp_Scheduling p \<noteq> Some (Scheduling b) then ([WriteScheduling p (Scheduling b)], sn_write (C AtProjection))
          else ([], Inr ())
      | _ \<Rightarrow> ([], Inr ()))"

text \<open>Writes in order; the first that fails ends the reconciliation.\<close>

definition after_write :: "sched_write list \<times> unit result \<Rightarrow> outcome \<Rightarrow> outcome" where
  "after_write w k = (case w of (ws, Inl e) \<Rightarrow> (ws, Inl e) | (ws, Inr _) \<Rightarrow> (ws @ fst k, snd k))"

definition reported :: "plan \<Rightarrow> BitcoinInitialization" where
  "reported p = (pl_record p)\<lparr>init_Phase := pl_phase p, init_Reason := pl_reason p\<rparr>"

definition reported_baseline :: "plan \<Rightarrow> BitcoinInitialization" where
  "reported_baseline p =
     on_baseline (on_scheduling (\<lambda>s. s\<lparr>sc_NextOpportunityAt := NextOpportunityAt (pl_record p), sc_Reason := pl_reason p\<rparr>))
       (reported p)"

definition enact ::
  "reads \<Rightarrow> BitcoinInitialization \<Rightarrow> BitcoinParticipant option \<Rightarrow> (plan \<Rightarrow> BitcoinInitialization) \<Rightarrow> decision \<Rightarrow> outcome" where
  "enact C before production final d =
     (case d of
        Inl e \<Rightarrow> ([], Inl e)
      | Inr p \<Rightarrow>
          let r = final p in
          after_write (publish_offer C p)
            (after_write (publish_status C before r)
              (after_write (publish_scheduling C production r)
                ([], Inr (if pl_soon p then millisecond else schedulerDelay r (sn_now (C AtDelay)))))))"

definition bound_initialization :: "BitcoinNetwork \<Rightarrow> BitcoinInitialization \<Rightarrow> bool" where
  "bound_initialization root r \<longleftrightarrow>
     net_UID root = init_NetworkUID r \<and> init_Owner r = net_UID root
     \<and> (case bn_Bitcoin root of
          None \<Rightarrow> False
        | Some b \<Rightarrow> (case bs_InitializationRef b of None \<Rightarrow> False | Some ref \<Rightarrow> UID ref = init_UID r))"

definition scheduler_Reconcile :: "reads \<Rightarrow> int \<Rightarrow> string \<Rightarrow> outcome" where
  "scheduler_Reconcile C freshness name =
     (case sn_initialization (C AtRecord) name of
        NotFound \<Rightarrow> ([], Inr 0)
      | GetFailed e \<Rightarrow> ([], Inl e)
      | Got record' \<Rightarrow>
          (case fetched (sn_network (C AtRoot)) of
             Inl e \<Rightarrow> ([], Inl e)
           | Inr root \<Rightarrow>
               if \<not> bound_initialization root record' then ([], Inl ''initialization binding unavailable'')
               else (case reconcileOverride C root record' of
                       (_, ws, Inl e) \<Rightarrow> (ws, Inl e)
                     | (r, ws, Inr True) \<Rightarrow> (ws, Inr (schedulerDelay r (sn_now (C AtDelay))))
                     | (_, _, Inr False) \<Rightarrow>
                         if (case bn_Initialization root of Some state \<Rightarrow> is_Completed state | None \<Rightarrow> False)
                         then (case reconcileBaseline C freshness root record' of
                                 (production, d) \<Rightarrow> enact C record' production reported_baseline d)
                         else enact C record' None reported (reconcileBootstrap C freshness root record'))))"

end
