(* ===== verification/Scheduler_Runs.thy ===== *)
theory Scheduler_Runs
  imports Bitcoin_Baseline
begin

text \<open>
  What the scheduler of \<open>bitcoincontrol\<close> guarantees over every execution: its opportunities are
  counted exactly once, committed offers are numbered once and in order, and a bootstrap offer is only
  selected against agreeing, idle nodes below the frozen ceiling. The status of the retained
  initialization record is written by the scheduler alone, and the API server refuses a write that was
  computed from an older version; one step of an execution is therefore a reconciliation whose status
  write is applied to the record it read.
\<close>

section \<open>Values of Go type int64\<close>

definition int64_execution :: "BitcoinExecution \<Rightarrow> bool" where
  "int64_execution e \<longleftrightarrow>
     CompletedOffer e \<le> max_int64
     \<and> (\<forall>offer. exec_Offer e = Some offer \<longrightarrow> Number offer \<le> max_int64)
     \<and> (\<forall>receipt offer. LastReceipt e = Some receipt \<longrightarrow> RpcOffer (Request receipt) = Some offer \<longrightarrow> Number offer \<le> max_int64)
     \<and> (\<forall>observation. Observation e = Some observation \<longrightarrow> 0 \<le> obs_Height observation)"

definition int64_reads :: "reads \<Rightarrow> bool" where
  "int64_reads C \<longleftrightarrow>
     (\<forall>p name e. sn_execution (C p) name = Got e \<longrightarrow> int64_execution e)
     \<and> (\<forall>p name g. sn_genesis (C p) name = Got g \<longrightarrow> (\<forall>gate \<in> set (gs_Gates g). gate_Ceiling gate \<le> max_int64))"

section \<open>The tally of decisions\<close>

definition open_decision :: "BitcoinBaselineStatus \<Rightarrow> bool" where
  "open_decision b \<longleftrightarrow> Stage b = ''Selected'' \<or> Stage b = ''Offered''"

definition tally :: "BitcoinBaselineStatus \<Rightarrow> bool" where
  "tally b \<longleftrightarrow>
     0 \<le> Assigned (Scheduling b) \<and> 0 \<le> Skipped (Scheduling b) \<and> 0 \<le> Unassigned (Scheduling b)
     \<and> Opportunities (Scheduling b) \<le> max_int64
     \<and> Opportunities (Scheduling b) =
         Assigned (Scheduling b) + Skipped (Scheduling b) + Unassigned (Scheduling b) + of_bool (open_decision b)"

definition cursors_ok :: "BitcoinBaselineStatus \<Rightarrow> bool" where
  "cursors_ok b \<longleftrightarrow>
     distinct (map fst (Receipts b)) \<and> (\<forall>n \<in> snd ` set (Receipts b). 1 \<le> n \<and> n \<le> Sequence b)
     \<and> 0 \<le> Acknowledged (Scheduling b) \<and> Acknowledged (Scheduling b) \<le> max_int64
     \<and> Acknowledged (Scheduling b) \<le> sum_list (map snd (Receipts b))
     \<and> 0 \<le> Sequence b \<and> Sequence b \<le> max_int64"

definition sched_inv :: "BitcoinInitialization \<Rightarrow> bool" where
  "sched_inv r \<longleftrightarrow>
     0 \<le> LastAccountedOffer r \<and> LastAccountedOffer r \<le> max_int64
     \<and> (\<forall>offer. init_StatusOffer r = Some offer \<longrightarrow> Number offer \<le> max_int64)
     \<and> (\<forall>b. init_Baseline r = Some b \<longrightarrow> tally b \<and> cursors_ok b)"

lemmas counting_defs = tally_def open_decision_def on_scheduling_def count_assigned_def count_skipped_def
  count_unassigned_def withdraw_stage_def

lemma wrap64_increment: "0 \<le> x \<Longrightarrow> x < max_int64 \<Longrightarrow> wrap64 (x + 1) = x + 1"
  by (simp add: in_int64_def)

lemma tally_fits:
  assumes "tally b" "open_decision b"
  shows "wrap64 (Assigned (Scheduling b) + 1) = Assigned (Scheduling b) + 1"
    "wrap64 (Skipped (Scheduling b) + 1) = Skipped (Scheduling b) + 1"
    "wrap64 (Unassigned (Scheduling b) + 1) = Unassigned (Scheduling b) + 1"
  using assms by (auto simp: tally_def intro!: wrap64_increment)

lemma tally_counted [intro]:
  assumes "tally b" "open_decision b"
  shows "tally (count_assigned b)" "tally (count_skipped b)" "tally (count_unassigned b)"
  using assms(1,2) tally_fits [OF assms] by (auto simp: counting_defs)

lemma tally_withdraw [simp, intro]: "tally b \<Longrightarrow> tally (withdraw_stage b)"
  using tally_counted(3) [of b] by (auto simp: withdraw_stage_def open_decision_def count_unassigned_def on_scheduling_def)

lemma closed_withdraw [simp]: "\<not> open_decision (withdraw_stage b)"
  by (simp add: counting_defs)

lemma tally_adopt [intro]: "tally b \<Longrightarrow> \<not> open_decision b \<Longrightarrow> tally (adopt_inputs inputs b)"
  by (simp add: tally_def open_decision_def adopt_inputs_def)

lemma tally_acknowledge [simp]: "tally (acknowledge uid n t b) = tally b"
  by (simp add: acknowledge_def counting_defs)

lemma cursors_withdraw [simp]: "cursors_ok (withdraw_stage b) = cursors_ok b"
  by (simp add: cursors_ok_def withdraw_stage_def)

lemma cursors_counted [simp]:
  "cursors_ok (count_assigned b) = cursors_ok b"
  "cursors_ok (count_skipped b) = cursors_ok b"
  "cursors_ok (count_unassigned b) = cursors_ok b"
  by (simp_all add: cursors_ok_def counting_defs)

lemma cursors_adopt [simp]: "cursors_ok (adopt_inputs inputs b) = cursors_ok b"
  by (simp add: cursors_ok_def adopt_inputs_def)

section \<open>Receipt cursors\<close>

lemma put_cursor_fst: "set (map fst (put_cursor uid n cs)) = insert uid (set (map fst cs))"
  by (induction uid n cs rule: put_cursor.induct) auto

lemma put_cursor_distinct: "distinct (map fst cs) \<Longrightarrow> distinct (map fst (put_cursor uid n cs))"
proof (induction uid n cs rule: put_cursor.induct)
  case (2 uid n u m cs)
  then show ?case using put_cursor_fst [of uid n cs] by auto
qed simp

lemma put_cursor_snd: "snd ` set (put_cursor uid n cs) \<subseteq> insert n (snd ` set cs)"
  by (induction uid n cs rule: put_cursor.induct) (auto split: if_splits)

lemma put_cursor_sum:
  "sum_list (map snd (put_cursor uid n cs)) =
     sum_list (map snd cs) + (n - (case map_of cs uid of Some m \<Rightarrow> m | None \<Rightarrow> (0 :: int)))"
  by (induction uid n cs rule: put_cursor.induct) (auto split: option.splits)

lemma cursors_acknowledge:
  assumes ok: "cursors_ok b" and n: "n \<le> Sequence b"
  shows "cursors_ok (acknowledge uid n t b)"
proof (cases "acknowledge uid n t b = b")
  case False
  then have guard: "cursor b uid < n" "Acknowledged (Scheduling b) \<noteq> max_int64"
    by (auto simp: acknowledge_def split: if_splits)
  have "0 \<le> cursor b uid"
    using ok by (force simp: cursor_def cursors_ok_def split: option.splits dest: map_of_SomeD)
  then have "1 \<le> n" using guard by simp
  moreover have "wrap64 (Acknowledged (Scheduling b) + 1) = Acknowledged (Scheduling b) + 1"
    using ok guard by (auto simp: cursors_ok_def in_int64_def)
  moreover have "acknowledge uid n t b =
      (on_scheduling (\<lambda>s. s\<lparr>Acknowledged := wrap64 (Acknowledged s + 1),
                           LastAcknowledgedAt := (case LastAcknowledgedAt s of
                             None \<Rightarrow> Some t | Some t' \<Rightarrow> Some (if t > t' then t else t'))\<rparr>) b)
        \<lparr>Receipts := put_cursor uid n (Receipts b)\<rparr>"
    using False unfolding acknowledge_def by (auto split: if_splits)
  moreover have "\<forall>m \<in> snd ` set (put_cursor uid n (Receipts b)). 1 \<le> m \<and> m \<le> Sequence b"
    using ok n \<open>1 \<le> n\<close> put_cursor_snd [of uid n "Receipts b"] unfolding cursors_ok_def by blast
  ultimately show ?thesis
    using ok guard put_cursor_sum [of uid n "Receipts b"]
    by (simp add: cursors_ok_def on_scheduling_def put_cursor_distinct cursor_def)
qed (use ok in simp)

section \<open>The invariant of the record\<close>

lemma accountBootstrapReceipt_effect:
  assumes "accountBootstrapReceipt uid r e = (r', ok)"
  shows "\<exists>f n. r' = r\<lparr>Funded := f, LastAccountedOffer := n\<rparr> \<and> LastAccountedOffer r \<le> n
    \<and> (int64_execution e \<longrightarrow> LastAccountedOffer r \<le> max_int64 \<longrightarrow> n \<le> max_int64)"
proof -
  have same: ?thesis if "r' = r"
    using that by (intro exI [of _ "Funded r"] exI [of _ "LastAccountedOffer r"]) simp
  show ?thesis
  proof (cases "bootstrap_receipt_offer uid r e")
    case None
    have "r' = r" using assms unfolding accountBootstrapReceipt_def None option.case by (rule Pair_inject) (rule sym)
    then show ?thesis by (rule same)
  next
    case (Some offer)
    have number: "LastAccountedOffer r < Number offer" "int64_execution e \<longrightarrow> Number offer \<le> max_int64"
      using Some by (auto simp: bootstrap_receipt_offer_def int64_execution_def split: if_splits option.splits)
    define x where "x = credit_funding (UID (Wallet offer)) (max (Count offer) 1) (Funded r)"
    have "fst (accountBootstrapReceipt uid r e) \<in>
        {r, r\<lparr>LastAccountedOffer := Number offer\<rparr>, r\<lparr>Funded := the x, LastAccountedOffer := Number offer\<rparr>}"
      unfolding accountBootstrapReceipt_def Some option.case Let_def x_def [symmetric]
      by (cases x; simp only: option.case option.sel insert_iff fst_conv if_distrib [of fst] simp_thms split: if_split)
    then consider "r' = r" | "r' = r\<lparr>Funded := Funded r, LastAccountedOffer := Number offer\<rparr>"
      | "r' = r\<lparr>Funded := the x, LastAccountedOffer := Number offer\<rparr>"
      using assms by auto
    then show ?thesis
    proof cases
      case 1
      then show ?thesis by (rule same)
    next
      case 2
      with number show ?thesis by (intro exI [of _ "Funded r"] exI [of _ "Number offer"]) simp
    next
      case 3
      with number show ?thesis by (intro exI [of _ "the x"] exI [of _ "Number offer"]) simp
    qed
  qed
qed

lemma sched_inv_baseline:
  "sched_inv r \<Longrightarrow> (\<And>b. init_Baseline r = Some b \<Longrightarrow> tally b \<Longrightarrow> cursors_ok b \<Longrightarrow> tally (f b) \<and> cursors_ok (f b))
   \<Longrightarrow> sched_inv (on_baseline f r)"
  by (auto simp: sched_inv_def on_baseline_def)

lemma sched_inv_withdraw [intro]: "sched_inv r \<Longrightarrow> sched_inv (withdrawBaseline r)"
  by (auto simp: sched_inv_def withdrawBaseline_def)

lemma sched_inv_timing [intro]: "sched_inv r \<Longrightarrow> sched_inv (withdrawTiming r)"
  by (auto simp: withdrawTiming_def sched_inv_def withdrawBaseline_def)

lemma sched_inv_plain [simp]:
  "sched_inv (r\<lparr>init_Override := o'\<rparr>) = sched_inv r"
  "sched_inv (r\<lparr>NextOpportunityAt := t\<rparr>) = sched_inv r"
  "sched_inv (r\<lparr>init_StatusProduction := q\<rparr>) = sched_inv r"
  "sched_inv (r\<lparr>FirstCeilingObservedAt := t\<rparr>) = sched_inv r"
  "sched_inv (r\<lparr>PreparedAt := t\<rparr>) = sched_inv r"
  "sched_inv (r\<lparr>init_Phase := ph, init_Reason := re\<rparr>) = sched_inv r"
  by (simp_all add: sched_inv_def)

lemma sched_inv_no_offer [intro]: "sched_inv r \<Longrightarrow> sched_inv (r\<lparr>init_StatusOffer := None\<rparr>)"
  by (simp add: sched_inv_def)

text \<open>Updates of the scheduling projection that leave its counters alone.\<close>

lemma sched_inv_projection [simp]:
  "sched_inv (on_baseline (on_scheduling (\<lambda>s. s\<lparr>EligibleTargets := n\<rparr>)) r) = sched_inv r"
  "sched_inv (on_baseline (on_scheduling (\<lambda>s. s\<lparr>sc_ObservedAt := t\<rparr>)) r) = sched_inv r"
  "sched_inv (on_baseline (on_scheduling (\<lambda>s. s\<lparr>sc_NextOpportunityAt := u, sc_Reason := re\<rparr>)) r) = sched_inv r"
  by (cases "init_Baseline r";
      simp add: sched_inv_def on_baseline_def on_scheduling_def tally_def open_decision_def cursors_ok_def)+

lemma sched_inv_stamped [simp]: "sched_inv (stamped t r) = sched_inv r"
  by (simp add: stamped_def)

lemma sched_inv_withdrawn [intro]: "sched_inv r \<Longrightarrow> sched_inv (withdrawn r)"
  by (simp add: withdrawn_def sched_inv_withdraw)

lemma sched_inv_assign [intro]: "sched_inv r \<Longrightarrow> sched_inv (assign_published e r)"
  by (auto simp: assign_published_def open_decision_def intro!: sched_inv_baseline tally_counted split: option.splits)

lemma sched_inv_account:
  assumes inv: "sched_inv r" and e: "int64_execution e"
  shows "sched_inv (account_execution root e r)"
proof -
  obtain r1 ok where acc: "accountBootstrapReceipt (net_UID root) r e = (r1, ok)" by fastforce
  obtain f n where r1: "r1 = r\<lparr>Funded := f, LastAccountedOffer := n\<rparr>" "LastAccountedOffer r \<le> n"
    "int64_execution e \<longrightarrow> LastAccountedOffer r \<le> max_int64 \<longrightarrow> n \<le> max_int64"
    using accountBootstrapReceipt_effect [OF acc] by blast
  have n: "0 \<le> n" "n \<le> max_int64" using r1 inv e by (auto simp: sched_inv_def)
  have i1: "sched_inv r1" using inv n by (auto simp: sched_inv_def r1(1))
  have raise: "tally (b\<lparr>Sequence := max (Sequence b) n\<rparr>) \<and> cursors_ok (b\<lparr>Sequence := max (Sequence b) n\<rparr>)"
    if "tally b" "cursors_ok b" for b
    using that n by (auto simp: tally_def open_decision_def cursors_ok_def)
  define r2 where "r2 = (if ok then on_baseline (\<lambda>b. b\<lparr>Sequence := max (Sequence b) (LastAccountedOffer r1)\<rparr>) r1 else r1)"
  have "sched_inv r2" using i1 raise by (auto simp: r2_def r1(1) intro!: sched_inv_baseline)
  then have i3: "sched_inv (assign_published e r2)" by auto
  have receipt: "number \<le> Sequence b" if "baseline_receipt r3 b e = Some (number, t)" for r3 b number t
    using that by (auto simp: baseline_receipt_def split: option.splits if_splits)
  have "account_execution root e r =
      (case init_Baseline (assign_published e r2) of
         None \<Rightarrow> assign_published e r2
       | Some b \<Rightarrow>
           (case baseline_receipt (assign_published e r2) b e of
              None \<Rightarrow> assign_published e r2
            | Some (number, receivedAt) \<Rightarrow>
                on_baseline (acknowledge (exec_UID e) number receivedAt) (assign_published e r2)))"
    by (simp only: account_execution_def acc Let_def prod.case flip: r2_def)
  with i3 receipt show ?thesis
    by (auto intro!: sched_inv_baseline cursors_acknowledge split: option.splits)
qed

lemma sched_inv_receipts:
  assumes "\<And>name e. sn_execution S name = Got e \<Longrightarrow> int64_execution e"
  shows "sched_inv r \<Longrightarrow> sched_inv (fst (accountBaselineReceipts S root refs r m))"
proof (induction refs arbitrary: r m)
  case (Cons ref refs)
  show ?case
  proof (cases "sn_execution S (Name ref)")
    case (Got e)
    with Cons assms sched_inv_account [of r e root] show ?thesis by auto
  qed (use Cons in auto)
qed simp

lemma sched_inv_begin [intro]: "sched_inv r \<Longrightarrow> sched_inv (begin_baseline r)"
  by (auto simp: begin_baseline_def sched_inv_def tally_def open_decision_def cursors_ok_def empty_scheduling_def
        split: option.splits)

text \<open>The decisions of the baseline.\<close>

lemma sched_inv_some: "sched_inv r \<Longrightarrow> init_Baseline r = Some b \<Longrightarrow> tally b \<and> cursors_ok b"
  by (simp add: sched_inv_def)

lemma sched_inv_settle:
  assumes inv: "sched_inv r" and b: "init_Baseline r = Some b" "open_decision b"
    and d: "settle_decision C freshness root production inputs executions r b next = Inr p"
  shows "sched_inv (pl_record p)"
proof -
  note ok = sched_inv_some [OF inv b(1)]
  have counted: "sched_inv (on_baseline count_skipped (r\<lparr>init_StatusOffer := None\<rparr>))"
    "sched_inv (on_baseline count_unassigned (r\<lparr>init_StatusOffer := None\<rparr>))" "sched_inv (on_baseline count_assigned r)"
    using inv b by (auto intro!: sched_inv_baseline sched_inv_no_offer tally_counted)
  have offered: "sched_inv ((on_baseline (\<lambda>b. b\<lparr>Stage := ''Offered''\<rparr>) r)\<lparr>init_StatusOffer := Some offer\<rparr>)"
    if "Number offer = Sequence b" "Stage b = ''Selected''" for offer
    using ok b that inv by (simp add: sched_inv_def on_baseline_def tally_def open_decision_def cursors_ok_def)
  show ?thesis
  proof (cases "sn_now (C AtDecision) < next")
    case False
    with d counted show ?thesis by (auto simp: settle_decision_def)
  next
    case due: True
    show ?thesis
    proof (cases "baselineTarget (C AtTarget) freshness root r (SelectedTarget b) executions")
      case (Inl reason)
      with d due counted show ?thesis by (auto simp: settle_decision_def)
    next
      case target: (Inr target)
      show ?thesis
      proof (cases "Stage b = ''Selected''")
        case True
        with d due target obtain observation where
          "p = \<lparr>pl_offer = None, pl_record = (on_baseline (\<lambda>b. b\<lparr>Stage := ''Offered''\<rparr>) r)
                 \<lparr>init_StatusOffer := Some (baseline_offer r b production inputs observation next)\<rparr>,
               pl_phase = ''Preparing'', pl_reason = ''BaselineOfferCommitted'', pl_soon = True\<rparr>"
          by (auto simp: settle_decision_def split: option.splits)
        with offered [OF _ True] show ?thesis by (simp add: baseline_offer_def)
      next
        case False
        with d due target have "pl_record p \<in> {r, on_baseline count_assigned r}"
          by (auto simp: settle_decision_def split: option.splits if_splits)
        with counted inv show ?thesis by auto
      qed
    qed
  qed
qed

lemma sched_inv_select:
  assumes inv: "sched_inv r" and b: "init_Baseline r = Some b" "\<not> open_decision b"
    and d: "select_decision C inputs r b = Inr p"
  shows "sched_inv (pl_record p)"
proof -
  note ok = sched_inv_some [OF inv b(1)]
  have selected: "sched_inv ((on_baseline (\<lambda>b. (on_scheduling (\<lambda>s. s\<lparr>Opportunities := wrap64 (Opportunities s + 1)\<rparr>) b)
        \<lparr>Sequence := wrap64 (Sequence b + 1), SelectedTarget := Some target, Stage := ''Selected''\<rparr>) r)
        \<lparr>NextOpportunityAt := Some t, init_StatusOffer := None\<rparr>)"
    if "Sequence b \<noteq> max_int64" "Opportunities (Scheduling b) \<noteq> max_int64" for target t
  proof -
    have "wrap64 (Sequence b + 1) = Sequence b + 1"
      using ok that by (intro wrap64_increment) (auto simp: cursors_ok_def)
    moreover have "wrap64 (Opportunities (Scheduling b) + 1) = Opportunities (Scheduling b) + 1"
      using ok that by (intro wrap64_increment) (auto simp: tally_def)
    ultimately show ?thesis
      using ok b that inv
      by (auto simp: sched_inv_def on_baseline_def on_scheduling_def tally_def open_decision_def cursors_ok_def)
  qed
  show ?thesis
    using d selected inv by (auto simp: select_decision_def split: if_splits sum.splits)
qed

lemma sched_inv_opportunity:
  assumes inv: "sched_inv r" and b: "init_Baseline r = Some b"
    and d: "baseline_opportunity C freshness root production inputs executions r b = Inr p"
  shows "sched_inv (pl_record p)"
proof (cases "NextOpportunityAt r")
  case None
  with d inv show ?thesis by (auto simp: baseline_opportunity_def split: sum.splits)
next
  case (Some due)
  then show ?thesis
    using d inv sched_inv_settle [OF inv b] sched_inv_select [OF inv b]
    by (auto simp: baseline_opportunity_def open_decision_def split: if_splits)
qed

lemma sched_inv_adopt: "sched_inv r \<Longrightarrow> sched_inv (on_baseline (adopt_inputs inputs) (withdrawBaseline r))"
  by (auto simp: sched_inv_def on_baseline_def withdrawBaseline_def intro: tally_adopt)

lemma sched_inv_reconcileBaseline:
  assumes inv: "sched_inv r0" and reads: "int64_reads C"
    and d: "reconcileBaseline C freshness root r0 = (production, Inr p)"
  shows "sched_inv (pl_record p)"
proof -
  obtain r executions where acc: "accountBaselineReceipts (C AtReceipts) root (execution_refs root) (begin_baseline r0) (\<lambda>_. None) = (r, executions)"
    by fastforce
  have i: "sched_inv r"
    using sched_inv_receipts [of "C AtReceipts" "begin_baseline r0" root "execution_refs root" "\<lambda>_. None"] reads inv acc
    by (auto simp: int64_reads_def)
  then have w: "sched_inv (withdrawn r)" by auto
  show ?thesis
  proof (cases "closed_network root \<or> baselineCompleted (C AtCompleted) root r \<noteq> Inr ()
      \<or> \<not> is_ok (currentProduction (C AtProducer) root r)")
    case True
    then show ?thesis
      using d w by (auto simp: reconcileBaseline_def acc is_ok_def split: if_splits sum.splits)
  next
    case False
    then obtain q where q: "currentProduction (C AtProducer) root r = Inr q" by (auto simp: is_ok_def split: sum.splits)
    show ?thesis
    proof (cases "resolveBaselineInputs (C AtInputs) root r q")
      case (Inl e)
      then show ?thesis using d w False q by (auto simp: reconcileBaseline_def acc)
    next
      case (Inr admitted)
      then show ?thesis
        using d i False q
        by (auto simp: reconcileBaseline_def acc Let_def intro: sched_inv_adopt sched_inv_opportunity [rotated 2] intro!: sched_inv_withdraw
              split: option.splits if_splits)
    qed
  qed
qed

section \<open>Bootstrap\<close>

text \<open>The loops of the bootstrap branch change nothing of the record but the first observation of the
  ceiling.\<close>

definition touched :: "BitcoinInitialization \<Rightarrow> BitcoinInitialization \<Rightarrow> bool" where
  "touched r r' \<longleftrightarrow> (\<exists>t. r' = r\<lparr>FirstCeilingObservedAt := t\<rparr>)"

lemma touched_set [simp]: "touched r (r\<lparr>FirstCeilingObservedAt := t\<rparr>)"
  by (auto simp: touched_def)

lemma touched_refl [simp]: "touched r r"
  using touched_set [of r "FirstCeilingObservedAt r"] by simp

lemma touched_trans: "touched r r' \<Longrightarrow> touched r' r'' \<Longrightarrow> touched r r''"
  by (auto simp: touched_def)

lemma touched_fields:
  assumes "touched r r'"
  shows "init_StatusOffer r' = init_StatusOffer r" "init_Baseline r' = init_Baseline r" "sched_inv r' = sched_inv r"
    "LastAccountedOffer r' = LastAccountedOffer r" "initialization_ref r' = initialization_ref r"
    "init_StatusProduction r' = init_StatusProduction r" "init_Nodes r' = init_Nodes r" "init_Target r' = init_Target r"
  using assms by (auto simp: touched_def initialization_ref_def)

lemma collect_executions_report: "collect_executions S r refs m = Inl (Inr p) \<Longrightarrow> pl_record p = r"
  by (induction S r refs m rule: collect_executions.induct) (auto split: get.splits if_splits)

lemma collect_executions_all:
  assumes "collect_executions S r refs m = Inr m'" "\<And>name e. sn_execution S name = Got e \<Longrightarrow> P e"
    and "\<And>u e. m u = Some e \<Longrightarrow> P e"
  shows "m' u = Some e \<Longrightarrow> P e"
  using assms(1,3)
proof (induction refs arbitrary: m)
  case (Cons ref refs)
  then obtain x where x: "sn_execution S (Name ref) = Got x"
    "collect_executions S r refs (m(UID (exec_Participant x) \<mapsto> x)) = Inr m'"
    by (auto split: get.splits if_splits)
  have "P e'" if "(m(UID (exec_Participant x) \<mapsto> x)) u' = Some e'" for u' e'
    using that Cons.prems(3) assms(2) [OF x(1)] by (auto split: if_splits)
  with Cons.IH [OF Cons.prems(1) x(2)] show ?case by blast
qed simp

lemma scan_wallets_cases:
  "scan_wallets p observation ns = Inl (Inr q) \<Longrightarrow> pl_record q = ns_record ns"
  "scan_wallets p observation ns = Inr ns' \<Longrightarrow> \<exists>m. ns' = ns\<lparr>ns_mature := m\<rparr>"
  by (auto simp: scan_wallets_def split: option.splits if_splits)


lemma scan_node_cases:
  "scan_node S freshness root executions node ns = Inl (Inr q) \<Longrightarrow> touched (ns_record ns) (pl_record q)"
  "scan_node S freshness root executions node ns = Inr ns' \<Longrightarrow> touched (ns_record ns) (ns_record ns')"
  by (auto simp: scan_node_def Let_def dest: scan_wallets_cases split: option.splits if_splits)

lemma scan_nodes_cases:
  "scan_nodes S freshness root executions nodes ns = Inl (Inr q) \<Longrightarrow> touched (ns_record ns) (pl_record q)"
  "scan_nodes S freshness root executions nodes ns = Inr ns' \<Longrightarrow> touched (ns_record ns) (ns_record ns')"
proof (induction nodes arbitrary: ns)
  case (Cons node nodes)
  {
    case 1
    then show ?case using Cons.IH(1)
      by (cases "scan_node S freshness root executions node ns") (auto dest: scan_node_cases intro: touched_trans)
  next
    case 2
    then show ?case using Cons.IH(2)
      by (cases "scan_node S freshness root executions node ns") (auto dest: scan_node_cases intro: touched_trans)
  }
qed simp_all

text \<open>What a completed loop over the nodes has established for each of them.\<close>

definition node_agrees ::
  "snapshot \<Rightarrow> int \<Rightarrow> BitcoinNetwork \<Rightarrow> executions \<Rightarrow> int \<Rightarrow> string \<Rightarrow> Binding \<Rightarrow> bool" where
  "node_agrees S freshness root executions height tip node \<longleftrightarrow>
     (\<exists>e observation. executions (UID node) = Some e \<and> exec_NetworkUID e = net_UID root \<and> exec_Owner e = net_UID root
        \<and> Armed e = None \<and> Observation e = Some observation \<and> fresh_observation freshness (sn_now S) observation
        \<and> obs_Height observation = height \<and> obs_Tip observation = tip \<and> node_actor S root node observation \<noteq> None)"

lemma scan_node_agrees:
  assumes "scan_node S freshness root executions node ns = Inr ns'"
    and "\<And>e. executions (UID node) = Some e \<Longrightarrow> int64_execution e"
  shows "node_agrees S freshness root executions (ns_height ns') (ns_tip ns') node" "0 \<le> ns_height ns'"
    "0 \<le> ns_height ns \<Longrightarrow> ns_height ns' = ns_height ns \<and> ns_tip ns' = ns_tip ns"
    "ns_target ns' = (if UID node = UID (init_Target (ns_record ns)) then executions (UID node) else ns_target ns)"
proof -
  obtain e observation where e: "executions (UID node) = Some e" "Observation e = Some observation"
    using assms(1) by (auto simp: scan_node_def Let_def split: option.splits if_splits)
  with assms(2) have "0 \<le> obs_Height observation" by (simp add: int64_execution_def)
  then show "node_agrees S freshness root executions (ns_height ns') (ns_tip ns') node" "0 \<le> ns_height ns'"
    "0 \<le> ns_height ns \<Longrightarrow> ns_height ns' = ns_height ns \<and> ns_tip ns' = ns_tip ns"
    "ns_target ns' = (if UID node = UID (init_Target (ns_record ns)) then executions (UID node) else ns_target ns)"
    using assms(1) e
    by (auto simp: scan_node_def node_agrees_def Let_def dest!: scan_wallets_cases(2) split: option.splits if_splits)
qed

lemma scan_nodes_agree:
  assumes "scan_nodes S freshness root executions nodes ns = Inr ns'"
    and typed: "\<And>u e. executions u = Some e \<Longrightarrow> int64_execution e"
  shows "(\<forall>node \<in> set nodes. node_agrees S freshness root executions (ns_height ns') (ns_tip ns') node)
    \<and> (0 \<le> ns_height ns \<longrightarrow> ns_height ns' = ns_height ns \<and> ns_tip ns' = ns_tip ns)
    \<and> (ns_target ns' = ns_target ns \<or> ns_target ns' = executions (UID (init_Target (ns_record ns))))"
  using assms(1)
proof (induction nodes arbitrary: ns)
  case (Cons node nodes)
  then obtain ns1 where ns1: "scan_node S freshness root executions node ns = Inr ns1"
    "scan_nodes S freshness root executions nodes ns1 = Inr ns'"
    by (auto simp: result_simps)
  note step = scan_node_agrees [OF ns1(1) typed]
  have "init_Target (ns_record ns1) = init_Target (ns_record ns)"
    using scan_node_cases(2) [OF ns1(1)] by (rule touched_fields)
  with Cons.IH [OF ns1(2)] step show ?case by (auto split: if_splits)
qed simp

lemma set_ordered_nodes [simp]: "set (ordered_nodes r) = set (init_Nodes r)"
  by (auto simp: ordered_nodes_def)

lemma gate_position_report: "gate_position C authority ns = Inl (Inr p) \<Longrightarrow>
    init_StatusOffer (pl_record p) = init_StatusOffer (ns_record ns) \<and> init_Baseline (pl_record p) = init_Baseline (ns_record ns)
    \<and> sched_inv (pl_record p) = sched_inv (ns_record ns)"
  by (auto simp: gate_position_def Let_def sched_inv_def split: if_splits)

lemma gate_position_below: "gate_position C authority ns = Inr () \<Longrightarrow> ns_height ns < gate_Ceiling (ga_gate authority)"
  by (auto simp: gate_position_def Let_def split: if_splits)

lemma may_advance_report: "may_advance C root authority production ns = Inl (Inr p) \<Longrightarrow>
    init_StatusOffer (pl_record p) \<in> {None, init_StatusOffer (ns_record ns)} \<and> init_Baseline (pl_record p) = init_Baseline (ns_record ns)
    \<and> (sched_inv (ns_record ns) \<longrightarrow> sched_inv (pl_record p))"
  by (auto simp: may_advance_def Let_def sched_inv_def split: sum.splits bool.splits)

lemma opportunity_cases:
  assumes "opportunity C authority production target ns = Inr p"
  shows "(init_StatusOffer (pl_record p) = init_StatusOffer (ns_record ns) \<and> init_Baseline (pl_record p) = init_Baseline (ns_record ns)
       \<and> sched_inv (pl_record p) = sched_inv (ns_record ns))
    \<or> (\<exists>interval t. last_number (ns_record ns) target \<noteq> max_int64
         \<and> pl_record p = (ns_record ns)\<lparr>NextOpportunityAt := Some t,
                init_StatusOffer := Some (bootstrap_offer C authority production target ns interval)\<rparr>)"
proof (cases "schedule_interval (sn_draw (C AtInterval))
    (effectiveSchedule (ns_record ns) (Option.bind (production_policy production) pp_Schedule))")
  case (Inl e)
  with assms have "pl_record p = ns_record ns"
    by (auto simp: opportunity_def Let_def split: if_splits option.splits)
  then show ?thesis by simp
next
  case (Inr interval)
  with assms have "pl_record p = ns_record ns
      \<or> pl_record p = (ns_record ns)\<lparr>NextOpportunityAt := Some (sn_now (C AtArmed) + interval)\<rparr>
      \<or> last_number (ns_record ns) target \<noteq> max_int64
        \<and> pl_record p = (ns_record ns)\<lparr>NextOpportunityAt := Some (sn_now (C AtNext) + interval),
              init_StatusOffer := Some (bootstrap_offer C authority production target ns interval)\<rparr>"
    by (simp add: opportunity_def Let_def split: if_splits option.splits) (auto split: if_splits)
  then show ?thesis
  proof (elim disjE)
    assume "last_number (ns_record ns) target \<noteq> max_int64
        \<and> pl_record p = (ns_record ns)\<lparr>NextOpportunityAt := Some (sn_now (C AtNext) + interval),
              init_StatusOffer := Some (bootstrap_offer C authority production target ns interval)\<rparr>"
    then show ?thesis by blast
  qed auto
qed

lemma bootstrap_tail_cases:
  assumes "decided (bootstrap_tail C root authority production ns) = Inr p"
  shows "(init_StatusOffer (pl_record p) \<in> {None, init_StatusOffer (ns_record ns)}
       \<and> init_Baseline (pl_record p) = init_Baseline (ns_record ns) \<and> (sched_inv (ns_record ns) \<longrightarrow> sched_inv (pl_record p)))
    \<or> (\<exists>target interval t. ns_target ns = Some target \<and> 0 \<le> ns_height ns \<and> gate_position C authority ns = Inr ()
         \<and> may_advance C root authority production ns = Inr () \<and> last_number (ns_record ns) target \<noteq> max_int64
         \<and> pl_record p = (ns_record ns)\<lparr>NextOpportunityAt := Some t,
                init_StatusOffer := Some (bootstrap_offer C authority production target ns interval)\<rparr>)"
    (is "?quiet \<or> _")
proof (cases "ns_target ns = None \<or> ns_height ns < 0")
  case True
  then have ?quiet using assms by (auto simp: bootstrap_tail_def split: option.splits)
  then show ?thesis by blast
next
  case ok: False
  then obtain target where target: "ns_target ns = Some target" by auto
  show ?thesis
  proof (cases "gate_position C authority ns")
    case (Inl d)
    with assms ok target have "d = Inr p" by (simp add: bootstrap_tail_def)
    with Inl gate_position_report [of C authority ns p] have ?quiet by simp
    then show ?thesis by blast
  next
    case gate: (Inr u)
    show ?thesis
    proof (cases "may_advance C root authority production ns")
      case (Inl d)
      with assms ok target gate have "d = Inr p" by (simp add: bootstrap_tail_def)
      with Inl may_advance_report [of C root authority production ns p] have ?quiet by simp
      then show ?thesis by blast
    next
      case (Inr v)
      with assms ok target gate have "opportunity C authority production target ns = Inr p" by (simp add: bootstrap_tail_def)
      from opportunity_cases [OF this] ok target gate Inr show ?thesis by auto
    qed
  qed
qed

text \<open>Everything the bootstrap branch established before it selects an offer.\<close>

definition bootstrap_ready ::
  "reads \<Rightarrow> int \<Rightarrow> BitcoinNetwork \<Rightarrow> BitcoinInitialization \<Rightarrow> gateAuthority \<Rightarrow> BitcoinParticipant \<Rightarrow> executions \<Rightarrow> node_scan
     \<Rightarrow> BitcoinExecution \<Rightarrow> bool" where
  "bootstrap_ready C freshness root r authority production executions ns target \<longleftrightarrow>
     \<not> closed_network root \<and> net_Operation root \<noteq> ''Paused'' \<and> \<not> bp_Paused production
     \<and> currentGate (C AtGate) root r = Inr authority \<and> currentProduction (C AtProducer) root r = Inr production
     \<and> collect_executions (C AtExecutions) (adopt_production production r) (execution_refs root) (\<lambda>_. None) = Inr executions
     \<and> scan_nodes (C AtNodes) freshness root executions
          (ordered_nodes (bootstrap_account root executions (adopt_production production r)))
          \<lparr>ns_record = bootstrap_account root executions (adopt_production production r), ns_target = None,
           ns_height = -1, ns_tip = [], ns_mature = (\<lambda>_. 0)\<rparr> = Inr ns
     \<and> ns_target ns = Some target \<and> 0 \<le> ns_height ns \<and> gate_position C authority ns = Inr ()
     \<and> may_advance C root authority production ns = Inr ()"

lemma adopt_production_fields [simp]:
  "init_StatusOffer (adopt_production q r) = init_StatusOffer r" "init_Baseline (adopt_production q r) = init_Baseline r"
  "sched_inv (adopt_production q r) = sched_inv r" "init_StatusProduction (adopt_production q r) = Some (participant_ref q)"
  "init_Nodes (adopt_production q r) = init_Nodes r" "LastAccountedOffer (adopt_production q r) = LastAccountedOffer r"
  "init_Target (adopt_production q r) = init_Target r"
  by (simp_all add: adopt_production_def)

lemma bootstrap_account_fields:
  assumes "\<And>u e. executions u = Some e \<Longrightarrow> int64_execution e"
  shows "init_StatusOffer (bootstrap_account root executions r) = init_StatusOffer r"
    "init_Baseline (bootstrap_account root executions r) = init_Baseline r"
    "init_StatusProduction (bootstrap_account root executions r) = init_StatusProduction r"
    "init_Nodes (bootstrap_account root executions r) = init_Nodes r"
    "init_Target (bootstrap_account root executions r) = init_Target r"
    "LastAccountedOffer r \<le> LastAccountedOffer (bootstrap_account root executions r)"
    "sched_inv r \<Longrightarrow> sched_inv (bootstrap_account root executions r)"
proof -
  have "\<exists>f n. bootstrap_account root executions r = r\<lparr>Funded := f, LastAccountedOffer := n\<rparr> \<and> LastAccountedOffer r \<le> n
      \<and> (LastAccountedOffer r \<le> max_int64 \<longrightarrow> n \<le> max_int64)"
  proof (cases "executions (UID (init_Target r))")
    case None
    then show ?thesis
      by (intro exI [of _ "Funded r"] exI [of _ "LastAccountedOffer r"]) (simp add: bootstrap_account_def)
  next
    case (Some e)
    obtain r' ok where acc: "accountBootstrapReceipt (net_UID root) r e = (r', ok)" by fastforce
    from accountBootstrapReceipt_effect [OF acc] assms [OF Some] show ?thesis
      by (simp add: bootstrap_account_def Some acc)
  qed
  then obtain f n where n: "bootstrap_account root executions r = r\<lparr>Funded := f, LastAccountedOffer := n\<rparr>"
    "LastAccountedOffer r \<le> n" "LastAccountedOffer r \<le> max_int64 \<longrightarrow> n \<le> max_int64" by blast
  then show "init_StatusOffer (bootstrap_account root executions r) = init_StatusOffer r"
    "init_Baseline (bootstrap_account root executions r) = init_Baseline r"
    "init_StatusProduction (bootstrap_account root executions r) = init_StatusProduction r"
    "init_Nodes (bootstrap_account root executions r) = init_Nodes r"
    "init_Target (bootstrap_account root executions r) = init_Target r"
    "LastAccountedOffer r \<le> LastAccountedOffer (bootstrap_account root executions r)"
    "sched_inv r \<Longrightarrow> sched_inv (bootstrap_account root executions r)"
    by (auto simp: sched_inv_def)
qed

lemma bootstrap_executions_typed:
  "int64_reads C \<Longrightarrow> collect_executions (C p) r refs (\<lambda>_. None) = Inr executions \<Longrightarrow> executions u = Some e \<Longrightarrow> int64_execution e"
  by (erule collect_executions_all) (auto simp: int64_reads_def)

text \<open>One bootstrap reconciliation: either it keeps or withdraws the offer it found, or it selects a
  new one with everything established.\<close>

lemma reconcileBootstrap_cases:
  assumes typed: "int64_reads C" and inv: "sched_inv r"
    and p: "reconcileBootstrap C freshness root r = Inr p"
  shows "(init_StatusOffer (pl_record p) \<in> {None, init_StatusOffer r} \<and> init_Baseline (pl_record p) = init_Baseline r
       \<and> sched_inv (pl_record p))
    \<or> (\<exists>authority production executions ns target interval t.
         bootstrap_ready C freshness root r authority production executions ns target
         \<and> last_number (ns_record ns) target \<noteq> max_int64
         \<and> pl_record p = (ns_record ns)\<lparr>NextOpportunityAt := Some t,
                init_StatusOffer := Some (bootstrap_offer C authority production target ns interval)\<rparr>)"
    (is "?quiet \<or> _")
proof (cases "closed_network root \<or> (PreparedAt r = None
      \<and> (case FirstCeilingObservedAt r of Some t \<Rightarrow> \<not> sn_now (C AtDeadline) < t + 120 * second | None \<Rightarrow> False))
      \<or> \<not> is_ok (currentGate (C AtGate) root r) \<or> \<not> is_ok (currentProduction (C AtProducer) root r)")
  case True
  then have ?quiet
    using p inv unfolding reconcileBootstrap_def closed_network_def
    by (auto simp: is_ok_def split: if_splits sum.splits)
  then show ?thesis by blast
next
  case go: False
  then obtain authority production where a: "currentGate (C AtGate) root r = Inr authority"
    "currentProduction (C AtProducer) root r = Inr production"
    by (auto simp: is_ok_def split: sum.splits)
  let ?r1 = "adopt_production production r"
  show ?thesis
  proof (cases "(net_Operation root = ''Paused'' \<or> bp_Paused production)
      \<or> (\<exists>d. collect_executions (C AtExecutions) ?r1 (execution_refs root) (\<lambda>_. None) = Inl d)")
    case True
    then have "?quiet"
    proof (elim disjE exE)
      fix d assume d: "collect_executions (C AtExecutions) ?r1 (execution_refs root) (\<lambda>_. None) = Inl d"
      with go a p have "d = Inr p \<or> pl_record p = ?r1\<lparr>NextOpportunityAt := None\<rparr>"
        by (auto simp: reconcileBootstrap_def closed_network_def Let_def split: if_splits)
      with d collect_executions_report [of "C AtExecutions" ?r1 "execution_refs root" "\<lambda>_. None" p] inv show ?quiet by auto
    qed (use go a p inv in \<open>auto simp: reconcileBootstrap_def closed_network_def\<close>)
    then show ?thesis by blast
  next
    case running: False
    then obtain executions where execs: "collect_executions (C AtExecutions) ?r1 (execution_refs root) (\<lambda>_. None) = Inr executions"
      by (metis sum.exhaust)
    note fields = bootstrap_account_fields [OF bootstrap_executions_typed [OF typed execs], where root = root and r = ?r1]
    let ?r2 = "bootstrap_account root executions ?r1"
    let ?ns0 = "\<lparr>ns_record = ?r2, ns_target = None, ns_height = -1, ns_tip = [], ns_mature = (\<lambda>_. 0)\<rparr>"
    show ?thesis
    proof (cases "scan_nodes (C AtNodes) freshness root executions (ordered_nodes ?r2) ?ns0")
      case (Inl d)
      with go a p running execs have "d = Inr p" by (auto simp: reconcileBootstrap_def closed_network_def Let_def)
      with Inl have "touched ?r2 (pl_record p)" using scan_nodes_cases(1) by fastforce
      with fields inv have ?quiet by (simp add: touched_fields)
      then show ?thesis by blast
    next
      case scan: (Inr ns)
      then have t: "touched ?r2 (ns_record ns)" using scan_nodes_cases(2) by fastforce
      have ns: "init_StatusOffer (ns_record ns) = init_StatusOffer r" "init_Baseline (ns_record ns) = init_Baseline r"
        "sched_inv (ns_record ns)"
        using fields inv by (simp_all add: touched_fields [OF t])
      have "decided (bootstrap_tail C root authority production ns) = Inr p"
        using go a p running execs scan by (auto simp: reconcileBootstrap_def closed_network_def Let_def)
      from bootstrap_tail_cases [OF this] show ?thesis
      proof (elim disjE exE)
        fix target interval t
        assume "ns_target ns = Some target \<and> 0 \<le> ns_height ns \<and> gate_position C authority ns = Inr ()
         \<and> may_advance C root authority production ns = Inr () \<and> last_number (ns_record ns) target \<noteq> max_int64
         \<and> pl_record p = (ns_record ns)\<lparr>NextOpportunityAt := Some t,
                init_StatusOffer := Some (bootstrap_offer C authority production target ns interval)\<rparr>"
        with go a running execs scan have "bootstrap_ready C freshness root r authority production executions ns target
          \<and> last_number (ns_record ns) target \<noteq> max_int64
          \<and> pl_record p = (ns_record ns)\<lparr>NextOpportunityAt := Some t,
                init_StatusOffer := Some (bootstrap_offer C authority production target ns interval)\<rparr>"
          by (simp add: bootstrap_ready_def)
        then show ?thesis by blast
      qed (use ns in auto)
    qed
  qed
qed

section \<open>One reconciliation\<close>

lemma enact_status:
  "WriteStatus r' \<in> set (fst (enact C before production final d)) \<Longrightarrow> \<exists>p. d = Inr p \<and> r' = final p"
  by (cases d) (auto simp: enact_def after_write_def publish_offer_def publish_status_def publish_scheduling_def Let_def
        split: option.splits if_splits sum.splits prod.splits)

text \<open>The record under another timing override.\<close>

definition retimed :: "BitcoinInitialization \<Rightarrow> BitcoinActiveOverride option \<Rightarrow> BitcoinInitialization" where
  "retimed r active = withdrawTiming (r\<lparr>init_Override := active\<rparr>)"

lemma reconcileOverride_status:
  "reconcileOverride C root r = (r1, ws, res) \<Longrightarrow> WriteStatus r' \<in> set ws \<Longrightarrow> \<exists>active. r' = retimed r active"
  by (auto simp: reconcileOverride_def write_override_def Let_def simp flip: retimed_def
        split: option.splits get.splits if_splits sum.splits) (rule exI, rule refl)

text \<open>A status write comes from one of the three branches.\<close>

lemma scheduler_status_cases:
  assumes r: "sn_initialization (C AtRecord) name = Got r"
    and w: "WriteStatus r' \<in> set (fst (scheduler_Reconcile C freshness name))"
  obtains (timing) active where "r' = retimed r active"
    | (baseline) root production p where "sn_network (C AtRoot) = Got root" "bound_initialization root r"
        "reconcileBaseline C freshness root r = (production, Inr p)" "r' = reported_baseline p"
    | (bootstrap) root p where "sn_network (C AtRoot) = Got root" "bound_initialization root r"
        "reconcileBootstrap C freshness root r = Inr p" "r' = reported p"
proof -
  obtain root where root: "sn_network (C AtRoot) = Got root" "bound_initialization root r"
    using w r by (auto simp: scheduler_Reconcile_def split: sum.splits if_splits)
  obtain r1 ws res where o: "reconcileOverride C root r = (r1, ws, res)" by (metis prod_cases3)
  show thesis
  proof (cases "res = Inr False")
    case False
    then have "WriteStatus r' \<in> set ws"
      using w r root o by (auto simp: scheduler_Reconcile_def fetched_def split: sum.splits bool.splits)
    with reconcileOverride_status [OF o] show thesis using timing by blast
  next
    case True
    obtain production d where b: "reconcileBaseline C freshness root r = (production, d)" by fastforce
    show thesis
    proof (cases "case bn_Initialization root of Some state \<Rightarrow> is_Completed state | None \<Rightarrow> False")
      case completed: True
      then have "WriteStatus r' \<in> set (fst (enact C r production reported_baseline d))"
        using w r root o b True by (simp add: scheduler_Reconcile_def fetched_def)
      then show thesis using enact_status baseline [OF root] b by blast
    next
      case pending: False
      then have "WriteStatus r' \<in> set (fst (enact C r None reported (reconcileBootstrap C freshness root r)))"
        using w r root o True by (simp add: scheduler_Reconcile_def fetched_def)
      then show thesis using enact_status bootstrap [OF root] by blast
    qed
  qed
qed

lemma sched_inv_reported [simp]: "sched_inv (reported p) = sched_inv (pl_record p)"
  by (simp add: reported_def)

lemma sched_inv_reported_baseline [simp]: "sched_inv (reported_baseline p) = sched_inv (pl_record p)"
  by (simp add: reported_baseline_def)

text \<open>Numbers of a new bootstrap offer.\<close>

lemma last_number_bounds:
  "LastAccountedOffer r \<le> last_number r target" "CompletedOffer target \<le> last_number r target"
  "init_StatusOffer r = Some offer \<Longrightarrow> Number offer \<le> last_number r target"
  "exec_Offer target = Some offer' \<Longrightarrow> Number offer' \<le> last_number r target"
  by (auto simp: last_number_def Let_def split: option.splits)

lemma last_number_int64:
  "sched_inv r \<Longrightarrow> int64_execution target \<Longrightarrow> last_number r target \<le> max_int64"
  by (auto simp: last_number_def sched_inv_def int64_execution_def Let_def split: option.splits)

lemma bootstrap_ready_facts:
  assumes typed: "int64_reads C" and inv: "sched_inv r"
    and ready: "bootstrap_ready C freshness root r authority production executions ns target"
  shows "sched_inv (ns_record ns)" "init_StatusOffer (ns_record ns) = init_StatusOffer r"
    "init_Baseline (ns_record ns) = init_Baseline r" "init_StatusProduction (ns_record ns) = Some (participant_ref production)"
    "int64_execution target" "ns_height ns < gate_Ceiling (ga_gate authority)"
    "LastAccountedOffer r \<le> LastAccountedOffer (ns_record ns)"
    "\<forall>node \<in> set (init_Nodes r). node_agrees (C AtNodes) freshness root executions (ns_height ns) (ns_tip ns) node"
    "executions (UID (init_Target r)) = Some target"
proof -
  let ?r1 = "adopt_production production r"
  let ?r2 = "bootstrap_account root executions ?r1"
  from ready have execs: "collect_executions (C AtExecutions) ?r1 (execution_refs root) (\<lambda>_. None) = Inr executions"
    and scan: "scan_nodes (C AtNodes) freshness root executions (ordered_nodes ?r2)
          \<lparr>ns_record = ?r2, ns_target = None, ns_height = -1, ns_tip = [], ns_mature = (\<lambda>_. 0)\<rparr> = Inr ns"
    and target: "ns_target ns = Some target" and below: "gate_position C authority ns = Inr ()"
    by (simp_all add: bootstrap_ready_def)
  note execs_typed = bootstrap_executions_typed [OF typed execs]
  note fields = bootstrap_account_fields [OF execs_typed, where root = root and r = ?r1]
  have t: "touched ?r2 (ns_record ns)" using scan_nodes_cases(2) [OF scan] by simp
  show "sched_inv (ns_record ns)" "init_StatusOffer (ns_record ns) = init_StatusOffer r"
    "init_Baseline (ns_record ns) = init_Baseline r" "init_StatusProduction (ns_record ns) = Some (participant_ref production)"
    "LastAccountedOffer r \<le> LastAccountedOffer (ns_record ns)"
    using fields inv by (simp_all add: touched_fields [OF t])
  from scan_nodes_agree [OF scan execs_typed] target
  show "int64_execution target"
    "\<forall>node \<in> set (init_Nodes r). node_agrees (C AtNodes) freshness root executions (ns_height ns) (ns_tip ns) node"
    "executions (UID (init_Target r)) = Some target"
    using execs_typed fields(4,5) by auto
  show "ns_height ns < gate_Ceiling (ga_gate authority)" using below by (rule gate_position_below)
qed

lemma sched_inv_bootstrap:
  assumes "int64_reads C" "sched_inv r" "reconcileBootstrap C freshness root r = Inr p"
  shows "sched_inv (pl_record p)"
  using reconcileBootstrap_cases [OF assms]
proof (elim disjE exE conjE)
  fix authority production executions ns target interval t
  assume ready: "bootstrap_ready C freshness root r authority production executions ns target"
    and n: "last_number (ns_record ns) target \<noteq> max_int64"
    and p: "pl_record p = (ns_record ns)\<lparr>NextOpportunityAt := Some t,
                init_StatusOffer := Some (bootstrap_offer C authority production target ns interval)\<rparr>"
  note facts = bootstrap_ready_facts [OF assms(1,2) ready]
  have "last_number (ns_record ns) target < max_int64"
    using last_number_int64 [OF facts(1,5)] n by linarith
  with facts(1) p show "sched_inv (pl_record p)"
    by (auto simp: sched_inv_def bootstrap_offer_def Let_def split: prod.splits)
qed

lemma sched_inv_reconcile:
  assumes "int64_reads C" "sched_inv r" "sn_initialization (C AtRecord) name = Got r"
    "WriteStatus r' \<in> set (fst (scheduler_Reconcile C freshness name))"
  shows "sched_inv r'"
  using assms(3,4)
  by (cases rule: scheduler_status_cases)
    (use assms(1,2) in \<open>auto simp: retimed_def intro: sched_inv_bootstrap sched_inv_reconcileBaseline\<close>)

section \<open>Executions\<close>

text \<open>The baseline offer a status write commits anew, if any.\<close>

definition committed :: "BitcoinInitialization \<Rightarrow> BitcoinInitialization \<Rightarrow> BitcoinBlockOffer list" where
  "committed r r' =
     (case init_StatusOffer r' of
        Some offer \<Rightarrow> if init_StatusOffer r = Some offer \<or> Mode offer \<noteq> ''Baseline'' then [] else [offer]
      | None \<Rightarrow> [])"

definition scheduler_start :: "BitcoinInitialization \<Rightarrow> bool" where
  "scheduler_start r \<longleftrightarrow> init_Baseline r = None \<and> init_StatusOffer r = None \<and> LastAccountedOffer r = 0"

definition scheduler_step :: "BitcoinInitialization \<Rightarrow> BitcoinBlockOffer list \<Rightarrow> BitcoinInitialization \<Rightarrow> bool" where
  "scheduler_step r offers r' \<longleftrightarrow>
     (\<exists>C freshness name. int64_reads C \<and> sn_initialization (C AtRecord) name = Got r
        \<and> WriteStatus r' \<in> set (fst (scheduler_Reconcile C freshness name)) \<and> offers = committed r r')"

interpretation scheduler: invariant_system scheduler_start scheduler_step sched_inv
proof
  show "scheduler_start r \<Longrightarrow> sched_inv r" for r by (simp add: scheduler_start_def sched_inv_def)
  show "sched_inv r \<Longrightarrow> scheduler_step r offers r' \<Longrightarrow> sched_inv r'" for r offers r'
    by (auto simp: scheduler_step_def intro: sched_inv_reconcile)
qed

section \<open>Numbers of committed offers\<close>

text \<open>The sequence never falls, and a selected decision with the same number was selected before.\<close>

definition advances :: "BitcoinBaselineStatus \<Rightarrow> BitcoinBaselineStatus \<Rightarrow> bool" where
  "advances b b' \<longleftrightarrow>
     Sequence b \<le> Sequence b' \<and> (Stage b' = ''Selected'' \<longrightarrow> Sequence b' = Sequence b \<longrightarrow> Stage b = ''Selected'')"

definition record_advances :: "BitcoinInitialization \<Rightarrow> BitcoinInitialization \<Rightarrow> bool" where
  "record_advances r r' \<longleftrightarrow> (\<forall>b. init_Baseline r = Some b \<longrightarrow> (\<exists>b'. init_Baseline r' = Some b' \<and> advances b b'))"

lemma advances_refl [simp]: "advances b b"
  by (simp add: advances_def)

lemma advances_trans: "advances a b \<Longrightarrow> advances b c \<Longrightarrow> advances a c"
  by (auto simp: advances_def)

lemma record_advances_refl [simp]: "record_advances r r"
  by (simp add: record_advances_def)

lemma record_advances_trans: "record_advances r s \<Longrightarrow> record_advances s t \<Longrightarrow> record_advances r t"
  unfolding record_advances_def by (meson advances_trans)

lemma record_advances_same: "init_Baseline r' = init_Baseline r \<Longrightarrow> record_advances r r'"
  by (simp add: record_advances_def)

lemma record_advances_baseline:
  "(\<And>b. init_Baseline r = Some b \<Longrightarrow> advances b (f b)) \<Longrightarrow> init_Baseline r' = map_option f (init_Baseline r)
   \<Longrightarrow> record_advances r r'"
  by (auto simp: record_advances_def)

lemma advances_simps [simp]:
  "advances b (withdraw_stage b)" "advances b (count_assigned b)" "advances b (count_skipped b)"
  "advances b (count_unassigned b)" "advances b (acknowledge uid n t b)" "advances b (adopt_inputs inputs b)"
  "advances b (b\<lparr>Sequence := max (Sequence b) n\<rparr>)" "advances b (b\<lparr>Stage := ''Offered''\<rparr>)"
  "advances b (on_scheduling f b)"
  by (auto simp: advances_def counting_defs acknowledge_def adopt_inputs_def)

lemma account_execution_advances:
  "record_advances r (account_execution root e r) \<and> init_StatusOffer (account_execution root e r) = init_StatusOffer r"
proof -
  obtain r1 ok where acc: "accountBootstrapReceipt (net_UID root) r e = (r1, ok)" by fastforce
  obtain f n where r1: "r1 = r\<lparr>Funded := f, LastAccountedOffer := n\<rparr>"
    using accountBootstrapReceipt_effect [OF acc] by blast
  define r2 where "r2 = (if ok then on_baseline (\<lambda>b. b\<lparr>Sequence := max (Sequence b) (LastAccountedOffer r1)\<rparr>) r1 else r1)"
  have 2: "record_advances r r2" "init_StatusOffer r2 = init_StatusOffer r"
    by (auto simp: r2_def r1 record_advances_def on_baseline_def)
  have 3: "record_advances r2 (assign_published e r2)" "init_StatusOffer (assign_published e r2) = init_StatusOffer r2"
    by (auto simp: assign_published_def record_advances_def on_baseline_def split: option.splits)
  have 4: "record_advances r3 (on_baseline (acknowledge uid number t) r3)" for r3 uid number t
    by (auto simp: record_advances_def on_baseline_def)
  have "account_execution root e r =
      (case init_Baseline (assign_published e r2) of
         None \<Rightarrow> assign_published e r2
       | Some b \<Rightarrow>
           (case baseline_receipt (assign_published e r2) b e of
              None \<Rightarrow> assign_published e r2
            | Some (number, receivedAt) \<Rightarrow>
                on_baseline (acknowledge (exec_UID e) number receivedAt) (assign_published e r2)))"
    by (simp only: account_execution_def acc Let_def prod.case flip: r2_def)
  moreover have "init_StatusOffer (on_baseline f r3) = init_StatusOffer r3" for f r3 by (simp add: on_baseline_def)
  ultimately show ?thesis
    using record_advances_trans [OF 2(1) 3(1)] 2(2) 3(2) 4 by (auto intro: record_advances_trans split: option.splits)
qed

lemma receipts_advance:
  "record_advances r (fst (accountBaselineReceipts S root refs r m))
   \<and> init_StatusOffer (fst (accountBaselineReceipts S root refs r m)) = init_StatusOffer r"
proof (induction refs arbitrary: r m)
  case (Cons ref refs)
  show ?case
  proof (cases "sn_execution S (Name ref)")
    case (Got e)
    with Cons account_execution_advances [of r root e] show ?thesis by (auto intro: record_advances_trans)
  qed (use Cons in auto)
qed simp

text \<open>What a decision of the baseline does to the offer and the sequence.\<close>

definition commits :: "BitcoinInitialization \<Rightarrow> BitcoinInitialization \<Rightarrow> bool" where
  "commits r r' \<longleftrightarrow>
     (\<exists>b offer. init_Baseline r = Some b \<and> Stage b = ''Selected'' \<and> init_StatusOffer r' = Some offer \<and> Number offer = Sequence b
        \<and> Mode offer = ''Baseline'' \<and> map_option Stage (init_Baseline r') = Some ''Offered'' \<and> map_option Sequence (init_Baseline r') = Some (Sequence b))"

definition decides :: "BitcoinInitialization \<Rightarrow> BitcoinInitialization \<Rightarrow> bool" where
  "decides r r' \<longleftrightarrow> record_advances r r' \<and> (init_StatusOffer r' \<in> {None, init_StatusOffer r} \<or> commits r r')"

lemma settle_decides:
  assumes b: "init_Baseline r = Some b"
    and d: "settle_decision C freshness root production inputs executions r b next = Inr p"
  shows "decides r (pl_record p)"
proof -
  have counted: "decides r (on_baseline count_skipped (r\<lparr>init_StatusOffer := None\<rparr>))"
    "decides r (on_baseline count_unassigned (r\<lparr>init_StatusOffer := None\<rparr>))" "decides r (on_baseline count_assigned r)"
    by (auto simp: decides_def record_advances_def on_baseline_def)
  show ?thesis
  proof (cases "sn_now (C AtDecision) < next \<and> Stage b = ''Selected''
      \<and> is_ok (baselineTarget (C AtTarget) freshness root r (SelectedTarget b) executions)")
    case True
    with d obtain observation where p:
      "pl_record p = (on_baseline (\<lambda>b. b\<lparr>Stage := ''Offered''\<rparr>) r)
         \<lparr>init_StatusOffer := Some (baseline_offer r b production inputs observation next)\<rparr>"
      by (auto simp: settle_decision_def is_ok_def split: sum.splits option.splits)
    then have "commits r (pl_record p)"
      using True b by (simp add: commits_def on_baseline_def baseline_offer_def)
    moreover have "record_advances r (pl_record p)" by (simp add: p record_advances_def on_baseline_def)
    ultimately show ?thesis by (simp add: decides_def)
  next
    case False
    with d have "pl_record p \<in> {r, on_baseline count_skipped (r\<lparr>init_StatusOffer := None\<rparr>),
        on_baseline count_unassigned (r\<lparr>init_StatusOffer := None\<rparr>), on_baseline count_assigned r}"
      by (auto simp: settle_decision_def is_ok_def split: sum.splits option.splits if_splits)
    with counted show ?thesis by (auto simp: decides_def)
  qed
qed

lemma select_decides:
  assumes inv: "sched_inv r" and b: "init_Baseline r = Some b"
    and d: "select_decision C inputs r b = Inr p"
  shows "decides r (pl_record p)"
proof -
  have "advances b (b\<lparr>Scheduling := s, Sequence := wrap64 (Sequence b + 1), SelectedTarget := t, Stage := ''Selected''\<rparr>)"
    if "Sequence b \<noteq> max_int64" for s t
    using sched_inv_some [OF inv b] that wrap64_increment [of "Sequence b"] by (auto simp: advances_def cursors_ok_def)
  then show ?thesis
    using d b
    by (auto simp: select_decision_def decides_def record_advances_def on_baseline_def on_scheduling_def
          split: if_splits sum.splits)
qed

lemma opportunity_decides:
  assumes inv: "sched_inv r" and b: "init_Baseline r = Some b"
    and d: "baseline_opportunity C freshness root production inputs executions r b = Inr p"
  shows "decides r (pl_record p)"
proof (cases "NextOpportunityAt r")
  case None
  with d show ?thesis by (auto simp: baseline_opportunity_def decides_def record_advances_def split: sum.splits)
next
  case (Some due)
  then show ?thesis
    using d settle_decides [OF b] select_decides [OF inv b]
    by (auto simp: baseline_opportunity_def decides_def split: if_splits)
qed

lemma decides_after: "record_advances r s \<Longrightarrow> init_StatusOffer s \<in> {None, init_StatusOffer r} \<Longrightarrow> decides s t \<Longrightarrow>
    record_advances r t \<and> (init_StatusOffer t \<in> {None, init_StatusOffer r} \<or> (\<exists>u. record_advances r u \<and> commits u t))"
  by (auto simp: decides_def intro: record_advances_trans)

lemma advances_after [simp]:
  "advances a (on_scheduling f b) = advances a b" "advances a (adopt_inputs inputs b) = (Sequence a \<le> Sequence b)"
  by (auto simp: advances_def on_scheduling_def adopt_inputs_def)

lemma Sequence_withdraw [simp]: "Sequence (withdraw_stage b) = Sequence b"
  by (simp add: withdraw_stage_def)

lemma withdraw_decides [simp]:
  "decides r (withdrawBaseline r)" "decides r (withdrawn r)" "decides r (stamped t (withdrawn r))"
  "decides r ((on_baseline (adopt_inputs inputs) (withdrawBaseline r))\<lparr>init_StatusProduction := q\<rparr>)"
  by (auto simp: decides_def record_advances_def withdrawBaseline_def withdrawn_def stamped_def on_baseline_def
        intro: advances_trans)

lemma begin_baseline_advances:
  "record_advances r (begin_baseline r)" "init_StatusOffer (begin_baseline r) \<in> {None, init_StatusOffer r}"
  by (auto simp: begin_baseline_def record_advances_def)

lemma reconcileBaseline_decides:
  assumes inv: "sched_inv r0" and reads: "int64_reads C"
    and d: "reconcileBaseline C freshness root r0 = (production, Inr p)"
  shows "record_advances r0 (pl_record p) \<and> (init_StatusOffer (pl_record p) \<in> {None, init_StatusOffer r0}
    \<or> (\<exists>u. record_advances r0 u \<and> commits u (pl_record p)))"
proof -
  let ?b0 = "begin_baseline r0"
  obtain r executions where acc: "accountBaselineReceipts (C AtReceipts) root (execution_refs root) ?b0 (\<lambda>_. None) = (r, executions)"
    by fastforce
  have i: "sched_inv r"
    using sched_inv_receipts [of "C AtReceipts" ?b0 root "execution_refs root" "\<lambda>_. None"] reads inv acc
    by (auto simp: int64_reads_def)
  have adv: "record_advances r0 r" "init_StatusOffer r \<in> {None, init_StatusOffer r0}"
    using receipts_advance [of ?b0 "C AtReceipts" root "execution_refs root" "\<lambda>_. None"] begin_baseline_advances [of r0] acc
    by (auto intro: record_advances_trans)
  have summary: "decides r (pl_record p)"
    if "decides (stamped t (on_baseline (on_scheduling f) r)) (pl_record p)" for t f
    using that unfolding decides_def
    by (auto simp: record_advances_def commits_def stamped_def on_baseline_def on_scheduling_def advances_def)
  have "decides r (pl_record p)"
  proof (cases "closed_network root \<or> baselineCompleted (C AtCompleted) root r \<noteq> Inr ()
      \<or> \<not> is_ok (currentProduction (C AtProducer) root r)")
    case True
    then show ?thesis
      using d by (auto simp: reconcileBaseline_def acc is_ok_def split: if_splits sum.splits)
  next
    case False
    then obtain q where q: "currentProduction (C AtProducer) root r = Inr q" by (auto simp: is_ok_def split: sum.splits)
    show ?thesis
    proof (cases "resolveBaselineInputs (C AtInputs) root r q")
      case (Inl e)
      then show ?thesis using d False q by (auto simp: reconcileBaseline_def acc)
    next
      case (Inr admitted)
      let ?inputs = "effective_inputs r admitted"
      let ?r1 = "stamped (sn_now (C AtObserved)) (on_baseline (on_scheduling (\<lambda>s. s\<lparr>EligibleTargets :=
        eligible_targets (C AtSummary) freshness root r executions (sc_Targets ?inputs)\<rparr>)) r)"
      from d Inr False q consider
          (adopted) "pl_record p = (on_baseline (adopt_inputs ?inputs) (withdrawBaseline r))\<lparr>init_StatusProduction := Some (participant_ref q)\<rparr>"
        | (paused) "pl_record p = withdrawBaseline ?r1"
        | (live) b1 where "init_Baseline ?r1 = Some b1" "baseline_opportunity C freshness root q ?inputs executions ?r1 b1 = Inr p"
        by (auto simp: reconcileBaseline_def acc Let_def split: option.splits if_splits)
      then show ?thesis
      proof cases
        case adopted
        then show ?thesis by simp
      next
        case paused
        then have "decides ?r1 (pl_record p)" by simp
        then show ?thesis by (rule summary)
      next
        case live
        have "sched_inv ?r1" using i by simp
        from opportunity_decides [OF this live] show ?thesis by (rule summary)
      qed
    qed
  qed
  then show ?thesis using decides_after [OF adv] by blast
qed

text \<open>One step of an execution.\<close>

lemma step_numbers:
  assumes inv: "sched_inv r" and step: "scheduler_step r offers r'"
  shows "record_advances r r' \<and> (offers = [] \<or>
    (\<exists>u b offer b'. offers = [offer] \<and> record_advances r u \<and> init_Baseline u = Some b \<and> Stage b = ''Selected''
       \<and> Number offer = Sequence b \<and> init_Baseline r' = Some b' \<and> Stage b' = ''Offered'' \<and> Sequence b' = Sequence b))"
proof -
  from step obtain C freshness name where c: "int64_reads C" "sn_initialization (C AtRecord) name = Got r"
    "WriteStatus r' \<in> set (fst (scheduler_Reconcile C freshness name))" and offers: "offers = committed r r'"
    by (auto simp: scheduler_step_def)
  have quiet: "offers = []" if "init_StatusOffer r' \<in> {None, init_StatusOffer r}"
    using that by (auto simp: offers committed_def split: option.splits)
  from c(2,3) show ?thesis
  proof (cases rule: scheduler_status_cases)
    case (timing active)
    then have "record_advances r r'"
      by (auto simp: retimed_def withdrawTiming_def withdrawBaseline_def record_advances_def)
    moreover have "init_StatusOffer r' = None" by (simp add: timing retimed_def withdrawTiming_def withdrawBaseline_def)
    ultimately show ?thesis using quiet by simp
  next
    case (baseline root production p)
    have same: "record_advances x (pl_record p) \<Longrightarrow> record_advances x r'" "init_StatusOffer r' = init_StatusOffer (pl_record p)"
      "map_option Stage (init_Baseline r') = map_option Stage (init_Baseline (pl_record p))"
      "map_option Sequence (init_Baseline r') = map_option Sequence (init_Baseline (pl_record p))" for x
      by (auto simp: baseline(4) reported_baseline_def reported_def on_baseline_def record_advances_def on_scheduling_def
            advances_def option.map_comp comp_def)
    from reconcileBaseline_decides [OF inv c(1) baseline(3)] show ?thesis
    proof (elim conjE disjE exE)
      assume "record_advances r (pl_record p)" "init_StatusOffer (pl_record p) \<in> {None, init_StatusOffer r}"
      with same quiet show ?thesis by auto
    next
      fix u assume adv: "record_advances r (pl_record p)" "record_advances r u" and "commits u (pl_record p)"
      then obtain b offer where b: "init_Baseline u = Some b" "Stage b = ''Selected''" "init_StatusOffer r' = Some offer"
        "Number offer = Sequence b" "map_option Stage (init_Baseline r') = Some ''Offered''"
        "map_option Sequence (init_Baseline r') = Some (Sequence b)"
        using same(2-4) by (auto simp: commits_def)
      then obtain b' where b': "init_Baseline r' = Some b'" "Stage b' = ''Offered''" "Sequence b' = Sequence b" by auto
      have "offers = [] \<or> offers = [offer]" using b(3) by (simp add: offers committed_def)
      with adv same(1) b b' show ?thesis by blast
    qed
  next
    case (bootstrap root p)
    have same: "init_StatusOffer r' = init_StatusOffer (pl_record p)" "init_Baseline r' = init_Baseline (pl_record p)"
      by (simp_all add: bootstrap(4) reported_def)
    from reconcileBootstrap_cases [OF c(1) inv bootstrap(3)] show ?thesis
    proof (elim disjE exE conjE)
      assume "init_StatusOffer (pl_record p) \<in> {None, init_StatusOffer r}" "init_Baseline (pl_record p) = init_Baseline r"
      with same quiet show ?thesis by (simp add: record_advances_same)
    next
      fix authority q executions ns target interval t
      assume ready: "bootstrap_ready C freshness root r authority q executions ns target"
        and p: "pl_record p = (ns_record ns)\<lparr>NextOpportunityAt := Some t,
                init_StatusOffer := Some (bootstrap_offer C authority q target ns interval)\<rparr>"
      have "init_Baseline r' = init_Baseline r"
        using bootstrap_ready_facts(3) [OF c(1) inv ready] same(2) p by simp
      moreover have "offers = []"
        using same(1) p by (simp add: offers committed_def bootstrap_offer_def Let_def split: prod.splits)
      ultimately show ?thesis by (simp add: record_advances_same)
    qed
  qed
qed

text \<open>The offers committed so far, against the sequence of the record.\<close>

definition numbered :: "BitcoinInitialization \<Rightarrow> BitcoinBlockOffer list \<Rightarrow> bool" where
  "numbered r offers \<longleftrightarrow>
     sorted_wrt (<) (map Number offers) \<and> (offers \<noteq> [] \<longrightarrow> init_Baseline r \<noteq> None)
     \<and> (\<forall>b. init_Baseline r = Some b \<longrightarrow>
          (\<forall>n \<in> Number ` set offers. n < Sequence b \<or> n = Sequence b \<and> Stage b \<noteq> ''Selected''))"

lemma numbered_advances: "numbered r offers \<Longrightarrow> record_advances r r' \<Longrightarrow> numbered r' offers"
  unfolding numbered_def record_advances_def advances_def by (cases "init_Baseline r") force+

lemma numbered_commit:
  assumes "numbered r offers" "record_advances r u" "init_Baseline u = Some b" "Stage b = ''Selected''"
    and "Number offer = Sequence b" "init_Baseline r' = Some b'" "Stage b' = ''Offered''" "Sequence b' = Sequence b"
  shows "numbered r' (offers @ [offer])"
  using numbered_advances [OF assms(1,2)] assms(3-)
  by (auto simp: numbered_def sorted_wrt_append)

interpretation numbering: history_system scheduler_start scheduler_step "\<lambda>r es. numbered r (concat es)"
proof
  show "scheduler_start r \<Longrightarrow> numbered r (concat [])" for r by (simp add: numbered_def)
  fix r es offers r'
  assume runs: "runs scheduler_start scheduler_step r es" and n: "numbered r (concat es)" and step: "scheduler_step r offers r'"
  from step_numbers [OF scheduler.inv_runs [OF runs] step] show "numbered r' (concat (es @ [offers]))"
    using numbered_advances [OF n] numbered_commit [OF n] by auto
qed

section \<open>What executions guarantee\<close>

text \<open>C8: Baseline opportunities are conserved. In every execution of the scheduler, over any reads and any
  failures of its other writes, each counted opportunity is in exactly one place: assigned to its target,
  skipped, unassigned, or the one decision still open; no counter leaves the range of its type. Receipt
  cursors are one for each execution record, never beyond the sequence, and every acknowledgement
  stands for a distinct number of its record.\<close>

theorem baseline_opportunities_conserved:
  assumes "runs scheduler_start scheduler_step r es" and "init_Baseline r = Some b"
  shows "Opportunities (Scheduling b) = Assigned (Scheduling b) + Skipped (Scheduling b) + Unassigned (Scheduling b)
           + (if Stage b = ''Selected'' \<or> Stage b = ''Offered'' then 1 else 0)
    \<and> (\<forall>n \<in> {Assigned (Scheduling b), Skipped (Scheduling b), Unassigned (Scheduling b), Acknowledged (Scheduling b), Sequence b}.
         0 \<le> n \<and> n \<le> max_int64)
    \<and> distinct (map fst (Receipts b)) \<and> (\<forall>n \<in> snd ` set (Receipts b). 1 \<le> n \<and> n \<le> Sequence b)
    \<and> Acknowledged (Scheduling b) \<le> sum_list (map snd (Receipts b))"
  using sched_inv_some [OF scheduler.inv_runs [OF assms(1)] assms(2)]
  by (auto simp: tally_def open_decision_def cursors_ok_def)

text \<open>C12: Baseline offers are numbered once and in order. Along every execution of the scheduler the committed
  baseline offers have strictly rising numbers, whatever was withdrawn, expired, skipped or adopted in between, and
  none exceeds the retained sequence.\<close>

theorem baseline_offers_numbered:
  assumes "runs scheduler_start scheduler_step r es" and "concat es \<noteq> []"
  shows "sorted_wrt (<) (map Number (concat es))
    \<and> (\<exists>b. init_Baseline r = Some b \<and> (\<forall>offer \<in> set (concat es). Number offer \<le> Sequence b))"
  using numbering.hinv_runs [OF assms(1)] assms(2) by (force simp: numbered_def)

lemma currentGate_frozen:
  "currentGate S root r = Inr authority \<Longrightarrow>
     \<exists>name. sn_genesis S name = Got (ga_genesis authority) \<and> ga_gate authority \<in> set (gs_Gates (ga_genesis authority))"
proof -
  assume g: "currentGate S root r = Inr authority"
  then obtain ref genesis where ref: "bn_GenesisRef root = Some ref" "sn_genesis S (Name ref) = Got genesis"
    by (auto simp: currentGate_def result_simps split: option.splits if_splits)
  have "ga_genesis authority = genesis \<and> ga_gate authority \<in> set (gs_Gates genesis)"
  proof (cases "bn_Initialization root")
    case None
    with g ref show ?thesis
      by (auto simp: currentGate_def fetched_def first_gate_def Let_def split: if_splits list.splits)
  next
    case (Some state)
    with g ref show ?thesis
      by (auto simp: currentGate_def fetched_def Let_def result_simps nat_less_iff split: if_splits)
  qed
  with ref show ?thesis by blast
qed

lemma bootstrap_offer_counts:
  assumes "0 \<le> ns_height ns" "ns_height ns < gate_Ceiling (ga_gate authority)" "gate_Ceiling (ga_gate authority) \<le> max_int64"
  shows "offerCountAuthorized (ns_record ns) (bootstrap_offer C authority production target ns interval)"
  by (rule offerCountAuthorized_batch [OF assms, where remaining = "snd (next_wallet (ns_record ns))"])
    (auto simp: bootstrap_offer_def Let_def split: prod.splits)

text \<open>The offer selected once everything is established, under the record that carries it.\<close>

lemma selected_offer_authorized:
  assumes reads: "int64_reads C" and inv: "sched_inv r"
    and ready: "bootstrap_ready C freshness root r authority q executions ns target"
    and r': "r' = (ns_record ns)\<lparr>NextOpportunityAt := t, init_StatusOffer := Some offer, init_Phase := phase, init_Reason := reason\<rparr>"
    and o: "offer = bootstrap_offer C authority q target ns interval"
  shows "offerCountAuthorized r' offer" "now < ExpiresAt offer \<Longrightarrow> authorizeOffer r' now outcome offer = outcome"
proof -
  note facts = bootstrap_ready_facts [OF reads inv ready]
  note fields = o [unfolded bootstrap_offer_def Let_def split_beta]
  have gate: "currentGate (C AtGate) root r = Inr authority" "0 \<le> ns_height ns"
    using ready by (simp_all add: bootstrap_ready_def)
  have "gate_Ceiling (ga_gate authority) \<le> max_int64"
    using currentGate_frozen [OF gate(1)] reads by (auto simp: int64_reads_def)
  then have "offerCountAuthorized (ns_record ns) offer"
    unfolding o by (rule bootstrap_offer_counts [OF gate(2) facts(6)])
  moreover have "offerCountAuthorized r' offer = offerCountAuthorized (ns_record ns) offer"
    by (simp add: r' offerCountAuthorized_def batchLimit_def)
  ultimately show count: "offerCountAuthorized r' offer" by simp
  have "0 \<le> last_number (ns_record ns) target"
    using last_number_bounds(1) [of "ns_record ns" target] facts(1) by (simp add: sched_inv_def)
  then show "authorizeOffer r' now outcome offer = outcome" if "now < ExpiresAt offer"
    using that count facts(4,6)
    by (auto simp: authorizeOffer_def r' fields productionBinding_def initialization_ref_def)
qed

text \<open>C6: A bootstrap opportunity is only selected when it is safe. When a reconciliation of a reachable record
  commits a new bootstrap offer, the network is neither paused nor stopped nor failed, the offer's ceiling is
  the one of the current frozen gate, and its blocks fit below it. Every captured node's execution record is
  idle and holds a fresh observation of exactly the height and tip of the offer. Its number is above the last number
  accounted in the record, the last completed by the target, that of the offer published to the target and that of the offer the
  record still held; the number of an offer that was cleared before it was published may be used again. Until it expires, it
  passes all checks of the worker that concern the record.\<close>

theorem bootstrap_offer_safe:
  assumes reach: "runs scheduler_start scheduler_step r es"
    and reads: "int64_reads C" "sn_initialization (C AtRecord) name = Got r"
    and status: "WriteStatus r' \<in> set (fst (scheduler_Reconcile C freshness name))"
    and offer: "init_StatusOffer r' = Some offer" "init_StatusOffer r \<noteq> Some offer" "Mode offer \<noteq> ''Baseline''"
  shows "\<exists>root authority executions target.
     sn_network (C AtRoot) = Got root \<and> \<not> closed_network root \<and> net_Operation root \<noteq> ''Paused''
     \<and> currentGate (C AtGate) root r = Inr authority \<and> Ceiling offer = gate_Ceiling (ga_gate authority)
     \<and> 0 \<le> ExpectedHeight offer \<and> ExpectedHeight offer + offerBlocks offer \<le> Ceiling offer
     \<and> (\<forall>u e. executions u = Some e \<longrightarrow> (\<exists>n. sn_execution (C AtExecutions) n = Got e))
     \<and> (\<forall>node \<in> set (init_Nodes r).
          node_agrees (C AtNodes) freshness root executions (ExpectedHeight offer) (ExpectedTip offer) node)
     \<and> executions (UID (init_Target r)) = Some target \<and> LastAccountedOffer r' < Number offer \<and> CompletedOffer target < Number offer
     \<and> (\<forall>old. exec_Offer target = Some old \<or> init_StatusOffer r = Some old \<longrightarrow> Number old < Number offer)
     \<and> (\<forall>now outcome. now < ExpiresAt offer \<longrightarrow> authorizeOffer r' now outcome offer = outcome)"
proof -
  note inv = scheduler.inv_runs [OF reach]
  from reads(2) status show ?thesis
  proof (cases rule: scheduler_status_cases)
    case (timing active)
    then show ?thesis using offer by (simp add: retimed_def withdrawTiming_def withdrawBaseline_def split: if_splits)
  next
    case (baseline root production p)
    then have "init_StatusOffer (pl_record p) = Some offer"
      using offer by (simp add: reported_baseline_def reported_def on_baseline_def)
    then show ?thesis
      using reconcileBaseline_decides [OF inv reads(1) baseline(3)] offer by (auto simp: commits_def)
  next
    case (bootstrap root p)
    then have p: "init_StatusOffer (pl_record p) = Some offer" using offer by (simp add: reported_def)
    with reconcileBootstrap_cases [OF reads(1) inv bootstrap(3)] offer(2)
    obtain authority q executions ns target interval t where
      ready: "bootstrap_ready C freshness root r authority q executions ns target"
      and n: "last_number (ns_record ns) target \<noteq> max_int64"
      and r': "pl_record p = (ns_record ns)\<lparr>NextOpportunityAt := Some t,
                init_StatusOffer := Some (bootstrap_offer C authority q target ns interval)\<rparr>" by auto
    note facts = bootstrap_ready_facts [OF reads(1) inv ready]
    have o: "offer = bootstrap_offer C authority q target ns interval" using p r' by simp
    note fields = o [unfolded bootstrap_offer_def Let_def split_beta]
    have r'': "r' = (ns_record ns)\<lparr>NextOpportunityAt := Some t, init_StatusOffer := Some offer,
        init_Phase := pl_phase p, init_Reason := pl_reason p\<rparr>"
      by (simp add: bootstrap(4) reported_def r' o)
    note authorized = selected_offer_authorized [OF reads(1) inv ready r'' o]
    have ready': "\<not> closed_network root" "net_Operation root \<noteq> ''Paused''" "currentGate (C AtGate) root r = Inr authority"
      "0 \<le> ns_height ns"
      and execs: "collect_executions (C AtExecutions) (adopt_production q r) (execution_refs root) (\<lambda>_. None) = Inr executions"
      using ready by (simp_all add: bootstrap_ready_def)
    have read: "\<exists>n. sn_execution (C AtExecutions) n = Got e" if "executions u = Some e" for u e
      by (rule collect_executions_all [where P = "\<lambda>e. \<exists>n. sn_execution (C AtExecutions) n = Got e", OF execs _ _ that]) auto
    have "LastAccountedOffer r' < Number offer" "CompletedOffer target < Number offer"
      "\<forall>old. exec_Offer target = Some old \<or> init_StatusOffer r = Some old \<longrightarrow> Number old < Number offer"
      using last_number_bounds [where r = "ns_record ns" and target = target] facts(2) by (force simp: r'' fields)+
    then show ?thesis
      using bootstrap(1) ready' facts(8,9) offerCountAuthorized_bounds(3) [OF authorized(1)] authorized(2) read
      by (intro exI [of _ root] exI [of _ authority] exI [of _ executions] exI [of _ target]) (auto simp: fields)
  qed
qed

section \<open>Weights\<close>

lemma total_weight_sum:
  "total_weight targets acc = Inr weight \<Longrightarrow> weight = acc + sum_list (map st_Weight targets) \<and> (\<forall>t \<in> set targets. 1 \<le> st_Weight t)"
proof (induction targets arbitrary: acc)
  case (Cons t ts)
  then have "total_weight ts (acc + st_Weight t) = Inr weight" "1 \<le> st_Weight t" by (auto split: if_splits)
  with Cons.IH [OF this(1)] show ?case by auto
qed simp

lemma pick_target_total:
  "\<forall>t \<in> set targets. 1 \<le> st_Weight t \<Longrightarrow> 0 \<le> d \<Longrightarrow> d < sum_list (map st_Weight targets)
   \<Longrightarrow> \<exists>t \<in> set targets. pick_target d targets = Inr (st_Participant t)"
  by (induction targets arbitrary: d) (auto split: if_splits)

lemma pick_target_card:
  assumes "\<forall>t \<in> set targets. 1 \<le> st_Weight t"
  shows "int (card {d. 0 \<le> d \<and> d < sum_list (map st_Weight targets) \<and> pick_target d targets = Inr x})
    = (\<Sum>t \<leftarrow> targets. if st_Participant t = x then st_Weight t else 0)"
  using assms
proof (induction targets)
  case (Cons t ts)
  let ?n = "sum_list (map st_Weight ts)"
  let ?rest = "{d. 0 \<le> d \<and> d < ?n \<and> pick_target d ts = Inr x}"
  have w: "1 \<le> st_Weight t" using Cons.prems by simp
  have "0 \<le> ?n" by (rule sum_list_nonneg) (use Cons.prems in force)
  have "{d. 0 \<le> d \<and> d < sum_list (map st_Weight (t # ts)) \<and> pick_target d (t # ts) = Inr x}
      = (if st_Participant t = x then {0..<st_Weight t} else {}) \<union> (\<lambda>d. d + st_Weight t) ` ?rest" (is "?lhs = ?head \<union> ?tail")
  proof (intro equalityI subsetI)
    fix d assume d: "d \<in> ?lhs"
    show "d \<in> ?head \<union> ?tail"
    proof (cases "d < st_Weight t")
      case False
      with d have "d - st_Weight t \<in> ?rest" by (auto split: if_splits)
      then show ?thesis by (auto intro!: image_eqI [of d _ "d - st_Weight t"])
    qed (use d in auto)
  qed (use w \<open>0 \<le> ?n\<close> in \<open>auto split: if_splits\<close>)
  moreover have "finite ?rest" by (rule finite_subset [of _ "{0..<?n}"]) auto
  moreover have "?head \<inter> ?tail = {}" by (auto split: if_splits)
  moreover have "card ?tail = card ?rest" by (rule card_image) (auto simp: inj_on_def)
  ultimately show ?case using Cons w by (auto simp: card_Un_disjoint)
qed simp

text \<open>Baseline targets are drawn exactly by weight. Of the draws a uniform source can return for the
  total weight, precisely as many select a participant as the admitted targets give it weight, and every one of
  them selects some admitted target; a draw outside its range is an error.\<close>

lemma baseline_selection_weighted:
  assumes "total_weight targets 0 = Inr weight"
  shows "int (card {d. 0 \<le> d \<and> d < weight \<and> selectBaselineTarget (\<lambda>_. d) targets = Inr x})
      = (\<Sum>t \<leftarrow> targets. if st_Participant t = x then st_Weight t else 0)
    \<and> (0 < weight \<longrightarrow> 0 \<le> draw weight \<and> draw weight < weight \<longrightarrow>
        (\<exists>t \<in> set targets. selectBaselineTarget draw targets = Inr (st_Participant t)))
    \<and> (draw weight < 0 \<or> weight \<le> draw weight \<longrightarrow> \<not> is_ok (selectBaselineTarget draw targets))"
proof (intro conjI impI)
  note total = total_weight_sum [OF assms]
  have eq: "{d. 0 \<le> d \<and> d < weight \<and> selectBaselineTarget (\<lambda>_. d) targets = Inr x}
      = {d. 0 \<le> d \<and> d < sum_list (map st_Weight targets) \<and> pick_target d targets = Inr x}"
    using assms total by (auto simp: selectBaselineTarget_def Let_def split: if_splits)
  from total pick_target_card show "int (card {d. 0 \<le> d \<and> d < weight \<and> selectBaselineTarget (\<lambda>_. d) targets = Inr x})
      = (\<Sum>t \<leftarrow> targets. if st_Participant t = x then st_Weight t else 0)"
    unfolding eq by blast
  assume "0 < weight" "0 \<le> draw weight \<and> draw weight < weight"
  then show "\<exists>t \<in> set targets. selectBaselineTarget draw targets = Inr (st_Participant t)"
    using assms total pick_target_total [of targets "draw weight"] by (simp add: selectBaselineTarget_def Let_def)
next
  assume "draw weight < 0 \<or> weight \<le> draw weight"
  then show "\<not> is_ok (selectBaselineTarget draw targets)"
    using assms by (auto simp: selectBaselineTarget_def Let_def is_ok_def)
qed

lemma baseline_selection_weighted_sample:
  "int (card {d. 0 \<le> d \<and> d < 5 \<and> selectBaselineTarget (\<lambda>_. d)
        [\<lparr>st_Participant = bind ''k'' ''a'' ''1'', st_Weight = 2\<rparr>, \<lparr>st_Participant = bind ''k'' ''b'' ''2'', st_Weight = 3\<rparr>]
      = Inr (bind ''k'' ''b'' ''2'')}) = 3"
  using baseline_selection_weighted [of "[\<lparr>st_Participant = bind ''k'' ''a'' ''1'', st_Weight = 2\<rparr>,
      \<lparr>st_Participant = bind ''k'' ''b'' ''2'', st_Weight = 3\<rparr>]" 5 "bind ''k'' ''b'' ''2''"]
  by (simp add: bind_def)

section \<open>Sample executions\<close>

definition sample_producer :: BitcoinParticipant where
  "sample_producer =
     \<lparr>bp_Name = ''producer'', bp_UID = ''p'', bp_Owner = ''net'', bp_Deleted = False, bp_Generation = 1,
      bp_NetworkUID = ''net'', bp_ParticipantName = ''producer'', bp_Kind = ''BitcoinBlockProduction'',
      bp_Suspended = False, bp_Paused = False,
      bp_Admission = Some \<lparr>adm_PolicyDigest = ''d'', adm_ConfigurationDigest = ''d'',
        adm_Dependencies = [bind ''BitcoinWallet'' ''payout'' ''payout'', bind ''StacksNetworkParticipant'' ''node'' ''n''],
        adm_BitcoinNode = None,
        adm_BitcoinBlockProduction = Some \<lparr>
          pp_Schedule = Some \<lparr>ScheduleMode = ''Fixed'', Interval = Some (''10s'', Inr (10 * second)),
                              MinimumInterval = None, MaximumInterval = None\<rparr>,
          pp_Targets = [(''node'', 1)], pp_PayoutWalletRef = Some ''payout'',
          pp_Initialization = Some \<lparr>ip_TargetNodeRef = ''node'', ip_MinimumHeight = 200, ip_MatureOutputsPerMiner = 10,
                                     ip_BatchGeneration = True\<rparr>\<rparr>\<rparr>,
      bp_AdmissionDigest = ''ad'', bp_Runtime = None, bp_WorkloadReady = None, bp_ConfigVerified = None,
      bp_Execution = None, bp_Scheduling = None\<rparr>"

definition sample_bitcoin_node :: BitcoinParticipant where
  "sample_bitcoin_node =
     sample_producer\<lparr>bp_Name := ''node'', bp_UID := ''n'', bp_ParticipantName := ''node'', bp_Kind := ''BitcoinNode'',
       bp_Admission := Some \<lparr>adm_PolicyDigest = ''d'', adm_ConfigurationDigest = ''d'', adm_Dependencies = [],
         adm_BitcoinNode = Some \<lparr>bc_Unverified = False, bc_WalletRefs = []\<rparr>, adm_BitcoinBlockProduction = None\<rparr>,
       bp_Runtime := Some \<lparr>rt_Protocol = None, rt_ObservedGeneration = 1, rt_PolicyDigest = ''d'',
         rt_ConfigRef = Some (target_Configuration sample_identity), rt_ConfigurationDigest = [],
         rt_RPCSecretRef = Some (target_Credentials sample_identity), rt_PodRef = Some (target_Pod sample_identity),
         rt_ContainerID = ''c'', rt_Terminated = False\<rparr>,
       bp_WorkloadReady := Some (True, 1)\<rparr>"

definition sample_root :: "bool \<Rightarrow> BitcoinNetwork" where
  "sample_root completed =
     \<lparr>net_Name = ''network'', net_Namespace = ''ns'', net_UID = ''net'', net_Deleted = False, net_Generation = 3,
      net_Operation = ''Running'',
      net_Participants = [\<lparr>entry_Name = ''producer'', entry_Kind = ''BitcoinBlockProduction'', entry_Paused = None\<rparr>,
                          \<lparr>entry_Name = ''node'', entry_Kind = ''BitcoinNode'', entry_Paused = None\<rparr>],
      net_Phase = ''Running'', net_FailedCondition = False,
      net_Identities = [\<lparr>ii_Name = ''producer'', ii_UID = ''p'', ii_Removing = False, ii_Worker = None\<rparr>,
                        \<lparr>ii_Name = ''node'', ii_UID = ''n'', ii_Removing = False, ii_Worker = None\<rparr>],
      bn_GenesisRef = Some (init_Genesis sample_initialization), bn_GenesisDigest = ''chain'',
      bn_Initialization = (if completed
        then Some \<lparr>is_GenesisUID = ''g'', is_GenesisDigest = ''chain'', is_GateIndex = 1, is_AuthorizedCeiling = 200,
                   is_Completed = True, is_Gates = [(''PrepareBitcoin'', Some 1)]\<rparr>
        else None),
      bn_Bitcoin = Some \<lparr>bs_InitializationRef = Some (bind ''BitcoinInitialization'' ''init'' ''i''),
                         bs_ExecutionRefs = [bind ''BitcoinExecution'' ''exec'' ''e'']\<rparr>\<rparr>"

definition sample_genesis :: StacksGenesis where
  "sample_genesis =
     \<lparr>gs_UID = ''g'', gs_Owner = ''net'', gs_Deleted = False, gs_SourceNetworkUID = ''net'', gs_ChainDigest = ''chain'',
      gs_SpecDigest = ''spec'', gs_Epochs = [], gs_Gates = [\<lparr>gate_Name = ''PrepareBitcoin'', gate_Ceiling = 200\<rparr>],
      gs_Requirements = []\<rparr>"

definition sample_node_execution :: "time \<Rightarrow> BitcoinExecution" where
  "sample_node_execution now =
     sample_execution\<lparr>exec_Offer := None, LastReceipt := None, CompletedOffer := 0,
       Observation := Some \<lparr>obs_Target = sample_identity, obs_Height = 100, obs_Tip = sample_txid, obs_ObservedAt = now,
                            obs_Wallets = []\<rparr>\<rparr>"

text \<open>An API server at one moment, with the given initialization record.\<close>

definition sample_moment :: "bool \<Rightarrow> time \<Rightarrow> BitcoinInitialization \<Rightarrow> reads" where
  "sample_moment completed now r = (\<lambda>_.
     \<lparr>sn_now = now, sn_draw = (\<lambda>n. 0), sn_initialization = (\<lambda>_. Got r), sn_network = Got (sample_root completed),
      sn_genesis = (\<lambda>_. Got sample_genesis),
      sn_participant = (\<lambda>name. if name = ''node'' then Got sample_bitcoin_node else Got sample_producer),
      sn_execution = (\<lambda>_. Got (sample_node_execution now)), sn_override = (\<lambda>_. NotFound), sn_overrides = Inr ([], False),
      sn_schedule = (\<lambda>_. NotFound), sn_publicWallet = (\<lambda>_. Inr (sample_wallet ''payout'')), sn_eligibility = (\<lambda>_. Inr ()),
      sn_admission = (\<lambda>_ _. Inr ()), sn_bindings = (\<lambda>_ _. Inr ()), sn_write = Inr ()\<rparr>)"

definition sample_reconcile :: "bool \<Rightarrow> time \<Rightarrow> BitcoinInitialization \<Rightarrow> sched_write list" where
  "sample_reconcile completed now r = fst (scheduler_Reconcile (sample_moment completed now r) (10 * second) ''init'')"

fun status_written :: "sched_write list \<Rightarrow> BitcoinInitialization option" where
  "status_written (WriteStatus r # _) = Some r"
| "status_written (_ # ws) = status_written ws"
| "status_written [] = None"

definition sample_fresh :: BitcoinInitialization where
  "sample_fresh = sample_initialization\<lparr>LastAccountedOffer := 0, Funded := []\<rparr>"

definition sample_armed_cadence :: BitcoinInitialization where
  "sample_armed_cadence =
     sample_fresh\<lparr>init_StatusProduction := Some (participant_ref sample_producer), NextOpportunityAt := Some (110 * second),
       init_Phase := ''Preparing'', init_Reason := ''CadenceArmed''\<rparr>"

definition sample_selected_offer :: BitcoinBlockOffer where
  "sample_selected_offer =
     sample_offer\<lparr>Count := 10, Initialization := initialization_ref sample_fresh, Production := participant_ref sample_producer,
       Number := 1, ExpiresAt := 141 * second\<rparr>"

definition sample_selected :: BitcoinInitialization where
  "sample_selected =
     sample_armed_cadence\<lparr>NextOpportunityAt := Some (121 * second), init_StatusOffer := Some sample_selected_offer,
       init_Reason := ''OpportunitySelected''\<rparr>"

text \<open>A completed network: policy adopted, cadence armed, target selected, offer committed.\<close>

definition sample_prepared :: BitcoinInitialization where
  "sample_prepared = sample_fresh\<lparr>PreparedAt := Some 1\<rparr>"

definition sample_baseline ::
  "BitcoinSchedulingStatus \<Rightarrow> int \<Rightarrow> Binding option \<Rightarrow> string \<Rightarrow> BitcoinInitialization" where
  "sample_baseline scheduling number target stage =
     sample_prepared\<lparr>init_StatusProduction := Some (participant_ref sample_producer),
       init_Baseline := Some \<lparr>Scheduling = scheduling, Sequence = number, SelectedTarget = target, Stage = stage, Receipts = []\<rparr>,
       NextOpportunityAt := sc_NextOpportunityAt scheduling, init_Phase := ''Preparing'', init_Reason := sc_Reason scheduling\<rparr>"

definition sample_scheduling :: "int \<Rightarrow> time option \<Rightarrow> time option \<Rightarrow> int \<Rightarrow> string \<Rightarrow> BitcoinSchedulingStatus" where
  "sample_scheduling opportunities observed due eligible reason =
     (empty_scheduling (initialization_ref sample_fresh))
       \<lparr>sc_Targets := [\<lparr>st_Participant = bind ''StacksNetworkParticipant'' ''node'' ''n'', st_Weight = 1\<rparr>],
        sc_PolicyDigest := ''d'', sc_AdmissionDigest := ''ad'',
        sc_Schedule := Option.bind (production_policy sample_producer) pp_Schedule, sc_ProgressWindowSeconds := 130,
        Opportunities := opportunities, sc_ObservedAt := observed, sc_NextOpportunityAt := due, EligibleTargets := eligible,
        sc_Reason := reason\<rparr>"

definition sample_adopted :: BitcoinInitialization where
  "sample_adopted = sample_baseline (sample_scheduling 0 None None 0 ''BaselinePolicyAdopted'') 0 None []"

definition sample_waiting :: BitcoinInitialization where
  "sample_waiting =
     sample_baseline (sample_scheduling 0 (Some (101 * second)) (Some (111 * second)) 1 ''BaselineCadenceArmed'') 0 None []"

definition sample_chosen :: BitcoinInitialization where
  "sample_chosen =
     sample_baseline (sample_scheduling 1 (Some (112 * second)) (Some (122 * second)) 1 ''BaselineTargetSelected'') 1
       (Some (bind ''StacksNetworkParticipant'' ''node'' ''n'')) ''Selected''"

definition sample_committed :: BitcoinInitialization where
  "sample_committed =
     (sample_baseline (sample_scheduling 1 (Some (113 * second)) (Some (122 * second)) 1 ''BaselineOfferCommitted'') 1
       (Some (bind ''StacksNetworkParticipant'' ''node'' ''n'')) ''Offered'')
       \<lparr>init_StatusOffer := Some (sample_selected_offer\<lparr>Count := 0, Mode := ''Baseline'',
          OfferTarget := Some (bind ''StacksNetworkParticipant'' ''node'' ''n''), OfferAddress := ''payout'',
          Wallet := bind ''BitcoinWallet'' ''payout'' ''payout'', Ceiling := max_int64, ExpiresAt := 122 * second\<rparr>)\<rparr>"

lemma status_written_set: "status_written ws = Some r \<Longrightarrow> WriteStatus r \<in> set ws"
  by (induction ws rule: status_written.induct) auto

lemma sample_moment_int64: "int64_reads (sample_moment completed now r)"
  by (auto simp: int64_reads_def sample_moment_def int64_execution_def sample_node_execution_def sample_execution_def sample_genesis_def)

lemma sample_step:
  assumes "status_written (sample_reconcile completed now r) = Some r'"
  shows "WriteStatus r' \<in> set (fst (scheduler_Reconcile (sample_moment completed now r) (10 * second) ''init''))"
    and "scheduler_step r (committed r r') r'"
proof -
  show w: "WriteStatus r' \<in> set (fst (scheduler_Reconcile (sample_moment completed now r) (10 * second) ''init''))"
    using status_written_set [OF assms] by (simp add: sample_reconcile_def)
  show "scheduler_step r (committed r r') r'"
    unfolding scheduler_step_def
    using w sample_moment_int64
    by (intro exI [of _ "sample_moment completed now r"] exI [of _ "10 * second"] exI [of _ "''init''"])
      (simp add: sample_moment_def)
qed

lemma sample_writes:
  "status_written (sample_reconcile False (100 * second) sample_fresh) = Some sample_armed_cadence"
  "status_written (sample_reconcile False (111 * second) sample_armed_cadence) = Some sample_selected"
  "status_written (sample_reconcile True (100 * second) sample_prepared) = Some sample_adopted"
  "status_written (sample_reconcile True (101 * second) sample_adopted) = Some sample_waiting"
  "status_written (sample_reconcile True (112 * second) sample_waiting) = Some sample_chosen"
  "status_written (sample_reconcile True (113 * second) sample_chosen) = Some sample_committed"
  by code_simp+

lemma sample_bootstrap_run: "\<exists>es. runs scheduler_start scheduler_step sample_armed_cadence es"
proof -
  have "scheduler_start sample_fresh" by (simp add: scheduler_start_def sample_fresh_def sample_initialization_def)
  then have "runs scheduler_start scheduler_step sample_fresh []" by (rule runs_start)
  from runs_step [OF this sample_step(2) [OF sample_writes(1)]] show ?thesis by blast
qed

lemma sample_run:
  "\<exists>es. runs scheduler_start scheduler_step sample_chosen es \<and> concat es = []"
  "\<exists>es. runs scheduler_start scheduler_step sample_committed es \<and> map Number (concat es) = [1]"
proof -
  have quiet: "committed sample_prepared sample_adopted = []" "committed sample_adopted sample_waiting = []"
    "committed sample_waiting sample_chosen = []" "map Number (committed sample_chosen sample_committed) = [1]" by code_simp+
  have "scheduler_start sample_prepared"
    by (simp add: scheduler_start_def sample_prepared_def sample_fresh_def sample_initialization_def)
  then have "runs scheduler_start scheduler_step sample_prepared []" by (rule runs_start)
  from runs_step [OF runs_step [OF runs_step [OF this sample_step(2) [OF sample_writes(3)]]
      sample_step(2) [OF sample_writes(4)]] sample_step(2) [OF sample_writes(5)]]
  have run: "runs scheduler_start scheduler_step sample_chosen [[], [], []]" by (simp add: quiet)
  then show "\<exists>es. runs scheduler_start scheduler_step sample_chosen es \<and> concat es = []" by fastforce
  from runs_step [OF run sample_step(2) [OF sample_writes(6)]]
  show "\<exists>es. runs scheduler_start scheduler_step sample_committed es \<and> map Number (concat es) = [1]"
    using quiet(4) by (intro exI [of _ "[[], [], []] @ [committed sample_chosen sample_committed]"]) simp
qed

theorem baseline_opportunities_conserved_witness:
  "\<exists>b. init_Baseline sample_chosen = Some b \<and> Opportunities (Scheduling b) = 1 \<and> Stage b = ''Selected''
     \<and> Assigned (Scheduling b) + Skipped (Scheduling b) + Unassigned (Scheduling b) = 0"
proof -
  obtain es where run: "runs scheduler_start scheduler_step sample_chosen es" using sample_run(1) by blast
  obtain b where b: "init_Baseline sample_chosen = Some b" "Opportunities (Scheduling b) = 1" "Stage b = ''Selected''"
    by (simp add: sample_chosen_def sample_baseline_def sample_scheduling_def)
  from baseline_opportunities_conserved [OF run b(1)] b show ?thesis by auto
qed

theorem baseline_offers_numbered_witness:
  "\<exists>es b. runs scheduler_start scheduler_step sample_committed es \<and> map Number (concat es) = [1]
     \<and> init_Baseline sample_committed = Some b \<and> 1 \<le> Sequence b"
proof -
  obtain es where es: "runs scheduler_start scheduler_step sample_committed es" "map Number (concat es) = [1]"
    using sample_run(2) by (elim exE conjE) (rule that)
  then obtain offer where "offer \<in> set (concat es)" "Number offer = 1" by (metis list.set_intros(1) imageE set_map)
  have "concat es \<noteq> []" using es(2) by (metis list.distinct(1) list.map_disc_iff)
  from baseline_offers_numbered [OF es(1) this] \<open>offer \<in> set (concat es)\<close> \<open>Number offer = 1\<close>
  obtain b where b: "init_Baseline sample_committed = Some b" "1 \<le> Sequence b" by fastforce
  show ?thesis using es b by (intro exI [of _ es] exI [of _ b]) simp
qed

theorem bootstrap_offer_safe_witness:
  "ExpectedHeight sample_selected_offer + offerBlocks sample_selected_offer \<le> Ceiling sample_selected_offer
   \<and> (\<forall>outcome. authorizeOffer sample_selected (112 * second) outcome sample_selected_offer = outcome)"
proof -
  obtain es where run: "runs scheduler_start scheduler_step sample_armed_cadence es" using sample_bootstrap_run by blast
  have r: "sn_initialization (sample_moment False (111 * second) sample_armed_cadence AtRecord) ''init'' = Got sample_armed_cadence"
    by (simp add: sample_moment_def)
  have o: "init_StatusOffer sample_selected = Some sample_selected_offer"
    "init_StatusOffer sample_armed_cadence \<noteq> Some sample_selected_offer" "Mode sample_selected_offer \<noteq> ''Baseline''"
    "ExpiresAt sample_selected_offer = 141 * second"
    by (simp_all add: sample_selected_def sample_armed_cadence_def sample_fresh_def sample_initialization_def
          sample_selected_offer_def sample_offer_def)
  from bootstrap_offer_safe [OF run sample_moment_int64 r sample_step(1) [OF sample_writes(2)] o(1-3)] o(4) show ?thesis
    by auto
qed

end
