(* ===== verification/Override_Lifecycle.thy ===== *)
theory Override_Lifecycle
  imports Scheduler_Runs
begin

text \<open>
  Model of \<open>override_controller.go\<close> of \<open>operators/network/internal/bitcoincontrol\<close>, the controller that owns the
  lifecycle of schedule override requests, and of \<open>ValidateSchedulingOverride\<close> in \<open>overrides.go\<close>; then the
  protocol it runs with the scheduler. The scheduler activates a request by writing the initialization record, the
  lifecycle controller records the activation in the request, and only then may the scheduler withdraw it. Both
  read the objects at different times and may be restarted at any point.
\<close>

section \<open>The lifecycle controller\<close>

text \<open>The reads of one reconciliation with the outcomes of its two writes.\<close>

record lifecycle_reads =
  lr_request :: "BitcoinBlockScheduleOverride get"
  lr_root :: "BitcoinNetwork get"
  lr_initial :: "string \<Rightarrow> BitcoinInitialization get"
  lr_now :: time
  lr_status :: "unit result"
  lr_patch :: "unit result"

text \<open>The activation the scheduler retains for this request: \<open>Inr None\<close> when there is none, \<open>Inl (Inr d)\<close> when the
  record is not the bound one and the controller looks again after \<open>d\<close>.\<close>

definition active_override ::
  "lifecycle_reads \<Rightarrow> BitcoinNetwork option \<Rightarrow> BitcoinBlockScheduleOverride \<Rightarrow> int result + BitcoinActiveOverride option" where
  "active_override L root request =
     (case root of
        None \<Rightarrow> Inr None
      | Some root \<Rightarrow>
          if net_UID root \<noteq> ov_NetworkUID request then Inr None
          else case Option.bind (bn_Bitcoin root) bs_InitializationRef of
            None \<Rightarrow> Inr None
          | Some ref \<Rightarrow>
              (case fetched (lr_initial L (Name ref)) of
                 Inl e \<Rightarrow> Inl (Inl e)
               | Inr initial \<Rightarrow>
                   if init_UID initial \<noteq> UID ref \<or> init_NetworkUID initial \<noteq> net_UID root \<or> init_Owner initial \<noteq> net_UID root
                   then Inl (Inr second)
                   else Inr (Option.bind (init_Override initial) (\<lambda>candidate.
                          if ao_Override candidate = override_ref request then Some candidate else None))))"

definition lifecycle_status ::
  "time \<Rightarrow> BitcoinActiveOverride option \<Rightarrow> BitcoinBlockScheduleOverride \<Rightarrow> BitcoinBlockScheduleOverride" where
  "lifecycle_status now active request =
     (let pending = ov_CreationTimestamp request + 300 * second;
          status = request\<lparr>ov_ObservedGeneration := ov_Generation request, ov_PendingExpiresAt := Some pending\<rparr>
      in case active of
           Some a \<Rightarrow>
             (if ov_Deleted request
              then status\<lparr>ov_Admission := Some a, ov_Phase := ''Cancelled'', ov_Reason := ''CancellationRequested''\<rparr>
              else if \<not> now < ao_ExpiresAt a
              then status\<lparr>ov_Admission := Some a, ov_Phase := ''Completed'', ov_Reason := ''DurationElapsed''\<rparr>
              else status\<lparr>ov_Admission := Some a, ov_Phase := ''Active'', ov_Reason := ''Activated''\<rparr>)
         | None \<Rightarrow>
             (if overrideTerminal (ov_Phase request) then status
              else if ov_Admission request \<noteq> None
              then status\<lparr>ov_Phase := ''Cancelled'', ov_Reason := ''ActivationWithdrawn''\<rparr>
              else if ov_Deleted request
              then status\<lparr>ov_Phase := ''Cancelled'', ov_Reason := ''CancelledBeforeActivation''\<rparr>
              else if \<not> now < pending then status\<lparr>ov_Phase := ''Expired'', ov_Reason := ''PendingDeadline''\<rparr>
              else status\<lparr>ov_Phase := ''Pending'', ov_Reason := ''WaitingForActivation''\<rparr>))"

datatype override_write =
    WriteOverrideStatus BitcoinBlockScheduleOverride
  | WriteFinalizers BitcoinBlockScheduleOverride

text \<open>\<open>applyStatus\<close>: nothing is written when the status is the retained one.\<close>

definition applyStatus ::
  "lifecycle_reads \<Rightarrow> BitcoinBlockScheduleOverride \<Rightarrow> BitcoinBlockScheduleOverride \<Rightarrow> override_write list \<times> unit result" where
  "applyStatus L request status =
     (if status = request then ([], Inr ()) else ([WriteOverrideStatus status], lr_status L))"

text \<open>The finalizer patch of the end of a reconciliation.\<close>

definition settle_finalizer ::
  "lifecycle_reads \<Rightarrow> BitcoinActiveOverride option \<Rightarrow> BitcoinBlockScheduleOverride \<Rightarrow> override_write list \<times> int result" where
  "settle_finalizer L active request =
     (let finalizer = OverrideFinalizer \<in> set (ov_Finalizers request) in
      if active = None \<and> overrideTerminal (ov_Phase request)
      then if finalizer
        then ([WriteFinalizers (request\<lparr>ov_Finalizers := removeAll OverrideFinalizer (ov_Finalizers request)\<rparr>)],
              rbind (lr_patch L) (\<lambda>_. Inr 0))
        else ([], Inr 0)
      else if \<not> finalizer \<and> \<not> ov_Deleted request
      then ([WriteFinalizers (request\<lparr>ov_Finalizers := ov_Finalizers request @ [OverrideFinalizer]\<rparr>)],
            rbind (lr_patch L) (\<lambda>_. Inr millisecond))
      else ([], Inr second))"

definition lifecycle_Reconcile :: "lifecycle_reads \<Rightarrow> override_write list \<times> int result" where
  "lifecycle_Reconcile L =
     (case lr_request L of
        NotFound \<Rightarrow> ([], Inr 0)
      | GetFailed e \<Rightarrow> ([], Inl e)
      | Got request \<Rightarrow>
          (case lr_root L of
             GetFailed e \<Rightarrow> ([], Inl e)
           | got \<Rightarrow>
               (case active_override L (case got of Got root \<Rightarrow> Some root | _ \<Rightarrow> None) request of
                  Inl res \<Rightarrow> ([], res)
                | Inr active \<Rightarrow>
                    let status = lifecycle_status (lr_now L) active request in
                    (case applyStatus L request status of
                       (ws, Inl e) \<Rightarrow> (ws, Inl e)
                     | (ws, Inr _) \<Rightarrow>
                         (case settle_finalizer L active status of (ws', res) \<Rightarrow> (ws @ ws', res))))))"

text \<open>\<open>ValidateSchedulingOverride\<close>: a published projection is current only with the activation it shows.\<close>

definition zero_binding :: Binding where
  "zero_binding = \<lparr>Kind = [], Name = [], UID = [], Fingerprint = []\<rparr>"

definition zero_offer :: BitcoinBlockOffer where
  "zero_offer =
     \<lparr>Count = 0, Override = None, Mode = [], OfferTarget = None, Initialization = zero_binding, Production = zero_binding,
      PolicyDigest = [], Number = 0, OfferAddress = [], Wallet = zero_binding, ExpectedHeight = 0, ExpectedTip = [],
      Ceiling = 0, ExpiresAt = 0\<rparr>"

definition ValidateSchedulingOverride ::
  "snapshot \<Rightarrow> BitcoinNetwork \<Rightarrow> BitcoinParticipant \<Rightarrow> BitcoinSchedulingStatus option \<Rightarrow> unit result" where
  "ValidateSchedulingOverride S root production scheduling =
     (case (scheduling, Option.bind (bn_Bitcoin root) bs_InitializationRef) of
        (Some scheduling, Some ref) \<Rightarrow>
          rbind (fetched (sn_initialization S (Name ref))) (\<lambda>initial.
            if init_UID initial \<noteq> UID ref \<or> init_NetworkUID initial \<noteq> net_UID root \<or> init_Owner initial \<noteq> net_UID root
               \<or> init_Deleted initial \<or> init_Override initial \<noteq> sc_Override scheduling
            then Inl ''effective timing projection differs''
            else authorizeTimingOverride S root initial
                   (zero_offer\<lparr>Production := participant_ref production, Override := overrideBinding initial\<rparr>))
      | _ \<Rightarrow> Inl ''scheduler identity unavailable'')"

text \<open>The lifecycle never forgets an activation it recorded.\<close>

lemma lifecycle_status_keeps:
  "ov_Name (lifecycle_status now active request) = ov_Name request"
  "ov_UID (lifecycle_status now active request) = ov_UID request"
  "ov_Admission request \<noteq> None \<Longrightarrow> ov_Admission (lifecycle_status now active request) \<noteq> None"
  by (auto simp: lifecycle_status_def Let_def split: option.splits)

lemma settle_finalizer_writes:
  "w \<in> set (fst (settle_finalizer L active request)) \<Longrightarrow> \<exists>fs. w = WriteFinalizers (request\<lparr>ov_Finalizers := fs\<rparr>)"
  by (auto simp: settle_finalizer_def Let_def split: if_splits)

text \<open>The request as it is after some writes of a reconciliation. Both writes carry the version of the object they
  replace, so each applies to the object the previous one left or not at all.\<close>

fun written :: "BitcoinBlockScheduleOverride \<Rightarrow> override_write list \<Rightarrow> BitcoinBlockScheduleOverride" where
  "written request [] = request"
| "written request (WriteOverrideStatus r # ws) = written r ws"
| "written request (WriteFinalizers r # ws) = written r ws"

lemma settle_finalizer_written:
  "fst (settle_finalizer L active request) = ws @ ws' \<Longrightarrow> \<exists>fs. written request ws = request\<lparr>ov_Finalizers := fs\<rparr>"
  by (auto simp: settle_finalizer_def Let_def Cons_eq_append_conv intro: exI [of _ "ov_Finalizers request"] split: if_splits)

lemma applyStatus_written:
  "fst (applyStatus L request status) = ws @ ws' \<Longrightarrow> written request ws \<in> {request, status}"
  "written request (fst (applyStatus L request status) @ ws) = written status ws"
  by (auto simp: applyStatus_def Cons_eq_append_conv split: if_splits)

lemma lifecycle_stages:
  assumes "lr_request L = Got request"
  obtains "fst (lifecycle_Reconcile L) = []"
  | active where "fst (lifecycle_Reconcile L) = fst (applyStatus L request (lifecycle_status (lr_now L) active request))"
  | active where "fst (lifecycle_Reconcile L) = fst (applyStatus L request (lifecycle_status (lr_now L) active request))
      @ fst (settle_finalizer L active (lifecycle_status (lr_now L) active request))"
proof -
  define root where "root = (case lr_root L of Got root \<Rightarrow> Some root | _ \<Rightarrow> None)"
  note eq = lifecycle_Reconcile_def assms get.case Let_def
  show thesis
  proof (cases "(\<exists>e. lr_root L = GetFailed e) \<or> (\<exists>d. active_override L root request = Inl d)")
    case True
    then have "fst (lifecycle_Reconcile L) = []" unfolding eq by (auto simp: root_def split: get.splits)
    then show ?thesis by (rule that(1))
  next
    case False
    then obtain active where active: "active_override L root request = Inr active" by (cases "active_override L root request") auto
    let ?status = "lifecycle_status (lr_now L) active request"
    have "lifecycle_Reconcile L =
        (case applyStatus L request ?status of
           (ws, Inl e) \<Rightarrow> (ws, Inl e)
         | (ws, Inr _) \<Rightarrow> (case settle_finalizer L active ?status of (ws', res) \<Rightarrow> (ws @ ws', res)))"
      unfolding eq using False active by (auto simp: root_def split: get.splits)
    then show ?thesis using that(2,3) [of active]
      by (cases "applyStatus L request ?status"; cases "snd (applyStatus L request ?status)";
          cases "settle_finalizer L active ?status") auto
  qed
qed

lemma lifecycle_written:
  assumes "lr_request L = Got request" "fst (lifecycle_Reconcile L) = ws @ ws'"
  obtains "written request ws = request"
  | active fs where "written request ws = (lifecycle_status (lr_now L) active request)\<lparr>ov_Finalizers := fs\<rparr>"
proof -
  note keep = that
  have partial: thesis if "fst (applyStatus L request (lifecycle_status (lr_now L) active request)) = ws @ us" for active us
    using applyStatus_written(1) [OF that]
      keep(1) keep(2) [where active = active and fs = "ov_Finalizers (lifecycle_status (lr_now L) active request)"] by auto
  from assms(1) show thesis
  proof (cases rule: lifecycle_stages)
    case 1
    with assms(2) that(1) show ?thesis by simp
  next
    case (2 active)
    with assms(2) partial show ?thesis by metis
  next
    case (3 active)
    with assms(2) obtain us where "fst (applyStatus L request (lifecycle_status (lr_now L) active request)) = ws @ us
        \<or> ws = fst (applyStatus L request (lifecycle_status (lr_now L) active request)) @ us
          \<and> fst (settle_finalizer L active (lifecycle_status (lr_now L) active request)) = us @ ws'"
      by (auto simp: append_eq_append_conv2)
    then show ?thesis
      using partial settle_finalizer_written [of L active "lifecycle_status (lr_now L) active request" us ws'] that(2)
        applyStatus_written(2) [where L = L and request = request and status = "lifecycle_status (lr_now L) active request" and ws = us] by metis
  qed
qed

lemma lifecycle_lengths:
  "length (fst (applyStatus L request status)) \<le> 1" "length (fst (settle_finalizer L active request)) \<le> 1"
  by (simp_all add: applyStatus_def settle_finalizer_def Let_def)

lemma two_singletons: "xs @ ys = [x, y] \<Longrightarrow> length xs \<le> 1 \<Longrightarrow> length ys \<le> 1 \<Longrightarrow> xs = [x] \<and> ys = [y]"
  by (cases xs; cases ys) auto

lemma lifecycle_length: "length (fst (lifecycle_Reconcile L)) \<le> 2"
proof (cases "lr_request L")
  case (Got request)
  then show ?thesis
    by (cases rule: lifecycle_stages) (auto simp: applyStatus_def settle_finalizer_def Let_def)
qed (simp_all add: lifecycle_Reconcile_def)

lemma lifecycle_write_keeps:
  assumes "lr_request L = Got request" "fst (lifecycle_Reconcile L) = ws @ x # ws'"
  shows "ov_Name (written request (ws @ [x])) = ov_Name (written request ws)"
    "ov_UID (written request (ws @ [x])) = ov_UID (written request ws)"
    "ov_Admission (written request ws) \<noteq> None \<Longrightarrow> ov_Admission (written request (ws @ [x])) \<noteq> None"
proof -
  have all: "fst (lifecycle_Reconcile L) = (ws @ [x]) @ ws'" using assms(2) by simp
  show "ov_Name (written request (ws @ [x])) = ov_Name (written request ws)"
    "ov_UID (written request (ws @ [x])) = ov_UID (written request ws)"
    by (rule lifecycle_written [OF assms]; rule lifecycle_written [OF assms(1) all]; simp add: lifecycle_status_keeps)+
  assume set: "ov_Admission (written request ws) \<noteq> None"
  show "ov_Admission (written request (ws @ [x])) \<noteq> None"
  proof (cases ws)
    case Nil
    show ?thesis
      by (rule lifecycle_written [OF assms(1) all]; use set Nil in \<open>simp add: lifecycle_status_keeps del: not_None_eq\<close>)
  next
    case (Cons y ys)
    with assms(2) lifecycle_length [of L] have "ys = []" "ws' = []" by simp_all
    with Cons assms(2) have two: "fst (lifecycle_Reconcile L) = [y, x]" by simp
    from assms(1) obtain active where
      "fst (applyStatus L request (lifecycle_status (lr_now L) active request)) = [y]"
      "fst (settle_finalizer L active (lifecycle_status (lr_now L) active request)) = [x]"
    proof (cases rule: lifecycle_stages)
      case (2 active)
      with two lifecycle_lengths(1) [of L request "lifecycle_status (lr_now L) active request"] show ?thesis by simp
    next
      case (3 active)
      with two two_singletons [OF _ lifecycle_lengths] that show ?thesis by metis
    qed (use two in simp)
    with settle_finalizer_written [of L active "lifecycle_status (lr_now L) active request" "[x]" "[]"] set Cons \<open>ys = []\<close>
    show ?thesis by (auto simp: applyStatus_def split: if_splits)
  qed
qed

section \<open>What a reconciliation of the scheduler does to the activation\<close>

lemma override_kept [simp]:
  "init_Override (on_baseline f r) = init_Override r" "init_Override (withdrawBaseline r) = init_Override r"
  "init_Override (withdrawTiming r) = init_Override r" "init_Override (stamped t r) = init_Override r"
  "init_Override (withdrawn r) = init_Override r" "init_Override (begin_baseline r) = init_Override r"
  "init_Override (adopt_production q r) = init_Override r" "init_Override (assign_published e r) = init_Override r"
  "init_Override (reported p) = init_Override (pl_record p)" "init_Override (reported_baseline p) = init_Override (pl_record p)"
  by (auto simp: on_baseline_def withdrawBaseline_def withdrawTiming_def stamped_def withdrawn_def begin_baseline_def
        adopt_production_def assign_published_def reported_def reported_baseline_def split: option.splits)

lemma override_account [simp]: "init_Override (fst (accountBootstrapReceipt uid r e)) = init_Override r"
proof -
  obtain r' ok where acc: "accountBootstrapReceipt uid r e = (r', ok)" by fastforce
  with accountBootstrapReceipt_effect [OF acc] show ?thesis by auto
qed

lemma override_account_execution [simp]: "init_Override (account_execution root e r) = init_Override r"
proof -
  obtain r1 ok where acc: "accountBootstrapReceipt (net_UID root) r e = (r1, ok)" by fastforce
  then have "init_Override r1 = init_Override r" using override_account [of "net_UID root" r e] by simp
  then show ?thesis by (simp add: account_execution_def acc Let_def split: option.splits)
qed

lemma override_receipts [simp]: "init_Override (fst (accountBaselineReceipts S root refs r m)) = init_Override r"
  by (induction refs arbitrary: r m) (auto split: get.splits)

lemma override_baseline_opportunity:
  "baseline_opportunity C freshness root production inputs executions r b = Inr p \<Longrightarrow> init_Override (pl_record p) = init_Override r"
  by (auto simp: baseline_opportunity_def settle_decision_def select_decision_def split: option.splits sum.splits if_splits)

lemma override_reconcileBaseline:
  assumes "reconcileBaseline C freshness root r0 = (production, Inr p)"
  shows "init_Override (pl_record p) = init_Override r0"
proof -
  obtain r executions where acc: "accountBaselineReceipts (C AtReceipts) root (execution_refs root) (begin_baseline r0) (\<lambda>_. None) = (r, executions)"
    by fastforce
  then have r: "init_Override r = init_Override r0"
    using override_receipts [of "C AtReceipts" root "execution_refs root" "begin_baseline r0" "\<lambda>_. None"] by simp
  show ?thesis
    using assms r
    by (auto simp: reconcileBaseline_def acc Let_def dest: override_baseline_opportunity
          split: if_splits sum.splits option.splits)
qed

lemma override_touched: "touched r r' \<Longrightarrow> init_Override r' = init_Override r"
  by (auto simp: touched_def)

lemma override_bootstrap_tail:
  assumes "decided (bootstrap_tail C root authority production ns) = Inr p"
  shows "init_Override (pl_record p) = init_Override (ns_record ns)"
proof -
  have gate: "gate_position C authority ns = Inl (Inr p) \<Longrightarrow> init_Override (pl_record p) = init_Override (ns_record ns)"
    by (auto simp: gate_position_def Let_def split: if_splits)
  have advance: "may_advance C root authority production ns = Inl (Inr p) \<Longrightarrow> init_Override (pl_record p) = init_Override (ns_record ns)"
    by (auto simp: may_advance_def Let_def split: sum.splits bool.splits)
  have select: "opportunity C authority production target ns = Inr p \<Longrightarrow> init_Override (pl_record p) = init_Override (ns_record ns)" for target
    by (auto simp: opportunity_def Let_def split: if_splits option.splits sum.splits)
  show ?thesis
  proof (cases "ns_target ns = None \<or> ns_height ns < 0")
    case True
    with assms show ?thesis by (auto simp: bootstrap_tail_def split: option.splits)
  next
    case False
    then obtain target where "ns_target ns = Some target" "\<not> ns_height ns < 0" by auto
    with assms gate advance select [of target] show ?thesis
      by (cases "gate_position C authority ns"; cases "may_advance C root authority production ns") (auto simp: bootstrap_tail_def)
  qed
qed

lemma decided_rbind:
  assumes "decided (rbind m f) = Inr p"
  obtains "m = Inl (Inr p)" | x where "m = Inr x" "decided (f x) = Inr p"
  using assms by (cases m) auto

lemma override_scan:
  assumes "decided (rbind (scan_nodes S freshness root executions ids ns0) (bootstrap_tail C root authority production)) = Inr p"
  shows "init_Override (pl_record p) = init_Override (ns_record ns0)"
  using assms
  by (rule decided_rbind)
     (metis override_touched scan_nodes_cases(1), metis override_touched scan_nodes_cases(2) override_bootstrap_tail)

lemma override_bootstrap_account [simp]: "init_Override (bootstrap_account root executions r) = init_Override r"
  by (auto simp: bootstrap_account_def split: option.splits)

lemma override_collect:
  assumes "decided (rbind (collect_executions S r1 refs m) (\<lambda>executions.
      let r2 = bootstrap_account root executions r1 in
      rbind (scan_nodes S' freshness root executions (ordered_nodes r2)
               \<lparr>ns_record = r2, ns_target = None, ns_height = -1, ns_tip = [], ns_mature = (\<lambda>_. 0)\<rparr>)
        (bootstrap_tail C root authority production))) = Inr p"
  shows "init_Override (pl_record p) = init_Override r1"
  using assms
proof (rule decided_rbind)
  assume "collect_executions S r1 refs m = Inl (Inr p)"
  from collect_executions_report [OF this] show ?thesis by simp
next
  fix executions
  assume "decided (let r2 = bootstrap_account root executions r1 in
      rbind (scan_nodes S' freshness root executions (ordered_nodes r2)
               \<lparr>ns_record = r2, ns_target = None, ns_height = -1, ns_tip = [], ns_mature = (\<lambda>_. 0)\<rparr>)
        (bootstrap_tail C root authority production)) = Inr p"
  then show ?thesis unfolding Let_def by (drule_tac override_scan) simp
qed

lemma override_reconcileBootstrap:
  assumes p: "reconcileBootstrap C freshness root r = Inr p"
  shows "init_Override (pl_record p) = init_Override r"
proof (cases "currentGate (C AtGate) root r")
  case (Inl e)
  with p show ?thesis by (auto simp: reconcileBootstrap_def split: if_splits)
next
  case gate: (Inr authority)
  show ?thesis
  proof (cases "currentProduction (C AtProducer) root r")
    case (Inl e)
    with p gate show ?thesis by (auto simp: reconcileBootstrap_def split: if_splits)
  next
    case (Inr production)
    with p gate show ?thesis unfolding reconcileBootstrap_def
      by (simp only: sum.case Let_def [of "adopt_production production r"] split: if_splits)
         (auto dest: override_collect)
  qed
qed

text \<open>A withdrawal needs the request gone or its activation recorded; an activation needs a request without
  a recorded one.\<close>

definition withdraws :: "snapshot \<Rightarrow> BitcoinActiveOverride \<Rightarrow> bool" where
  "withdraws S a \<longleftrightarrow>
     (case sn_override S (Name (ao_Override a)) of
        Got q \<Rightarrow> ov_UID q = UID (ao_Override a) \<longrightarrow> ov_Admission q = Some a
      | NotFound \<Rightarrow> True | GetFailed _ \<Rightarrow> False)"

definition activates :: "snapshot \<Rightarrow> BitcoinActiveOverride \<Rightarrow> bool" where
  "activates S a \<longleftrightarrow>
     (\<exists>items. sn_overrides S = Inr (items, False)
        \<and> (\<exists>q \<in> set items. ov_Admission q = None \<and> ao_Override a = override_ref q))
     \<and> 0 < ao_ExpiresAt a - ao_StartedAt a \<and> ao_ExpiresAt a - ao_StartedAt a \<le> 3600 * second"

lemma first_activation_candidate:
  "first_activation C root production items = Some a \<Longrightarrow>
     \<exists>q \<in> set items. override_candidate (C AtOverride) root production q \<and> ao_Override a = override_ref q
       \<and> 0 < ao_ExpiresAt a - ao_StartedAt a \<and> ao_ExpiresAt a - ao_StartedAt a \<le> 3600 * second"
  by (induction items) (auto simp: Let_def split: if_splits sum.splits prod.splits)

lemma reconcileOverride_cases:
  assumes "reconcileOverride C root r = (r1, ws, res)" "WriteStatus r' \<in> set ws"
  shows "(\<exists>a. init_Override r = Some a \<and> init_Override r' = None \<and> withdraws (C AtOverride) a)
    \<or> (\<exists>a. init_Override r = None \<and> init_Override r' = Some a \<and> activates (C AtOverride) a)"
proof (cases "init_Override r")
  case (Some a)
  with assms show ?thesis
    by (auto simp: withdraws_def reconcileOverride_def write_override_def Let_def split: get.splits option.splits if_splits)
next
  case None
  with assms obtain production items a where a: "sn_overrides (C AtOverride) = Inr (items, False)"
    "first_activation C root production (sort_key ov_CreationTimestamp (sort_key ov_UID items)) = Some a"
    "init_Override r' = Some a"
    by (auto simp: reconcileOverride_def write_override_def split: if_splits sum.splits option.splits)
  from first_activation_candidate [OF a(2)] a None show ?thesis by (auto simp: override_candidate_def activates_def)
qed

lemma scheduler_override_cases:
  assumes r: "sn_initialization (C AtRecord) name = Got r"
    and w: "WriteStatus r' \<in> set (fst (scheduler_Reconcile C freshness name))"
  shows "init_Override r' = init_Override r
    \<or> (\<exists>a. init_Override r = Some a \<and> init_Override r' = None \<and> withdraws (C AtOverride) a)
    \<or> (\<exists>a. init_Override r = None \<and> init_Override r' = Some a \<and> activates (C AtOverride) a)"
proof -
  obtain root where root: "sn_network (C AtRoot) = Got root" "bound_initialization root r"
    using w r by (auto simp: scheduler_Reconcile_def split: sum.splits if_splits)
  obtain r1 ws res where o: "reconcileOverride C root r = (r1, ws, res)" by (metis prod_cases3)
  show ?thesis
  proof (cases "WriteStatus r' \<in> set ws")
    case True
    from reconcileOverride_cases [OF o this] show ?thesis by blast
  next
    case False
    obtain production d where b: "reconcileBaseline C freshness root r = (production, d)" by fastforce
    have "WriteStatus r' \<in> set (fst (enact C r production reported_baseline d))
        \<or> WriteStatus r' \<in> set (fst (enact C r None reported (reconcileBootstrap C freshness root r)))"
      using w r root o b False
      by (auto simp: scheduler_Reconcile_def fetched_def split: sum.splits bool.splits if_splits)
    then have "init_Override r' = init_Override r"
      using enact_status override_reconcileBaseline override_reconcileBootstrap b by (metis override_kept(9,10))
    then show ?thesis by simp
  qed
qed

section \<open>The protocol of the two controllers\<close>

text \<open>
  The objects the protocol is about: the initialization record with its resource version, the requests of the
  namespace by name, the identities the API server has issued, and the reconciliations of the scheduler under way
  (several, when a restarted operator overlaps its predecessor): the version and content each read, and the requests
  it read afterwards.
\<close>

type_synonym requests = "string \<rightharpoonup> BitcoinBlockScheduleOverride"

record override_world =
  ow_record :: BitcoinInitialization
  ow_version :: nat
  ow_requests :: requests
  ow_created :: "(string \<times> string) set"
  ow_attempts :: "nat \<rightharpoonup> nat \<times> BitcoinInitialization \<times> requests option"

text \<open>The reads of a reconciliation answer from the requests it saw.\<close>

definition reads_requests :: "reads \<Rightarrow> requests \<Rightarrow> bool" where
  "reads_requests C seen \<longleftrightarrow>
     (\<forall>n. case sn_override (C AtOverride) n of
            Got q \<Rightarrow> seen n = Some q | NotFound \<Rightarrow> seen n = None | GetFailed _ \<Rightarrow> True)
     \<and> (\<forall>items more. sn_overrides (C AtOverride) = Inr (items, more) \<longrightarrow> set items \<subseteq> ran seen)"

definition activated :: "BitcoinInitialization \<Rightarrow> BitcoinInitialization \<Rightarrow> BitcoinActiveOverride list" where
  "activated r r' =
     (case init_Override r' of Some a \<Rightarrow> if init_Override r = Some a then [] else [a] | None \<Rightarrow> [])"

inductive override_step :: "override_world \<Rightarrow> BitcoinActiveOverride list \<Rightarrow> override_world \<Rightarrow> bool" where
  scheduler_reads_record:
    "override_step w [] (w\<lparr>ow_attempts := (ow_attempts w)(p \<mapsto> (ow_version w, ow_record w, None))\<rparr>)"
| scheduler_reads_requests:
    "ow_attempts w p = Some (v, r, None) \<Longrightarrow>
     override_step w [] (w\<lparr>ow_attempts := (ow_attempts w)(p \<mapsto> (v, r, Some (ow_requests w)))\<rparr>)"
| scheduler_writes_record:
    "ow_attempts w p = Some (v, r, Some seen) \<Longrightarrow> v = ow_version w \<Longrightarrow>
     sn_initialization (C AtRecord) name = Got r \<Longrightarrow> reads_requests C seen \<Longrightarrow>
     WriteStatus r' \<in> set (fst (scheduler_Reconcile C freshness name)) \<Longrightarrow>
     override_step w (activated r r') (w\<lparr>ow_record := r', ow_version := Suc v\<rparr>)"
| record_changes:
    "init_Override r' = init_Override (ow_record w) \<Longrightarrow>
     override_step w [] (w\<lparr>ow_record := r', ow_version := Suc (ow_version w)\<rparr>)"
| lifecycle_writes_request:
    "lr_request L = Got request \<Longrightarrow> fst (lifecycle_Reconcile L) = ws @ x # ws' \<Longrightarrow>
     ow_requests w n = Some (written request ws) \<Longrightarrow>
     override_step w [] (w\<lparr>ow_requests := (ow_requests w)(n \<mapsto> written request (ws @ [x]))\<rparr>)"
| request_created:
    "ow_requests w (ov_Name q) = None \<Longrightarrow> (ov_Name q, ov_UID q) \<notin> ow_created w \<Longrightarrow> ov_Admission q = None \<Longrightarrow>
     override_step w [] (w\<lparr>ow_requests := (ow_requests w)(ov_Name q \<mapsto> q),
                          ow_created := insert (ov_Name q, ov_UID q) (ow_created w)\<rparr>)"
| request_changes:
    "ow_requests w n = Some q \<Longrightarrow> ov_Name q' = ov_Name q \<Longrightarrow> ov_UID q' = ov_UID q \<Longrightarrow> ov_Admission q' = ov_Admission q \<Longrightarrow>
     override_step w [] (w\<lparr>ow_requests := (ow_requests w)(n \<mapsto> q')\<rparr>)"
| request_removed:
    "override_step w [] (w\<lparr>ow_requests := (ow_requests w)(n := None)\<rparr>)"

definition override_start :: "override_world \<Rightarrow> bool" where
  "override_start w \<longleftrightarrow>
     init_Override (ow_record w) = None \<and> ow_requests w = Map.empty \<and> ow_created w = {} \<and> ow_attempts w = Map.empty"

text \<open>A settled activation: its request is gone or replaced, or it records an activation.\<close>

definition settled :: "requests \<Rightarrow> Binding \<Rightarrow> bool" where
  "settled rs b \<longleftrightarrow>
     (case rs (Name b) of Some q \<Rightarrow> ov_UID q = UID b \<longrightarrow> ov_Admission q \<noteq> None | None \<Rightarrow> True)"

definition issued :: "requests \<Rightarrow> (string \<times> string) set \<Rightarrow> bool" where
  "issued rs ids \<longleftrightarrow> (\<forall>n q. rs n = Some q \<longrightarrow> ov_Name q = n \<and> (n, ov_UID q) \<in> ids)"

definition attempt_ok :: "override_world \<Rightarrow> BitcoinActiveOverride list \<Rightarrow> nat \<times> BitcoinInitialization \<times> requests option \<Rightarrow> bool" where
  "attempt_ok w as att \<longleftrightarrow>
     (case att of (v, r, seen) \<Rightarrow>
        v \<le> ow_version w \<and> (v = ow_version w \<longrightarrow> r = ow_record w)
        \<and> (\<forall>rs. seen = Some rs \<longrightarrow> issued rs (ow_created w)
            \<and> (v = ow_version w \<longrightarrow>
                 (\<forall>a \<in> set as. (settled rs (ao_Override a) \<longrightarrow> settled (ow_requests w) (ao_Override a))
                   \<and> (init_Override r = None \<longrightarrow> settled rs (ao_Override a))))))"

definition activations_ok :: "override_world \<Rightarrow> BitcoinActiveOverride list \<Rightarrow> bool" where
  "activations_ok w as \<longleftrightarrow>
     distinct (map ao_Override as) \<and> (\<forall>a. init_Override (ow_record w) = Some a \<longrightarrow> a \<in> set as)
     \<and> (\<forall>a \<in> set as. (Name (ao_Override a), UID (ao_Override a)) \<in> ow_created w
          \<and> (init_Override (ow_record w) = Some a \<or> settled (ow_requests w) (ao_Override a))
          \<and> 0 < ao_ExpiresAt a - ao_StartedAt a \<and> ao_ExpiresAt a - ao_StartedAt a \<le> 3600 * second)"

definition protocol_ok :: "override_world \<Rightarrow> BitcoinActiveOverride list \<Rightarrow> bool" where
  "protocol_ok w as \<longleftrightarrow>
     issued (ow_requests w) (ow_created w) \<and> activations_ok w as
     \<and> (\<forall>p att. ow_attempts w p = Some att \<longrightarrow> attempt_ok w as att)"

text \<open>Changes of the requests keep what is settled for every identity already issued.\<close>

definition keeps_settled :: "(string \<times> string) set \<Rightarrow> requests \<Rightarrow> requests \<Rightarrow> bool" where
  "keeps_settled ids rs rs' \<longleftrightarrow> (\<forall>b. (Name b, UID b) \<in> ids \<longrightarrow> settled rs b \<longrightarrow> settled rs' b)"

lemma keeps_settled_update:
  "rs n = Some q \<Longrightarrow> ov_UID q' = ov_UID q \<Longrightarrow> (ov_Admission q \<noteq> None \<Longrightarrow> ov_Admission q' \<noteq> None) \<Longrightarrow>
   keeps_settled ids rs (rs(n \<mapsto> q'))"
  by (auto simp: keeps_settled_def settled_def)

lemma keeps_settled_fresh: "(n, ov_UID q) \<notin> ids \<Longrightarrow> keeps_settled ids rs (rs(n \<mapsto> q))"
  by (auto simp: keeps_settled_def settled_def)

lemma keeps_settled_removed: "keeps_settled ids rs (rs(n := None))"
  by (auto simp: keeps_settled_def settled_def)

lemma protocol_requests_change:
  assumes ok: "protocol_ok w as" and keeps: "keeps_settled (ow_created w) (ow_requests w) rs'"
    and ids: "ow_created w \<subseteq> ids'" "issued rs' ids'"
  shows "protocol_ok (w\<lparr>ow_requests := rs', ow_created := ids'\<rparr>) as"
proof -
  have issued: "issued rs ids'" if "issued rs (ow_created w)" for rs
    using that ids(1) by (auto simp: issued_def)
  have settled: "settled rs' (ao_Override a)" if "a \<in> set as" "settled (ow_requests w) (ao_Override a)" for a
    using ok keeps that by (simp add: protocol_ok_def activations_ok_def keeps_settled_def)
  show ?thesis
    using ok ids issued settled
    by (auto simp: protocol_ok_def activations_ok_def attempt_ok_def)
qed

text \<open>The steps of the scheduler.\<close>

lemma protocol_reads_record:
  "protocol_ok w as \<Longrightarrow> protocol_ok (w\<lparr>ow_attempts := (ow_attempts w)(p \<mapsto> (ow_version w, ow_record w, None))\<rparr>) as"
  by (auto simp: protocol_ok_def activations_ok_def attempt_ok_def)

lemma protocol_reads_requests:
  assumes "protocol_ok w as" "ow_attempts w p = Some (v, r, None)"
  shows "protocol_ok (w\<lparr>ow_attempts := (ow_attempts w)(p \<mapsto> (v, r, Some (ow_requests w)))\<rparr>) as"
proof -
  have "attempt_ok w as (v, r, None)" using assms by (simp add: protocol_ok_def)
  with assms have "attempt_ok w as (v, r, Some (ow_requests w))"
    by (auto simp: protocol_ok_def activations_ok_def attempt_ok_def)
  with assms show ?thesis
    by (auto simp: protocol_ok_def activations_ok_def attempt_ok_def)
qed

lemma protocol_record_written:
  assumes ok: "protocol_ok w as" and new: "activations_ok (w\<lparr>ow_record := r', ow_version := Suc (ow_version w)\<rparr>) as'"
  shows "protocol_ok (w\<lparr>ow_record := r', ow_version := Suc (ow_version w)\<rparr>) as'"
proof -
  have "attempt_ok (w\<lparr>ow_record := r', ow_version := Suc (ow_version w)\<rparr>) as' att" if "ow_attempts w p = Some att" for p att
  proof -
    have "attempt_ok w as att" using ok that unfolding protocol_ok_def by blast
    then show ?thesis by (auto simp: attempt_ok_def)
  qed
  with ok new show ?thesis by (simp add: protocol_ok_def)
qed

lemma protocol_writes_record:
  assumes ok: "protocol_ok w as" and att: "ow_attempts w p = Some (v, r, Some seen)" "v = ow_version w"
    and reads: "reads_requests C seen"
    and cases: "init_Override r' = init_Override r
      \<or> (\<exists>a. init_Override r = Some a \<and> init_Override r' = None \<and> withdraws (C AtOverride) a)
      \<or> (\<exists>a. init_Override r = None \<and> init_Override r' = Some a \<and> activates (C AtOverride) a)"
  shows "protocol_ok (w\<lparr>ow_record := r', ow_version := Suc v\<rparr>) (as @ activated r r')"
proof -
  have "attempt_ok w as (v, r, Some seen)" using ok att by (simp add: protocol_ok_def)
  then have r: "r = ow_record w" and seen: "issued seen (ow_created w)"
    "\<And>a. a \<in> set as \<Longrightarrow> settled seen (ao_Override a) \<Longrightarrow> settled (ow_requests w) (ao_Override a)"
    "\<And>a. a \<in> set as \<Longrightarrow> init_Override r = None \<Longrightarrow> settled seen (ao_Override a)"
    using att(2) by (auto simp: attempt_ok_def)
  have acts: "activations_ok w as" using ok by (simp add: protocol_ok_def)
  from cases have "activations_ok (w\<lparr>ow_record := r', ow_version := Suc (ow_version w)\<rparr>) (as @ activated r r')"
  proof (elim disjE exE conjE)
    assume "init_Override r' = init_Override r"
    with acts r show ?thesis by (auto simp: activations_ok_def activated_def split: option.splits)
  next
    fix a
    assume a: "init_Override r = Some a" "init_Override r' = None" and w: "withdraws (C AtOverride) a"
    from w reads have "settled seen (ao_Override a)"
      by (auto simp: withdraws_def settled_def reads_requests_def split: get.splits option.splits)
    with acts a r seen(2) show ?thesis by (auto simp: activations_ok_def activated_def)
  next
    fix a
    assume a: "init_Override r = None" "init_Override r' = Some a" and act: "activates (C AtOverride) a"
    from act reads obtain q where q: "q \<in> ran seen" "ov_Admission q = None" "ao_Override a = override_ref q"
      by (auto simp: activates_def reads_requests_def)
    with seen(1) have named: "seen (ov_Name q) = Some q" "(ov_Name q, ov_UID q) \<in> ow_created w"
      by (auto simp: issued_def ran_def)
    then have "\<not> settled seen (override_ref q)" using q(2) by (simp add: settled_def override_ref_def)
    with seen(3) a(1) q(3) have "ao_Override a \<notin> ao_Override ` set as" by (metis imageE)
    with acts a r seen(2,3) named(2) q(3) act show ?thesis
      by (auto simp: activations_ok_def activated_def activates_def override_ref_def)
  qed
  with protocol_record_written [OF ok] att(2) show ?thesis by simp
qed

interpretation overriding: history_system override_start override_step "\<lambda>w es. protocol_ok w (concat es)"
proof
  show "override_start w \<Longrightarrow> protocol_ok w (concat [])" for w
    by (simp add: override_start_def protocol_ok_def activations_ok_def issued_def)
  fix w es e w'
  assume ok: "protocol_ok w (concat es)" and step: "override_step w e w'"
  from step show "protocol_ok w' (concat (es @ [e]))"
  proof cases
    case (scheduler_reads_record p)
    with protocol_reads_record [OF ok] show ?thesis by simp
  next
    case (scheduler_reads_requests p v r)
    with protocol_reads_requests [OF ok] show ?thesis by simp
  next
    case (scheduler_writes_record p v r seen C name r' freshness)
    from protocol_writes_record [OF ok scheduler_writes_record(3,4,6) scheduler_override_cases [OF scheduler_writes_record(5,7)]]
    show ?thesis using scheduler_writes_record(1,2) by simp
  next
    case (record_changes r')
    have "activations_ok (w\<lparr>ow_record := r', ow_version := Suc (ow_version w)\<rparr>) (concat es)"
      using ok record_changes(3) by (simp add: protocol_ok_def activations_ok_def)
    with protocol_record_written [OF ok] record_changes show ?thesis by simp
  next
    case (lifecycle_writes_request L request ws x ws' n)
    from lifecycle_write_keeps [OF lifecycle_writes_request(3,4)] lifecycle_writes_request(5) ok
    have "keeps_settled (ow_created w) (ow_requests w) (ow_requests w')" "issued (ow_requests w') (ow_created w)"
      unfolding lifecycle_writes_request(2) by (auto simp: protocol_ok_def issued_def intro!: keeps_settled_update)
    with protocol_requests_change [OF ok] lifecycle_writes_request show ?thesis by fastforce
  next
    case (request_created q)
    have "issued (ow_requests w') (ow_created w')" using ok request_created by (auto simp: protocol_ok_def issued_def)
    with protocol_requests_change [OF ok keeps_settled_fresh [OF request_created(4)] subset_insertI] request_created
    show ?thesis by simp
  next
    case (request_changes n q q')
    have "keeps_settled (ow_created w) (ow_requests w) (ow_requests w')" "issued (ow_requests w') (ow_created w)"
      using ok request_changes by (auto simp: protocol_ok_def issued_def intro!: keeps_settled_update)
    with protocol_requests_change [OF ok] request_changes show ?thesis by fastforce
  next
    case (request_removed n)
    have "issued (ow_requests w') (ow_created w)" using ok request_removed by (auto simp: protocol_ok_def issued_def)
    with protocol_requests_change [OF ok keeps_settled_removed] request_removed show ?thesis by fastforce
  qed
qed

section \<open>What the protocol guarantees\<close>

text \<open>C9: A schedule override is activated once. In every interleaving of the scheduler, of overlapping
  schedulers after a restart, of the lifecycle controller and of users who create, edit and delete requests, no
  request identity is activated a second time; each activation, with its times as the scheduler writes them, lasts
  more than nothing and at most one hour; and an
  activation the record no longer carries has its request gone, replaced, or marked as admitted.\<close>

theorem override_activated_once:
  assumes "runs override_start override_step w es"
  shows "distinct (map ao_Override (concat es))
    \<and> (\<forall>a \<in> set (concat es). ao_StartedAt a < ao_ExpiresAt a \<and> ao_ExpiresAt a \<le> ao_StartedAt a + 3600 * second
        \<and> (init_Override (ow_record w) = Some a
           \<or> (\<forall>q. ow_requests w (Name (ao_Override a)) = Some q \<longrightarrow> ov_UID q = UID (ao_Override a) \<longrightarrow> ov_Admission q \<noteq> None)))"
proof (intro conjI ballI)
  have ok: "activations_ok w (concat es)" using overriding.hinv_runs [OF assms] by (simp add: protocol_ok_def)
  then show "distinct (map ao_Override (concat es))" by (simp add: activations_ok_def)
  fix a assume "a \<in> set (concat es)"
  with ok have a: "0 < ao_ExpiresAt a - ao_StartedAt a" "ao_ExpiresAt a - ao_StartedAt a \<le> 3600 * second"
    "init_Override (ow_record w) = Some a \<or> settled (ow_requests w) (ao_Override a)"
    unfolding activations_ok_def by blast+
  then show "ao_StartedAt a < ao_ExpiresAt a" "ao_ExpiresAt a \<le> ao_StartedAt a + 3600 * second"
    "init_Override (ow_record w) = Some a
       \<or> (\<forall>q. ow_requests w (Name (ao_Override a)) = Some q \<longrightarrow> ov_UID q = UID (ao_Override a) \<longrightarrow> ov_Admission q \<noteq> None)"
    by (auto simp: settled_def)
qed

definition sample_override_request :: BitcoinBlockScheduleOverride where
  "sample_override_request =
     \<lparr>ov_Name = ''faster'', ov_UID = ''o'', ov_CreationTimestamp = 100 * second, ov_Deleted = False, ov_Generation = 1,
      ov_Finalizers = [OverrideFinalizer], ov_NetworkUID = ''net'', ov_ProductionRef = ''producer'',
      ov_Schedule = Some \<lparr>ScheduleMode = ''Fixed'', Interval = Some (''2s'', Inr (2 * second)), MinimumInterval = None,
                          MaximumInterval = None\<rparr>,
      ov_ScheduleRef = None, ov_Duration = (''5m'', Inr (300 * second)), ov_Phase = [], ov_ObservedGeneration = 0,
      ov_Admission = None, ov_PendingExpiresAt = None, ov_Reason = []\<rparr>"

definition sample_active :: BitcoinActiveOverride where
  "sample_active =
     \<lparr>ao_Override = override_ref sample_override_request, ao_Production = participant_ref sample_producer,
      ao_Schedule = \<lparr>ScheduleMode = ''Fixed'', Interval = Some (''2s'', Inr (2 * second)), MinimumInterval = None,
                     MaximumInterval = None\<rparr>,
      ao_ScheduleRef = None, ao_StartedAt = 101 * second, ao_ExpiresAt = 401 * second\<rparr>"

definition sample_override_reads :: reads where
  "sample_override_reads = (\<lambda>p. (sample_moment True (101 * second) sample_prepared p)
     \<lparr>sn_override := (\<lambda>n. if n = ''faster'' then Got sample_override_request else NotFound),
      sn_overrides := Inr ([sample_override_request], False)\<rparr>)"

definition sample_lifecycle_reads :: lifecycle_reads where
  "sample_lifecycle_reads =
     \<lparr>lr_request = Got sample_override_request, lr_root = Got (sample_root True),
      lr_initial = (\<lambda>_. Got (sample_prepared\<lparr>init_Override := Some sample_active\<rparr>)), lr_now = 102 * second,
      lr_status = Inr (), lr_patch = Inr ()\<rparr>"

lemma sample_activation:
  "status_written (fst (scheduler_Reconcile sample_override_reads (10 * second) ''init''))
     = Some (sample_prepared\<lparr>init_Override := Some sample_active\<rparr>)"
  "fst (lifecycle_Reconcile sample_lifecycle_reads)
     = [WriteOverrideStatus (lifecycle_status (102 * second) (Some sample_active) sample_override_request)]"
  by code_simp+

definition sample_override_world ::
  "BitcoinInitialization \<Rightarrow> nat \<Rightarrow> BitcoinBlockScheduleOverride \<Rightarrow> requests option option \<Rightarrow> override_world" where
  "sample_override_world r v request seen =
     \<lparr>ow_record = r, ow_version = v, ow_requests = [''faster'' \<mapsto> request], ow_created = {(''faster'', ''o'')},
      ow_attempts = (case seen of None \<Rightarrow> Map.empty | Some rs \<Rightarrow> [0 \<mapsto> (7, sample_prepared, rs)])\<rparr>"

definition sample_overridden :: BitcoinInitialization where
  "sample_overridden = sample_prepared\<lparr>init_Override := Some sample_active\<rparr>"

definition sample_admitted :: BitcoinBlockScheduleOverride where
  "sample_admitted = lifecycle_status (102 * second) (Some sample_active) sample_override_request"

definition sample_seen :: requests where
  "sample_seen = [''faster'' \<mapsto> sample_override_request]"

lemma sample_override_steps:
  "override_step \<lparr>ow_record = sample_prepared, ow_version = 7, ow_requests = Map.empty, ow_created = {}, ow_attempts = Map.empty\<rparr>
     [] (sample_override_world sample_prepared 7 sample_override_request None)"
  "override_step (sample_override_world sample_prepared 7 sample_override_request None) [] (sample_override_world sample_prepared 7 sample_override_request (Some None))"
  "override_step (sample_override_world sample_prepared 7 sample_override_request (Some None)) []
     (sample_override_world sample_prepared 7 sample_override_request (Some (Some sample_seen)))"
  "override_step (sample_override_world sample_prepared 7 sample_override_request (Some (Some sample_seen))) [sample_active]
     (sample_override_world sample_overridden 8 sample_override_request (Some (Some sample_seen)))"
  "override_step (sample_override_world sample_overridden 8 sample_override_request (Some (Some sample_seen))) []
     (sample_override_world sample_overridden 8 sample_admitted (Some (Some sample_seen)))"
proof -
  show "override_step \<lparr>ow_record = sample_prepared, ow_version = 7, ow_requests = Map.empty, ow_created = {}, ow_attempts = Map.empty\<rparr>
     [] (sample_override_world sample_prepared 7 sample_override_request None)"
    using request_created [of "\<lparr>ow_record = sample_prepared, ow_version = 7, ow_requests = Map.empty, ow_created = {}, ow_attempts = Map.empty\<rparr>"
        sample_override_request]
    by (simp add: sample_override_world_def sample_override_request_def)
  show "override_step (sample_override_world sample_prepared 7 sample_override_request None) [] (sample_override_world sample_prepared 7 sample_override_request (Some None))"
    using scheduler_reads_record [of "sample_override_world sample_prepared 7 sample_override_request None" 0]
    by (simp add: sample_override_world_def)
  show "override_step (sample_override_world sample_prepared 7 sample_override_request (Some None)) []
     (sample_override_world sample_prepared 7 sample_override_request (Some (Some sample_seen)))"
    using scheduler_reads_requests [of "sample_override_world sample_prepared 7 sample_override_request (Some None)" 0 7 sample_prepared]
    by (simp add: sample_override_world_def sample_seen_def)
  have new: "activated sample_prepared sample_overridden = [sample_active]"
    by (simp add: activated_def sample_overridden_def sample_prepared_def sample_fresh_def sample_initialization_def)
  have "reads_requests sample_override_reads sample_seen"
    by (simp add: reads_requests_def sample_override_reads_def sample_seen_def sample_moment_def)
  moreover have "sn_initialization (sample_override_reads AtRecord) ''init'' = Got sample_prepared"
    by (simp add: sample_override_reads_def sample_moment_def)
  moreover have "WriteStatus sample_overridden \<in> set (fst (scheduler_Reconcile sample_override_reads (10 * second) ''init''))"
    using status_written_set [OF sample_activation(1)] by (simp only: sample_overridden_def)
  ultimately show "override_step (sample_override_world sample_prepared 7 sample_override_request (Some (Some sample_seen))) [sample_active]
     (sample_override_world sample_overridden 8 sample_override_request (Some (Some sample_seen)))"
    using scheduler_writes_record [where w = "sample_override_world sample_prepared 7 sample_override_request (Some (Some sample_seen))" and p = 0
        and v = 7 and r = sample_prepared and seen = sample_seen and C = sample_override_reads and name = "''init''"
        and freshness = "10 * second" and r' = sample_overridden]
    by (simp add: sample_override_world_def new)
  show "override_step (sample_override_world sample_overridden 8 sample_override_request (Some (Some sample_seen))) []
     (sample_override_world sample_overridden 8 sample_admitted (Some (Some sample_seen)))"
    using lifecycle_writes_request [where w = "sample_override_world sample_overridden 8 sample_override_request (Some (Some sample_seen))"
        and L = sample_lifecycle_reads and request = sample_override_request and ws = "[]" and ws' = "[]" and n = "''faster''"
        and x = "WriteOverrideStatus sample_admitted"] sample_activation(2)
    by (simp add: sample_lifecycle_reads_def sample_admitted_def sample_override_world_def)
qed

theorem override_activated_once_witness:
  "\<exists>es. runs override_start override_step (sample_override_world sample_overridden 8 sample_admitted (Some (Some sample_seen))) es
     \<and> concat es = [sample_active] \<and> ao_ExpiresAt sample_active \<le> ao_StartedAt sample_active + 3600 * second"
proof -
  have "override_start \<lparr>ow_record = sample_prepared, ow_version = 7, ow_requests = Map.empty, ow_created = {}, ow_attempts = Map.empty\<rparr>"
    by (simp add: override_start_def sample_prepared_def sample_fresh_def sample_initialization_def)
  then have run: "runs override_start override_step (sample_override_world sample_overridden 8 sample_admitted (Some (Some sample_seen)))
      ((((([] @ [[]]) @ [[]]) @ [[]]) @ [[sample_active]]) @ [[]])"
    by (intro runs_step [where step = override_step, OF _ sample_override_steps(5)]
        runs_step [where step = override_step, OF _ sample_override_steps(4)]
        runs_step [where step = override_step, OF _ sample_override_steps(3)]
        runs_step [where step = override_step, OF _ sample_override_steps(2)]
        runs_step [where step = override_step, OF _ sample_override_steps(1)] runs_start)
  from override_activated_once [OF run] show ?thesis
    by (intro exI [of _ "((((([] @ [[]]) @ [[]]) @ [[]]) @ [[sample_active]]) @ [[]])"] conjI run) simp_all
qed

end
