(* ===== verification/Read_Scope.thy ===== *)
theory Read_Scope
  imports Bitcoin_Gates
begin

text \<open>
  Model of \<open>read_scope.go\<close> of \<open>operators/network/internal/bitcoincontrol\<close>: the objects the role of a control worker
  may read, found by following admitted dependencies from the participant, the payout wallet and the producer. The
  work list grows while it is processed; the bound on the keys seen ends it.
\<close>

section \<open>The objects followed\<close>

text \<open>A participant with the source of its admission; the fields without an admission are not read.\<close>

record SourcedParticipant = BitcoinParticipant +
  bp_SourceName :: string
  bp_SourceUID :: string

record DependentObject =
  do_UID :: string
  do_Dependencies :: "Binding list"

record scope_reads =
  sr_participant :: "string \<Rightarrow> SourcedParticipant get"
  sr_wallet :: "string \<Rightarrow> DependentObject get"
  sr_account :: "string \<Rightarrow> DependentObject get"

definition scope_key :: "Binding \<Rightarrow> string" where
  "scope_key ref = Kind ref @ ''/'' @ Name ref"

text \<open>Kinds that are listed without being read, and kinds that are read and followed.\<close>

definition listed_kind :: "string \<Rightarrow> bool" where
  "listed_kind k \<longleftrightarrow> k = ''BitcoinNode'' \<or> k = ''BitcoinBlockProduction'' \<or> k = ''BitcoinBlockSchedule''"

definition followed_kind :: "string \<Rightarrow> bool" where
  "followed_kind k \<longleftrightarrow> k = ''StacksNetworkParticipant'' \<or> k = ''BitcoinWallet'' \<or> k = ''StacksAccount''"

definition participant_dependencies :: "BitcoinInitialization \<Rightarrow> SourcedParticipant \<Rightarrow> Binding list" where
  "participant_dependencies initial current =
     (case bp_Admission current of
        None \<Rightarrow> []
      | Some admission \<Rightarrow>
          (if bp_SourceName current = [] then []
           else [\<lparr>Kind = bp_Kind current, Name = bp_SourceName current, UID = bp_SourceUID current, Fingerprint = []\<rparr>])
          @ filter (\<lambda>dep. \<not> (bp_Kind current = ''BitcoinBlockProduction'' \<and> Kind dep \<noteq> ''BitcoinBlockSchedule''
                            \<and> dep \<noteq> FrozenWallet (PayoutWallet initial)))
              (adm_Dependencies admission))"

text \<open>What one read adds to the work list.\<close>

definition followed :: "('b \<Rightarrow> string) \<Rightarrow> ('b \<Rightarrow> Binding list) \<Rightarrow> string \<Rightarrow> 'b get \<Rightarrow> Binding list result" where
  "followed uid deps pinned got =
     (case got of
        NotFound \<Rightarrow> Inr []
      | GetFailed e \<Rightarrow> Inl e
      | Got object \<Rightarrow> Inr (if uid object = pinned then deps object else []))"

definition scope_read :: "scope_reads \<Rightarrow> BitcoinInitialization \<Rightarrow> Binding \<Rightarrow> Binding list result" where
  "scope_read R initial ref =
     (if Kind ref = ''StacksNetworkParticipant''
      then followed bp_UID (participant_dependencies initial) (UID ref) (sr_participant R (Name ref))
      else if Kind ref = ''BitcoinWallet'' then followed do_UID do_Dependencies (UID ref) (sr_wallet R (Name ref))
      else followed do_UID do_Dependencies (UID ref) (sr_account R (Name ref)))"

section \<open>The work list\<close>

function scope_loop ::
  "scope_reads \<Rightarrow> BitcoinInitialization \<Rightarrow> Binding list \<Rightarrow> string list \<Rightarrow> Binding list \<Rightarrow> Binding list result" where
  "scope_loop R initial [] seen out = Inr out"
| "scope_loop R initial (ref # queue) seen out =
     (if scope_key ref \<in> set seen \<or> Kind ref = ''Secret'' \<or> Name ref = [] then scope_loop R initial queue seen out
      else let seen' = scope_key ref # seen in
        if length seen' > 1000 then Inl ''public control scope exceeds supported bound''
        else if listed_kind (Kind ref) then scope_loop R initial queue seen' (out @ [ref])
        else if \<not> followed_kind (Kind ref) then scope_loop R initial queue seen' out
        else case scope_read R initial ref of
          Inl e \<Rightarrow> Inl e
        | Inr deps \<Rightarrow> scope_loop R initial (queue @ deps) seen' (out @ [ref]))"
  by pat_completeness auto
termination
  by (relation "measures [\<lambda>(R, initial, queue, seen, out). 1001 - length seen, \<lambda>(R, initial, queue, seen, out). length queue]") auto

definition scope_seeds :: "BitcoinParticipant \<Rightarrow> BitcoinInitialization \<Rightarrow> Binding list" where
  "scope_seeds p initial = [FrozenWallet (PayoutWallet initial), participant_ref p, productionBinding initial]"

definition publicReadScope ::
  "scope_reads \<Rightarrow> BitcoinParticipant \<Rightarrow> BitcoinInitialization \<Rightarrow> Binding list result" where
  "publicReadScope R p initial = scope_loop R initial (scope_seeds p initial) [] []"

section \<open>What is in scope\<close>

text \<open>References the seeds lead to. A reference is public when the worker's role names it.\<close>

inductive in_scope :: "scope_reads \<Rightarrow> BitcoinInitialization \<Rightarrow> BitcoinParticipant \<Rightarrow> Binding \<Rightarrow> bool"
  for R initial p where
  seed: "ref \<in> set (scope_seeds p initial) \<Longrightarrow> in_scope R initial p ref"
| dependency: "in_scope R initial p ref \<Longrightarrow> followed_kind (Kind ref) \<Longrightarrow> scope_read R initial ref = Inr deps \<Longrightarrow> d \<in> set deps
    \<Longrightarrow> in_scope R initial p d"

definition public_ref :: "Binding \<Rightarrow> bool" where
  "public_ref ref \<longleftrightarrow> (listed_kind (Kind ref) \<or> followed_kind (Kind ref)) \<and> Name ref \<noteq> []"

lemma public_not_secret: "public_ref ref \<Longrightarrow> Kind ref \<noteq> ''Secret''"
  by (auto simp: public_ref_def listed_kind_def followed_kind_def)

lemma scope_key_kind:
  assumes "scope_key a = scope_key b" "CHR ''/'' \<notin> set (Kind a)" "CHR ''/'' \<notin> set (Kind b)"
  shows "Kind a = Kind b \<and> Name a = Name b"
proof -
  have split: "takeWhile (\<lambda>c. c \<noteq> CHR ''/'') (k @ CHR ''/'' # n) = k" if "CHR ''/'' \<notin> set k" for k n :: string
    using that by (induction k) auto
  from assms have "Kind a = Kind b" unfolding scope_key_def append_Cons append_Nil by (metis split)
  with assms(1) show ?thesis by (simp add: scope_key_def)
qed

text \<open>One iteration, by the first reference of the work list.\<close>

lemma scope_loop_skip:
  "scope_key ref \<in> set seen \<or> Kind ref = ''Secret'' \<or> Name ref = [] \<Longrightarrow>
     scope_loop R initial (ref # queue) seen out = scope_loop R initial queue seen out"
  by simp

lemma scope_loop_new:
  assumes "\<not> (scope_key ref \<in> set seen \<or> Kind ref = ''Secret'' \<or> Name ref = [])"
  shows "length seen \<ge> 1000 \<Longrightarrow>
      scope_loop R initial (ref # queue) seen out = Inl ''public control scope exceeds supported bound''"
    and "length seen < 1000 \<Longrightarrow> listed_kind (Kind ref) \<Longrightarrow>
      scope_loop R initial (ref # queue) seen out = scope_loop R initial queue (scope_key ref # seen) (out @ [ref])"
    and "length seen < 1000 \<Longrightarrow> \<not> listed_kind (Kind ref) \<Longrightarrow> \<not> followed_kind (Kind ref) \<Longrightarrow>
      scope_loop R initial (ref # queue) seen out = scope_loop R initial queue (scope_key ref # seen) out"
    and "length seen < 1000 \<Longrightarrow> \<not> listed_kind (Kind ref) \<Longrightarrow> followed_kind (Kind ref) \<Longrightarrow> scope_read R initial ref = Inl e \<Longrightarrow>
      scope_loop R initial (ref # queue) seen out = Inl e"
    and "length seen < 1000 \<Longrightarrow> \<not> listed_kind (Kind ref) \<Longrightarrow> followed_kind (Kind ref) \<Longrightarrow> scope_read R initial ref = Inr deps \<Longrightarrow>
      scope_loop R initial (ref # queue) seen out = scope_loop R initial (queue @ deps) (scope_key ref # seen) (out @ [ref])"
  using assms by simp_all

declare scope_loop.simps(2) [simp del]

text \<open>What holds of the work list, the keys seen and the references listed.\<close>

definition scope_covered :: "Binding list \<Rightarrow> string list \<Rightarrow> Binding \<Rightarrow> bool" where
  "scope_covered queue seen d \<longleftrightarrow> public_ref d \<longrightarrow> d \<in> set queue \<or> scope_key d \<in> set seen"

definition scope_ok ::
  "scope_reads \<Rightarrow> BitcoinInitialization \<Rightarrow> BitcoinParticipant \<Rightarrow> Binding list \<Rightarrow> string list \<Rightarrow> Binding list \<Rightarrow> bool" where
  "scope_ok R initial p queue seen out \<longleftrightarrow>
     (\<forall>ref \<in> set queue \<union> set out. in_scope R initial p ref) \<and> (\<forall>ref \<in> set out. public_ref ref)
     \<and> distinct (map scope_key out) \<and> scope_key ` set out \<subseteq> set seen \<and> length out \<le> length seen
     \<and> distinct seen \<and> length seen \<le> 1000
     \<and> (\<forall>k \<in> set seen. \<exists>r. in_scope R initial p r \<and> scope_key r = k \<and> (public_ref r \<longrightarrow> r \<in> set out))
     \<and> (\<forall>d \<in> set (scope_seeds p initial). scope_covered queue seen d)
     \<and> (\<forall>ref \<in> set out. \<forall>deps. followed_kind (Kind ref) \<longrightarrow> scope_read R initial ref = Inr deps \<longrightarrow>
          (\<forall>d \<in> set deps. scope_covered queue seen d))"

lemma scope_covered_mono:
  "scope_covered (ref # queue) seen d \<Longrightarrow> set queue \<subseteq> set queue' \<Longrightarrow> set seen \<subseteq> set seen' \<Longrightarrow>
   public_ref ref \<longrightarrow> scope_key ref \<in> set seen' \<Longrightarrow> scope_covered queue' seen' d"
  by (auto simp: scope_covered_def)

lemma scope_ok_skip:
  assumes "scope_ok R initial p (ref # queue) seen out"
    "scope_key ref \<in> set seen \<or> Kind ref = ''Secret'' \<or> Name ref = []"
  shows "scope_ok R initial p queue seen out"
proof -
  have "public_ref ref \<longrightarrow> scope_key ref \<in> set seen" using assms(2) public_not_secret by (auto simp: public_ref_def)
  then have "scope_covered (ref # queue) seen d \<Longrightarrow> scope_covered queue seen d" for d
    by (auto simp: scope_covered_def)
  with assms(1) show ?thesis unfolding scope_ok_def by (auto 0 3)
qed

lemma scope_ok_add:
  assumes ok: "scope_ok R initial p (ref # queue) seen out" and new: "scope_key ref \<notin> set seen" "length seen < 1000"
    and named: "Name ref \<noteq> []"
    and out': "out' = (if public_ref ref then out @ [ref] else out)"
    and queue': "if followed_kind (Kind ref) then scope_read R initial ref = Inr deps \<and> queue' = queue @ deps else queue' = queue"
  shows "scope_ok R initial p queue' (scope_key ref # seen) out'"
proof -
  have covered: "scope_covered queue' (scope_key ref # seen) d" if "scope_covered (ref # queue) seen d" for d
    using that queue' by (auto simp: scope_covered_def split: if_splits)
  have followed: "public_ref ref" if "followed_kind (Kind ref)" using that named by (simp add: public_ref_def)
  have scope: "in_scope R initial p ref" using ok by (simp add: scope_ok_def)
  have "\<forall>d \<in> set queue'. in_scope R initial p d"
    using ok queue' dependency [OF scope] by (auto simp: scope_ok_def split: if_splits)
  moreover have "\<forall>d \<in> set deps'. scope_covered queue' (scope_key ref # seen) d"
    if "r \<in> set out'" "followed_kind (Kind r)" "scope_read R initial r = Inr deps'" for r deps'
  proof (cases "r \<in> set out")
    case True
    with ok that covered show ?thesis by (simp add: scope_ok_def)
  next
    case False
    with that out' have "r = ref" by (simp split: if_splits)
    with that queue' show ?thesis by (auto simp: scope_covered_def)
  qed
  moreover have "\<forall>k \<in> set (scope_key ref # seen). \<exists>r. in_scope R initial p r \<and> scope_key r = k \<and> (public_ref r \<longrightarrow> r \<in> set out')"
  proof
    fix k assume k: "k \<in> set (scope_key ref # seen)"
    show "\<exists>r. in_scope R initial p r \<and> scope_key r = k \<and> (public_ref r \<longrightarrow> r \<in> set out')"
    proof (cases "k = scope_key ref")
      case True
      with scope out' show ?thesis by (intro exI [of _ ref]) auto
    next
      case False
      with ok k have "\<exists>r. in_scope R initial p r \<and> scope_key r = k \<and> (public_ref r \<longrightarrow> r \<in> set out)"
        by (simp add: scope_ok_def)
      then obtain r where "in_scope R initial p r" "scope_key r = k" "public_ref r \<longrightarrow> r \<in> set out"
        by (elim exE conjE)
      with out' show ?thesis by (intro exI [of _ r]) auto
    qed
  qed
  ultimately show ?thesis
    using ok new covered scope out' by (auto simp: scope_ok_def)
qed

lemma scope_loop_result:
  assumes "scope_ok R initial p queue seen out"
  shows "(\<exists>seen' out'. scope_loop R initial queue seen out = Inr out' \<and> scope_ok R initial p [] seen' out')
    \<or> (\<exists>ref e. in_scope R initial p ref \<and> scope_read R initial ref = Inl e \<and> scope_loop R initial queue seen out = Inl e)
    \<or> (scope_loop R initial queue seen out = Inl ''public control scope exceeds supported bound''
        \<and> (\<exists>keys. distinct keys \<and> length keys = 1001 \<and> set keys \<subseteq> scope_key ` Collect (in_scope R initial p)))"
  using assms
proof (induction R initial queue seen out rule: scope_loop.induct)
  case (1 R initial seen out)
  then show ?case by auto
next
  case (2 R initial ref queue seen out)
  note IH = "2.IH" and ok = "2.prems"
  show ?case
  proof (cases "scope_key ref \<in> set seen \<or> Kind ref = ''Secret'' \<or> Name ref = []")
    case True
    from IH(1) [OF True scope_ok_skip [OF ok True]] show ?thesis unfolding scope_loop_skip [OF True] .
  next
    case new: False
    then have fresh: "scope_key ref \<notin> set seen" "Name ref \<noteq> []" by auto
    have scope: "in_scope R initial p ref" using ok by (simp add: scope_ok_def)
    show ?thesis
    proof (cases "length seen < 1000")
      case False
      with ok have "length (scope_key ref # seen) = 1001" "distinct (scope_key ref # seen)"
        "set (scope_key ref # seen) \<subseteq> scope_key ` Collect (in_scope R initial p)"
        using fresh scope by (auto simp: scope_ok_def)
      moreover have "scope_loop R initial (ref # queue) seen out = Inl ''public control scope exceeds supported bound''"
        using scope_loop_new(1) [OF new] False by simp
      ultimately show ?thesis by blast
    next
      case room: True
      then have bound: "\<not> 1000 < length (scope_key ref # seen)" by simp
      note add = scope_ok_add [OF ok fresh(1) room fresh(2)]
      consider "listed_kind (Kind ref)" | "\<not> listed_kind (Kind ref)" "\<not> followed_kind (Kind ref)"
        | e where "\<not> listed_kind (Kind ref)" "followed_kind (Kind ref)" "scope_read R initial ref = Inl e"
        | deps where "\<not> listed_kind (Kind ref)" "followed_kind (Kind ref)" "scope_read R initial ref = Inr deps"
        by (cases "scope_read R initial ref") auto
      then show ?thesis
      proof cases
        case 1
        then have "\<not> followed_kind (Kind ref)" "public_ref ref"
          using fresh(2) by (auto simp: listed_kind_def followed_kind_def public_ref_def)
        then have "scope_ok R initial p queue (scope_key ref # seen) (out @ [ref])" using add by simp
        from IH(2) [OF new refl bound 1 this] show ?thesis unfolding scope_loop_new(2) [OF new room 1] .
      next
        case other: 2
        then have "scope_ok R initial p queue (scope_key ref # seen) out" using add by (simp add: public_ref_def)
        from IH(3) [OF new refl bound other(1) _ this] other show ?thesis unfolding scope_loop_new(3) [OF new room other] by simp
      next
        case (3 e)
        with scope scope_loop_new(4) [OF new room] show ?thesis by blast
      next
        case (4 deps)
        then have "scope_ok R initial p (queue @ deps) (scope_key ref # seen) (out @ [ref])"
          using add fresh(2) by (simp add: public_ref_def)
        from IH(4) [OF new refl bound 4(1) _ 4(3) this] 4 show ?thesis unfolding scope_loop_new(5) [OF new room 4] by simp
      qed
    qed
  qed
qed

lemma scope_ok_start: "scope_ok R initial p (scope_seeds p initial) [] []"
  by (simp add: scope_ok_def scope_covered_def seed)

section \<open>What the scope promises\<close>

text \<open>C18: The read scope of a control worker is found whatever the dependencies look like, cycles included.
  The search always ends: with the scope, with the error of a failed read, or, when the seeds lead to more than one thousand
  distinct keys, with the error of the bound. A scope lists at most one thousand references, each key
  once, never a Secret, only references the seeds lead to, and, as kinds have no slash, every public reference the seeds
  or a listed reference name is listed under its key.\<close>

theorem public_scope_found:
  "(\<exists>ref e. in_scope R initial p ref \<and> scope_read R initial ref = Inl e \<and> publicReadScope R p initial = Inl e)
   \<or> (publicReadScope R p initial = Inl ''public control scope exceeds supported bound''
      \<and> (\<exists>keys. distinct keys \<and> length keys = 1001 \<and> set keys \<subseteq> scope_key ` Collect (in_scope R initial p)))
   \<or> (\<exists>out. publicReadScope R p initial = Inr out \<and> length out \<le> 1000 \<and> distinct (map scope_key out)
      \<and> (\<forall>ref \<in> set out. Kind ref \<noteq> ''Secret'' \<and> public_ref ref \<and> in_scope R initial p ref)
      \<and> ((\<forall>ref. in_scope R initial p ref \<longrightarrow> CHR ''/'' \<notin> set (Kind ref)) \<longrightarrow>
           (\<forall>d. public_ref d \<and> (d \<in> set (scope_seeds p initial)
               \<or> (\<exists>ref \<in> set out. \<exists>deps. followed_kind (Kind ref) \<and> scope_read R initial ref = Inr deps \<and> d \<in> set deps))
             \<longrightarrow> scope_key d \<in> scope_key ` set out)))"
  (is "?failed \<or> ?bound \<or> ?found")
proof -
  consider ?failed | ?bound
    | seen out where "publicReadScope R p initial = Inr out" "scope_ok R initial p [] seen out"
    using scope_loop_result [OF scope_ok_start [of R initial p]] unfolding publicReadScope_def by blast
  then show ?thesis
  proof cases
    case (3 seen out)
    have listed: "scope_key d \<in> scope_key ` set out"
      if slash: "\<forall>ref. in_scope R initial p ref \<longrightarrow> CHR ''/'' \<notin> set (Kind ref)" and d: "public_ref d" "scope_key d \<in> set seen" for d
    proof -
      from 3(2) d(2) have "\<exists>r. in_scope R initial p r \<and> scope_key r = scope_key d \<and> (public_ref r \<longrightarrow> r \<in> set out)"
        by (simp add: scope_ok_def)
      then obtain r where r: "in_scope R initial p r" "scope_key r = scope_key d" "public_ref r \<longrightarrow> r \<in> set out" by (elim exE conjE)
      have "CHR ''/'' \<notin> set (Kind d)" using d(1) by (auto simp: public_ref_def listed_kind_def followed_kind_def)
      with scope_key_kind [OF r(2)] r(1) slash have "Kind r = Kind d \<and> Name r = Name d" by simp
      with d(1) r(2,3) show ?thesis by (auto simp: public_ref_def intro!: image_eqI [of _ _ r])
    qed
    have "length out \<le> 1000" "distinct (map scope_key out)"
      "\<forall>ref \<in> set out. Kind ref \<noteq> ''Secret'' \<and> public_ref ref \<and> in_scope R initial p ref"
      using 3(2) public_not_secret by (auto simp: scope_ok_def)
    moreover have "scope_key d \<in> set seen"
      if "public_ref d" "d \<in> set (scope_seeds p initial)
        \<or> (\<exists>ref \<in> set out. \<exists>deps. followed_kind (Kind ref) \<and> scope_read R initial ref = Inr deps \<and> d \<in> set deps)" for d
      using that 3(2) unfolding scope_ok_def scope_covered_def by auto
    ultimately have ?found using 3(1) listed by (intro exI [of _ out]) simp
    then show ?thesis by blast
  qed blast+
qed

text \<open>A node and its wallet that name each other, and a Secret.\<close>

definition sample_scope_wallet :: Binding where
  "sample_scope_wallet = bind ''BitcoinWallet'' ''miner'' ''w''"

definition sample_scope_node :: SourcedParticipant where
  "sample_scope_node =
     \<lparr>bp_Name = ''node'', bp_UID = ''n'', bp_Owner = ''net'', bp_Deleted = False, bp_Generation = 1, bp_NetworkUID = ''net'',
      bp_ParticipantName = ''node'', bp_Kind = ''BitcoinNode'', bp_Suspended = False, bp_Paused = False,
      bp_Admission = Some \<lparr>adm_PolicyDigest = ''d'', adm_ConfigurationDigest = ''d'',
        adm_Dependencies = [sample_scope_wallet, bind ''Secret'' ''rpc'' ''s''], adm_BitcoinNode = None,
        adm_BitcoinBlockProduction = None\<rparr>,
      bp_AdmissionDigest = ''ad'', bp_Runtime = None, bp_WorkloadReady = None, bp_ConfigVerified = None,
      bp_Execution = None, bp_Scheduling = None, bp_SourceName = ''definition'', bp_SourceUID = ''u''\<rparr>"

definition sample_scope_reads :: scope_reads where
  "sample_scope_reads =
     \<lparr>sr_participant = (\<lambda>n. if n = ''node'' then Got sample_scope_node else NotFound),
      sr_wallet = (\<lambda>n. if n = ''miner''
        then Got \<lparr>do_UID = ''w'', do_Dependencies = [bind ''StacksNetworkParticipant'' ''node'' ''n'', bind ''Secret'' ''seed'' ''k'']\<rparr>
        else NotFound),
      sr_account = (\<lambda>_. NotFound)\<rparr>"

abbreviation sample_scope_participant :: BitcoinParticipant where
  "sample_scope_participant \<equiv> BitcoinParticipant.truncate sample_scope_node"

lemma sample_scope_result:
  "publicReadScope sample_scope_reads sample_scope_participant sample_initialization
     = Inr [bind ''BitcoinWallet'' ''payout'' ''payout'', bind ''StacksNetworkParticipant'' ''node'' ''n'', bind ''StacksNetworkParticipant'' ''producer'' ''p'',
            bind ''BitcoinNode'' ''definition'' ''u'', sample_scope_wallet]"
  by code_simp

lemma sample_scope_kinds:
  "in_scope sample_scope_reads sample_initialization sample_scope_participant ref \<Longrightarrow> CHR ''/'' \<notin> set (Kind ref)"
proof (induction rule: in_scope.induct)
  case (seed ref)
  then show ?case
    by (auto simp: scope_seeds_def sample_initialization_def sample_wallet_def bind_def participant_ref_def productionBinding_def)
next
  case (dependency ref deps d)
  have wallet: "sr_wallet sample_scope_reads n = Got w \<Longrightarrow> x \<in> set (do_Dependencies w) \<Longrightarrow> CHR ''/'' \<notin> set (Kind x)" for n w x
    by (auto simp: sample_scope_reads_def bind_def split: if_splits)
  have participant: "sr_participant sample_scope_reads n = Got q \<Longrightarrow> x \<in> set (participant_dependencies sample_initialization q)
      \<Longrightarrow> CHR ''/'' \<notin> set (Kind x)" for n q x
    by (auto simp: sample_scope_reads_def participant_dependencies_def sample_scope_node_def sample_scope_wallet_def bind_def
          split: if_splits)
  have account: "sr_account sample_scope_reads n = NotFound" for n by (simp add: sample_scope_reads_def)
  from dependency(3,4) show ?case
    by (auto simp: scope_read_def followed_def account dest: wallet participant split: if_splits get.splits)
qed

theorem public_scope_found_witness:
  "\<exists>out. publicReadScope sample_scope_reads sample_scope_participant sample_initialization = Inr out
     \<and> distinct (map scope_key out) \<and> (\<forall>ref \<in> set out. Kind ref \<noteq> ''Secret'')
     \<and> scope_key sample_scope_wallet \<in> scope_key ` set out"
proof -
  let ?node = "bind ''StacksNetworkParticipant'' ''node'' ''n''"
  obtain out where out: "publicReadScope sample_scope_reads sample_scope_participant sample_initialization = Inr out" "?node \<in> set out"
    using sample_scope_result by simp
  from public_scope_found [where R = sample_scope_reads and p = sample_scope_participant and initial = sample_initialization]
  have "distinct (map scope_key out)" "\<forall>ref \<in> set out. Kind ref \<noteq> ''Secret''"
    and all: "\<And>d ref deps. public_ref d \<Longrightarrow> ref \<in> set out \<Longrightarrow> followed_kind (Kind ref)
      \<Longrightarrow> scope_read sample_scope_reads sample_initialization ref = Inr deps \<Longrightarrow> d \<in> set deps \<Longrightarrow> scope_key d \<in> scope_key ` set out"
    using sample_scope_kinds unfolding out(1) by (simp_all, blast)
  moreover have "scope_key sample_scope_wallet \<in> scope_key ` set out"
  proof (rule all [OF _ out(2)])
    show "scope_read sample_scope_reads sample_initialization ?node
        = Inr [bind ''BitcoinNode'' ''definition'' ''u'', sample_scope_wallet, bind ''Secret'' ''rpc'' ''s'']" by code_simp
  qed (simp_all add: public_ref_def followed_kind_def sample_scope_wallet_def bind_def)
  ultimately show ?thesis using out(1) by blast
qed

end
