(* ===== verification/Control_Lifecycle.thy ===== *)
theory Control_Lifecycle
  imports Bitcoin_Gates Runs Naming "HOL-Library.AList"
begin

text \<open>
  Model of \<open>control_lifecycle.go\<close> and \<open>drain.go\<close> of \<open>operators/network/internal/bitcoincontrol\<close>: how the exit of the
  control processes of a Bitcoin node is observed and retained, when the objects that carry the evidence are released, and
  when an actor may stop. Every list and every object is read once in a reconciliation; the order in which the code visits
  the Pods of a map is a function of the reads.
\<close>

section \<open>Objects\<close>

text \<open>A container status with the reasons of its terminated and waiting states.\<close>

record ContainerStatus =
  cs_Name :: string
  cs_Terminated :: "string option"
  cs_Waiting :: "string option"

record ControlPod =
  pd_Name :: string
  pd_UID :: string
  pd_Owner :: "OwnerReference option"
  pd_Finalizers :: "string list"
  pd_Deleted :: bool
  pd_NodeName :: string
  pd_Phase :: string
  pd_Reason :: string
  pd_Conditions :: "(string \<times> string) list"
  pd_Containers :: "string list"
  pd_InitContainers :: "string list"
  pd_EphemeralContainers :: "string list"
  pd_ContainerStatuses :: "ContainerStatus list"
  pd_InitContainerStatuses :: "ContainerStatus list"
  pd_EphemeralContainerStatuses :: "ContainerStatus list"

record ReplicaSet =
  rs_UID :: string
  rs_Owner :: "OwnerReference option"
  rs_Replicas :: "int option"
  rs_Generation :: int
  rs_ObservedGeneration :: int
  rs_StatusReplicas :: int

record Deployment =
  dep_Name :: string
  dep_UID :: string
  dep_Owner :: "OwnerReference option"
  dep_Replicas :: "int option"
  dep_Generation :: int
  dep_ObservedGeneration :: int
  dep_StatusReplicas :: int

record BitcoinControlPodStatus =
  cps_UID :: string
  cps_Pod :: Binding
  cps_ReplicaSet :: Binding
  cps_Deployment :: Binding
  cps_Terminated :: bool

record BitcoinControlRuntimeStatus =
  ctl_ObservedGeneration :: int
  ctl_NetworkGeneration :: int
  ctl_DeploymentRef :: "Binding option"
  ctl_Pods :: "BitcoinControlPodStatus list"
  ctl_Terminated :: bool
  ctl_Reason :: string

record ControlParticipant = BitcoinParticipant +
  bp_Finalizers :: "string list"
  bp_BitcoinControl :: "BitcoinControlRuntimeStatus option"

abbreviation ControlPodFinalizer :: string where
  "ControlPodFinalizer \<equiv> ''network.stacks.org/bitcoin-control-termination''"

abbreviation ControlParticipantFinalizer :: string where
  "ControlParticipantFinalizer \<equiv> ''network.stacks.org/bitcoin-control''"

abbreviation controlPodLimit :: nat where "controlPodLimit \<equiv> 128"

section \<open>Exit evidence\<close>

definition status_unknown :: "ContainerStatus \<Rightarrow> bool" where
  "status_unknown s \<longleftrightarrow> cs_Terminated s = Some ''ContainerStatusUnknown'' \<or> cs_Waiting s = Some ''ContainerStatusUnknown''"

definition controlPodUnknown :: "ControlPod \<Rightarrow> bool" where
  "controlPodUnknown pod \<longleftrightarrow>
     pd_Phase pod = ''Unknown'' \<or> pd_Reason pod = ''NodeLost''
     \<or> (''Ready'', ''Unknown'') \<in> set (pd_Conditions pod)
     \<or> list_ex status_unknown
         (pd_ContainerStatuses pod @ pd_InitContainerStatuses pod @ pd_EphemeralContainerStatuses pod)"

definition replicaQuiesced :: "ReplicaSet \<Rightarrow> bool" where
  "replicaQuiesced r \<longleftrightarrow>
     (case rs_Replicas r of Some n \<Rightarrow> n | None \<Rightarrow> 1) = 0 \<and> rs_ObservedGeneration r \<ge> rs_Generation r \<and> rs_StatusReplicas r = 0"

definition controllerMatches :: "OwnerReference option \<Rightarrow> string \<Rightarrow> string \<Rightarrow> string \<Rightarrow> bool" where
  "controllerMatches owner kind name uid \<longleftrightarrow>
     (case owner of
        None \<Rightarrow> False
      | Some ref \<Rightarrow> own_APIVersion ref = ''apps/v1'' \<and> own_Kind ref = kind \<and> own_Name ref = name \<and> own_UID ref = uid)"

text \<open>The first status with the name of a declared container confirms its exit.\<close>

definition confirmed_exit :: "ContainerStatus list \<Rightarrow> string \<Rightarrow> bool" where
  "confirmed_exit statuses name \<longleftrightarrow>
     (case find (\<lambda>s. cs_Name s = name) statuses of
        None \<Rightarrow> False
      | Some s \<Rightarrow> (case cs_Terminated s of None \<Rightarrow> False | Some reason \<Rightarrow> reason \<noteq> ''ContainerStatusUnknown''))"

definition controlPodTerminated :: "ControlPod \<Rightarrow> bool" where
  "controlPodTerminated pod \<longleftrightarrow>
     pd_Deleted pod \<and> pd_NodeName pod = [] \<and> pd_ContainerStatuses pod = [] \<and> pd_InitContainerStatuses pod = []
       \<and> pd_EphemeralContainerStatuses pod = []
     \<or> (pd_Phase pod = ''Succeeded'' \<or> pd_Phase pod = ''Failed'') \<and> pd_Containers pod \<noteq> []
       \<and> list_all (confirmed_exit (pd_ContainerStatuses pod)) (pd_Containers pod)
       \<and> list_all (confirmed_exit (pd_InitContainerStatuses pod)) (pd_InitContainers pod)
       \<and> list_all (confirmed_exit (pd_EphemeralContainerStatuses pod)) (pd_EphemeralContainers pod)"

definition exit_confirmed :: "ControlPod \<Rightarrow> bool" where
  "exit_confirmed pod \<longleftrightarrow> \<not> controlPodUnknown pod \<and> controlPodTerminated pod"

section \<open>Terminal control (drain.go)\<close>

definition stopReason :: "BitcoinNetwork \<Rightarrow> 'a BitcoinParticipant_scheme option \<Rightarrow> string" where
  "stopReason root p =
     (if bitcoin_failed root then ''NetworkFailed''
      else if net_Deleted root then ''NetworkDeleting''
      else if net_Operation root = ''Stopped'' then ''NetworkStopped''
      else case p of
        None \<Rightarrow> ''ParticipantRemoved''
      | Some p \<Rightarrow>
          if list_ex (\<lambda>i. ii_Name i = bp_ParticipantName p \<and> (ii_UID i \<noteq> bp_UID p \<or> ii_Removing i)) (net_Identities root)
             \<or> bp_Deleted p
          then ''ParticipantRemoved''
          else if list_ex (\<lambda>e. entry_Name e = bp_ParticipantName p \<and> entry_Kind e = bp_Kind p) (net_Participants root)
          then [] else ''ParticipantRemoved'')"

definition terminalDrainAcknowledged :: "BitcoinExecution \<Rightarrow> BitcoinNetwork \<Rightarrow> bool" where
  "terminalDrainAcknowledged record' root \<longleftrightarrow>
     (case Drain record' of
        None \<Rightarrow> False
      | Some d \<Rightarrow>
          dr_ProcessNonce d \<noteq> [] \<and> \<not> dr_NetworkGeneration d > net_Generation root
          \<and> dr_Reason d \<in> {''ParticipantRemoved'', ''NetworkStopped'', ''NetworkDeleting'', ''NetworkFailed''}
          \<and> (dr_Outcome d = ''Drained'' \<or> dr_Outcome d = ''Uncertain''))"

definition controlDeploymentName :: "'a BitcoinParticipant_scheme \<Rightarrow> string" where
  "controlDeploymentName p = RuntimeName (bp_NetworkUID p) (bp_UID p) ''BitcoinNode'' (bp_ParticipantName p) ''control''"

text \<open>The reads of the drain check. The participant is read again only while the network is deleted.\<close>

record drain_reads =
  ds_network :: "BitcoinNetwork get"
  ds_participant :: "ControlParticipant get"
  ds_execution :: "string \<Rightarrow> BitcoinExecution get"
  ds_deployment :: "string \<Rightarrow> Deployment get"

definition neverActivated :: "drain_reads \<Rightarrow> ControlParticipant \<Rightarrow> bool result" where
  "neverActivated R p =
     (if (case bp_BitcoinControl p of Some c \<Rightarrow> ctl_DeploymentRef c \<noteq> None \<or> ctl_Pods c \<noteq> [] | None \<Rightarrow> False) then Inr False
      else case ds_deployment R (controlDeploymentName p) of
        NotFound \<Rightarrow> Inr True | GetFailed e \<Rightarrow> Inl e | Got _ \<Rightarrow> Inr False)"

fun drained_record :: "drain_reads \<Rightarrow> BitcoinNetwork \<Rightarrow> ControlParticipant \<Rightarrow> Binding list \<Rightarrow> bool result" where
  "drained_record R root p [] = neverActivated R p"
| "drained_record R root p (ref # refs) =
     rbind (fetched (ds_execution R (Name ref))) (\<lambda>record'.
       if exec_UID record' \<noteq> UID ref then Inl ''execution record replaced''
       else if UID (exec_Participant record') \<noteq> bp_UID p then drained_record R root p refs
       else if Armed record' = None \<and> Observation record' = None \<and> LastReceipt record' = None then Inr True
       else if \<not> terminalDrainAcknowledged record' root then Inr False
       else Inr (case Drain record' of
         None \<Rightarrow> False
       | Some d \<Rightarrow> dr_Outcome d = ''Uncertain'' \<or> dr_Outcome d = ''Drained'' \<and> Armed record' = None))"

text \<open>Confirmed exit of the control process of a deleted network.\<close>

definition destroyed_control :: "drain_reads \<Rightarrow> BitcoinNetwork \<Rightarrow> ControlParticipant \<Rightarrow> bool result" where
  "destroyed_control R root p =
     (if net_Deleted root \<and> bp_Owner p = net_UID root
      then rbind (fetched (ds_participant R)) (\<lambda>current.
        Inr (bp_UID current = bp_UID p \<and> bp_NetworkUID current = net_UID root \<and> bp_Owner current = net_UID root
             \<and> (case bp_BitcoinControl current of
                  None \<Rightarrow> False
                | Some control \<Rightarrow>
                    ctl_Terminated control \<and> ctl_ObservedGeneration control = bp_Generation current
                    \<and> ctl_NetworkGeneration control = net_Generation root)))
      else Inr False)"

definition CheckDrained :: "drain_reads \<Rightarrow> ControlParticipant \<Rightarrow> bool result" where
  "CheckDrained R p =
     rbind (fetched (ds_network R)) (\<lambda>root.
       if net_UID root \<noteq> bp_NetworkUID p then Inl ''owning network identity unavailable''
       else if stopReason root (Some p) = [] then Inr False
       else rbind (destroyed_control R root p) (\<lambda>gone.
         if gone then Inr True
         else case bn_Bitcoin root of
           None \<Rightarrow> neverActivated R p
         | Some b \<Rightarrow> drained_record R root p (bs_ExecutionRefs b)))"

text \<open>\<open>stop\<close> of a worker: the terminal acknowledgement it writes, with whether the worker still has a call under way.
  \<open>active\<close> and \<open>current\<close> are read after the bounded drain.\<close>

definition stopped_action :: "string \<Rightarrow> bool \<Rightarrow> BitcoinActionReservation \<Rightarrow> BitcoinActionReservation" where
  "stopped_action reason outstanding action =
     action\<lparr>act_StopReason := (if act_StopReason action = [] then reason else act_StopReason action),
            act_EffectUncertain := (outstanding \<or> act_EffectUncertain action),
            CleanupUnsafe := (act_Reorganization action \<noteq> None \<and> InvalidationAcknowledged action \<and> \<not> CleanupAcknowledged action
                              \<or> CleanupUnsafe action)\<rparr>"

definition stop_record ::
  "string \<Rightarrow> string \<Rightarrow> int \<Rightarrow> time \<Rightarrow> time \<Rightarrow> bool \<Rightarrow> BitcoinExecution \<Rightarrow> BitcoinExecution" where
  "stop_record nonce reason generation started completed active current =
     (let outstanding = (Armed current \<noteq> None \<or> active);
          uncertain = (outstanding \<or> ActionState current \<noteq> None)
      in current\<lparr>ActionState := map_option (stopped_action reason outstanding) (ActionState current),
                 Phase := (if outstanding then PhaseBlocked else Phase current),
                 Drain := Some \<lparr>dr_ProcessNonce = nonce, dr_NetworkGeneration = generation, dr_Reason = reason,
                                dr_RequestedAt = started, dr_CompletedAt = completed,
                                dr_Outcome = (if uncertain then ''Uncertain'' else ''Drained'')\<rparr>\<rparr>)"

record stop_reads =
  st_network :: "BitcoinNetwork get"
  st_participant :: "BitcoinParticipant get"
  st_started :: time
  st_active :: bool
  st_current :: "BitcoinExecution get"
  st_completed :: time
  st_update :: "unit result"

text \<open>The record written, if any, and whether the worker is stopped.\<close>

definition worker_stop :: "string \<Rightarrow> stop_reads \<Rightarrow> BitcoinExecution \<Rightarrow> BitcoinExecution option \<times> bool result" where
  "worker_stop nonce R record' =
     (case fetched (st_network R) of
        Inl e \<Rightarrow> (None, Inl e)
      | Inr root \<Rightarrow>
          if net_UID root \<noteq> exec_NetworkUID record' then (None, Inl ''owning network replaced'')
          else case st_participant R of
            GetFailed e \<Rightarrow> (None, Inl e)
          | got \<Rightarrow>
              let reason = stopReason root (case got of Got p \<Rightarrow> Some p | _ \<Rightarrow> None) in
              if reason = [] then (None, Inr False)
              else if terminalDrainAcknowledged record' root then (None, Inr True)
              else case fetched (st_current R) of
                Inl e \<Rightarrow> (None, Inl e)
              | Inr current \<Rightarrow>
                  if exec_UID current \<noteq> exec_UID record' then (None, Inl ''execution record replaced during drain'')
                  else (Some (stop_record nonce reason (net_Generation root) (st_started R) (st_completed R) (st_active R) current),
                        rbind (st_update R) (\<lambda>_. Inr True)))"

text \<open>\<open>acknowledgePause\<close>: the acknowledgement written, if any, and whether the network is paused. The clock is
  read up to four times.\<close>

definition acknowledgePause ::
  "string \<Rightarrow> (nat \<Rightarrow> time) \<Rightarrow> bool \<Rightarrow> BitcoinNetwork get \<Rightarrow> unit result \<Rightarrow> BitcoinExecution \<Rightarrow> BitcoinExecution option \<times> bool result" where
  "acknowledgePause nonce clock active network update record' =
     (case fetched network of
        Inl e \<Rightarrow> (None, Inl e)
      | Inr root \<Rightarrow>
          if net_UID root \<noteq> exec_NetworkUID record' then (None, Inl ''owning network replaced'')
          else if net_Operation root \<noteq> ''Paused'' then (None, Inr False)
          else if active \<or> Armed record' \<noteq> None then (None, Inr True)
          else
            let own = (\<lambda>ack. ca_NetworkGeneration ack = net_Generation root \<and> ca_Operation ack = ''Paused''
                             \<and> ca_ProcessNonce ack = nonce);
                fresh = \<lparr>ca_NetworkGeneration = net_Generation root, ca_ProcessNonce = nonce, ca_Operation = ''Paused'',
                         ca_ObservedAt = clock 2, ca_HeartbeatAt = clock 3\<rparr>
            in if (case Control record' of
                     Some ack \<Rightarrow> own ack \<and> \<not> ca_HeartbeatAt ack > clock 0
                       \<and> clock 1 - ca_HeartbeatAt ack < HeartbeatIntervalSeconds observation_policy * second
                   | None \<Rightarrow> False)
               then (None, Inr True)
               else
                 (Some (record'\<lparr>Control := Some (case Control record' of
                    Some ack \<Rightarrow> if own ack then ack\<lparr>ca_HeartbeatAt := clock 3\<rparr> else fresh | None \<Rightarrow> fresh)\<rparr>),
                  rbind update (\<lambda>_. Inr True)))"

section \<open>The lifecycle (control_lifecycle.go)\<close>

record control_reads =
  cr_deployment :: "Deployment get"
  cr_replicas :: "(ReplicaSet list \<times> bool) result"
  cr_pods :: "(ControlPod list \<times> bool) result"
  cr_pod :: "string \<Rightarrow> ControlPod get"
  cr_replica :: "string \<Rightarrow> ReplicaSet get"
  cr_order :: "string list \<Rightarrow> string list"
  cr_finalizer :: "unit result"
  cr_apply :: "unit result"
  cr_release :: "string \<Rightarrow> unit result"
  cr_remove :: "unit result"

datatype control_write =
    AddParticipantFinalizer
  | WriteControlStatus BitcoinControlRuntimeStatus
  | ReleasePod ControlPod
  | RemoveParticipantFinalizer

text \<open>An early end of the observation: the reason shown and the error.\<close>

type_synonym control_stop = "string \<times> string"

definition conflict :: "string \<Rightarrow> control_stop" where
  "conflict e = (''OwnershipConflict'', e)"

definition unknown_exit :: "string \<Rightarrow> control_stop" where
  "unknown_exit e = (''TerminationUnknown'', e)"

definition known_deployments :: "BitcoinControlRuntimeStatus \<Rightarrow> string \<rightharpoonup> Binding" where
  "known_deployments state =
     map_of (rev (map (\<lambda>b. (UID b, b)) ((case ctl_DeploymentRef state of Some b \<Rightarrow> [b] | None \<Rightarrow> []) @ map cps_Deployment (ctl_Pods state))))"

fun check_replicas :: "(string \<rightharpoonup> Binding) \<Rightarrow> ReplicaSet list \<Rightarrow> bool \<Rightarrow> control_stop + bool" where
  "check_replicas deployments [] quiesced = Inr quiesced"
| "check_replicas deployments (r # rs) quiesced =
     (case rs_Owner r of
        None \<Rightarrow> Inl (conflict ''control ReplicaSet owner unavailable'')
      | Some parent \<Rightarrow>
          (case deployments (own_UID parent) of
             None \<Rightarrow> Inl (conflict ''control ReplicaSet identity unavailable'')
           | Some ref \<Rightarrow>
               if \<not> controllerMatches (rs_Owner r) ''Deployment'' (Name ref) (UID ref)
               then Inl (conflict ''control ReplicaSet identity unavailable'')
               else check_replicas deployments rs (quiesced \<and> replicaQuiesced r)))"

text \<open>The Pods by UID, in the order of their first appearance, and whether an unresolved one is missing.\<close>

fun find_known ::
  "control_reads \<Rightarrow> BitcoinControlPodStatus list \<Rightarrow> (string \<times> ControlPod) list \<Rightarrow> bool
     \<Rightarrow> control_stop + (string \<times> ControlPod) list \<times> bool" where
  "find_known R [] pods missing = Inr (pods, missing)"
| "find_known R (known # rest) pods missing =
     (if map_of pods (cps_UID known) \<noteq> None then find_known R rest pods missing
      else case cr_pod R (Name (cps_Pod known)) of
        GetFailed e \<Rightarrow> Inl (unknown_exit e)
      | NotFound \<Rightarrow> find_known R rest pods (missing \<or> \<not> cps_Terminated known)
      | Got pod \<Rightarrow>
          if pd_UID pod = cps_UID known then find_known R rest (AList.update (cps_UID known) pod pods) missing
          else find_known R rest pods (missing \<or> \<not> cps_Terminated known))"

record pod_scan =
  ps_observed :: "BitcoinControlPodStatus list"
  ps_release :: "ControlPod list"
  ps_terminated :: bool
  ps_unknown :: bool
  ps_quiesced :: bool

text \<open>The Deployment a Pod belongs to, with whether its ReplicaSet rests.\<close>

definition pod_deployment ::
  "control_reads \<Rightarrow> (string \<rightharpoonup> Binding) \<Rightarrow> BitcoinControlPodStatus option \<Rightarrow> ControlPod \<Rightarrow> OwnerReference
     \<Rightarrow> control_stop + Binding \<times> bool" where
  "pod_deployment R deployments known pod owner =
     (case cr_replica R (own_Name owner) of
        GetFailed e \<Rightarrow> Inl (unknown_exit e)
      | NotFound \<Rightarrow>
          (case known of
             Some k \<Rightarrow> if controlPodTerminated pod then Inr (cps_Deployment k, True) else Inl (unknown_exit ''not found'')
           | None \<Rightarrow> Inl (unknown_exit ''not found''))
      | Got replica \<Rightarrow>
          (case rs_Owner replica of
             None \<Rightarrow> Inl (conflict ''control ReplicaSet owner unavailable'')
           | Some parent \<Rightarrow>
               (case deployments (own_UID parent) of
                  None \<Rightarrow> Inl (conflict ''control ReplicaSet Deployment identity differs'')
                | Some ref \<Rightarrow>
                    if rs_UID replica \<noteq> own_UID owner
                       \<or> \<not> controllerMatches (rs_Owner replica) ''Deployment'' (Name ref) (UID ref)
                       \<or> (case known of Some k \<Rightarrow> ref \<noteq> cps_Deployment k | None \<Rightarrow> False)
                    then Inl (conflict ''control ReplicaSet Deployment identity differs'')
                    else Inr (ref, replicaQuiesced replica))))"

definition pod_status :: "string \<Rightarrow> ControlPod \<Rightarrow> OwnerReference \<Rightarrow> Binding \<Rightarrow> BitcoinControlPodStatus" where
  "pod_status uid pod owner deployment =
     \<lparr>cps_UID = uid,
      cps_Pod = \<lparr>Kind = ''Pod'', Name = pd_Name pod, UID = pd_UID pod, Fingerprint = []\<rparr>,
      cps_ReplicaSet = \<lparr>Kind = ''ReplicaSet'', Name = own_Name owner, UID = own_UID owner, Fingerprint = []\<rparr>,
      cps_Deployment = deployment, cps_Terminated = exit_confirmed pod\<rparr>"

definition scan_pod :: "string \<Rightarrow> ControlPod \<Rightarrow> OwnerReference \<Rightarrow> Binding \<Rightarrow> bool \<Rightarrow> pod_scan \<Rightarrow> pod_scan" where
  "scan_pod uid pod owner deployment quiesced ps =
     \<lparr>ps_observed = ps_observed ps @ [pod_status uid pod owner deployment],
      ps_release = (if exit_confirmed pod \<and> ControlPodFinalizer \<in> set (pd_Finalizers pod)
                    then ps_release ps @ [pod] else ps_release ps),
      ps_terminated = (ps_terminated ps \<and> exit_confirmed pod),
      ps_unknown = (ps_unknown ps \<or> controlPodUnknown pod),
      ps_quiesced = (ps_quiesced ps \<and> quiesced)\<rparr>"

definition observe_pod ::
  "control_reads \<Rightarrow> (string \<rightharpoonup> Binding) \<Rightarrow> BitcoinControlPodStatus option \<Rightarrow> string \<Rightarrow> ControlPod \<Rightarrow> pod_scan
     \<Rightarrow> control_stop + pod_scan" where
  "observe_pod R deployments known uid pod ps =
     (case pd_Owner pod of
        None \<Rightarrow> Inl (conflict ''control Pod ReplicaSet identity unavailable'')
      | Some owner \<Rightarrow>
          if own_APIVersion owner \<noteq> ''apps/v1'' \<or> own_Kind owner \<noteq> ''ReplicaSet''
          then Inl (conflict ''control Pod ReplicaSet identity unavailable'')
          else if (case known of
                     Some k \<Rightarrow> Name (cps_Pod k) \<noteq> pd_Name pod \<or> Name (cps_ReplicaSet k) \<noteq> own_Name owner
                               \<or> UID (cps_ReplicaSet k) \<noteq> own_UID owner
                   | None \<Rightarrow> False)
          then Inl (conflict ''bound control Pod owner differs'')
          else rbind (pod_deployment R deployments known pod owner) (\<lambda>(deployment, quiesced).
            if (case known of Some k \<Rightarrow> cps_Terminated k | None \<Rightarrow> False) \<and> \<not> exit_confirmed pod
            then Inl (unknown_exit ''terminal control Pod evidence regressed'')
            else Inr (scan_pod uid pod owner deployment quiesced ps)))"

fun observe_pods ::
  "control_reads \<Rightarrow> (string \<rightharpoonup> Binding) \<Rightarrow> (string \<rightharpoonup> BitcoinControlPodStatus) \<Rightarrow> (string \<rightharpoonup> ControlPod) \<Rightarrow> string list
     \<Rightarrow> pod_scan \<Rightarrow> control_stop + pod_scan" where
  "observe_pods R deployments previous pods [] ps = Inr ps"
| "observe_pods R deployments previous pods (uid # uids) ps =
     (case pods uid of
        None \<Rightarrow> observe_pods R deployments previous pods uids ps
      | Some pod \<Rightarrow> rbind (observe_pod R deployments (previous uid) uid pod ps) (observe_pods R deployments previous pods uids))"

text \<open>The state a reconciliation starts from.\<close>

definition control_state :: "ControlParticipant \<Rightarrow> BitcoinControlRuntimeStatus" where
  "control_state p =
     (case bp_BitcoinControl p of
        Some state \<Rightarrow> state
      | None \<Rightarrow> \<lparr>ctl_ObservedGeneration = 0, ctl_NetworkGeneration = 0, ctl_DeploymentRef = None, ctl_Pods = [],
                 ctl_Terminated = False, ctl_Reason = []\<rparr>)"

definition control_begin :: "BitcoinNetwork \<Rightarrow> ControlParticipant \<Rightarrow> BitcoinControlRuntimeStatus" where
  "control_begin root p =
     (control_state p)\<lparr>ctl_ObservedGeneration := bp_Generation p, ctl_NetworkGeneration := net_Generation root,
                       ctl_Terminated := False, ctl_Reason := ''TerminationUnknown''\<rparr>"

definition deployment_ref :: "Deployment \<Rightarrow> Binding" where
  "deployment_ref d = \<lparr>Kind = ''Deployment'', Name = dep_Name d, UID = dep_UID d, Fingerprint = []\<rparr>"

definition deployment_quiesced :: "Deployment \<Rightarrow> bool" where
  "deployment_quiesced d \<longleftrightarrow>
     (case dep_Replicas d of Some n \<Rightarrow> n | None \<Rightarrow> 1) = 0 \<and> dep_ObservedGeneration d \<ge> dep_Generation d \<and> dep_StatusReplicas d = 0"

text \<open>The verified Deployment, if there is one, with the state that pins it.\<close>

definition read_deployment ::
  "control_reads \<Rightarrow> ControlParticipant \<Rightarrow> BitcoinControlRuntimeStatus
     \<Rightarrow> control_stop + Deployment option \<times> BitcoinControlRuntimeStatus" where
  "read_deployment R p state =
     (case cr_deployment R of
        GetFailed e \<Rightarrow> Inl (unknown_exit e)
      | NotFound \<Rightarrow> Inr (None, state)
      | Got d \<Rightarrow>
          if \<not> IsControlledBy (dep_Owner d) (bp_UID p) \<or> dep_UID d = [] then Inl (conflict ''control Deployment identity differs'')
          else Inr (Some d, state\<lparr>ctl_DeploymentRef := Some (deployment_ref d)\<rparr>))"

definition bounded_list :: "string \<Rightarrow> ('b list \<times> bool) result \<Rightarrow> control_stop + 'b list" where
  "bounded_list what r =
     (case r of
        Inl e \<Rightarrow> Inl (unknown_exit e)
      | Inr (items, truncated) \<Rightarrow> if truncated \<or> length items > controlPodLimit then Inl (unknown_exit what) else Inr items)"

fun index_pods :: "ControlPod list \<Rightarrow> (string \<times> ControlPod) list \<Rightarrow> (string \<times> ControlPod) list" where
  "index_pods [] pods = pods"
| "index_pods (pod # rest) pods = index_pods rest (AList.update (pd_UID pod) pod pods)"

record pod_inventory =
  inv_pods :: "BitcoinControlPodStatus list"
  inv_release :: "ControlPod list"
  inv_terminated :: bool
  inv_unknown :: bool
  inv_quiesced :: bool
  inv_controllers :: nat

text \<open>Everything read of the control processes, against the identities retained in \<open>retained\<close>.\<close>

definition observe_control ::
  "control_reads \<Rightarrow> (string \<rightharpoonup> Binding) \<Rightarrow> BitcoinControlPodStatus list \<Rightarrow> control_stop + pod_inventory" where
  "observe_control R deployments retained =
     rbind (bounded_list ''control ReplicaSet inventory exceeds bound'' (cr_replicas R)) (\<lambda>replicas.
     rbind (check_replicas deployments replicas True) (\<lambda>quiesced.
     rbind (bounded_list ''control Pod inventory exceeds bound'' (cr_pods R)) (\<lambda>items.
     rbind (find_known R retained (index_pods items []) False) (\<lambda>(pods, missing).
     rbind (observe_pods R deployments (map_of (rev (map (\<lambda>k. (cps_UID k, k)) retained))) (map_of pods)
              (cr_order R (map fst pods))
              \<lparr>ps_observed = [], ps_release = [], ps_terminated = (\<not> missing), ps_unknown = missing, ps_quiesced = quiesced\<rparr>) (\<lambda>ps.
       let observed = ps_observed ps @ filter (\<lambda>k. map_of pods (cps_UID k) = None \<and> \<not> cps_Terminated k) retained in
       if length observed > controlPodLimit then Inl (unknown_exit ''unresolved control process inventory exceeds bound'')
       else Inr \<lparr>inv_pods = sort_key cps_UID observed, inv_release = ps_release ps, inv_terminated = ps_terminated ps,
                 inv_unknown = ps_unknown ps, inv_quiesced = ps_quiesced ps, inv_controllers = length replicas\<rparr>)))))"

text \<open>The state and reason of a complete observation.\<close>

definition control_verdict ::
  "BitcoinNetwork \<Rightarrow> ControlParticipant \<Rightarrow> Deployment option \<Rightarrow> pod_inventory \<Rightarrow> BitcoinControlRuntimeStatus
     \<Rightarrow> BitcoinControlRuntimeStatus \<times> string" where
  "control_verdict root p deployment found state =
     (let absent = (deployment = None);
          destroyed = (net_Deleted root \<and> inv_controllers found = 0);
          quiesced = (case deployment of
            Some d \<Rightarrow> deployment_quiesced d
          | None \<Rightarrow> ctl_DeploymentRef state = None \<or> ctl_Terminated (control_state p) \<or> destroyed);
          terminated = (inv_terminated found \<and> \<not> inv_unknown found \<and> quiesced \<and> inv_quiesced found)
      in (state\<lparr>ctl_Pods := inv_pods found, ctl_Terminated := terminated\<rparr>,
          if inv_unknown found \<or> absent \<and> \<not> quiesced then ''TerminationUnknown''
          else if terminated then ''Terminated''
          else if stopReason root (Some p) \<noteq> []
                  \<or> (case deployment of Some d \<Rightarrow> (case dep_Replicas d of Some n \<Rightarrow> n | None \<Rightarrow> 1) = 0 | None \<Rightarrow> False)
          then ''Stopping'' else ''Running''))"

text \<open>\<open>finish\<close> writes the status if it changed.\<close>

definition control_finish ::
  "control_reads \<Rightarrow> ControlParticipant \<Rightarrow> BitcoinControlRuntimeStatus \<Rightarrow> string \<Rightarrow> string option \<Rightarrow> control_write list \<times> int result" where
  "control_finish R p state reason err =
     (let s = state\<lparr>ctl_Reason := reason\<rparr>;
          done' = (case err of Some e \<Rightarrow> Inl e | None \<Rightarrow> Inr (if ctl_Terminated s then 0 else 5 * second))
      in if bp_BitcoinControl p = Some s then ([], done')
         else ([WriteControlStatus s], rbind (cr_apply R) (\<lambda>_. done')))"

fun release_pods :: "control_reads \<Rightarrow> ControlPod list \<Rightarrow> control_write list \<times> unit result" where
  "release_pods R [] = ([], Inr ())"
| "release_pods R (pod # rest) =
     (case cr_release R (pd_UID pod) of
        Inl e \<Rightarrow> ([ReleasePod pod], Inl e)
      | Inr _ \<Rightarrow> (case release_pods R rest of (ws, r) \<Rightarrow> (ReleasePod pod # ws, r)))"

definition control_release ::
  "control_reads \<Rightarrow> ControlParticipant \<Rightarrow> ControlPod list \<Rightarrow> bool \<Rightarrow> int \<Rightarrow> control_write list \<times> int result" where
  "control_release R p release terminated delay =
     (case release_pods R release of
        (ws, Inl e) \<Rightarrow> (ws, Inl e)
      | (ws, Inr _) \<Rightarrow>
          if terminated \<and> bp_Deleted p \<and> ControlParticipantFinalizer \<in> set (bp_Finalizers p)
          then (ws @ [RemoveParticipantFinalizer], rbind (cr_remove R) (\<lambda>_. Inr delay))
          else (ws, Inr delay))"

text \<open>What follows the finalizer of the participant.\<close>

definition control_observe_and_release ::
  "control_reads \<Rightarrow> BitcoinNetwork \<Rightarrow> ControlParticipant \<Rightarrow> control_write list \<times> int result" where
  "control_observe_and_release R root p =
     (let state = control_begin root p in
      case read_deployment R p state of
        Inl (reason, e) \<Rightarrow> control_finish R p state reason (Some e)
      | Inr (deployment, state1) \<Rightarrow>
          let deployments = (case deployment of
                Some d \<Rightarrow> (known_deployments state)(dep_UID d \<mapsto> deployment_ref d) | None \<Rightarrow> known_deployments state)
          in case observe_control R deployments (ctl_Pods state1) of
               Inl (reason, e) \<Rightarrow> control_finish R p state1 reason (Some e)
             | Inr found \<Rightarrow>
                 (case control_verdict root p deployment found state1 of
                    (state2, reason) \<Rightarrow>
                      (case control_finish R p state2 reason None of
                         (ws, Inl e) \<Rightarrow> (ws, Inl e)
                       | (ws, Inr delay) \<Rightarrow>
                           (case control_release R p (inv_release found) (ctl_Terminated state2) delay of
                              (ws', r) \<Rightarrow> (ws @ ws', r)))))"

definition ReconcileControlLifecycle ::
  "control_reads \<Rightarrow> BitcoinNetwork \<Rightarrow> ControlParticipant \<Rightarrow> control_write list \<times> int result" where
  "ReconcileControlLifecycle R root p =
     (if net_UID root \<noteq> bp_NetworkUID p \<or> bp_Owner p \<noteq> net_UID root
      then ([], Inl ''control participant ownership unavailable'')
      else if \<not> bp_Deleted p \<and> ControlParticipantFinalizer \<notin> set (bp_Finalizers p)
      then (case cr_finalizer R of
              Inl e \<Rightarrow> ([AddParticipantFinalizer], Inl e)
            | Inr _ \<Rightarrow>
                (case control_observe_and_release R root
                        (p\<lparr>bp_Finalizers := bp_Finalizers p @ [ControlParticipantFinalizer]\<rparr>) of
                   (ws, r) \<Rightarrow> (AddParticipantFinalizer # ws, r)))
      else control_observe_and_release R root p)"

section \<open>What an observation establishes\<close>

definition pod_read :: "control_reads \<Rightarrow> ControlPod \<Rightarrow> bool" where
  "pod_read R pod \<longleftrightarrow> (\<exists>items truncated. cr_pods R = Inr (items, truncated) \<and> pod \<in> set items) \<or> (\<exists>n. cr_pod R n = Got pod)"

text \<open>A map is visited in some order of its keys.\<close>

definition visits_all :: "control_reads \<Rightarrow> bool" where
  "visits_all R \<longleftrightarrow> (\<forall>ks. distinct ks \<longrightarrow> set (cr_order R ks) = set ks)"

definition pods_ok :: "control_reads \<Rightarrow> (string \<times> ControlPod) list \<Rightarrow> bool" where
  "pods_ok R pods \<longleftrightarrow> distinct (map fst pods) \<and> (\<forall>u pod. map_of pods u = Some pod \<longrightarrow> pd_UID pod = u \<and> pod_read R pod)"

lemma pods_ok_update: "pods_ok R pods \<Longrightarrow> pod_read R pod \<Longrightarrow> pods_ok R (AList.update (pd_UID pod) pod pods)"
  by (auto simp: pods_ok_def distinct_update update_conv')

lemma index_pods_ok:
  "pods_ok R pods \<Longrightarrow> (\<And>pod. pod \<in> set items \<Longrightarrow> pod_read R pod) \<Longrightarrow> pods_ok R (index_pods items pods)"
  by (induction items pods rule: index_pods.induct) (auto intro: pods_ok_update)

lemma find_known_ok:
  assumes "find_known R retained pods missing = Inr (pods', missing')" "pods_ok R pods"
  shows "pods_ok R pods'" "dom (map_of pods) \<subseteq> dom (map_of pods')" "missing \<longrightarrow> missing'"
    "\<not> missing' \<Longrightarrow> k \<in> set retained \<Longrightarrow> \<not> cps_Terminated k \<Longrightarrow> map_of pods' (cps_UID k) \<noteq> None"
proof -
  have "pods_ok R pods' \<and> dom (map_of pods) \<subseteq> dom (map_of pods') \<and> (missing \<longrightarrow> missing')
      \<and> (\<not> missing' \<longrightarrow> (\<forall>k \<in> set retained. \<not> cps_Terminated k \<longrightarrow> map_of pods' (cps_UID k) \<noteq> None))"
    using assms
  proof (induction R retained pods missing rule: find_known.induct)
    case (2 R known rest pods missing)
    show ?case
    proof (cases "map_of pods (cps_UID known)")
      case (Some pod)
      with 2 have IH: "pods_ok R pods' \<and> dom (map_of pods) \<subseteq> dom (map_of pods') \<and> (missing \<longrightarrow> missing')
          \<and> (\<not> missing' \<longrightarrow> (\<forall>k \<in> set rest. \<not> cps_Terminated k \<longrightarrow> map_of pods' (cps_UID k) \<noteq> None))" by auto
      moreover have "map_of pods' (cps_UID known) \<noteq> None" using IH Some by blast
      ultimately show ?thesis by simp
    next
      case None
      show ?thesis
      proof (cases "\<exists>pod. cr_pod R (Name (cps_Pod known)) = Got pod \<and> pd_UID pod = cps_UID known")
        case True
        then obtain pod where pod: "cr_pod R (Name (cps_Pod known)) = Got pod" "pd_UID pod = cps_UID known" by blast
        then have ok: "pods_ok R (AList.update (cps_UID known) pod pods)"
          using pods_ok_update [OF "2.prems"(2), of pod] by (auto simp: pod_read_def)
        with 2 None pod have IH: "pods_ok R pods' \<and> dom (map_of (AList.update (cps_UID known) pod pods)) \<subseteq> dom (map_of pods')
            \<and> (missing \<longrightarrow> missing')
            \<and> (\<not> missing' \<longrightarrow> (\<forall>k \<in> set rest. \<not> cps_Terminated k \<longrightarrow> map_of pods' (cps_UID k) \<noteq> None))" by simp
        moreover have "map_of pods' (cps_UID known) \<noteq> None" using IH by (auto simp: update_conv')
        ultimately show ?thesis by (auto simp: update_conv')
      next
        case False
        with 2 None show ?thesis by (auto split: get.splits)
      qed
    qed
  qed auto
  then show "pods_ok R pods'" "dom (map_of pods) \<subseteq> dom (map_of pods')" "missing \<longrightarrow> missing'"
    "\<not> missing' \<Longrightarrow> k \<in> set retained \<Longrightarrow> \<not> cps_Terminated k \<Longrightarrow> map_of pods' (cps_UID k) \<noteq> None"
    by auto
qed

text \<open>What the scan has recorded, after the UIDs in \<open>done\<close>.\<close>

definition scan_ok :: "control_reads \<Rightarrow> (string \<rightharpoonup> ControlPod) \<Rightarrow> bool \<Rightarrow> string set \<Rightarrow> pod_scan \<Rightarrow> bool" where
  "scan_ok R pods missing visited ps \<longleftrightarrow>
     cps_UID ` set (ps_observed ps) = visited \<inter> dom pods
     \<and> (\<forall>k \<in> set (ps_observed ps). cps_Terminated k \<longrightarrow> (\<exists>pod. pods (cps_UID k) = Some pod \<and> exit_confirmed pod))
     \<and> (ps_terminated ps \<longrightarrow> \<not> missing \<and> (\<forall>k \<in> set (ps_observed ps). cps_Terminated k))
     \<and> (\<forall>pod \<in> set (ps_release ps). exit_confirmed pod \<and> (\<exists>k \<in> set (ps_observed ps). cps_Terminated k \<and> pods (cps_UID k) = Some pod))"

lemma observe_pod_scan:
  assumes "observe_pod R deployments known uid pod ps = Inr ps'" "scan_ok R pods missing visited ps" "pods uid = Some pod"
  shows "scan_ok R pods missing (insert uid visited) ps'"
proof -
  obtain owner deployment quiesced where "ps' = scan_pod uid pod owner deployment quiesced ps"
    using assms(1) by (auto simp: observe_pod_def result_simps split: option.splits if_splits prod.splits)
  with assms(2,3) show ?thesis by (auto simp: scan_ok_def scan_pod_def pod_status_def)
qed

lemma observe_pods_scan:
  assumes "observe_pods R deployments previous pods uids ps = Inr ps'" "scan_ok R pods missing visited ps"
  shows "scan_ok R pods missing (visited \<union> set uids) ps'"
  using assms
proof (induction uids arbitrary: ps visited)
  case (Cons uid uids)
  show ?case
  proof (cases "pods uid")
    case None
    with Cons.prems have "scan_ok R pods missing (insert uid visited) ps" by (auto simp: scan_ok_def)
    with Cons None show ?thesis by fastforce
  next
    case (Some pod)
    with Cons.prems obtain ps1 where "observe_pod R deployments (previous uid) uid pod ps = Inr ps1"
      "observe_pods R deployments previous pods uids ps1 = Inr ps'" by (auto simp: result_simps)
    with Cons.IH [of ps1 "insert uid visited"] observe_pod_scan [OF _ Cons.prems(2) Some] show ?thesis by simp
  qed
qed simp

definition inventory_ok :: "control_reads \<Rightarrow> BitcoinControlPodStatus list \<Rightarrow> pod_inventory \<Rightarrow> bool" where
  "inventory_ok R retained found \<longleftrightarrow>
     (\<forall>k \<in> set (inv_pods found). cps_Terminated k \<longrightarrow> (\<exists>pod. pod_read R pod \<and> pd_UID pod = cps_UID k \<and> exit_confirmed pod))
     \<and> (\<forall>k \<in> set retained. cps_Terminated k \<or> (\<exists>k' \<in> set (inv_pods found). cps_UID k' = cps_UID k))
     \<and> (inv_terminated found \<longrightarrow> (\<forall>k \<in> set (inv_pods found). cps_Terminated k))
     \<and> (\<forall>pod \<in> set (inv_release found). exit_confirmed pod
          \<and> (\<exists>k \<in> set (inv_pods found). cps_Terminated k \<and> cps_UID k = pd_UID pod))"

lemma observe_control_ok:
  assumes "observe_control R deployments retained = Inr found" "visits_all R"
  shows "inventory_ok R retained found"
proof -
  obtain items pods missing ps quiesced where
    items: "bounded_list ''control Pod inventory exceeds bound'' (cr_pods R) = Inr items"
    and pods: "find_known R retained (index_pods items []) False = Inr (pods, missing)"
    and ps: "observe_pods R deployments (map_of (rev (map (\<lambda>k. (cps_UID k, k)) retained))) (map_of pods) (cr_order R (map fst pods))
      \<lparr>ps_observed = [], ps_release = [], ps_terminated = (\<not> missing), ps_unknown = missing, ps_quiesced = quiesced\<rparr> = Inr ps"
    and found: "inv_pods found = sort_key cps_UID (ps_observed ps @ filter (\<lambda>k. map_of pods (cps_UID k) = None \<and> \<not> cps_Terminated k) retained)"
      "inv_release found = ps_release ps" "inv_terminated found = ps_terminated ps"
    using assms(1) by (auto simp: observe_control_def result_simps Let_def split: if_splits)
  have "pods_ok R (index_pods items [])"
    using items by (intro index_pods_ok) (auto simp: pods_ok_def pod_read_def bounded_list_def split: sum.splits if_splits)
  note known = find_known_ok [OF pods this]
  have all: "set (cr_order R (map fst pods)) = dom (map_of pods)"
    using assms(2) known(1) by (simp add: visits_all_def pods_ok_def dom_map_of_conv_image_fst)
  have "scan_ok R (map_of pods) missing ({} \<union> set (cr_order R (map fst pods))) ps"
    by (rule observe_pods_scan [OF ps]) (simp add: scan_ok_def)
  then have scan: "scan_ok R (map_of pods) missing (dom (map_of pods)) ps" by (simp add: all)
  have read: "map_of pods u = Some pod \<Longrightarrow> pd_UID pod = u \<and> pod_read R pod" for u pod
    using known(1) by (simp add: pods_ok_def)
  show ?thesis
    unfolding inventory_ok_def found
  proof (intro conjI ballI impI)
    fix k assume "k \<in> set (sort_key cps_UID (ps_observed ps @ filter (\<lambda>k. map_of pods (cps_UID k) = None \<and> \<not> cps_Terminated k) retained))"
      "cps_Terminated k"
    then have "k \<in> set (ps_observed ps)" "cps_Terminated k" by auto
    with scan obtain pod where "map_of pods (cps_UID k) = Some pod" "exit_confirmed pod" unfolding scan_ok_def by blast
    with read show "\<exists>pod. pod_read R pod \<and> pd_UID pod = cps_UID k \<and> exit_confirmed pod" by blast
  next
    fix k assume k: "k \<in> set retained"
    show "cps_Terminated k \<or> (\<exists>k' \<in> set (sort_key cps_UID (ps_observed ps @ filter (\<lambda>k. map_of pods (cps_UID k) = None \<and> \<not> cps_Terminated k) retained)).
        cps_UID k' = cps_UID k)"
    proof (cases "cps_UID k \<in> dom (map_of pods)")
      case True
      then have "cps_UID k \<in> cps_UID ` set (ps_observed ps)" using scan unfolding scan_ok_def by blast
      then show ?thesis by force
    next
      case False
      with k show ?thesis by force
    qed
  next
    fix k assume "ps_terminated ps"
      "k \<in> set (sort_key cps_UID (ps_observed ps @ filter (\<lambda>k. map_of pods (cps_UID k) = None \<and> \<not> cps_Terminated k) retained))"
    with scan known(4) [of k] show "cps_Terminated k" by (auto simp: scan_ok_def)
  next
    fix pod assume "pod \<in> set (ps_release ps)"
    with scan read show "exit_confirmed pod"
      "\<exists>k \<in> set (sort_key cps_UID (ps_observed ps @ filter (\<lambda>k. map_of pods (cps_UID k) = None \<and> \<not> cps_Terminated k) retained)).
         cps_Terminated k \<and> cps_UID k = pd_UID pod"
      by (fastforce simp: scan_ok_def)+
  qed
qed

text \<open>The status after some writes of a reconciliation.\<close>

fun status_after :: "BitcoinControlRuntimeStatus option \<Rightarrow> control_write list \<Rightarrow> BitcoinControlRuntimeStatus option" where
  "status_after s [] = s"
| "status_after s (WriteControlStatus t # ws) = status_after (Some t) ws"
| "status_after s (_ # ws) = status_after s ws"

lemma release_pods_writes: "w \<in> set (fst (release_pods R pods)) \<Longrightarrow> \<exists>pod \<in> set pods. w = ReleasePod pod"
  by (induction pods) (auto split: sum.splits prod.splits)

lemma control_release_writes:
  "w \<in> set (fst (control_release R p release terminated delay)) \<Longrightarrow>
     (\<exists>pod \<in> set release. w = ReleasePod pod) \<or> w = RemoveParticipantFinalizer \<and> terminated"
proof -
  assume w: "w \<in> set (fst (control_release R p release terminated delay))"
  obtain ws r where r: "release_pods R release = (ws, r)" by fastforce
  from w show ?thesis
    using release_pods_writes [of w R release] by (auto simp: control_release_def r split: sum.splits if_splits)
qed

text \<open>A status write keeps the retained Pods without a verdict, or follows a complete observation.\<close>

definition status_step :: "control_reads \<Rightarrow> BitcoinControlPodStatus list \<Rightarrow> BitcoinControlRuntimeStatus \<Rightarrow> bool" where
  "status_step R retained t \<longleftrightarrow>
     ctl_Pods t = retained \<and> \<not> ctl_Terminated t
     \<or> (\<exists>found. inventory_ok R retained found \<and> ctl_Pods t = inv_pods found \<and> (ctl_Terminated t \<longrightarrow> inv_terminated found))"

lemma control_writes:
  assumes "visits_all R"
  shows "\<exists>ws ws'. fst (control_observe_and_release R root p) = ws @ ws'
    \<and> (ws = [] \<or> (\<exists>t. ws = [WriteControlStatus t] \<and> status_step R (ctl_Pods (control_state p)) t))
    \<and> (ws' \<noteq> [] \<longrightarrow> (\<exists>t found. status_after (bp_BitcoinControl p) ws = Some t \<and> inventory_ok R (ctl_Pods (control_state p)) found
          \<and> ctl_Pods t = inv_pods found \<and> (ws \<noteq> [] \<longrightarrow> is_ok (cr_apply R))
          \<and> (\<forall>w \<in> set ws'. (\<exists>pod \<in> set (inv_release found). w = ReleasePod pod) \<or> w = RemoveParticipantFinalizer \<and> ctl_Terminated t)))"
proof -
  have finish: "fst (control_finish R p state reason err) = []
      \<and> bp_BitcoinControl p = Some (state\<lparr>ctl_Reason := reason\<rparr>)
    \<or> fst (control_finish R p state reason err) = [WriteControlStatus (state\<lparr>ctl_Reason := reason\<rparr>)]
      \<and> (is_ok (snd (control_finish R p state reason err)) \<longrightarrow> is_ok (cr_apply R))" for state reason err
    by (cases "cr_apply R") (auto simp: control_finish_def Let_def is_ok_def)
  have early: ?thesis if "control_observe_and_release R root p = control_finish R p state reason (Some e)"
    "ctl_Pods state = ctl_Pods (control_state p)" "\<not> ctl_Terminated state" for state reason e
  proof -
    have "status_step R (ctl_Pods (control_state p)) (state\<lparr>ctl_Reason := reason\<rparr>)" using that(2,3) by (simp add: status_step_def)
    with finish [of state reason "Some e"] that(1) show ?thesis
      by (intro exI [of _ "fst (control_finish R p state reason (Some e))"] exI [of _ "[]"]) auto
  qed
  define state where "state = control_begin root p"
  have state: "ctl_Pods state = ctl_Pods (control_state p)" "\<not> ctl_Terminated state" by (simp_all add: state_def control_begin_def)
  show ?thesis
  proof (cases "read_deployment R p state")
    case (Inl stop)
    with early [OF _ state, of "fst stop" "snd stop"] show ?thesis
      by (cases stop) (simp add: control_observe_and_release_def state_def)
  next
    case (Inr read)
    obtain deployment state1 where read: "read = (deployment, state1)" by fastforce
    with Inr state have state1: "ctl_Pods state1 = ctl_Pods (control_state p)" "\<not> ctl_Terminated state1"
      by (auto simp: read_deployment_def split: get.splits if_splits)
    define deployments where "deployments = (case deployment of
        Some d \<Rightarrow> (known_deployments state)(dep_UID d \<mapsto> deployment_ref d) | None \<Rightarrow> known_deployments state)"
    note start = control_observe_and_release_def Let_def state_def [symmetric] Inr read sum.case prod.case deployments_def [symmetric]
    show ?thesis
    proof (cases "observe_control R deployments (ctl_Pods state1)")
      case (Inl stop)
      then have "control_observe_and_release R root p = control_finish R p state1 (fst stop) (Some (snd stop))"
        unfolding start by (cases stop) simp
      from early [OF this state1] show ?thesis .
    next
      case (Inr found)
      have ok: "inventory_ok R (ctl_Pods (control_state p)) found" using observe_control_ok [OF Inr assms] state1 by simp
      obtain state2 reason where verdict: "control_verdict root p deployment found state1 = (state2, reason)" by fastforce
      then have state2: "ctl_Pods state2 = inv_pods found" "ctl_Terminated state2 \<longrightarrow> inv_terminated found"
        by (auto simp: control_verdict_def Let_def)
      let ?t = "state2\<lparr>ctl_Reason := reason\<rparr>"
      have status: "status_step R (ctl_Pods (control_state p)) ?t" using ok state2 by (auto simp: status_step_def)
      obtain ws r where fin: "control_finish R p state2 reason None = (ws, r)" by fastforce
      note written = finish [of state2 reason None, unfolded fin fst_conv snd_conv]
      show ?thesis
      proof (cases r)
        case (Inl e)
        then have "fst (control_observe_and_release R root p) = ws" unfolding start Inr verdict fin by simp
        with written status show ?thesis by (intro exI [of _ ws] exI [of _ "[]"]) auto
      next
        case r: (Inr delay)
        let ?ws' = "fst (control_release R p (inv_release found) (ctl_Terminated state2) delay)"
        have "fst (control_observe_and_release R root p) = ws @ ?ws'"
          unfolding start Inr verdict fin r by (simp split: prod.splits)
        moreover have "status_after (bp_BitcoinControl p) ws = Some ?t" using written by auto
        moreover have "ws = [] \<or> ws = [WriteControlStatus ?t] \<and> is_ok (cr_apply R)" using written r by (auto simp: is_ok_def)
        moreover have "\<forall>w \<in> set ?ws'. (\<exists>pod \<in> set (inv_release found). w = ReleasePod pod)
            \<or> w = RemoveParticipantFinalizer \<and> ctl_Terminated ?t"
          using control_release_writes by fastforce
        ultimately show ?thesis using status ok state2
          by (intro exI [of _ ws] exI [of _ ?ws'] conjI impI exI [of _ ?t] exI [of _ found]) auto
      qed
    qed
  qed
qed

lemma control_lifecycle_writes:
  assumes "visits_all R"
  shows "\<exists>fs ws ws'. fst (ReconcileControlLifecycle R root p) = fs @ ws @ ws' \<and> set fs \<subseteq> {AddParticipantFinalizer}
    \<and> (ws = [] \<or> (\<exists>t. ws = [WriteControlStatus t] \<and> status_step R (ctl_Pods (control_state p)) t))
    \<and> (ws' \<noteq> [] \<longrightarrow> (\<exists>t found. status_after (bp_BitcoinControl p) ws = Some t \<and> inventory_ok R (ctl_Pods (control_state p)) found
          \<and> ctl_Pods t = inv_pods found \<and> (ws \<noteq> [] \<longrightarrow> is_ok (cr_apply R))
          \<and> (\<forall>w \<in> set ws'. (\<exists>pod \<in> set (inv_release found). w = ReleasePod pod) \<or> w = RemoveParticipantFinalizer \<and> ctl_Terminated t)))"
proof -
  let ?q = "p\<lparr>bp_Finalizers := bp_Finalizers p @ [ControlParticipantFinalizer]\<rparr>"
  have "fst (ReconcileControlLifecycle R root p) = [] \<or> fst (ReconcileControlLifecycle R root p) = [AddParticipantFinalizer]
    \<or> fst (ReconcileControlLifecycle R root p) = [AddParticipantFinalizer] @ fst (control_observe_and_release R root ?q)
    \<or> fst (ReconcileControlLifecycle R root p) = [] @ fst (control_observe_and_release R root p)"
    unfolding ReconcileControlLifecycle_def by (cases "cr_finalizer R"; cases "control_observe_and_release R root ?q") simp_all
  then show ?thesis
  proof (elim disjE, goal_cases)
    case 1
    then show ?thesis by (intro exI [of _ "[]"]) simp
  next
    case 2
    then show ?thesis by (intro exI [of _ "[AddParticipantFinalizer]"] exI [of _ "[]"]) simp
  next
    case 3
    have same: "control_state ?q = control_state p" "bp_BitcoinControl ?q = bp_BitcoinControl p" by (simp_all add: control_state_def)
    from control_writes [OF assms, of root ?q, unfolded same] 3 show ?thesis
      by (elim exE conjE) (intro exI [of _ "[AddParticipantFinalizer]"] exI conjI, auto)
  next
    case 4
    from control_writes [OF assms, of root p] 4 show ?thesis
      by (elim exE conjE) (intro exI [of _ "[]"] exI conjI, auto)
  qed
qed

section \<open>Executions\<close>

text \<open>A step is one status write, over any reads. The write carries the version of the participant it was computed
  from, so it replaces exactly the status that was read.\<close>

definition control_start :: "BitcoinControlRuntimeStatus option \<Rightarrow> bool" where
  "control_start s \<longleftrightarrow> s = None"

definition control_step ::
  "BitcoinControlRuntimeStatus option \<Rightarrow> BitcoinControlRuntimeStatus \<times> control_reads \<Rightarrow> BitcoinControlRuntimeStatus option \<Rightarrow> bool" where
  "control_step s e s' \<longleftrightarrow>
     (\<exists>t R root p. e = (t, R) \<and> s' = Some t \<and> visits_all R \<and> bp_BitcoinControl p = s
        \<and> WriteControlStatus t \<in> set (fst (ReconcileControlLifecycle R root p)))"

lemma control_step_status: "control_step s (t, R) s' \<Longrightarrow> s' = Some t \<and> status_step R (case s of Some t \<Rightarrow> ctl_Pods t | None \<Rightarrow> []) t"
proof -
  assume "control_step s (t, R) s'"
  then obtain root p where p: "s' = Some t" "visits_all R" "bp_BitcoinControl p = s"
    "WriteControlStatus t \<in> set (fst (ReconcileControlLifecycle R root p))" by (auto simp: control_step_def)
  have "ctl_Pods (control_state p) = (case s of Some t \<Rightarrow> ctl_Pods t | None \<Rightarrow> [])"
    using p(3) by (auto simp: control_state_def split: option.splits)
  with control_lifecycle_writes [OF p(2), of root p] p(1,4) show ?thesis by auto
qed

text \<open>Kubelet evidence in a history of writes.\<close>

definition exited :: "(BitcoinControlRuntimeStatus \<times> control_reads) list \<Rightarrow> string \<Rightarrow> bool" where
  "exited es uid \<longleftrightarrow> (\<exists>(t, R) \<in> set es. \<exists>pod. pod_read R pod \<and> pd_UID pod = uid \<and> exit_confirmed pod)"

definition evidence_ok :: "BitcoinControlRuntimeStatus option \<Rightarrow> (BitcoinControlRuntimeStatus \<times> control_reads) list \<Rightarrow> bool" where
  "evidence_ok s es \<longleftrightarrow>
     (case s of
        None \<Rightarrow> es = []
      | Some t \<Rightarrow>
          (\<forall>k \<in> set (ctl_Pods t). cps_Terminated k \<longrightarrow> exited es (cps_UID k))
          \<and> (ctl_Terminated t \<longrightarrow> (\<forall>k \<in> set (ctl_Pods t). cps_Terminated k))
          \<and> (\<forall>(u, R) \<in> set es. \<forall>k \<in> set (ctl_Pods u). exited es (cps_UID k)
               \<or> (\<exists>k' \<in> set (ctl_Pods t). cps_UID k' = cps_UID k \<and> \<not> cps_Terminated k')))"

lemma exited_mono: "exited es uid \<Longrightarrow> exited (es @ fs) uid"
  by (auto simp: exited_def)

lemma evidence_step:
  assumes ok: "evidence_ok s es" and step: "status_step R (case s of Some t \<Rightarrow> ctl_Pods t | None \<Rightarrow> []) t"
  shows "evidence_ok (Some t) (es @ [(t, R)])"
proof -
  let ?retained = "case s of Some t \<Rightarrow> ctl_Pods t | None \<Rightarrow> []"
  have now: "exited (es @ [(t, R)]) (pd_UID pod)" if "pod_read R pod" "exit_confirmed pod" for pod
    using that by (auto simp: exited_def)
  have retained: "cps_Terminated k \<Longrightarrow> exited es (cps_UID k)" if "k \<in> set ?retained" for k
    using ok that by (auto simp: evidence_ok_def split: option.splits)
  have old: "exited es (cps_UID k) \<or> (\<exists>k' \<in> set ?retained. cps_UID k' = cps_UID k \<and> \<not> cps_Terminated k')"
    if "(u, R') \<in> set es" "k \<in> set (ctl_Pods u)" for u R' k
    using ok that by (auto simp: evidence_ok_def split: option.splits) blast+
  have terminated: "exited (es @ [(t, R)]) (cps_UID k)" if "k \<in> set (ctl_Pods t)" "cps_Terminated k" for k
    using step that retained now exited_mono unfolding status_step_def inventory_ok_def by metis
  have kept: "exited (es @ [(t, R)]) (cps_UID k) \<or> (\<exists>k' \<in> set (ctl_Pods t). cps_UID k' = cps_UID k \<and> \<not> cps_Terminated k')"
    if "k \<in> set ?retained" for k
    using step
  proof (cases "cps_Terminated k")
    case True
    with retained that exited_mono show ?thesis by metis
  next
    case False
    with step that have "\<exists>k' \<in> set (ctl_Pods t). cps_UID k' = cps_UID k" unfolding status_step_def inventory_ok_def by metis
    with terminated show ?thesis by metis
  qed
  have "exited (es @ [(t, R)]) (cps_UID k) \<or> (\<exists>k' \<in> set (ctl_Pods t). cps_UID k' = cps_UID k \<and> \<not> cps_Terminated k')"
    if "(u, R') \<in> set (es @ [(t, R)])" "k \<in> set (ctl_Pods u)" for u R' k
  proof (cases "(u, R') \<in> set es")
    case True
    from old [OF this that(2)] kept exited_mono show ?thesis by metis
  next
    case False
    with that terminated show ?thesis by fastforce
  qed
  moreover have "ctl_Terminated t \<longrightarrow> (\<forall>k \<in> set (ctl_Pods t). cps_Terminated k)"
    using step by (auto simp: status_step_def inventory_ok_def)
  ultimately show ?thesis using terminated by (auto simp: evidence_ok_def)
qed

interpretation control: history_system control_start control_step evidence_ok
proof
  show "control_start s \<Longrightarrow> evidence_ok s []" for s by (simp add: control_start_def evidence_ok_def)
  fix s es e s'
  assume "evidence_ok s es" "control_step s e s'"
  then show "evidence_ok s' (es @ [e])"
    using control_step_status [of s "fst e" "snd e" s'] evidence_step [of s es "snd e" "fst e"] by simp
qed

section \<open>What the lifecycle guarantees\<close>

text \<open>C11: Control processes are reported terminated only on evidence of exit. Along every history of status
  writes, over any reads, failures and restarts: when the status says that control is terminated, every Pod any earlier
  status retained has been read at some time with confirmed exit of all its containers. Disappearance of a Pod
  never counts as its exit.\<close>

theorem control_terminated_evidence:
  assumes "runs control_start control_step (Some t) es" and "ctl_Terminated t"
    and "(u, R) \<in> set es" and "k \<in> set (ctl_Pods u)"
  shows "\<exists>(v, R') \<in> set es. \<exists>pod. pod_read R' pod \<and> pd_UID pod = cps_UID k \<and> controlPodTerminated pod \<and> \<not> controlPodUnknown pod"
proof -
  have "exited es (cps_UID k)"
    using control.hinv_runs [OF assms(1)] assms(2-) by (auto simp: evidence_ok_def)
  then show ?thesis by (force simp: exited_def exit_confirmed_def)
qed

text \<open>C26: Evidence is recorded before it is released. Whenever a reconciliation removes the finalizer that holds a
  Pod, the status then in force, written before in the same reconciliation with success or already there, records that
  very Pod as terminated and the Pod was read with confirmed exit; and the finalizer of the participant is removed only
  under a status that says terminated.\<close>

theorem control_release_recorded:
  assumes "visits_all R" and "fst (ReconcileControlLifecycle R root p) = ws @ w # ws'"
    and "w = ReleasePod pod \<or> w = RemoveParticipantFinalizer"
  shows "\<exists>t. status_after (bp_BitcoinControl p) ws = Some t \<and> (\<forall>u. WriteControlStatus u \<in> set ws \<longrightarrow> is_ok (cr_apply R))
    \<and> (w = ReleasePod pod \<longrightarrow> controlPodTerminated pod \<and> \<not> controlPodUnknown pod
         \<and> (\<exists>k \<in> set (ctl_Pods t). cps_UID k = pd_UID pod \<and> cps_Terminated k))
    \<and> (w = RemoveParticipantFinalizer \<longrightarrow> ctl_Terminated t)"
proof -
  from control_lifecycle_writes [OF assms(1), of root p] obtain fs ss rs where
    split: "fst (ReconcileControlLifecycle R root p) = fs @ ss @ rs" and fs: "set fs \<subseteq> {AddParticipantFinalizer}"
    and ss: "ss = [] \<or> (\<exists>t. ss = [WriteControlStatus t] \<and> status_step R (ctl_Pods (control_state p)) t)"
    and rs: "rs \<noteq> [] \<longrightarrow> (\<exists>t found. status_after (bp_BitcoinControl p) ss = Some t \<and> inventory_ok R (ctl_Pods (control_state p)) found
      \<and> ctl_Pods t = inv_pods found \<and> (ss \<noteq> [] \<longrightarrow> is_ok (cr_apply R))
      \<and> (\<forall>w \<in> set rs. (\<exists>pod \<in> set (inv_release found). w = ReleasePod pod) \<or> w = RemoveParticipantFinalizer \<and> ctl_Terminated t))"
    by (elim exE conjE) (rule that)
  have "w \<notin> set (fs @ ss)" using assms(3) fs ss by auto
  moreover have "(fs @ ss) @ rs = ws @ w # ws'" using split assms(2) by simp
  ultimately obtain us where us: "ws = (fs @ ss) @ us" "rs = us @ w # ws'"
    by (auto simp: append_eq_append_conv2 append_eq_Cons_conv Cons_eq_append_conv)
  then obtain t found where t: "status_after (bp_BitcoinControl p) ss = Some t" "inventory_ok R (ctl_Pods (control_state p)) found"
    "ctl_Pods t = inv_pods found" "ss \<noteq> [] \<longrightarrow> is_ok (cr_apply R)"
    and each: "\<forall>w \<in> set rs. (\<exists>pod \<in> set (inv_release found). w = ReleasePod pod) \<or> w = RemoveParticipantFinalizer \<and> ctl_Terminated t"
    using rs by auto
  have skip: "status_after s (as @ bs) = status_after s bs" if "\<forall>x \<in> set as. \<forall>u. x \<noteq> WriteControlStatus u" for s as bs
    using that by (induction s as rule: status_after.induct) auto
  have none: "\<forall>x \<in> set us. \<forall>u. x \<noteq> WriteControlStatus u" using each us(2) by fastforce
  have "status_after (bp_BitcoinControl p) (ss @ us) = Some t"
    using ss t(1) skip [OF none, of _ "[]"] by auto
  moreover have "\<forall>x \<in> set fs. \<forall>u. x \<noteq> WriteControlStatus u" using fs by auto
  ultimately have "status_after (bp_BitcoinControl p) ws = Some t" using skip [of fs] us(1) by simp
  moreover have "\<forall>u. WriteControlStatus u \<in> set ws \<longrightarrow> is_ok (cr_apply R)" using us(1) none fs t(4) by auto
  moreover have "(\<exists>q \<in> set (inv_release found). w = ReleasePod q) \<or> w = RemoveParticipantFinalizer \<and> ctl_Terminated t"
    using each us(2) by simp
  moreover have "\<And>q. q \<in> set (inv_release found) \<Longrightarrow> exit_confirmed q \<and> (\<exists>k \<in> set (ctl_Pods t). cps_Terminated k \<and> cps_UID k = pd_UID q)"
    using t(2,3) by (auto simp: inventory_ok_def)
  ultimately show ?thesis by (auto simp: exit_confirmed_def)
qed

text \<open>C27: The acknowledgement a stopping worker writes lets its actor stop, and it is honest. Once the record it wrote
  is read back at the same or a later network generation, the drain check answers yes for every one of the four stop reasons, a
  deleted network included, provided the worker's process nonce is not empty, the network is the actor's own, the record is
  the first of the allocated ones that belongs to the actor, every record before it can be read, and, while the network is being deleted, so can the
  actor itself, which the check reads again there. The acknowledgement carries that nonce and generation; it says drained
  only when no request is armed, no call is under way and no action is reserved, and otherwise marks the effects uncertain.\<close>

theorem stop_acknowledged:
  assumes "worker_stop nonce R record' = (Some written, res)" "nonce \<noteq> []"
    and "st_network R = Got root" "net_Generation root \<le> net_Generation root'"
    and "ds_network D = Got root'" "net_UID root' = bp_NetworkUID p" "stopReason root' (Some p) \<noteq> []"
    and "net_Deleted root' \<longrightarrow> ds_participant D = Got again"
    and "bn_Bitcoin root' = Some b" "bs_ExecutionRefs b = pre @ ref # post" "ds_execution D (Name ref) = Got written"
    and "exec_UID written = UID ref" "UID (exec_Participant written) = bp_UID p"
    and "\<forall>r \<in> set pre. \<exists>e. ds_execution D (Name r) = Got e \<and> exec_UID e = UID r \<and> UID (exec_Participant e) \<noteq> bp_UID p"
  shows "CheckDrained D p = Inr True
    \<and> (\<exists>d. Drain written = Some d \<and> dr_ProcessNonce d = nonce \<and> dr_NetworkGeneration d = net_Generation root
        \<and> dr_Reason d \<in> {''ParticipantRemoved'', ''NetworkStopped'', ''NetworkDeleting'', ''NetworkFailed''}
        \<and> (dr_Outcome d = ''Drained'' \<longleftrightarrow> Armed written = None \<and> \<not> st_active R \<and> ActionState written = None)
        \<and> (dr_Outcome d \<noteq> ''Drained'' \<longrightarrow> dr_Outcome d = ''Uncertain'')
        \<and> (Armed written \<noteq> None \<or> st_active R \<longrightarrow> Phase written = PhaseBlocked
            \<and> (\<forall>a. ActionState written = Some a \<longrightarrow> act_EffectUncertain a)))"
proof -
  obtain reason current where w: "written = stop_record nonce reason (net_Generation root) (st_started R) (st_completed R) (st_active R) current"
    "reason \<noteq> []" "reason \<in> {''ParticipantRemoved'', ''NetworkStopped'', ''NetworkDeleting'', ''NetworkFailed''}"
    using assms(1,3) by (auto simp: worker_stop_def fetched_def stopReason_def Let_def split: get.splits sum.splits if_splits)
  then have ack: "terminalDrainAcknowledged written root'"
    using assms(2,4) by (auto simp: terminalDrainAcknowledged_def stop_record_def Let_def)
  have "drained_record D root' p (pre @ ref # post) = Inr True"
    using assms(14)
  proof (induction pre)
    case Nil
    show ?case
      using assms(11-13) ack w(1) by (auto simp: fetched_def stop_record_def Let_def)
  next
    case (Cons r pre)
    then show ?case by (auto simp: fetched_def)
  qed
  moreover have "\<exists>over. destroyed_control D root' p = Inr over"
    using assms(8) by (auto simp: destroyed_control_def fetched_def)
  ultimately have "CheckDrained D p = Inr True"
    using assms(5-7,9,10) by (auto simp: CheckDrained_def fetched_def)
  moreover have "Drain written = Some \<lparr>dr_ProcessNonce = nonce, dr_NetworkGeneration = net_Generation root, dr_Reason = reason,
        dr_RequestedAt = st_started R, dr_CompletedAt = st_completed R,
        dr_Outcome = (if (Armed written \<noteq> None \<or> st_active R) \<or> ActionState written \<noteq> None then ''Uncertain'' else ''Drained'')\<rparr>"
    "Armed written \<noteq> None \<or> st_active R \<longrightarrow> Phase written = PhaseBlocked"
    "Armed written \<noteq> None \<or> st_active R \<longrightarrow> (\<forall>a. ActionState written = Some a \<longrightarrow> act_EffectUncertain a)"
    by (simp_all add: w(1) stop_record_def Let_def stopped_action_def) auto
  ultimately show ?thesis using w(3) by simp
qed

section \<open>Sample executions\<close>

text \<open>A deleted participant of a stopped network: its control Pod runs, then exits while the Deployment is at rest.\<close>

definition sample_control_root :: BitcoinNetwork where
  "sample_control_root =
     \<lparr>net_Name = ''network'', net_Namespace = ''ns'', net_UID = ''net'', net_Deleted = False, net_Generation = 3,
      net_Operation = ''Stopped'', net_Participants = [], net_Phase = ''Stopping'', net_FailedCondition = False, net_Identities = [],
      bn_GenesisRef = None, bn_GenesisDigest = [], bn_Initialization = None,
      bn_Bitcoin = Some \<lparr>bs_InitializationRef = None, bs_ExecutionRefs = [bind ''BitcoinExecution'' ''exec'' ''e'']\<rparr>\<rparr>"

definition sample_control_participant :: "BitcoinControlRuntimeStatus option \<Rightarrow> ControlParticipant" where
  "sample_control_participant control =
     \<lparr>bp_Name = ''node'', bp_UID = ''n'', bp_Owner = ''net'', bp_Deleted = True, bp_Generation = 1, bp_NetworkUID = ''net'',
      bp_ParticipantName = ''node'', bp_Kind = ''BitcoinNode'', bp_Suspended = False, bp_Paused = False,
      bp_Admission = None, bp_AdmissionDigest = [], bp_Runtime = None, bp_WorkloadReady = None, bp_ConfigVerified = None,
      bp_Execution = None, bp_Scheduling = None, bp_Finalizers = [ControlParticipantFinalizer], bp_BitcoinControl = control\<rparr>"

definition sample_control_pod :: "bool \<Rightarrow> ControlPod" where
  "sample_control_pod over =
     \<lparr>pd_Name = ''pod'', pd_UID = ''pod-uid'',
      pd_Owner = Some \<lparr>own_APIVersion = ''apps/v1'', own_Kind = ''ReplicaSet'', own_Name = ''rs'', own_UID = ''rs-uid''\<rparr>,
      pd_Finalizers = [ControlPodFinalizer], pd_Deleted = over, pd_NodeName = ''worker'',
      pd_Phase = (if over then ''Succeeded'' else ''Running''), pd_Reason = [], pd_Conditions = [], pd_Containers = [''control''],
      pd_InitContainers = [], pd_EphemeralContainers = [],
      pd_ContainerStatuses = [\<lparr>cs_Name = ''control'', cs_Terminated = (if over then Some ''Completed'' else None), cs_Waiting = None\<rparr>],
      pd_InitContainerStatuses = [], pd_EphemeralContainerStatuses = []\<rparr>"

definition sample_control_reads :: "bool \<Rightarrow> control_reads" where
  "sample_control_reads over =
     (let replica = \<lparr>rs_UID = ''rs-uid'',
            rs_Owner = Some \<lparr>own_APIVersion = ''apps/v1'', own_Kind = ''Deployment'', own_Name = ''control'', own_UID = ''d''\<rparr>,
            rs_Replicas = Some 0, rs_Generation = 2, rs_ObservedGeneration = 2, rs_StatusReplicas = 0\<rparr>
      in \<lparr>cr_deployment = Got \<lparr>dep_Name = ''control'', dep_UID = ''d'',
            dep_Owner = Some \<lparr>own_APIVersion = ''network'', own_Kind = ''StacksNetworkParticipant'', own_Name = ''node'', own_UID = ''n''\<rparr>,
            dep_Replicas = Some 0, dep_Generation = 2, dep_ObservedGeneration = 2, dep_StatusReplicas = 0\<rparr>,
          cr_replicas = Inr ([replica], False), cr_pods = Inr ([sample_control_pod over], False), cr_pod = (\<lambda>_. NotFound),
          cr_replica = (\<lambda>_. Got replica), cr_order = (\<lambda>ks. ks), cr_finalizer = Inr (), cr_apply = Inr (), cr_release = (\<lambda>_. Inr ()),
          cr_remove = Inr ()\<rparr>)"

definition sample_control_status :: "bool \<Rightarrow> BitcoinControlRuntimeStatus" where
  "sample_control_status over =
     \<lparr>ctl_ObservedGeneration = 1, ctl_NetworkGeneration = 3,
      ctl_DeploymentRef = Some (bind ''Deployment'' ''control'' ''d''),
      ctl_Pods = [\<lparr>cps_UID = ''pod-uid'', cps_Pod = bind ''Pod'' ''pod'' ''pod-uid'', cps_ReplicaSet = bind ''ReplicaSet'' ''rs'' ''rs-uid'',
                   cps_Deployment = bind ''Deployment'' ''control'' ''d'', cps_Terminated = over\<rparr>],
      ctl_Terminated = over, ctl_Reason = (if over then ''Terminated'' else ''Stopping'')\<rparr>"

lemma sample_control_writes:
  "fst (ReconcileControlLifecycle (sample_control_reads False) sample_control_root (sample_control_participant None))
     = [WriteControlStatus (sample_control_status False)]"
  "fst (ReconcileControlLifecycle (sample_control_reads True) sample_control_root
          (sample_control_participant (Some (sample_control_status False))))
     = [WriteControlStatus (sample_control_status True), ReleasePod (sample_control_pod True), RemoveParticipantFinalizer]"
  by code_simp+

lemma sample_visits_all: "visits_all (sample_control_reads over)"
  by (simp add: visits_all_def sample_control_reads_def Let_def)

lemma sample_control_step:
  assumes "WriteControlStatus t \<in> set (fst (ReconcileControlLifecycle (sample_control_reads e) sample_control_root (sample_control_participant s)))"
  shows "control_step s (t, sample_control_reads e) (Some t)"
  unfolding control_step_def
  using assms sample_visits_all
  by (intro exI [of _ t] exI [of _ "sample_control_reads e"] exI [of _ sample_control_root] exI [of _ "sample_control_participant s"])
     (simp add: sample_control_participant_def)

theorem control_terminated_evidence_witness:
  "\<exists>es. runs control_start control_step (Some (sample_control_status True)) es \<and> length es = 2
     \<and> (\<exists>(v, R') \<in> set es. \<exists>pod. pod_read R' pod \<and> pd_UID pod = ''pod-uid'' \<and> controlPodTerminated pod)"
proof -
  have "runs control_start control_step None []" by (rule runs_start) (simp add: control_start_def)
  from runs_step [OF runs_step [where step = control_step, OF this sample_control_step] sample_control_step]
  have run: "runs control_start control_step (Some (sample_control_status True))
      (([] @ [(sample_control_status False, sample_control_reads False)]) @ [(sample_control_status True, sample_control_reads True)])"
    by (simp add: sample_control_writes)
  have t: "ctl_Terminated (sample_control_status True)" by (simp add: sample_control_status_def)
  have k: "(sample_control_status False, sample_control_reads False) \<in> set
      (([] @ [(sample_control_status False, sample_control_reads False)]) @ [(sample_control_status True, sample_control_reads True)])"
    "hd (ctl_Pods (sample_control_status False)) \<in> set (ctl_Pods (sample_control_status False))"
    "cps_UID (hd (ctl_Pods (sample_control_status False))) = ''pod-uid''"
    by (simp_all add: sample_control_status_def)
  from control_terminated_evidence [OF run t k(1,2)] run show ?thesis unfolding k(3) by fastforce
qed

theorem control_release_recorded_witness:
  "\<exists>k \<in> set (ctl_Pods (sample_control_status True)). cps_UID k = pd_UID (sample_control_pod True) \<and> cps_Terminated k"
  using control_release_recorded [OF sample_visits_all, of True sample_control_root "sample_control_participant (Some (sample_control_status False))"
      "[WriteControlStatus (sample_control_status True)]" "ReleasePod (sample_control_pod True)" "[RemoveParticipantFinalizer]"]
  unfolding sample_control_writes by simp

definition sample_stop_reads :: stop_reads where
  "sample_stop_reads =
     \<lparr>st_network = Got sample_control_root, st_participant = NotFound, st_started = 10 * second, st_active = False,
      st_current = Got (sample_execution\<lparr>exec_Owner := ''net'', Armed := None, ActionState := None\<rparr>), st_completed = 12 * second, st_update = Inr ()\<rparr>"

definition sample_stopped :: BitcoinExecution where
  "sample_stopped =
     stop_record ''nonce'' ''NetworkStopped'' 3 (10 * second) (12 * second) False (sample_execution\<lparr>exec_Owner := ''net'', Armed := None, ActionState := None\<rparr>)"

definition sample_drain_reads :: drain_reads where
  "sample_drain_reads =
     \<lparr>ds_network = Got (sample_control_root\<lparr>net_Generation := 5\<rparr>), ds_participant = NotFound, ds_execution = (\<lambda>_. Got sample_stopped),
      ds_deployment = (\<lambda>_. NotFound)\<rparr>"

definition sample_deleted_reads :: drain_reads where
  "sample_deleted_reads = sample_drain_reads\<lparr>ds_network := Got (sample_control_root\<lparr>net_Generation := 5, net_Deleted := True\<rparr>),
     ds_participant := Got (sample_control_participant None)\<rparr>"

text \<open>The acknowledgement counts for a stopped network and for one that is being deleted.\<close>

theorem stop_acknowledged_witness:
  "CheckDrained sample_drain_reads (sample_control_participant None) = Inr True
   \<and> CheckDrained sample_deleted_reads (sample_control_participant None) = Inr True
   \<and> (\<exists>d. Drain sample_stopped = Some d \<and> dr_Outcome d = ''Drained'')"
proof -
  have w: "worker_stop ''nonce'' sample_stop_reads (sample_execution\<lparr>exec_Owner := ''net'', Armed := None, ActionState := None\<rparr>)
      = (Some sample_stopped, Inr True)" by code_simp
  have e: "exec_UID sample_stopped = ''e''" "UID (exec_Participant sample_stopped) = ''n''" "Armed sample_stopped = None" "ActionState sample_stopped = None"
    by code_simp+
  note defs = sample_stop_reads_def sample_drain_reads_def sample_deleted_reads_def sample_control_participant_def bind_def stopReason_def
    sample_control_root_def bitcoin_failed_def network_failed_def StacksNetwork.defs
  note stopped = stop_acknowledged [OF w, of sample_control_root "sample_control_root\<lparr>net_Generation := 5\<rparr>" sample_drain_reads
      "sample_control_participant None" "sample_control_participant None" "the (bn_Bitcoin sample_control_root)"
      "[]" "bind ''BitcoinExecution'' ''exec'' ''e''" "[]"]
  note deleted = stop_acknowledged [OF w, of sample_control_root "sample_control_root\<lparr>net_Generation := 5, net_Deleted := True\<rparr>"
      sample_deleted_reads "sample_control_participant None" "sample_control_participant None" "the (bn_Bitcoin sample_control_root)"
      "[]" "bind ''BitcoinExecution'' ''exec'' ''e''" "[]"]
  have "CheckDrained sample_drain_reads (sample_control_participant None) = Inr True"
    by (rule conjunct1 [OF stopped]) (simp_all add: defs e)
  moreover have "\<exists>d. Drain sample_stopped = Some d \<and> dr_Outcome d = ''Drained''"
    by (simp add: sample_stopped_def stop_record_def Let_def)
  moreover have "CheckDrained sample_deleted_reads (sample_control_participant None) = Inr True"
    by (rule conjunct1 [OF deleted]) (simp_all add: defs e)
  ultimately show ?thesis by blast
qed

end
