(* ===== verification/Baseline_Types.thy ===== *)
theory Baseline_Types
  imports Scheduler_Runs
begin

text \<open>
  The shape of admitted baseline inputs (\<open>baseline_inputs.go\<close> of \<open>operators/network/internal/bitcoincontrol\<close>) and what
  it is worth to the decisions of \<open>baseline.go\<close>: \<open>typed_inputs\<close> is the type of what \<open>resolveBaselineInputs\<close> admits,
  and a decision over inputs of that type is never stuck.
\<close>

text \<open>The width of the weights in the policy, which are Go's \<open>int32\<close>.\<close>

definition int32_weights :: "BitcoinParticipant \<Rightarrow> bool" where
  "int32_weights p \<longleftrightarrow>
     (case production_policy p of None \<Rightarrow> True | Some policy \<Rightarrow> list_all (\<lambda>(_, w). w \<le> max_int32) (pp_Targets policy))"

definition typed_target :: "BitcoinScheduledTarget \<Rightarrow> bool" where
  "typed_target t \<longleftrightarrow>
     1 \<le> st_Weight t \<and> st_Weight t \<le> max_int32 \<and> Kind (st_Participant t) = ''StacksNetworkParticipant'' \<and> UID (st_Participant t) \<noteq> []"

text \<open>A target of the policy is pinned when its participant is the admitted dependency whose UID the root retains for
  that name: the last identity of the name counts.\<close>

definition pinned_target :: "BitcoinNetwork \<Rightarrow> Binding list \<Rightarrow> string \<times> int \<Rightarrow> BitcoinScheduledTarget \<Rightarrow> bool" where
  "pinned_target root deps entry t \<longleftrightarrow>
     st_Weight t = snd entry \<and> st_Participant t \<in> set deps
     \<and> (\<exists>older i newer. net_Identities root = older @ i # newer \<and> ii_Name i = fst entry
          \<and> (\<forall>j \<in> set newer. ii_Name j \<noteq> fst entry) \<and> UID (st_Participant t) = ii_UID i)"

definition typed_cadence :: "block_schedule option \<Rightarrow> bool" where
  "typed_cadence schedule \<longleftrightarrow>
     (case cadenceBounds schedule of
        Inl _ \<Rightarrow> False
      | Inr (low, high) \<Rightarrow> second \<le> low \<and> low \<le> high \<and> high \<le> 3600 * second)"

definition typed_inputs :: "BitcoinSchedulingStatus \<Rightarrow> bool" where
  "typed_inputs s \<longleftrightarrow>
     sc_Targets s \<noteq> [] \<and> length (sc_Targets s) \<le> 100 \<and> list_all typed_target (sc_Targets s) \<and> typed_cadence (sc_Schedule s)
     \<and> sc_Override s = None"

text \<open>A source of draws that keeps to the range it is asked for.\<close>

definition uniform_draws :: "(int \<Rightarrow> int) \<Rightarrow> bool" where
  "uniform_draws draw \<longleftrightarrow> (\<forall>n. 0 < n \<longrightarrow> 0 \<le> draw n \<and> draw n < n)"

section \<open>Resolution yields typed inputs\<close>

lemma resolve_targets_typed:
  "resolve_targets root deps seen targets = Inr resolved \<Longrightarrow> list_all (\<lambda>(_, w). w \<le> max_int32) targets
   \<Longrightarrow> length resolved = length targets \<and> list_all typed_target resolved"
proof (induction targets arbitrary: seen resolved)
  case (Cons target targets)
  obtain name weight where [simp]: "target = (name, weight)" by force
  let ?uid = "identity_uid root name"
  from Cons.prems(1) obtain pin rest where
    pin: "find (\<lambda>d. Kind d = ''StacksNetworkParticipant'' \<and> UID d = ?uid \<and> ?uid \<noteq> []) deps = Some pin"
    and rest: "resolve_targets root deps (name # seen) targets = Inr rest"
    and resolved: "resolved = \<lparr>st_Participant = pin, st_Weight = weight\<rparr> # rest" and weight: "1 \<le> weight"
    by (auto simp: Let_def result_simps split: if_splits option.splits)
  from pin have "Kind pin = ''StacksNetworkParticipant'' \<and> UID pin \<noteq> []" by (auto simp: find_Some_iff)
  with Cons.IH [OF rest] Cons.prems(2) weight show ?case by (auto simp: resolved typed_target_def)
qed simp

lemma identity_uid_retained:
  assumes "identity_uid root name = uid" "uid \<noteq> []"
  obtains older i newer where "net_Identities root = older @ i # newer" "ii_Name i = name" "\<forall>j \<in> set newer. ii_Name j \<noteq> name"
    "ii_UID i = uid"
proof -
  from assms obtain i where i: "find (\<lambda>i. ii_Name i = name) (rev (net_Identities root)) = Some i" "ii_UID i = uid"
    by (auto simp: identity_uid_def split: option.splits)
  then obtain k where k: "k < length (net_Identities root)" "ii_Name i = name" "i = rev (net_Identities root) ! k"
    "\<forall>j < k. ii_Name (rev (net_Identities root) ! j) \<noteq> name"
    by (auto simp: find_Some_iff)
  let ?l = "rev (net_Identities root)"
  have "?l = take k ?l @ i # drop (Suc k) ?l" using k(1,3) by (simp add: id_take_nth_drop)
  then have "net_Identities root = rev (drop (Suc k) ?l) @ i # rev (take k ?l)"
    by (metis append.assoc append_Cons append_Nil rev.simps(2) rev_append rev_rev_ident)
  moreover have "\<forall>j \<in> set (rev (take k ?l)). ii_Name j \<noteq> name"
    using k(4) by (metis in_set_conv_nth length_take min_less_iff_conj nth_take set_rev)
  ultimately show thesis using i(2) k(2) that by blast
qed

lemma resolve_targets_pinned:
  "resolve_targets root deps seen targets = Inr resolved
   \<Longrightarrow> list_all2 (pinned_target root deps) targets resolved \<and> distinct (map fst targets) \<and> set seen \<inter> set (map fst targets) = {}"
proof (induction targets arbitrary: seen resolved)
  case (Cons target targets)
  obtain name weight where [simp]: "target = (name, weight)" by force
  let ?uid = "identity_uid root name"
  from Cons.prems obtain pin rest where
    pin: "find (\<lambda>d. Kind d = ''StacksNetworkParticipant'' \<and> UID d = ?uid \<and> ?uid \<noteq> []) deps = Some pin"
    and rest: "resolve_targets root deps (name # seen) targets = Inr rest" and fresh: "name \<notin> set seen"
    and resolved: "resolved = \<lparr>st_Participant = pin, st_Weight = weight\<rparr> # rest"
    by (auto simp: Let_def result_simps split: if_splits option.splits)
  from pin have p: "UID pin = ?uid" "?uid \<noteq> []" "pin \<in> set deps" by (auto simp: find_Some_iff)
  from identity_uid_retained [OF refl p(2)] p have "pinned_target root deps target \<lparr>st_Participant = pin, st_Weight = weight\<rparr>"
    unfolding pinned_target_def by simp metis
  with Cons.IH [OF rest] fresh show ?case by (auto simp: resolved)
qed simp

lemma cadenceBounds_typed: "cadenceBounds schedule = Inr (low, high) \<Longrightarrow> typed_cadence schedule"
proof -
  assume b: "cadenceBounds schedule = Inr (low, high)"
  have parse: "parse_interval v = Inr d \<Longrightarrow> second \<le> d \<and> d \<le> 3600 * second" for v d
    by (auto simp: parse_interval_def split: option.splits sum.splits if_splits)
  from b obtain sc where sc: "schedule = Some sc" by (cases schedule) (auto simp: cadenceBounds_def)
  have "second \<le> low \<and> low \<le> high \<and> high \<le> 3600 * second"
    by (cases "parse_interval (MaximumInterval sc)"; cases "parse_interval (MinimumInterval sc)";
        cases "parse_interval (Interval sc)")
      (use b sc in \<open>auto simp: cadenceBounds_def dest!: parse split: if_splits\<close>)
  with b show "typed_cadence schedule" by (simp add: typed_cadence_def)
qed

text \<open>The fields the resolution fills, and the checks it passed to fill them.\<close>

lemma resolveBaselineInputs_fields:
  assumes "resolveBaselineInputs S root initial p = Inr inputs"
  obtains admission policy high where "bp_Admission p = Some admission" "production_policy p = Some policy"
    "resolve_targets root (adm_Dependencies admission) [] (pp_Targets policy) = Inr (sc_Targets inputs)"
    "pp_Targets policy \<noteq> []" "length (pp_Targets policy) \<le> 100"
    "cadenceBounds (sc_Schedule inputs) = Inr high" "sc_ProgressWindowSeconds inputs = progress_seconds (snd high)"
    "sc_Override inputs = None"
proof -
  from assms obtain admission policy where *: "bp_Admission p = Some admission" "production_policy p = Some policy"
    by (auto simp: resolveBaselineInputs_def split: option.splits)
  with assms obtain schedule payoutName frozen where
    **: "pp_Schedule policy = Some schedule" "pp_PayoutWalletRef policy = Some payoutName" "pp_Initialization policy = Some frozen"
    by (auto simp: resolveBaselineInputs_def split: option.splits if_splits)
  from assms show thesis
    by (intro that [of admission policy "(fst (projr (cadenceBounds (Some schedule))), snd (projr (cadenceBounds (Some schedule))))"])
      (auto simp: resolveBaselineInputs_def * ** Let_def result_simps empty_scheduling_def split: if_splits)
qed

section \<open>Decisions over typed inputs\<close>

lemma total_weight_typed:
  "list_all typed_target targets \<Longrightarrow> 0 \<le> acc \<Longrightarrow> acc + int (length targets) * max_int32 \<le> max_int64
   \<Longrightarrow> total_weight targets acc = Inr (acc + sum_list (map st_Weight targets))"
proof (induction targets arbitrary: acc)
  case (Cons t ts)
  then have w: "1 \<le> st_Weight t" "st_Weight t \<le> max_int32" by (auto simp: typed_target_def)
  have "0 \<le> int (length ts) * max_int32" by simp
  with Cons.prems(3) w have "acc + st_Weight t \<le> max_int64" "acc + st_Weight t + int (length ts) * max_int32 \<le> max_int64"
    by (simp_all add: distrib_right)
  with Cons.IH [of "acc + st_Weight t"] Cons.prems w show ?case by (simp add: add.assoc)
qed simp

lemma selectBaselineTarget_typed:
  assumes "typed_inputs s" "uniform_draws draw"
  shows "\<exists>t \<in> set (sc_Targets s). selectBaselineTarget draw (sc_Targets s) = Inr (st_Participant t)"
proof -
  let ?ts = "sc_Targets s" let ?n = "sum_list (map st_Weight ?ts)"
  from assms(1) have ts: "?ts \<noteq> []" "length ?ts \<le> 100" "list_all typed_target ?ts" by (simp_all add: typed_inputs_def)
  have "int (length ?ts) * max_int32 \<le> 100 * max_int32" using ts(2) by simp
  with total_weight_typed [OF ts(3), of 0] have total: "total_weight ?ts 0 = Inr ?n"
    by simp
  have positive: "\<forall>t \<in> set ?ts. 1 \<le> st_Weight t" using ts(3) by (auto simp: list_all_iff typed_target_def)
  with ts(1) have "0 < ?n" by (cases ?ts) (force intro!: add_pos_nonneg sum_list_nonneg)+
  with assms(2) have draw: "0 \<le> draw ?n" "draw ?n < ?n" by (auto simp: uniform_draws_def)
  with pick_target_total [OF positive] \<open>0 < ?n\<close> total show ?thesis by (simp add: selectBaselineTarget_def)
qed

lemma schedule_interval_typed:
  assumes "typed_cadence schedule" "uniform_draws draw"
  obtains i where "schedule_interval draw schedule = Inr i" "second \<le> i" "i \<le> 3600 * second"
proof -
  from assms(1) obtain low high where b: "cadenceBounds schedule = Inr (low, high)" "second \<le> low" "low \<le> high" "high \<le> 3600 * second"
    by (auto simp: typed_cadence_def split: sum.splits)
  have "0 \<le> draw (high - low + 1) \<and> draw (high - low + 1) < high - low + 1"
    using spec [OF assms(2) [unfolded uniform_draws_def], of "high - low + 1"] b(3) by simp
  with b that show thesis
    by (cases "low = high") (auto simp: schedule_interval_def Let_def)
qed

text \<open>C25: Admitted baseline inputs have a type under which scheduling is never stuck. Inputs that
  \<open>resolveBaselineInputs\<close> admits name between one and a hundred participants with positive weights, which are in order the
  distinct targets of the policy with its weights, each pinned to the admitted dependency whose UID is that of the identity
  the root retains for the target's name (the last of that name), and carry a cadence between one second and one hour; without an override in
  force they are the inputs in effect, and from them a due opportunity whose counters have room always
  selects one of the admitted targets and sets the next opportunity within that cadence, whatever the draws.\<close>

theorem baseline_inputs_typed:
  assumes resolved: "resolveBaselineInputs S root initial p = Inr inputs" and width: "int32_weights p"
  shows "typed_inputs inputs
    \<and> (\<exists>admission policy. bp_Admission p = Some admission \<and> production_policy p = Some policy
        \<and> distinct (map fst (pp_Targets policy))
        \<and> list_all2 (pinned_target root (adm_Dependencies admission)) (pp_Targets policy) (sc_Targets inputs))
    \<and> (init_Override r = None \<longrightarrow> effective_inputs r inputs = inputs)
    \<and> (uniform_draws (sn_draw (C AtInterval)) \<and> uniform_draws (sn_draw (C AtWeights))
        \<and> Sequence b < max_int64 \<and> Opportunities (Scheduling b) < max_int64 \<and> init_Baseline r = Some b \<longrightarrow>
      (\<exists>plan b' t due. select_decision C inputs r b = Inr plan \<and> pl_reason plan = ''BaselineTargetSelected''
         \<and> init_Baseline (pl_record plan) = Some b' \<and> t \<in> set (sc_Targets inputs) \<and> SelectedTarget b' = Some (st_Participant t)
         \<and> NextOpportunityAt (pl_record plan) = Some due
         \<and> sn_now (C AtDecision) + second \<le> due \<and> due \<le> sn_now (C AtDecision) + 3600 * second))"
proof (intro conjI impI)
  from resolved obtain admission policy high where policy: "bp_Admission p = Some admission" "production_policy p = Some policy"
    and targets: "resolve_targets root (adm_Dependencies admission) [] (pp_Targets policy) = Inr (sc_Targets inputs)"
    and count: "pp_Targets policy \<noteq> []" "length (pp_Targets policy) \<le> 100"
    and bounds: "cadenceBounds (sc_Schedule inputs) = Inr high"
    and window: "sc_ProgressWindowSeconds inputs = progress_seconds (snd high)" and plain: "sc_Override inputs = None"
    by (rule resolveBaselineInputs_fields)
  have "length (sc_Targets inputs) = length (pp_Targets policy) \<and> list_all typed_target (sc_Targets inputs)"
    by (rule resolve_targets_typed [OF targets]) (use width policy in \<open>simp add: int32_weights_def\<close>)
  with count plain cadenceBounds_typed [of "sc_Schedule inputs" "fst high" "snd high"] bounds
  show typed: "typed_inputs inputs" by (auto simp: typed_inputs_def)
  show "\<exists>admission policy. bp_Admission p = Some admission \<and> production_policy p = Some policy
        \<and> distinct (map fst (pp_Targets policy))
        \<and> list_all2 (pinned_target root (adm_Dependencies admission)) (pp_Targets policy) (sc_Targets inputs)"
    using policy resolve_targets_pinned [OF targets] by blast
  show "effective_inputs r inputs = inputs" if "init_Override r = None"
    using bounds window plain that by (cases high) (simp add: effective_inputs_def effectiveSchedule_def)
  assume *: "uniform_draws (sn_draw (C AtInterval)) \<and> uniform_draws (sn_draw (C AtWeights))
    \<and> Sequence b < max_int64 \<and> Opportunities (Scheduling b) < max_int64 \<and> init_Baseline r = Some b"
  with selectBaselineTarget_typed [OF typed] obtain t where t: "t \<in> set (sc_Targets inputs)"
    "selectBaselineTarget (sn_draw (C AtWeights)) (sc_Targets inputs) = Inr (st_Participant t)" by blast
  from * typed obtain i where i: "schedule_interval (sn_draw (C AtInterval)) (sc_Schedule inputs) = Inr i" "second \<le> i" "i \<le> 3600 * second"
    by (auto simp: typed_inputs_def elim: schedule_interval_typed)
  with t * show "\<exists>plan b' t due. select_decision C inputs r b = Inr plan \<and> pl_reason plan = ''BaselineTargetSelected''
         \<and> init_Baseline (pl_record plan) = Some b' \<and> t \<in> set (sc_Targets inputs) \<and> SelectedTarget b' = Some (st_Participant t)
         \<and> NextOpportunityAt (pl_record plan) = Some due
         \<and> sn_now (C AtDecision) + second \<le> due \<and> due \<le> sn_now (C AtDecision) + 3600 * second"
    by (auto simp: select_decision_def on_baseline_def intro!: bexI exI [of _ t])
qed

theorem baseline_inputs_typed_witness:
  "typed_inputs (sample_scheduling 0 None None 0 []) \<and> sc_Targets (sample_scheduling 0 None None 0 []) \<noteq> []
   \<and> (\<exists>admission policy. bp_Admission sample_producer = Some admission \<and> production_policy sample_producer = Some policy
        \<and> list_all2 (pinned_target (sample_root True) (adm_Dependencies admission)) (pp_Targets policy)
            (sc_Targets (sample_scheduling 0 None None 0 [])))
   \<and> (\<exists>plan. select_decision (sample_moment True 0 sample_waiting) (sample_scheduling 0 None None 0 []) sample_waiting
         (the (init_Baseline sample_waiting)) = Inr plan \<and> pl_reason plan = ''BaselineTargetSelected'')"
proof -
  have "resolveBaselineInputs (sample_moment True 0 sample_fresh AtInputs) (sample_root True) sample_fresh sample_producer
      = Inr (sample_scheduling 0 None None 0 [])" by code_simp
  moreover have "int32_weights sample_producer" by code_simp
  moreover have "uniform_draws (sn_draw (sample_moment True 0 sample_waiting at))" for at
    by (simp add: uniform_draws_def sample_moment_def)
  moreover have "Sequence (the (init_Baseline sample_waiting)) < max_int64"
    "Opportunities (Scheduling (the (init_Baseline sample_waiting))) < max_int64"
    "init_Baseline sample_waiting = Some (the (init_Baseline sample_waiting))"
    by (simp_all add: sample_waiting_def sample_baseline_def sample_scheduling_def)
  ultimately show ?thesis
    using baseline_inputs_typed [of "sample_moment True 0 sample_fresh AtInputs" "sample_root True" sample_fresh sample_producer
        "sample_scheduling 0 None None 0 []" sample_waiting "sample_moment True 0 sample_waiting" "the (init_Baseline sample_waiting)"]
    unfolding typed_inputs_def by blast
qed

end
