(* ===== verification/Gate_Evidence.thy ===== *)
theory Gate_Evidence
  imports Control_Lifecycle Transfer_Role
begin

text \<open>
  Model of the evidence the aggregate of \<open>operators/network/internal/networkruntime\<close> asks for before a bootstrap gate
  completes: the frozen cohorts of \<open>cohort.go\<close>, \<open>prepared.go\<close> and \<open>contracts.go\<close>, and the policies
  of \<open>foundation/bootstrap_policy.go\<close> they are compared with. The aggregate sees more of the root, of a
  genesis and of a participant than the scheduler does; \<open>ledger_view\<close>, \<open>scheduler_view\<close> and \<open>scheduler_genesis\<close> are what
  the session ledger and the scheduler see of the same objects.
\<close>

section \<open>The root\<close>

datatype ConditionStatus = ConditionTrue | ConditionFalse | ConditionUnknown

record Condition =
  cond_Status :: ConditionStatus
  cond_Reason :: string
  cond_ObservedGeneration :: int

record AggregateEntry = ParticipantEntry +
  entry_Suspended :: bool

record GateObservation =
  go_Name :: string
  go_FirstCeilingObservedAt :: "time option"
  go_CompletedAt :: "time option"

record AggregateInitialization =
  ai_GenesisUID :: string
  ai_GenesisDigest :: string
  ai_GateIndex :: int
  ai_AuthorizedCeiling :: int
  ai_Completed :: bool
  ai_Gates :: "GateObservation list"

record BurnHeightSample =
  bh_Participant :: Binding
  bh_Pod :: Binding
  bh_ContainerID :: string
  bh_ConfigurationDigest :: string
  bh_Height :: u64
  bh_FirstObservedAt :: time

record BurnchainObservations =
  bo_Bitcoin :: "BurnHeightSample option"
  bo_Miner :: "BurnHeightSample option"

record AggregateNetwork =
  rn_Name :: string
  rn_Namespace :: string
  rn_UID :: string
  rn_Deleted :: bool
  rn_Generation :: int
  rn_Operation :: string
  rn_Participants :: "AggregateEntry list"
  rn_Phase :: string
  rn_Conditions :: "(string \<times> Condition) list"
  rn_Identities :: "InstanceIdentity list"
  rn_GenesisRef :: "Binding option"
  rn_GenesisDigest :: string
  rn_Initialization :: "AggregateInitialization option"
  rn_Bitcoin :: "BitcoinStatus option"
  rn_Burnchain :: "BurnchainObservations option"

text \<open>\<open>meta.IsStatusConditionTrue\<close> and \<open>set\<close> of \<open>reconciler.go\<close>; transition times and messages are left out.\<close>

definition condition_true :: "AggregateNetwork \<Rightarrow> string \<Rightarrow> bool" where
  "condition_true root kind = (case map_of (rn_Conditions root) kind of Some c \<Rightarrow> cond_Status c = ConditionTrue | None \<Rightarrow> False)"

definition set_condition :: "string \<Rightarrow> ConditionStatus \<Rightarrow> string \<Rightarrow> AggregateNetwork \<Rightarrow> AggregateNetwork" where
  "set_condition kind status reason root =
     root\<lparr>rn_Conditions := AList.update kind
       \<lparr>cond_Status = status, cond_Reason = reason, cond_ObservedGeneration = rn_Generation root\<rparr> (rn_Conditions root)\<rparr>"

lemma set_condition_true [simp]:
  "condition_true (set_condition kind status reason root) kind' \<longleftrightarrow>
     (if kind = kind' then status = ConditionTrue else condition_true root kind')"
  by (simp add: condition_true_def set_condition_def update_conv')

definition ledger_view :: "AggregateNetwork \<Rightarrow> StacksNetwork" where
  "ledger_view root =
     \<lparr>net_Name = rn_Name root, net_Namespace = rn_Namespace root, net_UID = rn_UID root, net_Deleted = rn_Deleted root,
      net_Generation = rn_Generation root, net_Operation = rn_Operation root,
      net_Participants = map ParticipantEntry.truncate (rn_Participants root), net_Phase = rn_Phase root,
      net_FailedCondition = condition_true root ''Failed'', net_Identities = rn_Identities root\<rparr>"

definition scheduler_state :: "AggregateInitialization \<Rightarrow> InitializationStatus" where
  "scheduler_state s =
     \<lparr>is_GenesisUID = ai_GenesisUID s, is_GenesisDigest = ai_GenesisDigest s, is_GateIndex = ai_GateIndex s,
      is_AuthorizedCeiling = ai_AuthorizedCeiling s, is_Completed = ai_Completed s,
      is_Gates = map (\<lambda>gate. (go_Name gate, go_CompletedAt gate)) (ai_Gates s)\<rparr>"

definition scheduler_view :: "AggregateNetwork \<Rightarrow> BitcoinNetwork" where
  "scheduler_view root =
     StacksNetwork.extend (ledger_view root)
       (BitcoinNetwork.fields (rn_GenesisRef root) (rn_GenesisDigest root)
          (map_option scheduler_state (rn_Initialization root)) (rn_Bitcoin root))"

section \<open>The frozen requirements\<close>

record RegistryInitialization =
  ri_Mode :: string
  ri_SignerAccountRefs :: "string list"
  ri_AggregateKeyAccountRef :: string
  ri_Threshold :: int

record PublicAccount =
  pa_Name :: string
  pa_Address :: string
  pa_PublicKey :: string

record CapturedRequirement =
  rq_Kind :: string
  rq_Participant :: Binding
  rq_Dependencies :: "Binding list"
  rq_MiningEnabled :: "bool option"
  rq_AmountMicroSTX :: "string option"
  rq_LockCycles :: "int option"
  rq_RenewWhenRemainingCycles :: "int option"
  rq_BitcoinPayoutWallet :: "Binding option"
  rq_BitcoinInitialization :: "InitializationPolicy option"
  rq_RegistryInitialization :: "RegistryInitialization option"
  rq_Accounts :: "PublicAccount list"

record FrozenGate = Gate +
  gate_TargetCycle :: "int option"

text \<open>A frozen genesis with the digests of its specification, its chain and its source hashes beside them.\<close>

record FrozenGenesis =
  fg_UID :: string
  fg_Owner :: string
  fg_Deleted :: bool
  fg_SourceNetworkUID :: string
  fg_ChainDigest :: string
  fg_SpecDigest :: string
  fg_Epochs :: "(string \<times> int) list"
  fg_Gates :: "FrozenGate list"
  fg_Requirements :: "CapturedRequirement list"
  fg_Deployer :: string
  fg_Bundle :: string
  fg_SourceHashesDigest :: string

definition scheduler_genesis :: "FrozenGenesis \<Rightarrow> StacksGenesis" where
  "scheduler_genesis g =
     \<lparr>gs_UID = fg_UID g, gs_Owner = fg_Owner g, gs_Deleted = fg_Deleted g, gs_SourceNetworkUID = fg_SourceNetworkUID g,
      gs_ChainDigest = fg_ChainDigest g, gs_SpecDigest = fg_SpecDigest g, gs_Epochs = fg_Epochs g,
      gs_Gates = map Gate.truncate (fg_Gates g),
      gs_Requirements = map (\<lambda>r. \<lparr>req_Kind = rq_Kind r, req_Participant = rq_Participant r,
                                  req_MiningEnabled = rq_MiningEnabled r = Some True\<rparr>) (fg_Requirements g)\<rparr>"

section \<open>Participants\<close>

text \<open>The Stacks branches of an admitted configuration; a mining role is whether it is enabled.\<close>

record StacksNodeSpec =
  nd_Unverified :: bool
  nd_MiningEnabled :: bool

record StacksSignerSpec =
  sg_Unverified :: bool
  sg_AccountRef :: "string option"

record StacksStackerSpec =
  sk_HolderAccountRef :: "string option"
  sk_AdministratorAccountRef :: "string option"
  sk_SignerRef :: "string option"
  sk_AmountMicroSTX :: "string option"
  sk_LockCycles :: "int option"
  sk_RenewWhenRemainingCycles :: "int option"

text \<open>\<open>cf_StacksContractSet\<close> is the registry initialization of a contract set, when that branch is present.\<close>

record StacksConfiguration =
  cf_StacksNode :: "StacksNodeSpec option"
  cf_StacksSigner :: "StacksSignerSpec option"
  cf_StacksStacker :: "StacksStackerSpec option"
  cf_StacksContractSet :: "RegistryInitialization option option"

record PoX4EnrollmentObservation =
  p4_Holder :: string
  p4_SignerPublicKey :: string
  p4_AmountMicroSTX :: string
  p4_FirstCycle :: u64
  p4_EndCycleExclusive :: u64
  p4_TargetCycle :: u64
  p4_TargetCycleMatched :: bool
  p4_ObservedAt :: time

record PoX5EnrollmentObservation = PoX4EnrollmentObservation +
  p5_Manager :: string
  p5_ManagerSourceDigest :: string
  p5_DelegatedAmountMicroSTX :: string

record ContractSetObservation =
  co_Deployer :: string
  co_Bundle :: string
  co_SourceDigest :: string
  co_SignerPublicKeys :: "string list"
  co_AggregatePublicKey :: string
  co_Threshold :: u64
  co_SignerPrincipal :: string
  co_Complete :: bool
  co_ObservedAt :: time

record PreparedSignerObservation =
  ps_PublicKey :: string
  ps_Weight :: u64
  ps_StackedAmount :: string

record PreparedSignerSetObservation =
  pss_Cycle :: u64
  pss_Available :: bool
  pss_Version :: nat
  pss_Threshold :: string
  pss_Signers :: "PreparedSignerObservation list"
  pss_ObservedAt :: time

text \<open>What the aggregate reads of a participant beyond the control lifecycle. The configuration is read only with an
  admission, the observations only with the execution or runtime status that holds them.\<close>

record RuntimeParticipant = ControlParticipant +
  np_Configuration :: StacksConfiguration
  np_PoX4 :: "PoX4EnrollmentObservation option"
  np_PoX5 :: "PoX5EnrollmentObservation option"
  np_Contracts :: "ContractSetObservation option"
  np_Traffic :: "TrafficObservation option"
  np_PreparedSet :: "PreparedSignerSetObservation option"
  np_PoXContract :: string
  np_WorkloadUnknown :: bool
  np_PodIP :: string
  np_Endpoints :: "(string \<times> int) list"
  np_WorkloadRefs :: "Binding list"
  np_Namespace :: string
  np_OwnerAPIVersion :: string
  np_OwnerKind :: string
  np_OwnerName :: string
  np_RuntimeEmpty :: bool
  np_WorkerCandidate :: "WorkerCandidate option"

text \<open>What the session ledger sees of a participant.\<close>

definition session_participant :: "RuntimeParticipant \<Rightarrow> StacksNetworkParticipant" where
  "session_participant p =
     \<lparr>part_Name = bp_Name p, part_Namespace = np_Namespace p, part_UID = bp_UID p,
      part_Owner = (if bp_Owner p = [] then None
                    else Some \<lparr>own_APIVersion = np_OwnerAPIVersion p, own_Kind = np_OwnerKind p, own_Name = np_OwnerName p,
                               own_UID = bp_Owner p\<rparr>),
      part_Finalizers = bp_Finalizers p, part_Deleted = bp_Deleted p, part_NetworkUID = bp_NetworkUID p,
      part_ParticipantName = bp_ParticipantName p, part_Kind = bp_Kind p, part_Admitted = bp_Admission p \<noteq> None,
      part_Execution = map_option WorkerExecutionStatus.truncate (bp_Execution p),
      part_Runtime = map_option (\<lambda>_. (np_RuntimeEmpty p, np_WorkerCandidate p)) (bp_Runtime p)\<rparr>"

section \<open>Policies (bootstrap_policy.go)\<close>

definition unverified :: "Admission \<Rightarrow> StacksConfiguration \<Rightarrow> bool" where
  "unverified admission cf =
     (case cf_StacksNode cf of
        Some node \<Rightarrow> nd_Unverified node
      | None \<Rightarrow>
          (case cf_StacksSigner cf of
             Some signer \<Rightarrow> sg_Unverified signer
           | None \<Rightarrow> (case adm_BitcoinNode admission of Some node \<Rightarrow> bc_Unverified node | None \<Rightarrow> False)))"

definition BootstrapPolicyCompatible :: "CapturedRequirement \<Rightarrow> Admission \<Rightarrow> StacksConfiguration \<Rightarrow> bool" where
  "BootstrapPolicyCompatible required admission cf \<longleftrightarrow>
     \<not> unverified admission cf
     \<and> (if rq_Kind required = ''BitcoinNode''
        then (case adm_BitcoinNode admission of
                None \<Rightarrow> False
              | Some node \<Rightarrow> list_all (\<lambda>b. Kind b = ''BitcoinWallet'' \<longrightarrow> Name b \<in> set (bc_WalletRefs node)) (rq_Dependencies required))
        else if rq_Kind required = ''BitcoinBlockProduction''
        then (case (adm_BitcoinBlockProduction admission, rq_BitcoinPayoutWallet required) of
                (Some p, Some wallet) \<Rightarrow>
                  pp_PayoutWalletRef p = Some (Name wallet) \<and> pp_Initialization p = rq_BitcoinInitialization required
              | _ \<Rightarrow> False)
        else if rq_Kind required = ''StacksNode''
        then (case (cf_StacksNode cf, rq_MiningEnabled required) of
                (Some p, Some enabled) \<Rightarrow> enabled = nd_MiningEnabled p
              | _ \<Rightarrow> False)
        else if rq_Kind required = ''StacksStacker''
        then (case cf_StacksStacker cf of
                None \<Rightarrow> False
              | Some p \<Rightarrow>
                  sk_AmountMicroSTX p = rq_AmountMicroSTX required \<and> sk_LockCycles p = rq_LockCycles required
                  \<and> sk_RenewWhenRemainingCycles p = rq_RenewWhenRemainingCycles required)
        else if rq_Kind required = ''StacksContractSet''
        then cf_StacksContractSet cf = Some (rq_RegistryInitialization required)
        else True)"

section \<open>Identity and freshness (cohort.go, prepared.go)\<close>

definition fresh :: "time \<Rightarrow> time \<Rightarrow> bool" where
  "fresh at now \<longleftrightarrow> at \<noteq> 0 \<and> \<not> at > now \<and> now - at \<le> ObservationFreshness"

text \<open>The root still declares an entry with the participant's name and kind.\<close>

definition declared :: "AggregateNetwork \<Rightarrow> 'a BitcoinParticipant_scheme \<Rightarrow> bool" where
  "declared root p \<longleftrightarrow>
     list_ex (\<lambda>e. entry_Name e = bp_ParticipantName p \<and> entry_Kind e = bp_Kind p) (rn_Participants root)"

definition owned_by :: "AggregateNetwork \<Rightarrow> 'a BitcoinParticipant_scheme \<Rightarrow> bool" where
  "owned_by root p \<longleftrightarrow> bp_NetworkUID p = rn_UID root \<and> bp_Owner p = rn_UID root"

definition selectedInstance :: "AggregateNetwork \<Rightarrow> 'a BitcoinParticipant_scheme \<Rightarrow> bool" where
  "selectedInstance root p \<longleftrightarrow>
     \<not> bp_Deleted p \<and> owned_by root p \<and> declared root p
     \<and> list_ex (\<lambda>i. ii_Name i = bp_ParticipantName p \<and> ii_UID i = bp_UID p \<and> \<not> ii_Removing i) (rn_Identities root)"

definition currentActorReady :: "'a BitcoinParticipant_scheme \<Rightarrow> bool" where
  "currentActorReady p =
     (case (bp_Runtime p, bp_Admission p) of
        (Some rt, Some admission) \<Rightarrow>
          \<not> rt_Terminated rt \<and> rt_ObservedGeneration rt = bp_Generation p \<and> rt_PodRef rt \<noteq> None \<and> rt_ContainerID rt \<noteq> []
          \<and> rt_PolicyDigest rt = adm_PolicyDigest admission
          \<and> verified_condition (bp_ConfigVerified p) (bp_Generation p)
          \<and> verified_condition (bp_WorkloadReady p) (bp_Generation p)
      | _ \<Rightarrow> False)"

definition policy_admitted :: "CapturedRequirement \<Rightarrow> RuntimeParticipant \<Rightarrow> bool" where
  "policy_admitted requirement p =
     (case bp_Admission p of
        None \<Rightarrow> False
      | Some admission \<Rightarrow> BootstrapPolicyCompatible requirement admission (np_Configuration p))"

definition requiredParticipant ::
  "AggregateNetwork \<Rightarrow> CapturedRequirement \<Rightarrow> RuntimeParticipant list \<Rightarrow> RuntimeParticipant option" where
  "requiredParticipant root requirement participants =
     find (\<lambda>p. bp_UID p = UID (rq_Participant requirement) \<and> bp_Name p = Name (rq_Participant requirement)
             \<and> \<not> bp_Deleted p \<and> bp_Kind p = rq_Kind requirement \<and> owned_by root p \<and> policy_admitted requirement p
             \<and> declared root p) participants"

text \<open>The session of the last identity that matches; a match without a worker hides an earlier one.\<close>

definition bound_session :: "AggregateNetwork \<Rightarrow> 'a BitcoinParticipant_scheme \<Rightarrow> WorkerSession option" where
  "bound_session root p =
     (case find (\<lambda>i. ii_Name i = bp_ParticipantName p \<and> ii_UID i = bp_UID p \<and> \<not> ii_Removing i) (rev (rn_Identities root)) of
        Some i \<Rightarrow> ii_Worker i | None \<Rightarrow> None)"

definition worker_bound :: "AggregateNetwork \<Rightarrow> RuntimeParticipant \<Rightarrow> bool" where
  "worker_bound root p =
     (case (bound_session root p, bp_Execution p) of
        (Some session, Some execution) \<Rightarrow>
          ws_Shutdown session = None \<and> ws_Disposal session = None
          \<and> we_PodUID execution = wp_UID (ws_Pod session) \<and> we_ProfileDigest execution = ws_ProfileDigest session
          \<and> we_ProcessNonce execution \<noteq> [] \<and> we_AppliedPolicyDigest execution = policy_digest (BitcoinParticipant.truncate p)
          \<and> we_Phase execution \<noteq> ''Failed'' \<and> we_Phase execution \<noteq> ''Unknown''
          \<and> we_ObservedGeneration execution = bp_Generation p
          \<and> verified_condition (bp_WorkloadReady p) (bp_Generation p)
      | _ \<Rightarrow> False)"

definition requiredWorker ::
  "AggregateNetwork \<Rightarrow> CapturedRequirement \<Rightarrow> RuntimeParticipant list \<Rightarrow> RuntimeParticipant option" where
  "requiredWorker root requirement participants =
     Option.bind (requiredParticipant root requirement participants) (\<lambda>p. if worker_bound root p then Some p else None)"

definition capturedAccount :: "CapturedRequirement \<Rightarrow> string \<Rightarrow> string \<times> string" where
  "capturedAccount requirement name =
     (case find (\<lambda>a. pa_Name a = name) (rq_Accounts requirement) of
        Some a \<Rightarrow> (pa_Address a, pa_PublicKey a) | None \<Rightarrow> ([], []))"

definition captured_signer ::
  "AggregateNetwork \<Rightarrow> CapturedRequirement \<Rightarrow> string \<Rightarrow> RuntimeParticipant list \<Rightarrow> string \<Rightarrow> CapturedRequirement \<Rightarrow> bool" where
  "captured_signer root requirement signerRef participants key required \<longleftrightarrow>
     rq_Kind required = ''StacksSigner''
     \<and> (case requiredParticipant root required participants of
          None \<Rightarrow> False
        | Some signer \<Rightarrow>
            bp_ParticipantName signer = signerRef
            \<and> (case Option.bind (cf_StacksSigner (np_Configuration signer)) sg_AccountRef of
                 None \<Rightarrow> False
               | Some account \<Rightarrow>
                   list_ex (\<lambda>dep. Kind dep = ''StacksNetworkParticipant'' \<and> Name dep = bp_Name signer \<and> UID dep = bp_UID signer)
                     (rq_Dependencies requirement)
                   \<and> key \<noteq> [] \<and> key = snd (capturedAccount required account)))"

definition capturedSigner ::
  "AggregateNetwork \<Rightarrow> FrozenGenesis \<Rightarrow> CapturedRequirement \<Rightarrow> RuntimeParticipant \<Rightarrow> RuntimeParticipant list \<Rightarrow> string \<Rightarrow> bool" where
  "capturedSigner root g requirement p participants key =
     (case Option.bind (cf_StacksStacker (np_Configuration p)) sk_SignerRef of
        None \<Rightarrow> False
      | Some signerRef \<Rightarrow> list_ex (captured_signer root requirement signerRef participants key) (fg_Requirements g))"

section \<open>Enrollment cohorts (cohort.go)\<close>

text \<open>The checks both generations share on an enrollment, for the frozen cycle and amount.\<close>

definition enrolled :: "CapturedRequirement \<Rightarrow> int \<Rightarrow> time \<Rightarrow> 'a PoX4EnrollmentObservation_scheme \<Rightarrow> bool" where
  "enrolled requirement cycle now o' \<longleftrightarrow>
     fresh (p4_ObservedAt o') now \<and> p4_TargetCycleMatched o' \<and> p4_TargetCycle o' = of_int cycle
     \<and> \<not> p4_FirstCycle o' > p4_TargetCycle o' \<and> \<not> p4_EndCycleExclusive o' \<le> p4_TargetCycle o'
     \<and> rq_AmountMicroSTX requirement = Some (p4_AmountMicroSTX o')"

definition pox4_enrolled ::
  "AggregateNetwork \<Rightarrow> FrozenGenesis \<Rightarrow> RuntimeParticipant list \<Rightarrow> int \<Rightarrow> time \<Rightarrow> CapturedRequirement \<Rightarrow> bool" where
  "pox4_enrolled root g participants cycle now requirement =
     (case requiredWorker root requirement participants of
        None \<Rightarrow> False
      | Some p \<Rightarrow>
          (case (np_PoX4 p, Option.bind (cf_StacksStacker (np_Configuration p)) sk_HolderAccountRef) of
             (Some o', Some account) \<Rightarrow>
               let holder = fst (capturedAccount requirement account) in
               enrolled requirement cycle now o' \<and> holder \<noteq> [] \<and> holder = p4_Holder o'
               \<and> capturedSigner root g requirement p participants (p4_SignerPublicKey o')
           | _ \<Rightarrow> False))"

text \<open>Every requirement of a kind, and at least one.\<close>

definition every_required :: "string \<Rightarrow> FrozenGenesis \<Rightarrow> (CapturedRequirement \<Rightarrow> bool) \<Rightarrow> bool" where
  "every_required kind g ok \<longleftrightarrow>
     (let required = filter (\<lambda>r. rq_Kind r = kind) (fg_Requirements g) in required \<noteq> [] \<and> list_all ok required)"

definition pox4CohortSatisfied ::
  "AggregateNetwork \<Rightarrow> FrozenGenesis \<Rightarrow> RuntimeParticipant list \<Rightarrow> FrozenGate \<Rightarrow> time \<Rightarrow> bool" where
  "pox4CohortSatisfied root g participants gate now =
     (case gate_TargetCycle gate of
        None \<Rightarrow> False
      | Some cycle \<Rightarrow> cycle \<ge> 0 \<and> every_required ''StacksStacker'' g (pox4_enrolled root g participants cycle now))"

text \<open>\<open>protocolcontracts.DirectManager\<close>, which renders an embedded template, and the digests of package \<open>foundation\<close>
  over values other than strings.\<close>

record protocol_code =
  DirectManager :: "string \<Rightarrow> string result"
  prepared_digest :: "nat \<Rightarrow> string \<Rightarrow> PreparedSignerObservation list \<Rightarrow> string"
  registry_digest :: "RegistryInitialization option \<Rightarrow> string"

definition pox5_enrolled ::
  "protocol_code \<Rightarrow> AggregateNetwork \<Rightarrow> FrozenGenesis \<Rightarrow> RuntimeParticipant list \<Rightarrow> int \<Rightarrow> time \<Rightarrow> CapturedRequirement \<Rightarrow> bool" where
  "pox5_enrolled C root g participants cycle now requirement =
     (case requiredWorker root requirement participants of
        None \<Rightarrow> False
      | Some p \<Rightarrow>
          (case (np_PoX5 p, Option.bind (cf_StacksStacker (np_Configuration p)) sk_HolderAccountRef,
                 Option.bind (cf_StacksStacker (np_Configuration p)) sk_AdministratorAccountRef) of
             (Some o', Some account, Some administratorRef) \<Rightarrow>
               let holder = fst (capturedAccount requirement account);
                   administrator = fst (capturedAccount requirement administratorRef)
               in enrolled requirement cycle now o' \<and> p5_DelegatedAmountMicroSTX o' = p4_AmountMicroSTX o'
                  \<and> (case DirectManager C holder of
                       Inl _ \<Rightarrow> False
                     | Inr source \<Rightarrow>
                         holder = p4_Holder o' \<and> administrator \<noteq> [] \<and> p5_Manager o' = administrator @ ''.direct-signer''
                         \<and> p5_ManagerSourceDigest o' = ''sha256:'' @ hex_encode (sha256 (str_bytes source))
                         \<and> capturedSigner root g requirement p participants (p4_SignerPublicKey o'))
           | _ \<Rightarrow> False))"

definition pox5CohortSatisfied ::
  "protocol_code \<Rightarrow> AggregateNetwork \<Rightarrow> FrozenGenesis \<Rightarrow> RuntimeParticipant list \<Rightarrow> FrozenGate \<Rightarrow> time \<Rightarrow> bool" where
  "pox5CohortSatisfied C root g participants gate now =
     (case gate_TargetCycle gate of
        None \<Rightarrow> False
      | Some cycle \<Rightarrow> cycle \<ge> 0 \<and> every_required ''StacksStacker'' g (pox5_enrolled C root g participants cycle now))"

section \<open>Prepared signer sets (prepared.go)\<close>

definition prepared_actor ::
  "AggregateNetwork \<Rightarrow> RuntimeParticipant list \<Rightarrow> CapturedRequirement \<Rightarrow> RuntimeParticipant option" where
  "prepared_actor root participants requirement =
     (case find (\<lambda>p. bp_UID p = UID (rq_Participant requirement)) participants of
        None \<Rightarrow> None
      | Some p \<Rightarrow>
          if bp_Kind p = rq_Kind requirement \<and> owned_by root p \<and> \<not> bp_Deleted p \<and> policy_admitted requirement p
             \<and> currentActorReady p \<and> declared root p
          then Some p else None)"

text \<open>The consensus key of a required signer: the last captured account with the name its policy gives.\<close>

definition signer_key :: "CapturedRequirement \<Rightarrow> RuntimeParticipant \<Rightarrow> string" where
  "signer_key requirement p =
     (case Option.bind (cf_StacksSigner (np_Configuration p)) sg_AccountRef of
        None \<Rightarrow> []
      | Some name \<Rightarrow>
          (case find (\<lambda>a. pa_Name a = name) (rev (rq_Accounts requirement)) of Some a \<Rightarrow> pa_PublicKey a | None \<Rightarrow> []))"

text \<open>The required nodes and the consensus keys of the required signers, if all of them are ready.\<close>

fun prepared_actors ::
  "AggregateNetwork \<Rightarrow> RuntimeParticipant list \<Rightarrow> CapturedRequirement list \<Rightarrow> (RuntimeParticipant list \<times> string list) option" where
  "prepared_actors root participants [] = Some ([], [])"
| "prepared_actors root participants (requirement # rest) =
     (if rq_Kind requirement \<noteq> ''StacksNode'' \<and> rq_Kind requirement \<noteq> ''StacksSigner''
      then prepared_actors root participants rest
      else case prepared_actor root participants requirement of
        None \<Rightarrow> None
      | Some p \<Rightarrow>
          if rq_Kind requirement = ''StacksNode''
          then map_option (\<lambda>(nodes, keys). (p # nodes, keys)) (prepared_actors root participants rest)
          else if signer_key requirement p = [] then None
          else map_option (\<lambda>(nodes, keys). (nodes, signer_key requirement p # keys)) (prepared_actors root participants rest))"

text \<open>A node's protocol observation of the current process on the frozen chain.\<close>

definition current_protocol :: "FrozenGenesis \<Rightarrow> time \<Rightarrow> 'a BitcoinParticipant_scheme \<Rightarrow> StacksProtocolObservation option" where
  "current_protocol g now p =
     Option.bind (bp_Runtime p) (\<lambda>state. Option.bind (rt_Protocol state) (\<lambda>view.
       if pv_Available view \<and> pv_NetworkID view = 0x80000000 \<and> pv_GenesisUID view = fg_UID g
          \<and> (case rt_PodRef state of Some pod \<Rightarrow> pv_PodUID view = UID pod | None \<Rightarrow> False)
          \<and> pv_ContainerID view = rt_ContainerID state \<and> pv_ConfigurationDigest view = rt_ConfigurationDigest state
          \<and> fresh (pv_ObservedAt view) now
       then Some view else None))"

definition prepared_signers :: "string list \<Rightarrow> PreparedSignerObservation list \<Rightarrow> bool" where
  "prepared_signers expected signers \<longleftrightarrow>
     list_all (\<lambda>s. ps_PublicKey s \<in> set expected \<and> ps_Weight s \<noteq> 0 \<and> ps_StackedAmount s \<noteq> [] \<and> ps_StackedAmount s \<noteq> ''0'') signers
     \<and> distinct (map ps_PublicKey signers)"

definition prepared_set ::
  "protocol_code \<Rightarrow> FrozenGenesis \<Rightarrow> string list \<Rightarrow> int \<Rightarrow> time \<Rightarrow> RuntimeParticipant \<Rightarrow> string option" where
  "prepared_set C g expected cycle now node =
     (case (current_protocol g now node, np_PreparedSet node) of
        (Some view, Some s) \<Rightarrow>
          if pv_FullySynced view \<and> pss_Available s \<and> pss_Cycle s = of_int cycle \<and> fresh (pss_ObservedAt s) now
             \<and> length (pss_Signers s) = card (set expected) \<and> pss_Threshold s \<noteq> [] \<and> prepared_signers expected (pss_Signers s)
          then Some (prepared_digest C (pss_Version s) (pss_Threshold s) (sort_key ps_PublicKey (pss_Signers s)))
          else None
      | _ \<Rightarrow> None)"

fun prepared_sets ::
  "protocol_code \<Rightarrow> FrozenGenesis \<Rightarrow> string list \<Rightarrow> int \<Rightarrow> time \<Rightarrow> string \<Rightarrow> RuntimeParticipant list \<Rightarrow> bool" where
  "prepared_sets C g expected cycle now canonicalSet [] = True"
| "prepared_sets C g expected cycle now canonicalSet (node # nodes) =
     (case prepared_set C g expected cycle now node of
        None \<Rightarrow> False
      | Some digest \<Rightarrow>
          (canonicalSet = [] \<or> canonicalSet = digest) \<and> prepared_sets C g expected cycle now digest nodes)"

definition preparedCohortSatisfied ::
  "protocol_code \<Rightarrow> AggregateNetwork \<Rightarrow> FrozenGenesis \<Rightarrow> RuntimeParticipant list \<Rightarrow> FrozenGate \<Rightarrow> time \<Rightarrow> bool" where
  "preparedCohortSatisfied C root g participants gate now =
     (case (gate_TargetCycle gate, prepared_actors root participants (fg_Requirements g)) of
        (Some cycle, Some (nodes, expected)) \<Rightarrow>
          cycle \<ge> 0 \<and> nodes \<noteq> [] \<and> expected \<noteq> [] \<and> prepared_sets C g expected cycle now [] nodes
      | _ \<Rightarrow> False)"

section \<open>Contracts (contracts.go)\<close>

definition contractObservationMatches ::
  "ContractSetObservation option \<Rightarrow> FrozenGenesis \<Rightarrow> CapturedRequirement \<Rightarrow> time \<Rightarrow> bool" where
  "contractObservationMatches observation g requirement now =
     (case (observation, rq_RegistryInitialization requirement) of
        (Some o', Some registry) \<Rightarrow>
          let keys = map (\<lambda>name. snd (capturedAccount requirement name)) (ri_SignerAccountRefs registry);
              aggregate = snd (capturedAccount requirement (ri_AggregateKeyAccountRef registry))
          in co_Complete o' \<and> fresh (co_ObservedAt o') now \<and> co_Deployer o' = fg_Deployer g \<and> co_Bundle o' = fg_Bundle g
             \<and> co_SourceDigest o' = fg_SourceHashesDigest g
             \<and> ri_Threshold registry \<ge> 1 \<and> ri_Mode registry = ''ExplicitTestRegistry'' \<and> co_Threshold o' = of_int (ri_Threshold registry)
             \<and> list_all (\<lambda>key. key \<noteq> []) keys \<and> aggregate \<noteq> [] \<and> aggregate = co_AggregatePublicKey o'
             \<and> keys = co_SignerPublicKeys o'
             \<and> (case DecodeAddress (co_SignerPrincipal o') of Inr (v, _) \<Rightarrow> v = 21 | Inl _ \<Rightarrow> False)
      | _ \<Rightarrow> False)"

definition contract_satisfied ::
  "AggregateNetwork \<Rightarrow> FrozenGenesis \<Rightarrow> RuntimeParticipant list \<Rightarrow> time \<Rightarrow> CapturedRequirement \<Rightarrow> bool" where
  "contract_satisfied root g participants now requirement =
     (case requiredWorker root requirement participants of
        None \<Rightarrow> False
      | Some p \<Rightarrow> rq_RegistryInitialization requirement \<noteq> None \<and> contractObservationMatches (np_Contracts p) g requirement now)"

definition contractCohortSatisfied ::
  "AggregateNetwork \<Rightarrow> FrozenGenesis \<Rightarrow> RuntimeParticipant list \<Rightarrow> time \<Rightarrow> bool" where
  "contractCohortSatisfied root g participants now =
     every_required ''StacksContractSet'' g (contract_satisfied root g participants now)"

end
