(* ===== verification/Network_Gates.thy ===== *)
theory Network_Gates
  imports Gate_Evidence
begin

text \<open>
  Model of \<open>gates.go\<close> and \<open>bitcoin_observation.go\<close> of \<open>operators/network/internal/networkruntime\<close>, with the two
  projections of \<open>reconciler.go\<close> they use and \<open>bootstrapCompletedGates\<close> of \<open>foundation/bootstrap_policy.go\<close>: the aggregate's
  progress through the frozen gates. A pass reads through \<open>gate_reads\<close>; a transition found on cached reads is confirmed by a
  second pass on current ones. The states it writes are shown to progress monotonically, to rest on evidence, and to be
  accepted by the scheduler and by the admission of policies.
\<close>

section \<open>Process identity (bitcoin_observation.go)\<close>

record SecretMetadata =
  sec_UID :: string
  sec_Deleted :: bool
  sec_Owner :: string

text \<open>A container status: name, container identifier, and whether it is running and ready.\<close>

record ActorPod =
  ap_UID :: string
  ap_Deleted :: bool
  ap_PodIP :: string
  ap_NetworkLabel :: string
  ap_ParticipantLabel :: string
  ap_Owner :: "OwnerReference option"
  ap_Containers :: "(string \<times> string \<times> bool \<times> bool) list"

record StatefulSet =
  sf_Name :: string
  sf_UID :: string
  sf_Deleted :: bool
  sf_Owner :: string
  sf_Replicas :: "int option"

record gate_reads =
  gr_now :: time
  gr_genesis :: "string \<Rightarrow> FrozenGenesis get"
  gr_execution :: "string \<Rightarrow> BitcoinExecution get"
  gr_participant :: "string \<Rightarrow> RuntimeParticipant get"
  gr_secret :: "string \<Rightarrow> SecretMetadata get"
  gr_pod :: "string \<Rightarrow> ActorPod get"
  gr_workload :: "string \<Rightarrow> StatefulSet get"

definition bitcoinTargetMatchesRuntime :: "'a BitcoinParticipant_scheme \<Rightarrow> BitcoinObservation \<Rightarrow> bool" where
  "bitcoinTargetMatchesRuntime p observation =
     (case bp_Runtime p of
        None \<Rightarrow> False
      | Some state \<Rightarrow>
          (case (rt_PodRef state, rt_ConfigRef state, rt_RPCSecretRef state, bp_Admission p) of
             (Some pod, Some config, Some secret, Some admission) \<Rightarrow>
               let target = obs_Target observation in
               UID (target_Participant target) = bp_UID p \<and> Name (target_Participant target) = bp_Name p
               \<and> UID (target_Pod target) = UID pod \<and> Name (target_Pod target) = Name pod
               \<and> target_ContainerID target = rt_ContainerID state
               \<and> UID (target_Configuration target) = UID config \<and> Name (target_Configuration target) = Name config
               \<and> UID (target_Credentials target) = UID secret \<and> Name (target_Credentials target) = Name secret
               \<and> target_PolicyDigest target = adm_PolicyDigest admission
           | _ \<Rightarrow> False))"

text \<open>\<open>strconv.Itoa\<close> for a port and \<open>net.JoinHostPort\<close>.\<close>

fun itoa :: "nat \<Rightarrow> string" where
  "itoa n = (if n < 10 then [char_of (48 + n)] else itoa (n div 10) @ [char_of (48 + n mod 10)])"

definition JoinHostPort :: "string \<Rightarrow> string \<Rightarrow> string" where
  "JoinHostPort host port = (if CHR '':'' \<in> set host then ''['' @ host @ '']:'' @ port else host @ '':'' @ port)"

definition bitcoinEndpointMatches :: "(string \<times> int) list \<Rightarrow> BitcoinTargetIdentity \<Rightarrow> string \<Rightarrow> bool" where
  "bitcoinEndpointMatches endpoints target podIP =
     (case find (\<lambda>(name, port). name = ''rpc'' \<and> port > 0 \<and> port \<le> 65535) endpoints of
        None \<Rightarrow> False
      | Some (_, port) \<Rightarrow> target_Endpoint target = ''http://'' @ JoinHostPort podIP (itoa (nat port)))"

definition secret_bound :: "gate_reads \<Rightarrow> RuntimeParticipant \<Rightarrow> Binding option \<Rightarrow> bool result" where
  "secret_bound R p ref =
     (case ref of
        None \<Rightarrow> Inr False
      | Some b \<Rightarrow> rbind (fetched (gr_secret R (Name b))) (\<lambda>metadata.
          Inr (sec_UID metadata = UID b \<and> \<not> sec_Deleted metadata \<and> sec_Owner metadata = bp_UID p)))"

definition process_running :: "ActorPod \<Rightarrow> string \<Rightarrow> bool" where
  "process_running pod containerID \<longleftrightarrow>
     list_ex (\<lambda>(name, i, running, ready). name = ''bitcoin'' \<and> i = containerID \<and> running \<and> ready) (ap_Containers pod)"

definition workload_bound :: "RuntimeParticipant \<Rightarrow> string \<Rightarrow> StatefulSet \<Rightarrow> bool" where
  "workload_bound p ownerUID workload \<longleftrightarrow>
     list_ex (\<lambda>ref. Kind ref = ''StatefulSet'' \<and> Name ref = sf_Name workload \<and> UID ref = sf_UID workload) (np_WorkloadRefs p)
     \<and> sf_UID workload = ownerUID \<and> \<not> sf_Deleted workload \<and> sf_Owner workload = bp_UID p
     \<and> (case sf_Replicas workload of Some n \<Rightarrow> n = 1 | None \<Rightarrow> True)"

text \<open>The Pod of the observed target and the workload that owns it.\<close>

definition observed_process :: "gate_reads \<Rightarrow> AggregateNetwork \<Rightarrow> RuntimeParticipant \<Rightarrow> BitcoinTargetIdentity \<Rightarrow> bool result" where
  "observed_process R root p target =
     rbind (fetched (gr_pod R (Name (target_Pod target)))) (\<lambda>pod.
       if ap_UID pod \<noteq> UID (target_Pod target) \<or> ap_Deleted pod \<or> ap_PodIP pod = []
          \<or> ap_NetworkLabel pod \<noteq> rn_UID root \<or> ap_ParticipantLabel pod \<noteq> bp_UID p
       then Inr False
       else case ap_Owner pod of
         None \<Rightarrow> Inr False
       | Some owner \<Rightarrow>
           if own_Kind owner \<noteq> ''StatefulSet'' then Inr False
           else rbind (fetched (gr_workload R (own_Name owner))) (\<lambda>workload.
             Inr (workload_bound p (own_UID owner) workload \<and> process_running pod (target_ContainerID target)
                  \<and> bitcoinEndpointMatches (np_Endpoints p) target (ap_PodIP pod))))"

definition currentBitcoinObservation :: "gate_reads \<Rightarrow> AggregateNetwork \<Rightarrow> BitcoinExecution \<Rightarrow> bool result" where
  "currentBitcoinObservation R root execution =
     (case Observation execution of
        None \<Rightarrow> Inr False
      | Some observation \<Rightarrow>
          rbind (fetched (gr_participant R (Name (exec_Participant execution)))) (\<lambda>p.
            if bp_UID p \<noteq> UID (exec_Participant execution) \<or> bp_Kind p \<noteq> ''BitcoinNode'' \<or> \<not> selectedInstance root p
               \<or> \<not> currentActorReady p \<or> \<not> bitcoinTargetMatchesRuntime p observation
            then Inr False
            else rbind (secret_bound R p (Option.bind (bp_Runtime p) rt_ConfigRef)) (\<lambda>config.
              if \<not> config then Inr False
              else rbind (secret_bound R p (Option.bind (bp_Runtime p) rt_RPCSecretRef)) (\<lambda>credentials.
                if \<not> credentials then Inr False else observed_process R root p (obs_Target observation)))))"

section \<open>Conditions the aggregate projects (reconciler.go)\<close>

definition projectKnownOperation :: "AggregateNetwork \<Rightarrow> AggregateNetwork" where
  "projectKnownOperation root =
     (if rn_Deleted root \<or> rn_Operation root \<noteq> ''Running'' \<or> condition_true root ''Failed'' then root
      else if condition_true root ''Initialized''
      then set_condition ''Running'' ConditionTrue ''Running'' (root\<lparr>rn_Phase := ''Running''\<rparr>)
      else root)"

definition known_unavailable :: "string \<Rightarrow> AggregateNetwork \<Rightarrow> AggregateNetwork" where
  "known_unavailable reason root =
     set_condition ''Operational'' ConditionFalse reason (set_condition ''Running'' ConditionFalse reason root)"

definition observationUnavailable :: "string \<Rightarrow> AggregateNetwork \<Rightarrow> AggregateNetwork" where
  "observationUnavailable reason root =
     (if rn_Deleted root then known_unavailable ''Deleting'' (root\<lparr>rn_Phase := ''Destroying''\<rparr>)
      else if rn_Operation root = ''Stopped'' then known_unavailable ''Stopped'' root
      else if condition_true root ''Failed'' then known_unavailable ''ExperimentFailed'' (root\<lparr>rn_Phase := ''Failed''\<rparr>)
      else if rn_Operation root = ''Paused'' then known_unavailable ''DesiredPause'' root
      else if \<not> condition_true root ''Initialized'' then known_unavailable ''Initializing'' root
      else set_condition ''Operational'' ConditionUnknown reason (projectKnownOperation root))"

definition fail_network :: "string \<Rightarrow> AggregateNetwork \<Rightarrow> AggregateNetwork" where
  "fail_network reason root = set_condition ''Failed'' ConditionTrue reason (root\<lparr>rn_Phase := ''Failed''\<rparr>)"

section \<open>One pass over the current gate (gates.go)\<close>

definition frozenGenesis :: "gate_reads \<Rightarrow> AggregateNetwork \<Rightarrow> FrozenGenesis result" where
  "frozenGenesis R root =
     (case rn_GenesisRef root of
        None \<Rightarrow> Inl ''genesis unavailable''
      | Some ref \<Rightarrow> rbind (fetched (gr_genesis R (Name ref))) (\<lambda>g.
          if fg_UID g \<noteq> UID ref \<or> fg_Deleted g \<or> fg_Owner g \<noteq> rn_UID root \<or> fg_SourceNetworkUID g \<noteq> rn_UID root
             \<or> fg_SpecDigest g \<noteq> Fingerprint ref \<or> fg_ChainDigest g \<noteq> rn_GenesisDigest root
          then Inl ''frozen genesis identity differs'' else Inr g))"

definition seeded_gates :: "AggregateNetwork \<Rightarrow> FrozenGenesis \<Rightarrow> AggregateInitialization" where
  "seeded_gates root g =
     \<lparr>ai_GenesisUID = fg_UID g, ai_GenesisDigest = rn_GenesisDigest root, ai_GateIndex = 0,
      ai_AuthorizedCeiling = gate_Ceiling (hd (fg_Gates g)), ai_Completed = False,
      ai_Gates = map (\<lambda>gate. \<lparr>go_Name = gate_Name gate, go_FirstCeilingObservedAt = None, go_CompletedAt = None\<rparr>) (fg_Gates g)\<rparr>"

definition gates_ordered :: "FrozenGate list \<Rightarrow> AggregateInitialization \<Rightarrow> bool" where
  "gates_ordered gates state \<longleftrightarrow>
     list_all (\<lambda>i. go_Name (ai_Gates state ! i) = gate_Name (gates ! i)
                 \<and> (go_CompletedAt (ai_Gates state ! i) \<noteq> None \<longleftrightarrow> int i < ai_GateIndex state)) [0..<length gates]"

definition initializeGates :: "AggregateNetwork \<Rightarrow> FrozenGenesis \<Rightarrow> AggregateInitialization result" where
  "initializeGates root g =
     (let gates = fg_Gates g in
      if gates = [] \<or> length gates > 16 then Inl ''frozen gates unavailable''
      else
        let state = (case rn_Initialization root of Some s \<Rightarrow> s | None \<Rightarrow> seeded_gates root g) in
        if ai_GenesisUID state \<noteq> fg_UID g \<or> ai_GenesisDigest state \<noteq> rn_GenesisDigest root
           \<or> length (ai_Gates state) \<noteq> length gates \<or> ai_GateIndex state < 0 \<or> ai_GateIndex state > int (length gates)
        then Inl ''gate identity changed''
        else if \<not> gates_ordered gates state then Inl ''gate order differs''
        else if ai_Completed state \<noteq> (ai_GateIndex state = int (length gates)) then Inl ''gate completion differs''
        else if \<not> ai_Completed state \<and> ai_AuthorizedCeiling state \<noteq> gate_Ceiling (gates ! nat (ai_GateIndex state))
        then Inl ''gate ceiling differs''
        else Inr state)"

text \<open>\<open>initializationHeight\<close>: \<open>None\<close> is a height that is not known.\<close>

definition execution_height ::
  "gate_reads \<Rightarrow> AggregateNetwork \<Rightarrow> BitcoinExecution \<Rightarrow> int option result" where
  "execution_height R root execution =
     (case Observation execution of
        None \<Rightarrow> Inr None
      | Some observation \<Rightarrow>
          if obs_ObservedAt observation > gr_now R \<or> gr_now R - obs_ObservedAt observation > 16 * second then Inr None
          else rbind (currentBitcoinObservation R root execution) (\<lambda>current.
            Inr (if current then Some (obs_Height observation) else None)))"

fun target_height ::
  "gate_reads \<Rightarrow> AggregateNetwork \<Rightarrow> BitcoinInitialization \<Rightarrow> Binding list \<Rightarrow> int option result" where
  "target_height R root record' [] = Inr None"
| "target_height R root record' (binding # rest) =
     rbind (fetched (gr_execution R (Name binding))) (\<lambda>execution.
       if exec_UID execution \<noteq> UID binding \<or> exec_NetworkUID execution \<noteq> rn_UID root \<or> exec_Owner execution \<noteq> rn_UID root
       then Inl ''execution identity unavailable''
       else if UID (exec_Participant execution) \<noteq> UID (init_Target record') then target_height R root record' rest
       else execution_height R root execution)"

definition initializationHeight :: "gate_reads \<Rightarrow> AggregateNetwork \<Rightarrow> BitcoinInitialization \<Rightarrow> int option result" where
  "initializationHeight R root record' =
     (case rn_Bitcoin root of None \<Rightarrow> Inr None | Some b \<Rightarrow> target_height R root record' (bs_ExecutionRefs b))"

definition gate_supported :: "string \<Rightarrow> bool" where
  "gate_supported name \<longleftrightarrow>
     name \<in> {''PrepareBitcoin'', ''EnrollPoX4'', ''PrepareNakamoto'', ''PreparePoX5'', ''EnrollPoX5'', ''PrepareWaterfall''}"

text \<open>The first gate's boundary is the one its execution record observed.\<close>

definition recorded_boundary :: "string \<Rightarrow> BitcoinInitialization \<Rightarrow> GateObservation \<Rightarrow> GateObservation" where
  "recorded_boundary name record' observation =
     (if name = ''PrepareBitcoin'' \<and> go_FirstCeilingObservedAt observation = None
      then observation\<lparr>go_FirstCeilingObservedAt := FirstCeilingObservedAt record'\<rparr> else observation)"

definition observed_boundary :: "int option \<Rightarrow> int \<Rightarrow> time \<Rightarrow> GateObservation \<Rightarrow> GateObservation" where
  "observed_boundary height ceiling now observation =
     (if height = Some ceiling \<and> go_FirstCeilingObservedAt observation = None
      then observation\<lparr>go_FirstCeilingObservedAt := Some now\<rparr> else observation)"

definition prepared_in_time :: "string \<Rightarrow> BitcoinInitialization \<Rightarrow> time \<Rightarrow> bool" where
  "prepared_in_time name record' now \<longleftrightarrow>
     name = ''PrepareBitcoin''
     \<and> (case PreparedAt record' of
          None \<Rightarrow> False
        | Some prepared \<Rightarrow>
            \<not> prepared > now
            \<and> (case FirstCeilingObservedAt record' of None \<Rightarrow> True | Some boundary \<Rightarrow> prepared < boundary + 120 * second))"

definition deadline_passed :: "time \<Rightarrow> GateObservation \<Rightarrow> bool" where
  "deadline_passed now observation =
     (case go_FirstCeilingObservedAt observation of None \<Rightarrow> False | Some boundary \<Rightarrow> \<not> now < boundary + 120 * second)"

definition gate_complete ::
  "protocol_code \<Rightarrow> AggregateNetwork \<Rightarrow> FrozenGenesis \<Rightarrow> RuntimeParticipant list \<Rightarrow> FrozenGate \<Rightarrow> bool \<Rightarrow> bool \<Rightarrow> time \<Rightarrow> bool" where
  "gate_complete C root g participants gate prepared known now =
     (let name = gate_Name gate in
      if name = ''PrepareBitcoin'' then prepared
      else if name = ''EnrollPoX4'' then known \<and> pox4CohortSatisfied root g participants gate now
      else if name = ''PrepareNakamoto''
      then known \<and> pox4CohortSatisfied root g participants gate now \<and> preparedCohortSatisfied C root g participants gate now
      else if name = ''PreparePoX5'' then known \<and> contractCohortSatisfied root g participants now
      else if name = ''EnrollPoX5'' then known \<and> pox5CohortSatisfied C root g participants gate now
      else known \<and> pox5CohortSatisfied C root g participants gate now \<and> preparedCohortSatisfied C root g participants gate now)"

definition put_observation :: "GateObservation \<Rightarrow> AggregateInitialization \<Rightarrow> AggregateInitialization" where
  "put_observation observation state =
     state\<lparr>ai_Gates := (ai_Gates state)[nat (ai_GateIndex state) := observation]\<rparr>"

definition advance_gate :: "FrozenGenesis \<Rightarrow> time \<Rightarrow> GateObservation \<Rightarrow> AggregateInitialization \<Rightarrow> AggregateInitialization" where
  "advance_gate g at observation state =
     (let done = put_observation (observation\<lparr>go_CompletedAt := Some at\<rparr>) state;
          index = ai_GateIndex state + 1
      in if index = int (length (ai_Gates state)) then done\<lparr>ai_GateIndex := index, ai_Completed := True\<rparr>
         else done\<lparr>ai_GateIndex := index, ai_AuthorizedCeiling := gate_Ceiling (fg_Gates g ! nat index)\<rparr>)"

text \<open>The pass on a state that is not completed: whether the network failed, and the root.\<close>

definition project_gate ::
  "protocol_code \<Rightarrow> gate_reads \<Rightarrow> AggregateNetwork \<Rightarrow> BitcoinInitialization \<Rightarrow> RuntimeParticipant list \<Rightarrow> FrozenGenesis
     \<Rightarrow> AggregateInitialization \<Rightarrow> (bool \<times> AggregateNetwork) result" where
  "project_gate C R root record' participants g state =
     (let gate = fg_Gates g ! nat (ai_GateIndex state);
          observation = recorded_boundary (gate_Name gate) record' (ai_Gates state ! nat (ai_GateIndex state));
          now = gr_now R;
          trial = root\<lparr>rn_Initialization := Some (put_observation observation state)\<rparr>
      in rbind (initializationHeight R trial record') (\<lambda>height.
           if (case height of Some h \<Rightarrow> h > gate_Ceiling gate | None \<Rightarrow> False)
           then Inr (True, fail_network ''FrozenCeilingExceeded'' trial)
           else
             let observed = observed_boundary height (gate_Ceiling gate) now observation;
                 prepared = prepared_in_time (gate_Name gate) record' now;
                 noted = root\<lparr>rn_Initialization := Some (put_observation observed state)\<rparr>
             in if \<not> prepared \<and> deadline_passed now observed then Inr (True, fail_network ''BootstrapObservationDeadline'' noted)
                else if gate_complete C noted g participants gate prepared (height \<noteq> None) now
                then let at = (case PreparedAt record' of Some t \<Rightarrow> if prepared then t else now | None \<Rightarrow> now) in
                  Inr (False, root\<lparr>rn_Initialization := Some (advance_gate g at observed state)\<rparr>)
                else Inr (False, noted)))"

definition projectGates ::
  "protocol_code \<Rightarrow> gate_reads \<Rightarrow> AggregateNetwork \<Rightarrow> BitcoinInitialization \<Rightarrow> RuntimeParticipant list
     \<Rightarrow> (bool \<times> AggregateNetwork) result" where
  "projectGates C R root record' participants =
     rbind (frozenGenesis R root) (\<lambda>g. rbind (initializeGates root g) (\<lambda>state.
       let seeded = root\<lparr>rn_Initialization := Some state\<rparr> in
       if ai_Completed state then Inr (False, seeded)
       else if \<not> gate_supported (gate_Name (fg_Gates g ! nat (ai_GateIndex state)))
       then Inr (False, set_condition ''Initialized'' ConditionFalse ''GateRuntimeNotImplemented'' seeded)
       else project_gate C R seeded record' participants g state))"

section \<open>The confirmed transition\<close>

text \<open>The first pass reads the cache, the second the API server; the record and the participants are read again between
  them. A read of a participant may answer with any object of that name.\<close>

record confirm_reads =
  cf_cached :: gate_reads
  cf_initialization :: "string \<Rightarrow> BitcoinInitialization get"
  cf_participant :: "string \<Rightarrow> RuntimeParticipant get"
  cf_current :: gate_reads

definition currentInitialization ::
  "confirm_reads \<Rightarrow> AggregateNetwork \<Rightarrow> BitcoinInitialization \<Rightarrow> BitcoinInitialization result" where
  "currentInitialization R root record' =
     rbind (fetched (cf_initialization R (init_Name record'))) (\<lambda>current.
       if init_UID current \<noteq> init_UID record' \<or> init_NetworkUID current \<noteq> rn_UID root \<or> init_Owner current \<noteq> rn_UID root
       then Inl ''initialization record identity changed'' else Inr current)"

fun fresh_participants :: "confirm_reads \<Rightarrow> RuntimeParticipant list \<Rightarrow> RuntimeParticipant list result" where
  "fresh_participants R [] = Inr []"
| "fresh_participants R (p # ps) =
     rbind (fetched (cf_participant R (bp_Name p))) (\<lambda>q.
       if bp_UID q \<noteq> bp_UID p then Inl ''gate participant identity changed''
       else rbind (fresh_participants R ps) (\<lambda>qs. Inr (q # qs)))"

definition confirmed_gates ::
  "protocol_code \<Rightarrow> confirm_reads \<Rightarrow> AggregateNetwork \<Rightarrow> BitcoinInitialization \<Rightarrow> RuntimeParticipant list
     \<Rightarrow> (bool \<times> AggregateNetwork) result" where
  "confirmed_gates C R root record' participants =
     rbind (projectGates C (cf_cached R) root record' participants) (\<lambda>(failed, trial).
       if failed \<or> rn_Initialization root \<noteq> rn_Initialization trial
       then rbind (currentInitialization R root record') (\<lambda>current.
              rbind (fresh_participants R participants) (\<lambda>participants'.
                projectGates C (cf_current R) root current participants'))
       else Inr (failed, trial))"

definition reconcileGates ::
  "protocol_code \<Rightarrow> confirm_reads \<Rightarrow> AggregateNetwork \<Rightarrow> BitcoinInitialization \<Rightarrow> RuntimeParticipant list
     \<Rightarrow> AggregateNetwork \<times> bool result" where
  "reconcileGates C R root record' participants =
     (case confirmed_gates C R root record' participants of
        Inr (failed, trial) \<Rightarrow> (trial, Inr failed)
      | Inl e \<Rightarrow>
          (let reported = (if condition_true root ''Initialized'' then root
                           else set_condition ''Initialized'' ConditionUnknown ''GateObservationUnavailable'' root)
           in (observationUnavailable ''GateObservationUnavailable'' reported, Inl e)))"

section \<open>Readers of the progress (bootstrap_policy.go)\<close>

text \<open>\<open>bootstrapCompletedGates\<close>: which names are completed, the last gate of a name counting, or \<open>None\<close> for a progress that does
  not verify.\<close>

definition progress_ordered :: "FrozenGate list \<Rightarrow> AggregateInitialization \<Rightarrow> bool" where
  "progress_ordered gates state \<longleftrightarrow>
     list_all (\<lambda>i. go_Name (ai_Gates state ! i) = gate_Name (gates ! i)
                 \<and> \<not> (i > 0 \<and> gate_Ceiling (gates ! i) \<le> gate_Ceiling (gates ! (i - 1)))
                 \<and> (go_CompletedAt (ai_Gates state ! i) \<noteq> None \<longleftrightarrow> int i < ai_GateIndex state)) [0..<length gates]"

definition bootstrapCompletedGates :: "AggregateNetwork \<Rightarrow> FrozenGenesis \<Rightarrow> (string \<Rightarrow> bool) option" where
  "bootstrapCompletedGates root g =
     (case (rn_GenesisRef root, rn_Initialization root) of
        (Some ref, Some state) \<Rightarrow>
          let gates = fg_Gates g in
          if UID ref \<noteq> fg_UID g \<or> Fingerprint ref \<noteq> fg_SpecDigest g \<or> rn_GenesisDigest root \<noteq> fg_ChainDigest g
             \<or> ai_GenesisUID state \<noteq> fg_UID g \<or> ai_GenesisDigest state \<noteq> rn_GenesisDigest root \<or> gates = []
             \<or> length (ai_Gates state) \<noteq> length gates \<or> ai_GateIndex state < 0 \<or> ai_GateIndex state > int (length gates)
             \<or> ai_Completed state \<noteq> (ai_GateIndex state = int (length gates))
             \<or> \<not> progress_ordered gates state
             \<or> ai_AuthorizedCeiling state \<noteq> gate_Ceiling (gates ! min (nat (ai_GateIndex state)) (length gates - 1))
          then None
          else Some (\<lambda>name. map_of (rev (map (\<lambda>obs. (go_Name obs, go_CompletedAt obs \<noteq> None)) (ai_Gates state))) name = Some True)
      | _ \<Rightarrow> None)"

definition bootstrapPolicyPending :: "(string \<Rightarrow> bool) option \<Rightarrow> CapturedRequirement \<Rightarrow> bool" where
  "bootstrapPolicyPending completed required =
     (let last = (if rq_Kind required = ''BitcoinNode'' \<or> rq_Kind required = ''BitcoinBlockProduction'' then ''PrepareBitcoin''
                  else if rq_Kind required = ''StacksContractSet'' then ''PreparePoX5'' else ''PrepareWaterfall'')
      in \<not> (case completed of Some names \<Rightarrow> names last | None \<Rightarrow> False))"

section \<open>A pass only reads the progress it is about\<close>

lemma root_fields [simp]:
  "fresh at now \<Longrightarrow> at \<le> now"
  "declared (root\<lparr>rn_Initialization := s\<rparr>) = (declared root :: 'a BitcoinParticipant_scheme \<Rightarrow> bool)"
  "owned_by (root\<lparr>rn_Initialization := s\<rparr>) = (owned_by root :: 'a BitcoinParticipant_scheme \<Rightarrow> bool)"
  "selectedInstance (root\<lparr>rn_Initialization := s\<rparr>) = (selectedInstance root :: 'a BitcoinParticipant_scheme \<Rightarrow> bool)"
  by (auto simp: fun_eq_iff fresh_def declared_def owned_by_def selectedInstance_def)

lemma height_field [simp]:
  "initializationHeight R (root\<lparr>rn_Initialization := s\<rparr>) record' = initializationHeight R root record'"
proof -
  have process: "observed_process R (root\<lparr>rn_Initialization := s\<rparr>) = observed_process R root"
    by (intro ext) (simp add: observed_process_def)
  have "execution_height R (root\<lparr>rn_Initialization := s\<rparr>) = execution_height R root"
    by (intro ext) (simp only: execution_height_def currentBitcoinObservation_def process root_fields)
  then have "target_height R (root\<lparr>rn_Initialization := s\<rparr>) record' bs = target_height R root record' bs" for bs
    by (induction bs) (simp_all cong: if_cong)
  then show ?thesis by (simp add: initializationHeight_def split: option.splits)
qed

lemma complete_field [simp]:
  "gate_complete C (root\<lparr>rn_Initialization := s\<rparr>) g participants gate prepared known now =
   gate_complete C root g participants gate prepared known now"
proof -
  let ?root = "root\<lparr>rn_Initialization := s\<rparr>"
  have participant: "requiredParticipant ?root = requiredParticipant root"
    by (intro ext) (simp add: requiredParticipant_def)
  have bound: "worker_bound ?root = worker_bound root"
    by (intro ext) (simp add: worker_bound_def bound_session_def)
  have worker: "requiredWorker ?root = requiredWorker root"
    by (intro ext) (simp add: requiredWorker_def participant bound)
  have captured: "captured_signer ?root = captured_signer root"
    by (intro ext) (simp add: captured_signer_def participant cong: option.case_cong)
  have signer: "capturedSigner ?root = capturedSigner root"
    by (intro ext) (simp add: capturedSigner_def captured cong: option.case_cong)
  have pox4: "pox4CohortSatisfied ?root = pox4CohortSatisfied root"
    by (intro ext) (simp only: pox4CohortSatisfied_def pox4_enrolled_def [abs_def] worker signer)
  have pox5: "pox5CohortSatisfied C ?root = pox5CohortSatisfied C root"
    by (intro ext) (simp only: pox5CohortSatisfied_def pox5_enrolled_def [abs_def] worker signer)
  have contract: "contractCohortSatisfied ?root = contractCohortSatisfied root"
    by (intro ext) (simp add: contractCohortSatisfied_def contract_satisfied_def [abs_def] worker)
  have actor: "prepared_actor ?root = prepared_actor root" by (intro ext) (simp only: prepared_actor_def root_fields)
  have actors: "prepared_actors ?root participants rs = prepared_actors root participants rs" for rs
    by (induction rs) (simp_all add: actor cong: if_cong option.case_cong)
  have "preparedCohortSatisfied C ?root g participants = preparedCohortSatisfied C root g participants"
    by (intro ext) (simp add: preparedCohortSatisfied_def actors)
  then show ?thesis by (simp add: gate_complete_def pox4 pox5 contract)
qed

lemma other_conditions [simp]:
  "rn_Initialization (set_condition kind status reason root) = rn_Initialization root"
  "rn_Initialization (fail_network reason root) = rn_Initialization root"
  "rn_Initialization (observationUnavailable reason root) = rn_Initialization root"
  by (auto simp: set_condition_def fail_network_def observationUnavailable_def known_unavailable_def projectKnownOperation_def)

section \<open>Progress\<close>

text \<open>A well-formed progress through the gates of a genesis. The ceiling of a completed progress is the last gate's.\<close>

definition gate_ok :: "FrozenGenesis \<Rightarrow> AggregateInitialization \<Rightarrow> bool" where
  "gate_ok g s \<longleftrightarrow>
     ai_GenesisUID s = fg_UID g \<and> ai_GenesisDigest s = fg_ChainDigest g
     \<and> fg_Gates g \<noteq> [] \<and> length (fg_Gates g) \<le> 16 \<and> length (ai_Gates s) = length (fg_Gates g)
     \<and> 0 \<le> ai_GateIndex s \<and> ai_GateIndex s \<le> int (length (fg_Gates g)) \<and> gates_ordered (fg_Gates g) s
     \<and> (ai_Completed s \<longleftrightarrow> ai_GateIndex s = int (length (fg_Gates g)))
     \<and> ai_AuthorizedCeiling s = gate_Ceiling (fg_Gates g ! min (nat (ai_GateIndex s)) (length (fg_Gates g) - 1))"

text \<open>What later progress gate_keeps of earlier progress: the identity, every gate with the times it has recorded, and the index.\<close>

definition gate_keeps :: "GateObservation \<Rightarrow> GateObservation \<Rightarrow> bool" where
  "gate_keeps a b \<longleftrightarrow>
     go_Name b = go_Name a
     \<and> (go_CompletedAt a \<noteq> None \<longrightarrow> go_CompletedAt b = go_CompletedAt a)
     \<and> (go_FirstCeilingObservedAt a \<noteq> None \<longrightarrow> go_FirstCeilingObservedAt b = go_FirstCeilingObservedAt a)"

definition gate_extends :: "AggregateInitialization \<Rightarrow> AggregateInitialization \<Rightarrow> bool" where
  "gate_extends a b \<longleftrightarrow>
     ai_GenesisUID b = ai_GenesisUID a \<and> ai_GenesisDigest b = ai_GenesisDigest a
     \<and> list_all2 gate_keeps (ai_Gates a) (ai_Gates b) \<and> ai_GateIndex a \<le> ai_GateIndex b \<and> (ai_Completed a \<longrightarrow> b = a)"

lemma gate_keeps_refl [simp]: "gate_keeps a a" and gate_keeps_trans: "gate_keeps a b \<Longrightarrow> gate_keeps b c \<Longrightarrow> gate_keeps a c"
  by (auto simp: gate_keeps_def)

lemma gate_extends_refl [simp]: "gate_extends a a"
  by (auto simp: gate_extends_def intro: list_all2_refl)

lemma gate_extends_trans: "gate_extends a b \<Longrightarrow> gate_extends b c \<Longrightarrow> gate_extends a c"
  unfolding gate_extends_def using list_all2_trans [of gate_keeps gate_keeps gate_keeps] gate_keeps_trans by fastforce

lemma gate_keeps_boundaries:
  "gate_keeps a (recorded_boundary name record' a)" "gate_keeps a (observed_boundary height ceiling now a)"
  "go_CompletedAt (recorded_boundary name record' a) = go_CompletedAt a" "go_Name (recorded_boundary name record' a) = go_Name a"
  "go_CompletedAt (observed_boundary height ceiling now a) = go_CompletedAt a"
  "go_Name (observed_boundary height ceiling now a) = go_Name a"
  by (auto simp: gate_keeps_def recorded_boundary_def observed_boundary_def)

lemma initializeGates_ok:
  assumes "initializeGates root g = Inr s" and "rn_GenesisDigest root = fg_ChainDigest g"
    and "\<forall>t. rn_Initialization root = Some t \<longrightarrow> gate_ok g t"
  shows "gate_ok g s" and "rn_Initialization root = Some t \<Longrightarrow> s = t"
    and "rn_Initialization root = None \<Longrightarrow> s = seeded_gates root g"
proof -
  have "gates_ordered (fg_Gates g) (seeded_gates root g)"
    by (auto simp: gates_ordered_def seeded_gates_def list_all_iff)
  then show "gate_ok g s"
    using assms by (auto simp: initializeGates_def Let_def gate_ok_def seeded_gates_def hd_conv_nth
      split: option.splits if_splits)
  show "rn_Initialization root = Some t \<Longrightarrow> s = t" "rn_Initialization root = None \<Longrightarrow> s = seeded_gates root g"
    using assms(1) by (auto simp: initializeGates_def Let_def split: if_splits)
qed

lemma gate_ok_nth:
  assumes "gate_ok g s" and "k < length (fg_Gates g)"
  shows "go_Name (ai_Gates s ! k) = gate_Name (fg_Gates g ! k)"
    and "go_CompletedAt (ai_Gates s ! k) \<noteq> None \<longleftrightarrow> int k < ai_GateIndex s"
  using assms by (simp_all add: gate_ok_def gates_ordered_def list_all_iff)

lemma gate_ok_open:
  assumes "gate_ok g s" and "\<not> ai_Completed s"
  shows "nat (ai_GateIndex s) < length (fg_Gates g)" and "int (nat (ai_GateIndex s)) = ai_GateIndex s"
    and "length (ai_Gates s) = length (fg_Gates g)" and "go_CompletedAt (ai_Gates s ! nat (ai_GateIndex s)) = None"
proof -
  show i: "nat (ai_GateIndex s) < length (fg_Gates g)" "int (nat (ai_GateIndex s)) = ai_GateIndex s"
    and "length (ai_Gates s) = length (fg_Gates g)"
    using assms by (auto simp: gate_ok_def)
  show "go_CompletedAt (ai_Gates s ! nat (ai_GateIndex s)) = None"
    using gate_ok_nth(2) [OF assms(1) i(1)] unfolding i(2) by simp
qed

text \<open>Recording a boundary and completing the current gate keep a progress well formed and extend it.\<close>

lemma put_observation_ok:
  assumes ok: "gate_ok g s" and open': "\<not> ai_Completed s" and obs: "gate_keeps (ai_Gates s ! nat (ai_GateIndex s)) obs"
    and still: "go_CompletedAt obs = None"
  shows "gate_ok g (put_observation obs s) \<and> gate_extends s (put_observation obs s)"
proof -
  let ?i = "nat (ai_GateIndex s)" and ?s = "put_observation obs s"
  note index = gate_ok_open [OF ok open'] and old = gate_ok_nth [OF ok]
  have i: "?i < length (ai_Gates s)" using index by simp
  have gates: "ai_Gates ?s ! k = (if k = ?i then obs else ai_Gates s ! k)" if "k < length (ai_Gates s)" for k
    using that by (simp add: put_observation_def nth_list_update)
  have "list_all2 gate_keeps (ai_Gates s) (ai_Gates ?s)"
    using obs i by (auto simp: list_all2_conv_all_nth put_observation_def nth_list_update)
  moreover have "gates_ordered (fg_Gates g) ?s"
  proof -
    have "go_Name obs = gate_Name (fg_Gates g ! ?i)" using old(1) [of ?i] obs index by (simp add: gate_keeps_def)
    then have "go_Name (ai_Gates ?s ! k) = gate_Name (fg_Gates g ! k) \<and> (go_CompletedAt (ai_Gates ?s ! k) \<noteq> None \<longleftrightarrow> int k < ai_GateIndex s)"
      if "k < length (fg_Gates g)" for k
      using old [OF that] gates [of k] still index that by (cases "k = ?i") simp_all
    then show ?thesis by (simp add: gates_ordered_def list_all_iff put_observation_def)
  qed
  ultimately show ?thesis using ok open' by (simp add: gate_ok_def gate_extends_def put_observation_def)
qed

lemma advance_gate_ok:
  assumes ok: "gate_ok g s" and open': "\<not> ai_Completed s" and obs: "gate_keeps (ai_Gates s ! nat (ai_GateIndex s)) obs"
  shows "gate_ok g (advance_gate g at obs s) \<and> gate_extends s (advance_gate g at obs s)
    \<and> ai_GateIndex (advance_gate g at obs s) = ai_GateIndex s + 1"
proof -
  let ?i = "nat (ai_GateIndex s)" and ?s = "advance_gate g at obs s"
  note old = gate_ok_nth [OF ok]
  have i: "?i < length (ai_Gates s)" "int ?i = ai_GateIndex s" and len: "length (ai_Gates s) = length (fg_Gates g)"
    and none: "go_CompletedAt (ai_Gates s ! ?i) = None"
    using gate_ok_open [OF ok open'] by simp_all
  have suc: "nat (ai_GateIndex s + 1) = Suc ?i" using ok by (simp add: gate_ok_def Suc_nat_eq_nat_zadd1 add.commute)
  have shape: "ai_Gates ?s = (ai_Gates s)[?i := obs\<lparr>go_CompletedAt := Some at\<rparr>]" "ai_GateIndex ?s = ai_GateIndex s + 1"
    "ai_GenesisUID ?s = ai_GenesisUID s" "ai_GenesisDigest ?s = ai_GenesisDigest s"
    "ai_Completed ?s \<longleftrightarrow> ai_GateIndex s + 1 = int (length (fg_Gates g))"
    "ai_AuthorizedCeiling ?s = (if ai_Completed ?s then ai_AuthorizedCeiling s else gate_Ceiling (fg_Gates g ! Suc ?i))"
    using open' len i by (auto simp: advance_gate_def Let_def put_observation_def suc)
  have "gate_keeps (ai_Gates s ! ?i) (obs\<lparr>go_CompletedAt := Some at\<rparr>)" using obs none by (simp add: gate_keeps_def)
  then have ext: "list_all2 gate_keeps (ai_Gates s) (ai_Gates ?s)"
    using i by (auto simp: list_all2_conv_all_nth shape nth_list_update)
  have "gates_ordered (fg_Gates g) ?s"
  proof -
    have "go_Name obs = gate_Name (fg_Gates g ! ?i)" using old(1) [of ?i] obs i len by (simp add: gate_keeps_def)
    then show ?thesis
      using old len i by (auto simp: gates_ordered_def list_all_iff shape(1,2) nth_list_update)
  qed
  moreover have "ai_AuthorizedCeiling ?s = gate_Ceiling (fg_Gates g ! min (nat (ai_GateIndex s + 1)) (length (fg_Gates g) - 1))"
  proof (cases "ai_Completed ?s")
    case True
    then have "Suc ?i = length (fg_Gates g)" using shape(5) i(2) by linarith
    then have "min (nat (ai_GateIndex s + 1)) (length (fg_Gates g) - 1) = ?i" "min ?i (length (fg_Gates g) - 1) = ?i"
      by (simp_all add: suc)
    with True shape(6) ok show ?thesis by (simp add: gate_ok_def)
  next
    case False
    then have "Suc ?i < length (fg_Gates g)" using shape(5) i len by linarith
    with False shape(6) i show ?thesis by (auto simp: suc min_def)
  qed
  moreover have "0 \<le> ai_GateIndex s + 1" "ai_GateIndex s + 1 \<le> int (length (fg_Gates g))" using i len by linarith+
  ultimately show ?thesis
    using ok open' ext shape len by (simp add: gate_ok_def gate_extends_def)
qed

text \<open>What one pass makes of a progress: nothing, a recorded boundary, or the completion of the current gate.\<close>

definition gate_moved :: "FrozenGenesis \<Rightarrow> AggregateInitialization \<Rightarrow> AggregateInitialization \<Rightarrow> bool" where
  "gate_moved g s s' \<longleftrightarrow> gate_ok g s' \<and> gate_extends s s' \<and> ai_GateIndex s' \<le> ai_GateIndex s + 1"

lemma frozenGenesis_digest: "frozenGenesis R root = Inr g \<Longrightarrow> rn_GenesisDigest root = fg_ChainDigest g"
  by (auto simp: frozenGenesis_def result_simps split: option.splits if_splits)

lemma project_gate_moved:
  assumes "project_gate C R root record' participants g s = Inr (failed, root')" and ok: "gate_ok g s" "\<not> ai_Completed s"
  shows "\<exists>s'. rn_Initialization root' = Some s' \<and> gate_moved g s s'"
proof -
  let ?i = "nat (ai_GateIndex s)"
  define obs where "obs = recorded_boundary (gate_Name (fg_Gates g ! ?i)) record' (ai_Gates s ! ?i)"
  have obs: "gate_keeps (ai_Gates s ! ?i) obs" "go_CompletedAt obs = None"
    using gate_ok_open(4) [OF ok] by (simp_all add: obs_def gate_keeps_boundaries)
  have boundary: "gate_keeps (ai_Gates s ! ?i) (observed_boundary h c t obs)" "go_CompletedAt (observed_boundary h c t obs) = None" for h c t
    using gate_keeps_trans [OF obs(1) gate_keeps_boundaries(2)] obs(2) by (simp_all add: gate_keeps_boundaries)
  have moved: "gate_moved g s (put_observation o' s)" if "gate_keeps (ai_Gates s ! ?i) o'" "go_CompletedAt o' = None" for o'
    using put_observation_ok [OF ok that] by (simp add: gate_moved_def put_observation_def)
  have advanced: "gate_moved g s (advance_gate g at o' s)" if "gate_keeps (ai_Gates s ! ?i) o'" for o' at
    using advance_gate_ok [OF ok that, of at] by (simp add: gate_moved_def)
  show ?thesis
    using assms(1) moved [OF obs] moved [OF boundary] advanced [OF boundary(1)]
    by (auto simp: project_gate_def Let_def obs_def result_simps split: if_splits)
qed

lemma projectGates_moved:
  assumes "projectGates C R root record' participants = Inr (failed, root')" and "frozenGenesis R root = Inr g"
    and ok: "\<forall>t. rn_Initialization root = Some t \<longrightarrow> gate_ok g t"
  shows "\<exists>s s'. initializeGates root g = Inr s \<and> gate_ok g s \<and> rn_Initialization root' = Some s' \<and> gate_moved g s s'"
proof -
  from assms(1,2) obtain s where s: "initializeGates root g = Inr s" by (auto simp: projectGates_def result_simps)
  have "rn_GenesisDigest root = fg_ChainDigest g" by (rule frozenGenesis_digest) (rule assms(2))
  from initializeGates_ok(1) [OF s this ok] have "gate_ok g s" .
  moreover have "\<exists>s'. rn_Initialization root' = Some s' \<and> gate_moved g s s'"
  proof (cases "ai_Completed s \<or> \<not> gate_supported (gate_Name (fg_Gates g ! nat (ai_GateIndex s)))")
    case True
    with assms(1,2) s have "rn_Initialization root' = Some s" by (auto simp: projectGates_def Let_def split: if_splits)
    with \<open>gate_ok g s\<close> show ?thesis by (simp add: gate_moved_def)
  next
    case False
    with assms(1,2) s have "project_gate C R (root\<lparr>rn_Initialization := Some s\<rparr>) record' participants g s = Inr (failed, root')"
      by (simp add: projectGates_def Let_def)
    from project_gate_moved [OF this \<open>gate_ok g s\<close>] False show ?thesis by simp
  qed
  ultimately show ?thesis using s by blast
qed

section \<open>Executions\<close>

text \<open>The aggregate alone writes the progress. A reconciliation starts from the progress in force, whatever else the root and
  the reads hold, and its result is written or lost. The genesis is immutable: a read that verifies returns it.\<close>

definition gate_start :: "AggregateInitialization option \<Rightarrow> bool" where
  "gate_start s \<longleftrightarrow> s = None"

definition gate_step ::
  "FrozenGenesis \<Rightarrow> AggregateInitialization option \<Rightarrow> AggregateInitialization option \<Rightarrow> AggregateInitialization option \<Rightarrow> bool" where
  "gate_step g s e s' \<longleftrightarrow>
     e = s' \<and> (s' = s
       \<or> (\<exists>C R root record' participants.
            rn_Initialization root = s
            \<and> (\<forall>x. frozenGenesis (cf_cached R) root = Inr x \<or> frozenGenesis (cf_current R) root = Inr x \<longrightarrow> x = g)
            \<and> s' = rn_Initialization (fst (reconcileGates C R root record' participants))))"

lemma reconcileGates_moved:
  assumes same: "\<forall>x. frozenGenesis (cf_cached R) root = Inr x \<or> frozenGenesis (cf_current R) root = Inr x \<longrightarrow> x = g"
    and ok: "\<forall>t. rn_Initialization root = Some t \<longrightarrow> gate_ok g t"
    and result: "rn_Initialization (fst (reconcileGates C R root record' participants)) = s'"
  shows "s' = rn_Initialization root
    \<or> (\<exists>s t. initializeGates root g = Inr s \<and> gate_ok g s \<and> s' = Some t \<and> gate_moved g s t)"
proof (cases "confirmed_gates C R root record' participants")
  case (Inl e)
  with result show ?thesis by (auto simp: reconcileGates_def Let_def)
next
  case (Inr x)
  obtain failed root' where x: "x = (failed, root')" by (cases x)
  from Inr x obtain G current ps where G: "G = cf_cached R \<or> G = cf_current R" and
    pass: "projectGates C G root current ps = Inr (failed, root')"
    by (auto simp: confirmed_gates_def result_simps split: prod.splits if_splits)
  from pass obtain y where "frozenGenesis G root = Inr y" by (auto simp: projectGates_def result_simps)
  with same G have "frozenGenesis G root = Inr g" by auto
  from projectGates_moved [OF pass this ok] result Inr x show ?thesis by (auto simp: reconcileGates_def)
qed

text \<open>The progress written so far.\<close>

definition progress_written :: "AggregateInitialization option list \<Rightarrow> AggregateInitialization list" where
  "progress_written es = List.map_filter id es"

definition gates_hinv :: "FrozenGenesis \<Rightarrow> AggregateInitialization option \<Rightarrow> AggregateInitialization option list \<Rightarrow> bool" where
  "gates_hinv g s es \<longleftrightarrow>
     s = (if progress_written es = [] then None else Some (last (progress_written es)))
     \<and> (\<forall>t \<in> set (progress_written es). gate_ok g t)
     \<and> sorted_wrt gate_extends (progress_written es)
     \<and> successively (\<lambda>a b. ai_GateIndex b \<le> ai_GateIndex a + 1) (progress_written es)"

lemma progress_written_snoc: "progress_written (es @ [e]) = progress_written es @ (case e of Some t \<Rightarrow> [t] | None \<Rightarrow> [])"
  by (simp add: progress_written_def map_filter_def split: option.splits)

lemma gates_hinv_snoc:
  assumes "gates_hinv g s es" and "gate_ok g t" and "\<forall>u. s = Some u \<longrightarrow> gate_extends u t \<and> ai_GateIndex t \<le> ai_GateIndex u + 1"
  shows "gates_hinv g (Some t) (es @ [Some t])"
proof (cases "progress_written es = []")
  case True
  with assms show ?thesis by (simp add: gates_hinv_def progress_written_snoc)
next
  case False
  let ?l = "last (progress_written es)"
  have ext: "gate_extends ?l t" "ai_GateIndex t \<le> ai_GateIndex ?l + 1" using assms False by (auto simp: gates_hinv_def)
  have "gate_extends a t" if "a \<in> set (progress_written es)" for a
  proof (cases "a = ?l")
    case False
    with that have "a \<in> set (butlast (progress_written es))"
      by (metis append_butlast_last_id empty_iff empty_set insert_iff in_set_butlast_appendI set_ConsD snoc_eq_iff_butlast
          Un_iff list.set(2) set_append)
    moreover have "sorted_wrt gate_extends (butlast (progress_written es) @ [?l])"
      using assms(1) \<open>progress_written es \<noteq> []\<close> by (simp add: gates_hinv_def)
    ultimately have "gate_extends a ?l" by (simp add: sorted_wrt_append)
    then show ?thesis using ext(1) by (rule gate_extends_trans)
  qed (simp add: ext)
  then show ?thesis
    using assms(1,2) False ext(2) by (auto simp: gates_hinv_def progress_written_snoc sorted_wrt_append successively_append_iff)
qed

interpretation gates: history_system gate_start "gate_step g" "gates_hinv g"
proof unfold_locales
  show "gates_hinv g s []" if "gate_start s" for s
    using that by (simp add: gate_start_def gates_hinv_def progress_written_def map_filter_def)
  show "gates_hinv g s' (es @ [e])" if h: "gates_hinv g s es" and step: "gate_step g s e s'" for s es e s'
  proof -
    have ok: "\<forall>t. s = Some t \<longrightarrow> gate_ok g t" using h by (auto simp: gates_hinv_def split: if_splits)
    have stay: "gates_hinv g s (es @ [s])"
    proof (cases s)
      case None
      with h show ?thesis by (simp add: gates_hinv_def progress_written_snoc split: if_splits)
    next
      case (Some t)
      with h ok show ?thesis using gates_hinv_snoc [OF h, of t] by simp
    qed
    from step consider "s' = s" "e = s" | C R root record' participants where "e = s'" "rn_Initialization root = s"
      "\<forall>x. frozenGenesis (cf_cached R) root = Inr x \<or> frozenGenesis (cf_current R) root = Inr x \<longrightarrow> x = g"
      "rn_Initialization (fst (reconcileGates C R root record' participants)) = s'"
      unfolding gate_step_def by metis
    then show ?thesis
    proof cases
      case 2
      from reconcileGates_moved [OF 2(3) _ 2(4)] ok 2(2) consider "s' = s"
        | u t where "initializeGates root g = Inr u" "gate_ok g u" "s' = Some t" "gate_moved g u t" by auto
      then show ?thesis
      proof cases
        case inner: 2
        have "u = v" if "s = Some v" for v
          using inner(1) 2(2) that by (auto simp: initializeGates_def Let_def split: if_splits)
        with gates_hinv_snoc [OF h, of t] inner(3,4) 2(1) show ?thesis by (auto simp: gate_moved_def)
      qed (use stay 2(1) in simp)
    qed (use stay in simp)
  qed
qed

section \<open>What the progress promises\<close>

text \<open>C4: Bootstrap progress is monotone and well formed. Along every history of progress records the aggregate
  writes for an immutable genesis, over any reads, failures and lost writes: each record names the frozen gates in order, has
  completed exactly the gates before its index, authorizes exactly the ceiling of the current gate, and is completed when
  every gate is; each record gate_keeps every first-ceiling time and every completion time an earlier record had, its index
  never falls, and rises by at most one from one record to the next.\<close>

theorem gate_progress_monotone:
  assumes "runs gate_start (gate_step g) s es"
  shows "(\<forall>t \<in> set (progress_written es). gate_ok g t) \<and> sorted_wrt gate_extends (progress_written es)
    \<and> successively (\<lambda>a b. ai_GateIndex b \<le> ai_GateIndex a + 1) (progress_written es)
    \<and> s = (if progress_written es = [] then None else Some (last (progress_written es)))"
  using gates.hinv_runs [OF assms] by (simp add: gates_hinv_def)

lemma project_gate_transition:
  assumes "project_gate C R root record' participants g a = Inr (failed, root')"
    and b: "rn_Initialization root' = Some b" and change: "failed \<or> ai_GateIndex b \<noteq> ai_GateIndex a"
    and i: "nat (ai_GateIndex a) < length (ai_Gates a)"
  shows "\<exists>height. initializationHeight R root record' = Inr height
    \<and> (let gate = fg_Gates g ! nat (ai_GateIndex a); now = gr_now R; obs = ai_Gates b ! nat (ai_GateIndex a);
           prepared = prepared_in_time (gate_Name gate) record' now
       in if failed
          then condition_true root' ''Failed'' \<and> rn_Phase root' = ''Failed'' \<and> ai_GateIndex b = ai_GateIndex a
             \<and> ((\<exists>h. height = Some h \<and> h > gate_Ceiling gate) \<or> \<not> prepared \<and> deadline_passed now obs)
          else ai_GateIndex b = ai_GateIndex a + 1 \<and> go_CompletedAt obs \<noteq> None
             \<and> (\<forall>h. height = Some h \<longrightarrow> h \<le> gate_Ceiling gate) \<and> (prepared \<or> \<not> deadline_passed now obs)
             \<and> gate_complete C root g participants gate prepared (height \<noteq> None) now)"
proof -
  have deadline: "deadline_passed now (obs\<lparr>go_CompletedAt := c\<rparr>) = deadline_passed now obs" for now obs c
    by (simp add: deadline_passed_def)
  have failed: "condition_true (fail_network reason r) ''Failed''" "rn_Phase (fail_network reason r) = ''Failed''" for reason r
    by (simp add: fail_network_def, simp add: fail_network_def set_condition_def)
  from assms(1) obtain height where height: "initializationHeight R root record' = Inr height"
    by (auto simp: project_gate_def Let_def result_simps)
  show ?thesis
  proof (intro exI conjI, rule height, goal_cases)
    case 1
    show ?case
    proof (cases "case height of Some h \<Rightarrow> h > gate_Ceiling (fg_Gates g ! nat (ai_GateIndex a)) | None \<Rightarrow> False")
      case True
      with assms(1) b height failed show ?thesis
        by (auto simp: project_gate_def Let_def put_observation_def split: option.splits)
    next
      case False
      then have low: "\<forall>h. height = Some h \<longrightarrow> h \<le> gate_Ceiling (fg_Gates g ! nat (ai_GateIndex a))"
        by (auto split: option.splits)
      show ?thesis
        using assms(1) b change i height False low failed
        by (auto simp: project_gate_def Let_def put_observation_def advance_gate_def deadline split: if_splits)
    qed
  qed
qed

lemma project_gate_writes:
  assumes "project_gate C R root record' participants g a = Inr (failed, root')"
  shows "\<exists>b. rn_Initialization root' = Some b"
proof -
  obtain height where "initializationHeight R (root\<lparr>rn_Initialization := Some (put_observation (recorded_boundary
      (gate_Name (fg_Gates g ! nat (ai_GateIndex a))) record' (ai_Gates a ! nat (ai_GateIndex a))) a)\<rparr>) record' = Inr height"
    using assms by (auto simp: project_gate_def Let_def result_simps)
  with assms show ?thesis by (simp add: project_gate_def Let_def split: if_split_asm) auto
qed

lemma projectGates_writes:
  assumes "projectGates C R root record' participants = Inr (failed, root')"
  shows "\<exists>b. rn_Initialization root' = Some b"
proof -
  from assms obtain g a where "frozenGenesis R root = Inr g" "initializeGates root g = Inr a"
    by (auto simp: projectGates_def result_simps)
  with assms show ?thesis
    by (auto simp: projectGates_def Let_def split: if_split_asm dest: project_gate_writes)
qed

text \<open>The gate index a root stands at: the one of its progress record, or the first before the record is seeded.\<close>

definition root_gate :: "AggregateNetwork \<Rightarrow> int" where
  "root_gate root = (case rn_Initialization root of Some a \<Rightarrow> ai_GateIndex a | None \<Rightarrow> 0)"


lemma check_gates_accepts:
  assumes "length gs = length ss" and "\<forall>k < length gs. fst (ss ! k) = gate_Name (gs ! k) \<and> (snd (ss ! k) \<noteq> None \<longleftrightarrow> i + k < index)"
    and "sorted_wrt (<) (map gate_Ceiling gs)" and "case prev of Some c \<Rightarrow> (\<forall>g \<in> set gs. c < gate_Ceiling g) | None \<Rightarrow> True"
  shows "check_gates index i prev gs ss = Inr ()"
  using assms
proof (induction gs ss arbitrary: i prev rule: list_induct2)
  case (Cons g gs s ss)
  obtain n c where s: "s = (n, c)" by (cases s)
  have "check_gates index (Suc i) (Some (gate_Ceiling g)) gs ss = Inr ()"
  proof (rule Cons.IH)
    show "\<forall>k < length gs. fst (ss ! k) = gate_Name (gs ! k) \<and> (snd (ss ! k) \<noteq> None \<longleftrightarrow> Suc i + k < index)"
    proof (intro allI impI)
      fix k assume "k < length gs"
      with Cons.prems(1) [rule_format, of "Suc k"]
      show "fst (ss ! k) = gate_Name (gs ! k) \<and> (snd (ss ! k) \<noteq> None \<longleftrightarrow> Suc i + k < index)" by simp
    qed
  qed (use Cons.prems in auto)
  with Cons.prems(1) [rule_format, of 0] Cons.prems(3) s show ?case by (auto split: option.splits)
qed simp

lemma currentGate_accepts:
  assumes "bn_GenesisRef root = Some (init_Genesis initial)" "Kind (init_Genesis initial) = ''StacksGenesis''"
    "sn_genesis S (Name (init_Genesis initial)) = Got genesis" "owned_genesis root (init_Genesis initial) genesis"
    "bn_Initialization root = Some state" "\<not> is_Completed state" "is_AuthorizedCeiling state > 0"
    "is_GenesisUID state = UID (init_Genesis initial)" "is_GenesisDigest state = bn_GenesisDigest root"
    "is_GateIndex state = int i" "i < length (gs_Gates genesis)" "length (is_Gates state) = length (gs_Gates genesis)"
    "gate_Ceiling (gs_Gates genesis ! i) = is_AuthorizedCeiling state" "first_gate (gs_Gates genesis) initial"
    "check_gates i 0 None (gs_Gates genesis) (is_Gates state) = Inr ()" "i = 0 \<or> PreparedAt initial \<noteq> None"
  shows "currentGate S root initial = Inr \<lparr>ga_genesis = genesis, ga_gate = gs_Gates genesis ! i, ga_index = i\<rparr>"
  using assms by (simp add: currentGate_def fetched_def Let_def)

text \<open>C24: Whatever progress the aggregate has written, its readers accept. For a genesis whose ceilings rise from a positive
  first one and whose gates have distinct names: the admission of policies reads exactly the gates before the index as completed;
  and while the bootstrap is not completed, the scheduler, reading the same root and genesis with the initialization that was
  frozen with it, obtains the authority of exactly the current gate, under the ceiling the aggregate recorded.\<close>

theorem gate_progress_accepted:
  assumes "runs gate_start (gate_step g) (Some s) es" and "rn_Initialization root = Some s" and "frozenGenesis R root = Inr g"
    and rising: "sorted_wrt (<) (map gate_Ceiling (fg_Gates g))" and "distinct (map gate_Name (fg_Gates g))"
  shows "(\<exists>completed. bootstrapCompletedGates root g = Some completed
        \<and> (\<forall>k < length (fg_Gates g). completed (gate_Name (fg_Gates g ! k)) \<longleftrightarrow> int k < ai_GateIndex s))
    \<and> (\<not> ai_Completed s \<and> gate_Ceiling (hd (fg_Gates g)) > 0 \<and> rn_GenesisRef root = Some (init_Genesis initial)
        \<and> Kind (init_Genesis initial) = ''StacksGenesis'' \<and> sn_genesis S (Name (init_Genesis initial)) = Got (scheduler_genesis g)
        \<and> first_gate (gs_Gates (scheduler_genesis g)) initial \<and> (ai_GateIndex s > 0 \<longrightarrow> PreparedAt initial \<noteq> None) \<longrightarrow>
       (\<exists>authority. currentGate S (scheduler_view root) initial = Inr authority
          \<and> int (ga_index authority) = ai_GateIndex s \<and> gate_Ceiling (ga_gate authority) = ai_AuthorizedCeiling s
          \<and> ga_gate authority = Gate.truncate (fg_Gates g ! ga_index authority)))"
proof -
  let ?gates = "fg_Gates g" and ?i = "nat (ai_GateIndex s)"
  have ok: "gate_ok g s" using gates.hinv_runs [OF assms(1)] by (auto simp: gates_hinv_def split: if_splits)
  have gt: "gate_Ceiling (?gates ! j) < gate_Ceiling (?gates ! k)" if "j < k" "k < length ?gates" for j k
    using sorted_wrt_nth_less [OF rising] that by simp
  have ref: "\<exists>ref. rn_GenesisRef root = Some ref \<and> UID ref = fg_UID g \<and> Fingerprint ref = fg_SpecDigest g"
    and digest: "rn_GenesisDigest root = fg_ChainDigest g" and owned: "fg_Owner g = rn_UID root" "\<not> fg_Deleted g" "fg_SourceNetworkUID g = rn_UID root"
    using assms(3) by (auto simp: frozenGenesis_def result_simps split: option.splits if_splits)
  have ordered: "progress_ordered ?gates s"
    using gate_ok_nth [OF ok] gt [OF diff_less, of 1] by (fastforce simp: progress_ordered_def list_all_iff not_le)
  let ?completed = "\<lambda>name. map_of (rev (map (\<lambda>obs. (go_Name obs, go_CompletedAt obs \<noteq> None)) (ai_Gates s))) name = Some True"
  have "bootstrapCompletedGates root g = Some ?completed"
    using ref digest ok ordered assms(2) by (auto simp: bootstrapCompletedGates_def gate_ok_def Let_def)
  moreover have "?completed (gate_Name (?gates ! k)) \<longleftrightarrow> int k < ai_GateIndex s" if k: "k < length ?gates" for k
  proof -
    let ?ps = "map (\<lambda>obs. (go_Name obs, go_CompletedAt obs \<noteq> None)) (ai_Gates s)"
    have len: "length (ai_Gates s) = length ?gates" using ok by (simp add: gate_ok_def)
    have "map go_Name (ai_Gates s) = map gate_Name ?gates"
      using gate_ok_nth(1) [OF ok] len by (auto intro: nth_equalityI)
    then have dist: "distinct (map fst (rev ?ps))" using assms(5) by (simp add: rev_map [symmetric] comp_def)
    have "(gate_Name (?gates ! k), go_CompletedAt (ai_Gates s ! k) \<noteq> None) \<in> set ?ps"
      using gate_ok_nth(1) [OF ok k] k len by (force simp: in_set_conv_nth)
    then have "map_of (rev ?ps) (gate_Name (?gates ! k)) = Some (go_CompletedAt (ai_Gates s ! k) \<noteq> None)"
      using dist by (simp del: map_map rev_map)
    with gate_ok_nth(2) [OF ok k] show ?thesis by simp
  qed
  moreover have "currentGate S (scheduler_view root) initial
      = Inr \<lparr>ga_genesis = scheduler_genesis g, ga_gate = Gate.truncate (?gates ! ?i), ga_index = ?i\<rparr>"
    if open': "\<not> ai_Completed s" and pos: "gate_Ceiling (hd ?gates) > 0" and gref: "rn_GenesisRef root = Some (init_Genesis initial)"
      "Kind (init_Genesis initial) = ''StacksGenesis''" and read: "sn_genesis S (Name (init_Genesis initial)) = Got (scheduler_genesis g)"
      and first: "first_gate (gs_Gates (scheduler_genesis g)) initial" and prepared: "ai_GateIndex s > 0 \<longrightarrow> PreparedAt initial \<noteq> None"
  proof -
    note i = gate_ok_open [OF ok open']
    have view: "net_UID (scheduler_view root) = rn_UID root" "bn_GenesisRef (scheduler_view root) = rn_GenesisRef root"
      "bn_GenesisDigest (scheduler_view root) = rn_GenesisDigest root" "bn_Initialization (scheduler_view root) = Some (scheduler_state s)"
      by (simp_all add: scheduler_view_def StacksNetwork.defs BitcoinNetwork.defs ledger_view_def assms(2))
    have state: "is_Completed (scheduler_state s) = ai_Completed s" "is_AuthorizedCeiling (scheduler_state s) = ai_AuthorizedCeiling s"
      "is_GenesisUID (scheduler_state s) = ai_GenesisUID s" "is_GenesisDigest (scheduler_state s) = ai_GenesisDigest s"
      "is_GateIndex (scheduler_state s) = ai_GateIndex s" "length (is_Gates (scheduler_state s)) = length (ai_Gates s)"
      by (simp_all add: scheduler_state_def)
    have genesis: "gs_Gates (scheduler_genesis g) = map Gate.truncate ?gates" by (simp add: scheduler_genesis_def)
    have prepared': "?i = 0 \<or> PreparedAt initial \<noteq> None" using prepared i(2) by linarith
    have ceiling: "ai_AuthorizedCeiling s = gate_Ceiling (?gates ! ?i)" using ok i by (simp add: gate_ok_def)
    have "gate_Ceiling (?gates ! ?i) > 0"
    proof -
      have "?gates \<noteq> []" using i(1) by auto
      then have "gate_Ceiling (?gates ! 0) > 0" using pos by (simp add: hd_conv_nth)
      then show ?thesis using gt [of 0 ?i] i(1) by (cases "?i = 0") auto
    qed
    moreover have "check_gates ?i 0 None (map Gate.truncate ?gates) (is_Gates (scheduler_state s)) = Inr ()"
      by (rule check_gates_accepts)
        (use gate_ok_nth [OF ok] i rising in \<open>auto simp: scheduler_state_def Gate.defs comp_def zless_nat_eq_int_zless\<close>)
    moreover have "owned_genesis (scheduler_view root) (init_Genesis initial) (scheduler_genesis g)"
      using ref gref owned digest view by (simp add: owned_genesis_def scheduler_genesis_def)
    ultimately have "currentGate S (scheduler_view root) initial
        = Inr \<lparr>ga_genesis = scheduler_genesis g, ga_gate = gs_Gates (scheduler_genesis g) ! ?i, ga_index = ?i\<rparr>"
      using ok ref digest first prepared'
      by (intro currentGate_accepts) (simp_all add: view gref read ceiling i open' state genesis gate_ok_def Gate.defs)
    then show ?thesis using i(1) by (simp add: scheduler_genesis_def)
  qed
  ultimately show ?thesis
    using ok gate_ok_open [OF ok] by (auto simp: gate_ok_def Gate.defs)
qed

section \<open>Sample objects\<close>

text \<open>A genesis with two gates; its initialization record is not prepared, then prepared.\<close>

definition sample_frozen :: FrozenGenesis where
  "sample_frozen =
     \<lparr>fg_UID = ''g'', fg_Owner = ''net'', fg_Deleted = False, fg_SourceNetworkUID = ''net'', fg_ChainDigest = ''chain'',
      fg_SpecDigest = ''spec'', fg_Epochs = [],
      fg_Gates = [\<lparr>gate_Name = ''PrepareBitcoin'', gate_Ceiling = 200, gate_TargetCycle = None\<rparr>,
                  \<lparr>gate_Name = ''EnrollPoX4'', gate_Ceiling = 220, gate_TargetCycle = Some 3\<rparr>],
      fg_Requirements = [], fg_Deployer = [], fg_Bundle = [], fg_SourceHashesDigest = []\<rparr>"

definition sample_aggregate :: "AggregateInitialization option \<Rightarrow> AggregateNetwork" where
  "sample_aggregate s =
     \<lparr>rn_Name = ''network'', rn_Namespace = ''ns'', rn_UID = ''net'', rn_Deleted = False, rn_Generation = 3,
      rn_Operation = ''Running'', rn_Participants = [], rn_Phase = ''Initializing'', rn_Conditions = [],
      rn_Identities = [], rn_GenesisRef = Some (init_Genesis sample_initialization), rn_GenesisDigest = ''chain'',
      rn_Initialization = s, rn_Bitcoin = None, rn_Burnchain = None\<rparr>"

definition sample_code :: protocol_code where
  "sample_code = \<lparr>DirectManager = (\<lambda>holder. Inr holder), prepared_digest = (\<lambda>v t s. t), registry_digest = (\<lambda>r. [])\<rparr>"

definition sample_gate_reads :: gate_reads where
  "sample_gate_reads =
     \<lparr>gr_now = 100 * second, gr_genesis = (\<lambda>_. Got sample_frozen), gr_execution = (\<lambda>_. NotFound),
      gr_participant = (\<lambda>_. NotFound), gr_secret = (\<lambda>_. NotFound), gr_pod = (\<lambda>_. NotFound), gr_workload = (\<lambda>_. NotFound)\<rparr>"

definition sample_preparation :: "bool \<Rightarrow> BitcoinInitialization" where
  "sample_preparation ready = sample_initialization\<lparr>PreparedAt := (if ready then Some (90 * second) else None)\<rparr>"

definition sample_confirm :: "bool \<Rightarrow> confirm_reads" where
  "sample_confirm ready =
     \<lparr>cf_cached = sample_gate_reads, cf_initialization = (\<lambda>_. Got (sample_preparation ready)), cf_participant = (\<lambda>_. NotFound),
      cf_current = sample_gate_reads\<rparr>"

definition sample_progress :: "bool \<Rightarrow> AggregateInitialization" where
  "sample_progress ready =
     \<lparr>ai_GenesisUID = ''g'', ai_GenesisDigest = ''chain'', ai_GateIndex = (if ready then 1 else 0),
      ai_AuthorizedCeiling = (if ready then 220 else 200), ai_Completed = False,
      ai_Gates = [\<lparr>go_Name = ''PrepareBitcoin'', go_FirstCeilingObservedAt = None,
                   go_CompletedAt = (if ready then Some (90 * second) else None)\<rparr>,
                  \<lparr>go_Name = ''EnrollPoX4'', go_FirstCeilingObservedAt = None, go_CompletedAt = None\<rparr>]\<rparr>"

lemma sample_gates_reconciled:
  "reconcileGates sample_code (sample_confirm False) (sample_aggregate None) (sample_preparation False) []
     = (sample_aggregate (Some (sample_progress False)), Inr False)"
  "reconcileGates sample_code (sample_confirm True) (sample_aggregate (Some (sample_progress False))) (sample_preparation True) []
     = (sample_aggregate (Some (sample_progress True)), Inr False)"
  by code_simp+

lemma sample_frozenGenesis: "frozenGenesis sample_gate_reads (sample_aggregate s) = Inr sample_frozen"
  by code_simp

lemma sample_gate_runs: "runs gate_start (gate_step sample_frozen) (Some (sample_progress True)) [Some (sample_progress False), Some (sample_progress True)]"
proof -
  have reads: "cf_cached (sample_confirm ready) = sample_gate_reads" "cf_current (sample_confirm ready) = sample_gate_reads" for ready
    by (simp_all add: sample_confirm_def)
  have init: "rn_Initialization (sample_aggregate s) = s" for s by (simp add: sample_aggregate_def)
  have step: "gate_step sample_frozen s (Some t) (Some t)"
    if "reconcileGates sample_code (sample_confirm ready) (sample_aggregate s) r [] = (sample_aggregate (Some t), Inr False)" for s t r ready
    unfolding gate_step_def
    by (intro conjI disjI2 exI [of _ sample_code] exI [of _ "sample_confirm ready"] exI [of _ "sample_aggregate s"] exI [of _ r] exI [of _ "[]"])
      (simp_all add: that reads init sample_frozenGenesis)
  have "runs gate_start (gate_step sample_frozen) None []" by (rule runs_start) (simp add: gate_start_def)
  from runs_step [OF this step [OF sample_gates_reconciled(1)]]
  have "runs gate_start (gate_step sample_frozen) (Some (sample_progress False)) ([] @ [Some (sample_progress False)])" .
  from runs_step [OF this step [OF sample_gates_reconciled(2)]] show ?thesis by simp
qed

theorem gate_progress_monotone_witness:
  "gate_ok sample_frozen (sample_progress True) \<and> gate_extends (sample_progress False) (sample_progress True)
   \<and> ai_GateIndex (sample_progress True) \<le> ai_GateIndex (sample_progress False) + 1"
  using gate_progress_monotone [OF sample_gate_runs] by (simp add: progress_written_def map_filter_def)


theorem gate_progress_accepted_witness:
  "\<exists>authority. currentGate
       \<lparr>sn_now = 0, sn_draw = id, sn_initialization = (\<lambda>_. NotFound), sn_network = NotFound,
        sn_genesis = (\<lambda>_. Got (scheduler_genesis sample_frozen)), sn_participant = (\<lambda>_. NotFound), sn_execution = (\<lambda>_. NotFound),
        sn_override = (\<lambda>_. NotFound), sn_overrides = Inl [], sn_schedule = (\<lambda>_. NotFound), sn_publicWallet = (\<lambda>_. Inl []),
        sn_eligibility = (\<lambda>_. Inl []), sn_admission = (\<lambda>_ _. Inl []), sn_bindings = (\<lambda>_ _. Inl []), sn_write = Inl []\<rparr>
       (scheduler_view (sample_aggregate (Some (sample_progress True)))) (sample_preparation True) = Inr authority
     \<and> ga_index authority = 1 \<and> gate_Ceiling (ga_gate authority) = 220"
  (is "\<exists>a. currentGate ?S ?root ?initial = _ \<and> _")
proof -
  have init: "rn_Initialization (sample_aggregate (Some (sample_progress True))) = Some (sample_progress True)" by (simp add: sample_aggregate_def)
  have rising: "sorted_wrt (<) (map gate_Ceiling (fg_Gates sample_frozen))" "distinct (map gate_Name (fg_Gates sample_frozen))"
    by (simp_all add: sample_frozen_def)
  have first: "first_gate (gs_Gates (scheduler_genesis sample_frozen)) (sample_preparation True)" by code_simp
  have facts: "rn_GenesisRef (sample_aggregate s) = Some (init_Genesis (sample_preparation True))"
    "Kind (init_Genesis (sample_preparation True)) = ''StacksGenesis''" "gate_Ceiling (hd (fg_Gates sample_frozen)) > 0"
    "PreparedAt (sample_preparation True) \<noteq> None" "\<not> ai_Completed (sample_progress True)"
    "ai_GateIndex (sample_progress True) = 1" "ai_AuthorizedCeiling (sample_progress True) = 220" for s
    by (simp_all add: sample_aggregate_def sample_preparation_def sample_initialization_def sample_frozen_def sample_progress_def)
  from gate_progress_accepted [OF sample_gate_runs init sample_frozenGenesis rising, of ?initial ?S] show ?thesis
    by (simp add: facts first) blast
qed

end
