(* ===== verification/Network_Operational.thy ===== *)
theory Network_Operational
  imports Network_Gates Override_Lifecycle
begin

text \<open>
  Model of \<open>operational.go\<close> and \<open>burnchain.go\<close> of \<open>operators/network/internal/networkruntime\<close>: what the aggregate
  reports about the operation of an initialized network. Known absence is kept apart from missing observations; a
  predicate is a condition status with its reason.
\<close>

section \<open>Membership\<close>

record predicate =
  pr_status :: ConditionStatus
  pr_reason :: string

definition pred_True :: "string \<Rightarrow> predicate" where "pred_True reason = \<lparr>pr_status = ConditionTrue, pr_reason = reason\<rparr>"
definition pred_False :: "string \<Rightarrow> predicate" where "pred_False reason = \<lparr>pr_status = ConditionFalse, pr_reason = reason\<rparr>"
definition pred_Unknown :: "string \<Rightarrow> predicate" where "pred_Unknown reason = \<lparr>pr_status = ConditionUnknown, pr_reason = reason\<rparr>"

lemmas pred_defs = pred_True_def pred_False_def pred_Unknown_def

text \<open>The first entry of the kind decides: the first participant that one of its surviving identities names.\<close>

definition member_of :: "AggregateNetwork \<Rightarrow> AggregateEntry \<Rightarrow> string \<Rightarrow> RuntimeParticipant \<Rightarrow> bool" where
  "member_of root entry uid p \<longleftrightarrow>
     bp_UID p = uid \<and> bp_Kind p = entry_Kind entry \<and> bp_ParticipantName p = entry_Name entry \<and> owned_by root p \<and> \<not> bp_Deleted p"

definition selected_uids :: "AggregateNetwork \<Rightarrow> AggregateEntry \<Rightarrow> string list" where
  "selected_uids root entry =
     map ii_UID (filter (\<lambda>i. ii_Name i = entry_Name entry \<and> \<not> ii_Removing i) (rn_Identities root))"

definition selectedMember ::
  "AggregateNetwork \<Rightarrow> string \<Rightarrow> RuntimeParticipant list \<Rightarrow> RuntimeParticipant option \<times> predicate" where
  "selectedMember root kind participants =
     (case find (\<lambda>e. entry_Kind e = kind) (rn_Participants root) of
        None \<Rightarrow> (None, pred_False (kind @ ''Missing''))
      | Some entry \<Rightarrow>
          (case concat (map (\<lambda>uid. filter (member_of root entry uid) participants) (selected_uids root entry)) of
             [] \<Rightarrow> (None, pred_Unknown (kind @ ''InstanceUnavailable''))
           | p # _ \<Rightarrow>
               if bp_Admission p = None then (None, pred_Unknown (kind @ ''AdmissionUnavailable''))
               else (Some p, pred_True ''Selected'')))"

definition capabilityPaused :: "AggregateNetwork \<Rightarrow> 'a BitcoinParticipant_scheme \<Rightarrow> bool" where
  "capabilityPaused root p \<longleftrightarrow>
     bp_Paused p \<or> list_ex (\<lambda>e. entry_Name e = bp_ParticipantName p \<and> entry_Paused e = Some True) (rn_Participants root)"

definition actorSuspended :: "AggregateNetwork \<Rightarrow> 'a BitcoinParticipant_scheme \<Rightarrow> bool" where
  "actorSuspended root p \<longleftrightarrow>
     bp_Suspended p \<or> list_ex (\<lambda>e. entry_Name e = bp_ParticipantName p \<and> entry_Suspended e) (rn_Participants root)"

definition currentWorker :: "AggregateNetwork \<Rightarrow> 'a BitcoinParticipant_scheme \<Rightarrow> time \<Rightarrow> bool" where
  "currentWorker root p now =
     (case bp_Execution p of
        None \<Rightarrow> False
      | Some e \<Rightarrow>
          we_ProcessNonce e \<noteq> [] \<and> we_ObservedGeneration e = bp_Generation p \<and> we_NetworkGeneration e = rn_Generation root
          \<and> fresh (we_ObservedAt e) now
          \<and> we_Phase e \<notin> {''Inactive'', ''Failed'', ''Unknown'', ''Draining'', ''Settled'', ''Unsettled''}
          \<and> list_ex (\<lambda>i. ii_UID i = bp_UID p \<and> ii_Name i = bp_ParticipantName p \<and> \<not> ii_Removing i
               \<and> (case ii_Worker i of
                    None \<Rightarrow> False
                  | Some worker \<Rightarrow>
                      ws_Shutdown worker = None \<and> ws_Disposal worker = None \<and> wp_UID (ws_Pod worker) = we_PodUID e
                      \<and> ws_ProfileDigest worker = we_ProfileDigest e)) (rn_Identities root))"

section \<open>Bitcoin production\<close>

text \<open>\<open>bitcoinTiming\<close> without the bound it also returns: the progress window and whether the claim is valid. A mode or an interval
  that is not there leaves the bound at zero.\<close>

definition claimed_bound :: "block_schedule \<Rightarrow> int result" where
  "claimed_bound schedule =
     (case (if ScheduleMode schedule = ''Fixed'' then Interval schedule
            else if ScheduleMode schedule = ''Uniform'' then MaximumInterval schedule else None) of
        None \<Rightarrow> Inr 0
      | Some (_, parsed) \<Rightarrow> parsed)"

definition bitcoinTiming :: "BitcoinSchedulingStatus \<Rightarrow> int \<times> bool" where
  "bitcoinTiming s =
     (case sc_Schedule s of
        None \<Rightarrow> (0, False)
      | Some schedule \<Rightarrow>
          (let bound = (case claimed_bound schedule of Inr d \<Rightarrow> d | Inl _ \<Rightarrow> 0); window = ProgressWindow bound
           in (window, is_ok (claimed_bound schedule) \<and> bound \<ge> second \<and> bound \<le> 3600 * second
                \<and> sc_ProgressWindowSeconds s = window div second)))"

definition bitcoin_progress :: "BitcoinSchedulingStatus \<Rightarrow> time \<Rightarrow> predicate" where
  "bitcoin_progress s now =
     (if EligibleTargets s = 0 then pred_False ''BitcoinTargetsUnavailable''
      else case bitcoinTiming s of (window, valid) \<Rightarrow>
        if \<not> valid then pred_Unknown ''BitcoinTimingUnavailable''
        else if (case LastAcknowledgedAt s of None \<Rightarrow> True | Some t \<Rightarrow> t > now \<or> now - t > window)
        then pred_False ''BitcoinProgressOverdue''
        else pred_True ''BitcoinProgressObserved'')"

definition bitcoinOperational :: "AggregateNetwork \<Rightarrow> RuntimeParticipant list \<Rightarrow> time \<Rightarrow> predicate" where
  "bitcoinOperational root participants now =
     (case selectedMember root ''BitcoinBlockProduction'' participants of
        (None, result) \<Rightarrow> result
      | (Some p, _) \<Rightarrow>
          if capabilityPaused root p then pred_False ''BitcoinProductionPaused''
          else case bp_Scheduling p of
            None \<Rightarrow> pred_Unknown ''BitcoinObservationUnavailable''
          | Some s \<Rightarrow>
              if (case sc_ObservedAt s of None \<Rightarrow> True | Some t \<Rightarrow> \<not> fresh t now)
                 \<or> sc_PolicyDigest s \<noteq> policy_digest (BitcoinParticipant.truncate p) \<or> sc_Schedule s = None
              then pred_Unknown ''BitcoinObservationUnavailable''
              else bitcoin_progress s now)"

section \<open>Miners, traffic and contracts\<close>

definition verified_miner :: "AggregateNetwork \<Rightarrow> RuntimeParticipant \<Rightarrow> bool" where
  "verified_miner root p \<longleftrightarrow>
     bp_Kind p = ''StacksNode'' \<and> selectedInstance root p \<and> bp_Admission p \<noteq> None \<and> \<not> actorSuspended root p
     \<and> (case cf_StacksNode (np_Configuration p) of
          None \<Rightarrow> False
        | Some policy \<Rightarrow> nd_MiningEnabled policy \<and> \<not> nd_Unverified policy)"

definition workload_unobserved :: "RuntimeParticipant \<Rightarrow> bool" where
  "workload_unobserved p =
     (case bp_WorkloadReady p of None \<Rightarrow> True | Some (_, generation) \<Rightarrow> generation \<noteq> bp_Generation p \<or> np_WorkloadUnknown p)"

definition minerOperational :: "AggregateNetwork \<Rightarrow> RuntimeParticipant list \<Rightarrow> predicate" where
  "minerOperational root participants =
     (let miners = concat (map (\<lambda>e. filter (\<lambda>p. bp_ParticipantName p = entry_Name e \<and> verified_miner root p) participants)
                            (filter (\<lambda>e. entry_Kind e = ''StacksNode'') (rn_Participants root)))
      in if list_ex currentActorReady miners then pred_True ''MinerReady''
         else if list_ex workload_unobserved miners then pred_Unknown ''MinerObservationUnavailable''
         else pred_False ''NoReadyMiner'')"

text \<open>Whether the last current target of the original transfer is still the process that took it.\<close>

definition original_ingress :: "AggregateNetwork \<Rightarrow> RuntimeParticipant list \<Rightarrow> TrafficObservation \<Rightarrow> bool" where
  "original_ingress root participants o' =
     (case filter (\<lambda>target. bp_UID target = TargetParticipantUID o' \<and> selectedInstance root target \<and> bp_Kind target = ''StacksNode''
                      \<and> currentActorReady target) participants of
        [] \<Rightarrow> False
      | targets \<Rightarrow>
          (case bp_Runtime (last targets) of
             None \<Rightarrow> False
           | Some rt \<Rightarrow>
               (case rt_PodRef rt of None \<Rightarrow> False | Some pod \<Rightarrow> UID pod = TargetPodUID o')
               \<and> rt_ContainerID rt = TargetContainerID o' \<and> rt_ConfigurationDigest rt = TargetConfigurationDigest o'))"

text \<open>The window claimed for the interval the role applies; \<open>None\<close> when the claim does not hold.\<close>

definition traffic_window :: "TrafficObservation \<Rightarrow> int option" where
  "traffic_window o' =
     (let interval = uint (EffectiveIntervalSeconds o') * second; window = ProgressWindow interval in
      if EffectiveIntervalSeconds o' < 1 \<or> EffectiveIntervalSeconds o' > 3600 then None
      else if ProgressWindowSeconds o' \<noteq> of_int (window div second) then None else Some window)"

definition traffic_progress :: "TransactionExecutionStatus \<Rightarrow> TrafficObservation \<Rightarrow> int \<Rightarrow> time \<Rightarrow> bool" where
  "traffic_progress transactions o' window now =
     (case LastInclusion transactions of
        None \<Rightarrow> False
      | Some inclusion \<Rightarrow>
          incl_TxID inclusion = traffic_TxID o' \<and> incl_Success inclusion \<and> \<not> incl_ObservedAt inclusion > now
          \<and> \<not> now - incl_ObservedAt inclusion > window)"

definition traffic_observed ::
  "AggregateNetwork \<Rightarrow> FrozenGenesis \<Rightarrow> RuntimeParticipant list \<Rightarrow> TransactionExecutionStatus \<Rightarrow> TrafficObservation \<Rightarrow> time \<Rightarrow> predicate" where
  "traffic_observed root g participants transactions o' now =
     (if \<not> traffic_Available o' \<or> \<not> fresh (traffic_ObservedAt o') now \<or> GenesisUID o' \<noteq> fg_UID g
      then pred_Unknown ''TrafficObservationUnavailable''
      else if \<not> traffic_Found o' \<or> \<not> traffic_Success o' then pred_False ''CanonicalTransferUnavailable''
      else if \<not> original_ingress root participants o' then pred_Unknown ''TrafficIngressUnavailable''
      else case traffic_window o' of
        None \<Rightarrow> pred_Unknown ''TrafficTimingUnavailable''
      | Some window \<Rightarrow>
          if traffic_progress transactions o' window now then pred_True ''CanonicalTransferObserved''
          else pred_False ''TrafficProgressOverdue'')"

definition trafficOperational ::
  "AggregateNetwork \<Rightarrow> FrozenGenesis \<Rightarrow> RuntimeParticipant list \<Rightarrow> time \<Rightarrow> predicate" where
  "trafficOperational root g participants now =
     (case selectedMember root ''StacksTransactionProduction'' participants of
        (None, result) \<Rightarrow> result
      | (Some p, _) \<Rightarrow>
          if capabilityPaused root p then pred_False ''TrafficPaused''
          else if \<not> currentWorker root p now then pred_Unknown ''TrafficObservationUnavailable''
          else case (np_Traffic p, Option.bind (bp_Execution p) we_Transactions) of
            (Some o', Some transactions) \<Rightarrow> traffic_observed root g participants transactions o' now
          | _ \<Rightarrow> pred_Unknown ''TrafficObservationUnavailable'')"

definition contractsOperational ::
  "protocol_code \<Rightarrow> AggregateNetwork \<Rightarrow> FrozenGenesis \<Rightarrow> RuntimeParticipant list \<Rightarrow> time \<Rightarrow> predicate" where
  "contractsOperational C root g participants now =
     (case selectedMember root ''StacksContractSet'' participants of
        (None, result) \<Rightarrow> result
      | (Some p, _) \<Rightarrow>
          if \<not> currentWorker root p now then pred_Unknown ''ContractObservationUnavailable''
          else case np_Contracts p of
            None \<Rightarrow> pred_Unknown ''ContractObservationUnavailable''
          | Some o' \<Rightarrow>
              if \<not> fresh (co_ObservedAt o') now then pred_Unknown ''ContractObservationUnavailable''
              else case cf_StacksContractSet (np_Configuration p) of
                None \<Rightarrow> pred_Unknown ''ContractAdmissionUnavailable''
              | Some initialization \<Rightarrow>
                  if list_ex (\<lambda>req. rq_Kind req = ''StacksContractSet''
                        \<and> registry_digest C (rq_RegistryInitialization req) = registry_digest C initialization
                        \<and> contractObservationMatches (Some o') g req now) (fg_Requirements g)
                  then pred_True ''ContractsObserved'' else pred_False ''ContractPostconditionsDiffer'')"

definition combinePredicates :: "predicate list \<Rightarrow> predicate" where
  "combinePredicates values =
     (case find (\<lambda>p. pr_status p = ConditionFalse) values of
        Some p \<Rightarrow> p
      | None \<Rightarrow>
          (case find (\<lambda>p. pr_status p \<noteq> ConditionTrue) values of
             Some p \<Rightarrow> p
           | None \<Rightarrow> pred_True ''BaselineProgressObserved''))"

section \<open>Burnchain samples (burnchain.go)\<close>

definition retainHeightSample :: "BurnHeightSample option \<Rightarrow> BurnHeightSample option \<Rightarrow> BurnHeightSample option" where
  "retainHeightSample previous current =
     (case (previous, current) of
        (Some prev, Some cur) \<Rightarrow>
          if bh_FirstObservedAt prev = 0 \<or> bh_FirstObservedAt prev > bh_FirstObservedAt cur then current
          else if prev\<lparr>bh_FirstObservedAt := bh_FirstObservedAt cur\<rparr> = cur
          then Some (cur\<lparr>bh_FirstObservedAt := bh_FirstObservedAt prev\<rparr>)
          else current
      | _ \<Rightarrow> current)"

definition burnHeightSample :: "'a BitcoinParticipant_scheme \<Rightarrow> u64 \<Rightarrow> time \<Rightarrow> BurnHeightSample option" where
  "burnHeightSample p height observed =
     Option.bind (bp_Runtime p) (\<lambda>state. map_option (\<lambda>pod.
       \<lparr>bh_Participant = \<lparr>Kind = ''StacksNetworkParticipant'', Name = bp_Name p, UID = bp_UID p, Fingerprint = []\<rparr>, bh_Pod = pod,
        bh_ContainerID = rt_ContainerID state, bh_ConfigurationDigest = rt_ConfigurationDigest state, bh_Height = height,
        bh_FirstObservedAt = observed\<rparr>) (rt_PodRef state))"

definition greatestSample :: "BurnHeightSample option \<Rightarrow> BurnHeightSample option \<Rightarrow> BurnHeightSample option" where
  "greatestSample current candidate =
     (case (current, candidate) of
        (Some cur, Some cand) \<Rightarrow>
          if bh_Height cand > bh_Height cur
             \<or> bh_Height cand = bh_Height cur \<and> UID (bh_Participant cand) < UID (bh_Participant cur)
          then candidate else current
      | (None, _) \<Rightarrow> candidate
      | (Some _, None) \<Rightarrow> current)"

text \<open>The observation of an execution record by a current Bitcoin actor; the last participant of a UID counts.\<close>

definition execution_sample ::
  "AggregateNetwork \<Rightarrow> RuntimeParticipant list \<Rightarrow> time \<Rightarrow> BitcoinExecution \<Rightarrow> BurnHeightSample option" where
  "execution_sample root participants now execution =
     (case (find (\<lambda>p. bp_UID p = UID (exec_Participant execution)) (rev participants), Observation execution) of
        (Some p, Some o') \<Rightarrow>
          if selectedInstance root p \<and> bp_Kind p = ''BitcoinNode'' \<and> currentActorReady p \<and> \<not> obs_Height o' < 0
             \<and> fresh (obs_ObservedAt o') now \<and> bitcoinTargetMatchesRuntime p o'
             \<and> bitcoinEndpointMatches (np_Endpoints p) (obs_Target o') (np_PodIP p)
          then burnHeightSample p (of_int (obs_Height o')) (obs_ObservedAt o') else None
      | _ \<Rightarrow> None)"

fun bitcoin_samples ::
  "gate_reads \<Rightarrow> AggregateNetwork \<Rightarrow> RuntimeParticipant list \<Rightarrow> time \<Rightarrow> BurnHeightSample option \<Rightarrow> Binding list \<Rightarrow> BurnHeightSample option" where
  "bitcoin_samples R root participants now sample [] = sample"
| "bitcoin_samples R root participants now sample (ref # rest) =
     (case gr_execution R (Name ref) of
        Got execution \<Rightarrow>
          if exec_UID execution \<noteq> UID ref \<or> exec_NetworkUID execution \<noteq> rn_UID root \<or> exec_Owner execution \<noteq> rn_UID root then None
          else bitcoin_samples R root participants now
                 (greatestSample sample (execution_sample root participants now execution)) rest
      | _ \<Rightarrow> None)"

definition currentBitcoinSample ::
  "gate_reads \<Rightarrow> AggregateNetwork \<Rightarrow> RuntimeParticipant list \<Rightarrow> time \<Rightarrow> BurnHeightSample option" where
  "currentBitcoinSample R root participants now =
     (case rn_Bitcoin root of
        None \<Rightarrow> None
      | Some b \<Rightarrow> bitcoin_samples R root participants now None (bs_ExecutionRefs b))"

definition currentMinerSample ::
  "AggregateNetwork \<Rightarrow> FrozenGenesis \<Rightarrow> RuntimeParticipant list \<Rightarrow> time \<Rightarrow> BurnHeightSample option" where
  "currentMinerSample root g participants now =
     fold (\<lambda>p sample.
       case current_protocol g now p of
         Some view \<Rightarrow>
           if verified_miner root p \<and> currentActorReady p
           then greatestSample sample (burnHeightSample p (pv_BurnHeight view) (pv_ObservedAt view)) else sample
       | None \<Rightarrow> sample) participants None"

definition burnchainObservations ::
  "gate_reads \<Rightarrow> AggregateNetwork \<Rightarrow> FrozenGenesis \<Rightarrow> RuntimeParticipant list \<Rightarrow> time \<Rightarrow> BurnchainObservations option" where
  "burnchainObservations R root g participants now =
     (let bitcoin = currentBitcoinSample R root participants now; miner = currentMinerSample root g participants now in
      if bitcoin = None \<and> miner = None then None
      else case rn_Burnchain root of
        None \<Rightarrow> Some \<lparr>bo_Bitcoin = bitcoin, bo_Miner = miner\<rparr>
      | Some previous \<Rightarrow> Some \<lparr>bo_Bitcoin = retainHeightSample (bo_Bitcoin previous) bitcoin,
                                 bo_Miner = retainHeightSample (bo_Miner previous) miner\<rparr>)"

section \<open>The projection\<close>

definition beyond_waterfall ::
  "AggregateNetwork \<Rightarrow> FrozenGenesis \<Rightarrow> RuntimeParticipant list \<Rightarrow> u64 \<Rightarrow> time \<Rightarrow> CapturedRequirement \<Rightarrow> bool" where
  "beyond_waterfall root g participants boundary now req =
     (case requiredParticipant root req participants of
        None \<Rightarrow> False
      | Some p \<Rightarrow>
          currentActorReady p
          \<and> (case current_protocol g now p of
               None \<Rightarrow> False
             | Some view \<Rightarrow> pv_FullySynced view \<and> \<not> pv_BurnHeight view < boundary \<and> np_PoXContract p = ''ST000000000000000000002AMW42H.pox-5''))"

definition postWaterfallObserved :: "AggregateNetwork \<Rightarrow> FrozenGenesis \<Rightarrow> RuntimeParticipant list \<Rightarrow> time \<Rightarrow> bool" where
  "postWaterfallObserved root g participants now =
     (if fg_Gates g = [] \<or> gate_Ceiling (last (fg_Gates g)) < 0 then False
      else
        let boundary = of_int (gate_Ceiling (last (fg_Gates g))) + 1 in
        case fst (selectedMember root ''StacksTransactionProduction'' participants) of
          None \<Rightarrow> False
        | Some traffic \<Rightarrow>
            bp_Execution traffic \<noteq> None
            \<and> (case np_Traffic traffic of None \<Rightarrow> False | Some o' \<Rightarrow> \<not> SubmittedBurnHeight o' < boundary)
            \<and> every_required ''StacksNode'' g (beyond_waterfall root g participants boundary now))"

text \<open>\<open>projectOperation\<close>: the snapshot \<open>S\<close> is what \<open>ValidateSchedulingOverride\<close> reads.\<close>

definition bitcoin_confirmed ::
  "snapshot \<Rightarrow> AggregateNetwork \<Rightarrow> RuntimeParticipant list \<Rightarrow> time \<Rightarrow> predicate" where
  "bitcoin_confirmed S root participants now =
     (let bitcoin = bitcoinOperational root participants now in
      case fst (selectedMember root ''BitcoinBlockProduction'' participants) of
        Some production \<Rightarrow>
          if pr_status bitcoin = ConditionTrue
             \<and> \<not> is_ok (ValidateSchedulingOverride (S\<lparr>sn_now := now\<rparr>) (scheduler_view root) (BitcoinParticipant.truncate production)
                          (bp_Scheduling production))
          then pred_Unknown ''BitcoinTimingUnavailable'' else bitcoin
      | None \<Rightarrow> bitcoin)"

definition project_running ::
  "protocol_code \<Rightarrow> snapshot \<Rightarrow> AggregateNetwork \<Rightarrow> FrozenGenesis \<Rightarrow> RuntimeParticipant list \<Rightarrow> time \<Rightarrow> predicate \<Rightarrow> AggregateNetwork" where
  "project_running C S root g participants now traffic =
     (if rn_Operation root \<noteq> ''Running'' then root
      else
        let running = set_condition ''Running'' ConditionTrue ''Running'' (root\<lparr>rn_Phase := ''Running''\<rparr>);
            result = combinePredicates
              [bitcoin_confirmed S running participants now, minerOperational running participants, traffic,
               contractsOperational C running g participants now]
        in set_condition ''Operational'' (pr_status result) (pr_reason result) running)"

definition projectOperation ::
  "protocol_code \<Rightarrow> gate_reads \<Rightarrow> snapshot \<Rightarrow> AggregateNetwork \<Rightarrow> RuntimeParticipant list \<Rightarrow> time \<Rightarrow> AggregateNetwork \<times> unit result" where
  "projectOperation C R S root participants now =
     (if (case rn_Initialization root of None \<Rightarrow> True | Some state \<Rightarrow> \<not> ai_Completed state)
      then (root\<lparr>rn_Burnchain := None\<rparr>, Inr ())
      else case frozenGenesis R root of
        Inl e \<Rightarrow> (root\<lparr>rn_Burnchain := None\<rparr>, Inl e)
      | Inr g \<Rightarrow>
          let observed = root\<lparr>rn_Burnchain := burnchainObservations R root g participants now\<rparr>;
              traffic = trafficOperational observed g participants now
          in if condition_true observed ''Initialized''
             then (project_running C S observed g participants now traffic, Inr ())
             else if pr_status traffic \<noteq> ConditionTrue \<or> \<not> postWaterfallObserved observed g participants now
             then (observed, Inr ())
             else (project_running C S (set_condition ''Initialized'' ConditionTrue ''BootstrapCompleted'' observed) g participants now
                     traffic, Inr ()))"

section \<open>What the predicates promise\<close>

lemma combinePredicates_status:
  "pr_status (combinePredicates ps) = ConditionTrue \<longleftrightarrow> (\<forall>p \<in> set ps. pr_status p = ConditionTrue)"
  "pr_status (combinePredicates ps) = ConditionFalse \<longleftrightarrow> (\<exists>p \<in> set ps. pr_status p = ConditionFalse)"
proof -
  have f: "find P xs = Some x \<Longrightarrow> P x \<and> x \<in> set xs" for P and xs :: "predicate list" and x
    by (induction xs) (auto split: if_splits)
  show "pr_status (combinePredicates ps) = ConditionTrue \<longleftrightarrow> (\<forall>p \<in> set ps. pr_status p = ConditionTrue)"
    by (auto simp: combinePredicates_def pred_defs find_None_iff dest!: f split: option.splits)
  show "pr_status (combinePredicates ps) = ConditionFalse \<longleftrightarrow> (\<exists>p \<in> set ps. pr_status p = ConditionFalse)"
    by (auto simp: combinePredicates_def pred_defs find_None_iff dest!: f split: option.splits)
qed

lemma pred_status [simp]:
  "pr_status (pred_True r) = ConditionTrue" "pr_status (pred_False r) = ConditionFalse" "pr_status (pred_Unknown r) = ConditionUnknown"
  by (simp_all add: pred_defs)

lemma selectedMember_None: "selectedMember root kind ps = (None, result) \<Longrightarrow> pr_status result \<noteq> ConditionTrue"
  by (auto simp: selectedMember_def split: option.splits list.splits if_splits)

lemma selectedMember_Some:
  assumes "selectedMember root kind ps = (Some p, result)"
  shows "p \<in> set ps" and "bp_Kind p = kind" and "selectedInstance root p"
proof -
  from assms obtain entry where e: "find (\<lambda>e. entry_Kind e = kind) (rn_Participants root) = Some entry"
    by (auto simp: selectedMember_def split: option.splits)
  then have entry: "entry \<in> set (rn_Participants root)" "entry_Kind entry = kind" by (auto simp: find_Some_iff)
  from assms e have "p \<in> set (concat (map (\<lambda>uid. filter (member_of root entry uid) ps) (selected_uids root entry)))"
    by (cases "concat (map (\<lambda>uid. filter (member_of root entry uid) ps) (selected_uids root entry))")
      (simp_all add: selectedMember_def del: set_concat split: if_splits)
  then show "p \<in> set ps" "bp_Kind p = kind" "selectedInstance root p"
    using entry by (force simp: member_of_def selected_uids_def selectedInstance_def declared_def list_ex_iff)+
qed

lemma timing_window:
  assumes "bitcoinTiming s = (window, True)"
  shows "second \<le> window \<and> window \<le> 10810 * second"
  using assms by (auto simp: bitcoinTiming_def Let_def split: option.splits)

lemma bitcoin_operational_recent:
  assumes "pr_status (bitcoinOperational root ps now) = ConditionTrue"
  shows "\<exists>p s t. p \<in> set ps \<and> selectedInstance root p \<and> bp_Kind p = ''BitcoinBlockProduction'' \<and> \<not> capabilityPaused root p
    \<and> bp_Scheduling p = Some s \<and> EligibleTargets s \<noteq> 0 \<and> LastAcknowledgedAt s = Some t \<and> t \<le> now \<and> now - t \<le> 10810 * second"
proof -
  obtain p result where sel: "selectedMember root ''BitcoinBlockProduction'' ps = (Some p, result)"
    using assms selectedMember_None by (fastforce simp: bitcoinOperational_def split: prod.splits option.splits)
  with assms obtain s where s: "\<not> capabilityPaused root p" "bp_Scheduling p = Some s" "pr_status (bitcoin_progress s now) = ConditionTrue"
    by (auto simp: bitcoinOperational_def split: option.splits if_splits)
  then obtain t window where "EligibleTargets s \<noteq> 0" "bitcoinTiming s = (window, True)" "LastAcknowledgedAt s = Some t" "t \<le> now" "now - t \<le> window"
    by (auto simp: bitcoin_progress_def split: prod.splits if_splits option.splits)
  moreover from this have "now - t \<le> 10810 * second" using timing_window by fastforce
  ultimately show ?thesis using s selectedMember_Some [OF sel] by blast
qed

lemma miner_operational_ready:
  "pr_status (minerOperational root ps) = ConditionTrue \<Longrightarrow> \<exists>p \<in> set ps. verified_miner root p \<and> currentActorReady p"
  by (auto simp: minerOperational_def Let_def list_ex_iff split: if_splits)

lemma traffic_window_bound: "traffic_window o' = Some window \<Longrightarrow> window \<le> 10810 * second"
proof -
  assume w: "traffic_window o' = Some window"
  then have "\<not> EffectiveIntervalSeconds o' > 3600" by (auto simp: traffic_window_def Let_def split: if_splits)
  then have "uint (EffectiveIntervalSeconds o') \<le> 3600" by (simp add: word_less_def not_less)
  with w show ?thesis by (auto simp: traffic_window_def Let_def split: if_splits)
qed

lemma traffic_operational_recent:
  assumes "pr_status (trafficOperational root g ps now) = ConditionTrue"
  shows "\<exists>p o' transactions inclusion. p \<in> set ps \<and> selectedInstance root p \<and> bp_Kind p = ''StacksTransactionProduction''
    \<and> \<not> capabilityPaused root p \<and> currentWorker root p now \<and> np_Traffic p = Some o' \<and> traffic_Found o' \<and> traffic_Success o'
    \<and> GenesisUID o' = fg_UID g \<and> original_ingress root ps o'
    \<and> Option.bind (bp_Execution p) we_Transactions = Some transactions \<and> LastInclusion transactions = Some inclusion
    \<and> incl_TxID inclusion = traffic_TxID o' \<and> incl_ObservedAt inclusion \<le> now \<and> now - incl_ObservedAt inclusion \<le> 10810 * second"
proof -
  obtain p result where sel: "selectedMember root ''StacksTransactionProduction'' ps = (Some p, result)"
    using assms selectedMember_None by (fastforce simp: trafficOperational_def split: prod.splits option.splits)
  with assms obtain o' transactions where o': "\<not> capabilityPaused root p" "currentWorker root p now" "np_Traffic p = Some o'"
    "Option.bind (bp_Execution p) we_Transactions = Some transactions"
    "pr_status (traffic_observed root g ps transactions o' now) = ConditionTrue"
    by (auto simp: trafficOperational_def split: option.splits if_splits)
  then obtain window where w: "traffic_window o' = Some window" "traffic_progress transactions o' window now"
    "traffic_Found o'" "traffic_Success o'" "GenesisUID o' = fg_UID g" "original_ingress root ps o'"
    by (auto simp: traffic_observed_def split: if_splits option.splits)
  then obtain inclusion where "LastInclusion transactions = Some inclusion" "incl_TxID inclusion = traffic_TxID o'"
    "incl_ObservedAt inclusion \<le> now" "now - incl_ObservedAt inclusion \<le> window"
    by (auto simp: traffic_progress_def split: option.splits)
  with traffic_window_bound [OF w(1)] o' w selectedMember_Some [OF sel] show ?thesis by (meson order_trans)
qed

lemma contracts_operational_match:
  assumes "pr_status (contractsOperational C root g ps now) = ConditionTrue"
  shows "\<exists>p req. p \<in> set ps \<and> selectedInstance root p \<and> currentWorker root p now \<and> req \<in> set (fg_Requirements g)
    \<and> contractObservationMatches (np_Contracts p) g req now"
proof -
  obtain p result where sel: "selectedMember root ''StacksContractSet'' ps = (Some p, result)"
    using assms selectedMember_None by (fastforce simp: contractsOperational_def split: prod.splits option.splits)
  with assms obtain req where "currentWorker root p now" "req \<in> set (fg_Requirements g)" "contractObservationMatches (np_Contracts p) g req now"
    by (auto simp: contractsOperational_def list_ex_iff split: option.splits if_splits)
  with selectedMember_Some [OF sel] show ?thesis by blast
qed

text \<open>The predicates depend on the declared members, the allocated identities, the identity and the generation of the root.\<close>

definition same_view :: "AggregateNetwork \<Rightarrow> AggregateNetwork \<Rightarrow> bool" where
  "same_view a b \<longleftrightarrow>
     rn_UID a = rn_UID b \<and> rn_Participants a = rn_Participants b \<and> rn_Identities a = rn_Identities b \<and> rn_Generation a = rn_Generation b"

lemma same_view_fields:
  assumes "same_view a b"
  shows "selectedInstance a = (selectedInstance b :: RuntimeParticipant \<Rightarrow> bool)"
    and "capabilityPaused a = (capabilityPaused b :: RuntimeParticipant \<Rightarrow> bool)"
    and "currentWorker a = (currentWorker b :: RuntimeParticipant \<Rightarrow> time \<Rightarrow> bool)"
    and "verified_miner a = verified_miner b" and "original_ingress a = original_ingress b"
proof -
  show sel: "selectedInstance a = (selectedInstance b :: RuntimeParticipant \<Rightarrow> bool)"
    using assms by (intro ext) (simp add: same_view_def selectedInstance_def declared_def owned_by_def)
  show "capabilityPaused a = (capabilityPaused b :: RuntimeParticipant \<Rightarrow> bool)"
    "currentWorker a = (currentWorker b :: RuntimeParticipant \<Rightarrow> time \<Rightarrow> bool)"
    using assms by (auto simp: fun_eq_iff same_view_def capabilityPaused_def currentWorker_def split: option.splits)
  have "actorSuspended a = (actorSuspended b :: RuntimeParticipant \<Rightarrow> bool)"
    using assms by (intro ext) (simp add: same_view_def actorSuspended_def)
  with sel show "verified_miner a = verified_miner b" "original_ingress a = original_ingress b"
    by (intro ext, simp only: verified_miner_def, intro ext, simp only: original_ingress_def)
qed

lemma same_view_updates [simp]:
  "same_view (set_condition k st r a) b = same_view a b" "same_view (a\<lparr>rn_Phase := ph\<rparr>) b = same_view a b"
  "same_view (a\<lparr>rn_Burnchain := bo\<rparr>) b = same_view a b" "same_view a a"
  by (simp_all add: same_view_def set_condition_def)

lemma other_conditions_kept [simp]:
  "condition_true (root\<lparr>rn_Phase := ph\<rparr>) k = condition_true root k" "condition_true (root\<lparr>rn_Burnchain := bo\<rparr>) k = condition_true root k"
  "rn_Operation (set_condition k st r root) = rn_Operation root" "rn_Phase (set_condition k st r root) = rn_Phase root"
  by (simp_all add: condition_true_def set_condition_def)


section \<open>The scheduler's window\<close>

lemma parse_interval_Inr: "parse_interval v = Inr d \<Longrightarrow> (\<exists>text. v = Some (text, Inr d)) \<and> second \<le> d \<and> d \<le> 3600 * second"
  by (auto simp: parse_interval_def split: option.splits sum.splits if_splits)

lemma cadence_claimed:
  assumes "cadenceBounds (Some schedule) = Inr (low, high)"
  shows "claimed_bound schedule = Inr high" and "second \<le> high" and "high \<le> 3600 * second"
proof -
  have "parse_interval (if ScheduleMode schedule = ''Fixed'' then Interval schedule else MaximumInterval schedule) = Inr high"
    "ScheduleMode schedule = ''Fixed'' \<or> ScheduleMode schedule = ''Uniform''"
    using assms by (cases "parse_interval (MaximumInterval schedule)"; auto simp: cadenceBounds_def result_simps split: if_splits)+
  then show "claimed_bound schedule = Inr high" "second \<le> high" "high \<le> 3600 * second"
    using parse_interval_Inr by (fastforce simp: claimed_bound_def split: if_splits)+
qed

lemma round_up_div: "(k :: int) > 0 \<Longrightarrow> (w + k - 1) div k = w div k \<longleftrightarrow> k dvd w"
proof -
  assume k: "k > 0"
  define q r where "q = w div k" and "r = w mod k"
  have w: "w = k * q + r" "0 \<le> r" "r < k" using k by (simp_all add: q_def r_def)
  have "(w + k - 1) div k = (if r = 0 then q else q + 1)"
  proof (cases "r = 0")
    case True
    then have "w + k - 1 = (k - 1) + q * k" using w by (simp add: algebra_simps)
    then have "(w + k - 1) div k = (k - 1) div k + q" using k by (simp only: div_mult_self1)
    with True k show ?thesis by simp
  next
    case False
    then have "w + k - 1 = (r - 1) + (q + 1) * k" using w by (simp add: algebra_simps)
    then have "(w + k - 1) div k = (r - 1) div k + (q + 1)" using k by (simp only: div_mult_self1)
    with False w show ?thesis by simp
  qed
  moreover have "k dvd w \<longleftrightarrow> r = 0" by (simp add: dvd_eq_mod_eq_0 r_def)
  ultimately show ?thesis unfolding q_def [symmetric] by simp
qed

text \<open>C31: Which of the scheduler's own projections the aggregate accepts. The scheduler publishes the progress window of the
  effective schedule rounded up to whole seconds; the aggregate compares it with the window cut off to whole seconds. So the timing
  is accepted exactly when three times the upper bound is at most two minutes or a whole number of seconds; for every
  other admissible schedule, a producer with eligible targets is never reported as making progress.\<close>

theorem scheduler_window_accepted:
  assumes "cadenceBounds (effectiveSchedule r (sc_Schedule inputs)) = Inr (low, high)"
  shows "(snd (bitcoinTiming (effective_inputs r inputs)) \<longleftrightarrow> 3 * high \<le> 120 * second \<or> second dvd 3 * high)
    \<and> (\<not> (3 * high \<le> 120 * second \<or> second dvd 3 * high) \<and> EligibleTargets (effective_inputs r inputs) \<noteq> 0 \<longrightarrow>
      bitcoin_progress (effective_inputs r inputs) now = pred_Unknown ''BitcoinTimingUnavailable'')"
proof -
  obtain schedule where s: "effectiveSchedule r (sc_Schedule inputs) = Some schedule"
    using assms by (cases "effectiveSchedule r (sc_Schedule inputs)") (auto simp: cadenceBounds_def)
  note bound = cadence_claimed [OF assms [unfolded s]]
  have "snd (bitcoinTiming (effective_inputs r inputs)) \<longleftrightarrow> progress_seconds high = ProgressWindow high div second"
    using bound assms s by (simp add: bitcoinTiming_def effective_inputs_def Let_def is_ok_def)
  also have "\<dots> \<longleftrightarrow> second dvd ProgressWindow high" 
    unfolding progress_seconds_def by (rule round_up_div) simp
  also have "\<dots> \<longleftrightarrow> second dvd max (120 * second) (3 * high)"
    unfolding ProgressWindow_eq by (rule dvd_add_left_iff) (rule dvd_triv_right)
  also have "\<dots> \<longleftrightarrow> 3 * high \<le> 120 * second \<or> second dvd 3 * high" by (auto simp: max_def)
  finally have timing: "snd (bitcoinTiming (effective_inputs r inputs)) \<longleftrightarrow> 3 * high \<le> 120 * second \<or> second dvd 3 * high" .
  moreover have "\<not> (3 * high \<le> 120 * second \<or> second dvd 3 * high) \<and> EligibleTargets (effective_inputs r inputs) \<noteq> 0 \<longrightarrow>
      bitcoin_progress (effective_inputs r inputs) now = pred_Unknown ''BitcoinTimingUnavailable''"
    using timing by (auto simp: bitcoin_progress_def split: prod.splits)
  ultimately show ?thesis by blast
qed

section \<open>Sample objects\<close>

text \<open>An initialized network with a producer, a miner, a traffic worker and a contract worker, all recently observed.\<close>

definition sample_member :: "string \<Rightarrow> string \<Rightarrow> RuntimeParticipant" where
  "sample_member name kind =
     \<lparr>bp_Name = name, bp_UID = name, bp_Owner = ''net'', bp_Deleted = False, bp_Generation = 1, bp_NetworkUID = ''net'',
      bp_ParticipantName = name, bp_Kind = kind, bp_Suspended = False, bp_Paused = False,
      bp_Admission = Some \<lparr>adm_PolicyDigest = ''policy'', adm_ConfigurationDigest = ''policy'', adm_Dependencies = [],
                           adm_BitcoinNode = None, adm_BitcoinBlockProduction = None\<rparr>,
      bp_AdmissionDigest = [], bp_Runtime = None, bp_WorkloadReady = Some (True, 1), bp_ConfigVerified = Some (True, 1),
      bp_Execution = None, bp_Scheduling = None, bp_Finalizers = [], bp_BitcoinControl = None,
      np_Configuration = \<lparr>cf_StacksNode = None, cf_StacksSigner = None, cf_StacksStacker = None, cf_StacksContractSet = None\<rparr>,
      np_PoX4 = None, np_PoX5 = None, np_Contracts = None, np_Traffic = None, np_PreparedSet = None, np_PoXContract = [],
      np_WorkloadUnknown = False, np_PodIP = [], np_Endpoints = [], np_WorkloadRefs = [],
      np_Namespace = ''ns'', np_OwnerAPIVersion = api_version, np_OwnerKind = ''StacksNetwork'', np_OwnerName = ''network'',
      np_RuntimeEmpty = False, np_WorkerCandidate = None\<rparr>"

definition sample_cadence :: "int \<Rightarrow> block_schedule" where
  "sample_cadence d = \<lparr>ScheduleMode = ''Fixed'', Interval = Some ([], Inr d), MinimumInterval = None, MaximumInterval = None\<rparr>"

definition sample_producer :: RuntimeParticipant where
  "sample_producer = (sample_member ''producer'' ''BitcoinBlockProduction'')\<lparr>bp_Scheduling :=
     Some ((empty_scheduling (initialization_ref sample_initialization))
       \<lparr>sc_PolicyDigest := ''policy'', sc_Schedule := Some (sample_cadence (50 * second)), LastAcknowledgedAt := Some (90 * second),
        sc_ObservedAt := Some (95 * second), EligibleTargets := 1, sc_ProgressWindowSeconds := progress_seconds (50 * second)\<rparr>)\<rparr>"

definition sample_miner :: RuntimeParticipant where
  "sample_miner = (sample_member ''miner'' ''StacksNode'')
     \<lparr>bp_Runtime := Some \<lparr>rt_Protocol = None, rt_ObservedGeneration = 1, rt_PolicyDigest = ''policy'', rt_ConfigRef = None,
                          rt_ConfigurationDigest = ''config'', rt_RPCSecretRef = None, rt_PodRef = Some (bind ''Pod'' ''pod'' ''pod''),
                          rt_ContainerID = ''c'', rt_Terminated = False\<rparr>,
      np_Configuration := \<lparr>cf_StacksNode = Some \<lparr>nd_Unverified = False, nd_MiningEnabled = True\<rparr>, cf_StacksSigner = None,
                           cf_StacksStacker = None, cf_StacksContractSet = None\<rparr>\<rparr>"

definition sample_running :: "string \<Rightarrow> StackerExecutionStatus" where
  "sample_running pod =
     \<lparr>we_PodUID = pod, we_ProcessNonce = ''x'', we_ProfileDigest = ''profile'', we_NetworkGeneration = 3, we_Phase = ''Active'',
      we_Reason = [], we_ObservedAt = 95 * second, we_Pending = 0, we_ObservedGeneration = 1, we_AppliedPolicyDigest = ''policy'',
      we_Transactions = Some (empty_facts\<lparr>LastInclusion :=
        Some \<lparr>incl_TxID = ''tx'', incl_BlockID = [], incl_Success = True, incl_ObservedAt = 80 * second\<rparr>\<rparr>)\<rparr>"

definition sample_traffic :: RuntimeParticipant where
  "sample_traffic = (sample_member ''traffic'' ''StacksTransactionProduction'')
     \<lparr>bp_Execution := Some (sample_running ''traffic''),
      np_Traffic := Some \<lparr>traffic_Available = True, traffic_Found = True, traffic_Success = True, traffic_TxID = ''tx'',
        traffic_BlockID = [], traffic_IndexBlockID = [], SubmittedBurnHeight = 300, traffic_BurnHeight = 300,
        traffic_ObservedAt = 95 * second, TargetParticipantUID = ''miner'', TargetPodUID = ''pod'', TargetContainerID = ''c'',
        TargetConfigurationDigest = ''config'', GenesisUID = ''g'', EffectiveIntervalSeconds = 10, ProgressWindowSeconds = 130\<rparr>\<rparr>"

definition sample_registry :: RegistryInitialization where
  "sample_registry = \<lparr>ri_Mode = ''ExplicitTestRegistry'', ri_SignerAccountRefs = [''signer''], ri_AggregateKeyAccountRef = ''signer'',
                      ri_Threshold = 1\<rparr>"

definition sample_principal :: string where
  "sample_principal = (case EncodeAddress 21 (replicate 20 0) of Inr a \<Rightarrow> a | Inl _ \<Rightarrow> [])"

definition sample_contracts :: "string \<Rightarrow> RuntimeParticipant" where
  "sample_contracts addr = (sample_member ''contracts'' ''StacksContractSet'')
     \<lparr>bp_Execution := Some (sample_running ''contracts''),
      np_Configuration := \<lparr>cf_StacksNode = None, cf_StacksSigner = None, cf_StacksStacker = None,
                           cf_StacksContractSet = Some (Some sample_registry)\<rparr>,
      np_Contracts := Some \<lparr>co_Deployer = [], co_Bundle = [], co_SourceDigest = [], co_SignerPublicKeys = [''key''],
        co_AggregatePublicKey = ''key'', co_Threshold = 1, co_SignerPrincipal = addr, co_Complete = True,
        co_ObservedAt = 95 * second\<rparr>\<rparr>"

definition sample_members :: "string \<Rightarrow> RuntimeParticipant list" where
  "sample_members addr = [sample_producer, sample_miner, sample_traffic, sample_contracts addr]"

definition sample_final :: FrozenGenesis where
  "sample_final = sample_frozen
     \<lparr>fg_Gates := take 1 (fg_Gates sample_frozen),
      fg_Requirements := [\<lparr>rq_Kind = ''StacksContractSet'', rq_Participant = bind ''StacksNetworkParticipant'' ''contracts'' ''contracts'',
        rq_Dependencies = [], rq_MiningEnabled = None, rq_AmountMicroSTX = None, rq_LockCycles = None,
        rq_RenewWhenRemainingCycles = None, rq_BitcoinPayoutWallet = None, rq_BitcoinInitialization = None,
        rq_RegistryInitialization = Some sample_registry,
        rq_Accounts = [\<lparr>pa_Name = ''signer'', pa_Address = [], pa_PublicKey = ''key''\<rparr>]\<rparr>]\<rparr>"

definition sample_final_reads :: gate_reads where
  "sample_final_reads = sample_gate_reads\<lparr>gr_genesis := (\<lambda>_. Got sample_final)\<rparr>"

definition sample_identity_of :: "RuntimeParticipant \<Rightarrow> InstanceIdentity" where
  "sample_identity_of p =
     \<lparr>ii_Name = bp_ParticipantName p, ii_UID = bp_UID p, ii_Removing = False,
      ii_Worker = Some \<lparr>ws_Pod = \<lparr>wp_Kind = ''Pod'', wp_Name = [], wp_UID = bp_UID p\<rparr>, ws_ProfileDigest = ''profile'',
                        ws_Shutdown = None, ws_Disposal = None\<rparr>\<rparr>"

definition sample_final_root :: AggregateNetwork where
  "sample_final_root =
     (sample_aggregate (Some \<lparr>ai_GenesisUID = ''g'', ai_GenesisDigest = ''chain'', ai_GateIndex = 1, ai_AuthorizedCeiling = 200,
        ai_Completed = True,
        ai_Gates = [\<lparr>go_Name = ''PrepareBitcoin'', go_FirstCeilingObservedAt = None, go_CompletedAt = Some (90 * second)\<rparr>]\<rparr>))
     \<lparr>rn_Participants := map (\<lambda>p. \<lparr>entry_Name = bp_ParticipantName p, entry_Kind = bp_Kind p, entry_Paused = None,
                                    entry_Suspended = False\<rparr>) (sample_members []),
      rn_Identities := map sample_identity_of (sample_members []),
      rn_Conditions := [(''Initialized'', \<lparr>cond_Status = ConditionTrue, cond_Reason = [], cond_ObservedGeneration = 3\<rparr>)],
      rn_Bitcoin := Some \<lparr>bs_InitializationRef = Some (initialization_ref sample_initialization), bs_ExecutionRefs = []\<rparr>\<rparr>"

definition sample_quiet :: snapshot where
  "sample_quiet =
     \<lparr>sn_now = 0, sn_draw = id, sn_initialization = (\<lambda>_. Got sample_initialization), sn_network = NotFound,
      sn_genesis = (\<lambda>_. NotFound), sn_participant = (\<lambda>_. NotFound), sn_execution = (\<lambda>_. NotFound),
      sn_override = (\<lambda>_. NotFound), sn_overrides = Inl [], sn_schedule = (\<lambda>_. NotFound), sn_publicWallet = (\<lambda>_. Inl []),
      sn_eligibility = (\<lambda>_. Inl []), sn_admission = (\<lambda>_ _. Inl []), sn_bindings = (\<lambda>_ _. Inl []), sn_write = Inl []\<rparr>"

lemma sample_principal_decodes: "DecodeAddress sample_principal = Inr (21, replicate 20 0)"
proof -
  obtain a where a: "EncodeAddress 21 (replicate 20 0) = Inr a" using EncodeAddress_total [of 21 "replicate 20 0"] by auto
  then show ?thesis using DecodeAddress_EncodeAddress_ok [OF _ _ a] by (simp add: sample_principal_def)
qed

definition sample_observed :: "string \<Rightarrow> AggregateNetwork" where
  "sample_observed addr = sample_final_root
     \<lparr>rn_Burnchain := burnchainObservations sample_final_reads sample_final_root sample_final (sample_members addr) (100 * second)\<rparr>"

definition sample_operating :: "string \<Rightarrow> AggregateNetwork" where
  "sample_operating addr = set_condition ''Running'' ConditionTrue ''Running'' ((sample_observed addr)\<lparr>rn_Phase := ''Running''\<rparr>)"

lemma sample_predicates:
  "bitcoin_confirmed sample_quiet (sample_operating a) (sample_members a) (100 * second) = pred_True ''BitcoinProgressObserved''"
  "minerOperational (sample_operating a) (sample_members a) = pred_True ''MinerReady''"
  "trafficOperational (sample_observed a) sample_final (sample_members a) (100 * second) = pred_True ''CanonicalTransferObserved''"
  by code_simp+

lemma sample_contracts_observed:
  "contractsOperational sample_code (sample_operating sample_principal) sample_final (sample_members sample_principal) (100 * second) = pred_True ''ContractsObserved''"
proof -
  have selected: "selectedMember (sample_operating a) ''StacksContractSet'' (sample_members a) = (Some (sample_contracts a), pred_True ''Selected'')"
    and "currentWorker (sample_operating a) (sample_contracts a) (100 * second)" for a
    by code_simp+
  moreover have "contractObservationMatches (np_Contracts (sample_contracts sample_principal)) sample_final (hd (fg_Requirements sample_final)) (100 * second)"
    by (simp add: contractObservationMatches_def sample_contracts_def sample_member_def sample_final_def sample_frozen_def sample_registry_def
        capturedAccount_def fresh_def sample_principal_decodes)
  ultimately show ?thesis
    by (simp add: contractsOperational_def) (simp add: sample_contracts_def sample_member_def sample_final_def fresh_def)
qed

lemma projectOperation_initialized:
  assumes "rn_Initialization root = Some state" "ai_Completed state" "frozenGenesis R root = Inr g" "condition_true root ''Initialized''"
    and "observed = root\<lparr>rn_Burnchain := burnchainObservations R root g ps now\<rparr>"
  shows "projectOperation C R S root ps now = (project_running C S observed g ps now (trafficOperational observed g ps now), Inr ())"
  using assms by (simp add: projectOperation_def Let_def)

lemma sample_projected: "\<exists>root'. projectOperation sample_code sample_final_reads sample_quiet sample_final_root (sample_members sample_principal) (100 * second) = (root', Inr ())
   \<and> condition_true root' ''Operational''"
proof -
  have facts: "frozenGenesis sample_final_reads sample_final_root = Inr sample_final" by code_simp
  have init: "condition_true (sample_observed sample_principal) ''Initialized''" "rn_Operation (sample_observed sample_principal) = ''Running''"
    by (simp_all add: sample_observed_def sample_final_root_def sample_aggregate_def condition_true_def)
  let ?result = "combinePredicates [pred_True ''BitcoinProgressObserved'', pred_True ''MinerReady'', pred_True ''CanonicalTransferObserved'',
    pred_True ''ContractsObserved'']"
  have running: "project_running sample_code sample_quiet (sample_observed sample_principal) sample_final (sample_members sample_principal) (100 * second) (pred_True ''CanonicalTransferObserved'')
      = set_condition ''Operational'' (pr_status ?result) (pr_reason ?result) (sample_operating sample_principal)"
    using sample_predicates sample_contracts_observed init by (simp add: project_running_def Let_def sample_operating_def)
  have completed: "\<exists>state. rn_Initialization sample_final_root = Some state \<and> ai_Completed state"
    by (simp add: sample_final_root_def sample_aggregate_def)
  have "projectOperation sample_code sample_final_reads sample_quiet sample_final_root (sample_members sample_principal) (100 * second)
      = (project_running sample_code sample_quiet (sample_observed sample_principal) sample_final (sample_members sample_principal) (100 * second) (pred_True ''CanonicalTransferObserved''), Inr ())"
  proof -
    obtain state where "rn_Initialization sample_final_root = Some state" "ai_Completed state" using completed by blast
    then show ?thesis
      unfolding sample_predicates(3) [symmetric, of sample_principal] using facts init(1)
      by (intro projectOperation_initialized) (simp_all only: sample_observed_def other_conditions_kept)
  qed
  then show ?thesis using running combinePredicates_status(1) by auto
qed


text \<open>A fixed cadence of 50.5 seconds: its window is 161.5 seconds, published as 162 and expected as 161.\<close>

theorem scheduler_window_accepted_witness:
  "\<not> snd (bitcoinTiming (effective_inputs sample_initialization
      ((empty_scheduling (initialization_ref sample_initialization))\<lparr>sc_Schedule := Some (sample_cadence 50500000000)\<rparr>)))
   \<and> snd (bitcoinTiming (effective_inputs sample_initialization
      ((empty_scheduling (initialization_ref sample_initialization))\<lparr>sc_Schedule := Some (sample_cadence (50 * second))\<rparr>)))"
proof -
  have bounds: "cadenceBounds (effectiveSchedule sample_initialization
      (sc_Schedule ((empty_scheduling (initialization_ref sample_initialization))\<lparr>sc_Schedule := Some (sample_cadence d)\<rparr>))) = Inr (d, d)"
    if "second \<le> d" "d \<le> 3600 * second" for d
    using that by (simp add: cadenceBounds_def effectiveSchedule_def sample_initialization_def sample_cadence_def parse_interval_def)
  show ?thesis
    using scheduler_window_accepted [OF bounds [of 50500000000]] scheduler_window_accepted [OF bounds [of "50 * second"]] by simp
qed

end
