(* ===== verification/Network_Runtime.thy ===== *)
theory Network_Runtime
  imports Network_Operational
begin

text \<open>
  Model of \<open>workers.go\<close> and \<open>reconciler.go\<close> of \<open>operators/network/internal/networkruntime\<close>: the reconciliation of
  the aggregate, which advances the session ledger, the bootstrap gates and the projected conditions of one root. What
  \<open>bitcoincontrol.EnsureRecords\<close> returns and what every read answers is part of \<open>runtime_reads\<close>; the constant observation policy
  that is published beside the conditions is left out.
\<close>

section \<open>Worker sessions (workers.go)\<close>

text \<open>The reads for one participant: the cached Pod with the clock of the speculative projection, then the participant and the
  Pod read again with the clock of the projection that counts.\<close>

record worker_reads =
  wr_pod :: "Pod option \<times> read_error"
  wr_now :: time
  wr_participant :: "RuntimeParticipant get"
  wr_currentPod :: "Pod option \<times> read_error"
  wr_currentNow :: time

definition managed :: "AggregateNetwork \<Rightarrow> RuntimeParticipant \<Rightarrow> bool" where
  "managed root p \<longleftrightarrow> owned_by root p \<and> ManagementKind (bp_Kind p)"

text \<open>What the projection of one worker leaves: the root, the participant and the read error it used, and the fact.
  \<open>Inl (Inr ())\<close> is a replaced participant.\<close>

definition project_worker ::
  "(Pod \<Rightarrow> bool) \<Rightarrow> worker_reads \<Rightarrow> AggregateNetwork \<Rightarrow> RuntimeParticipant
     \<Rightarrow> unit result + (AggregateNetwork \<times> RuntimeParticipant \<times> read_error \<times> SessionFact)" where
  "project_worker profile_ok W root cached =
     (let (_, seen) = ProjectSession profile_ok (ledger_view root) (session_participant cached) (fst (wr_pod W)) (snd (wr_pod W)) (wr_now W)
      in if Changed seen \<or> Failed seen \<or> Unknown seen
         then case fetched (wr_participant W) of
           Inl e \<Rightarrow> Inl (Inl e)
         | Inr p \<Rightarrow>
             if bp_UID p \<noteq> bp_UID cached then Inl (Inr ())
             else let (ledger, seen') = ProjectSession profile_ok (ledger_view root) (session_participant p)
                        (fst (wr_currentPod W)) (snd (wr_currentPod W)) (wr_currentNow W)
               in Inr (root\<lparr>rn_Identities := net_Identities ledger\<rparr>, p, snd (wr_currentPod W), seen')
         else Inr (root, cached, snd (wr_pod W), seen))"

fun projectWorkers ::
  "(Pod \<Rightarrow> bool) \<Rightarrow> (string \<Rightarrow> worker_reads) \<Rightarrow> AggregateNetwork \<Rightarrow> bool \<Rightarrow> string list \<Rightarrow> RuntimeParticipant list
     \<Rightarrow> AggregateNetwork \<times> (bool \<times> string list) result" where
  "projectWorkers profile_ok W root pend unstarted [] = (root, Inr (pend, unstarted))"
| "projectWorkers profile_ok W root pend unstarted (cached # rest) =
     (if \<not> managed root cached then projectWorkers profile_ok W root pend unstarted rest
      else case project_worker profile_ok (W (bp_Name cached)) root cached of
        Inl (Inl e) \<Rightarrow> (root, Inl e)
      | Inl (Inr _) \<Rightarrow> (root, Inr (True, []))
      | Inr (root', p, err, seen) \<Rightarrow>
          let unstarted' = (if PendingWorkerAllocation (ledger_view root') (session_participant p) \<and> err = ReadNotFound
                            then bp_UID p # unstarted else unstarted);
              root'' = (if Failed seen then fail_network (FactReason seen) root' else root');
              pend' = (pend \<or> Unknown seen \<and> bp_UID p \<notin> set unstarted' \<or> Changed seen)
          in projectWorkers profile_ok W root'' pend' unstarted' rest)"

text \<open>The participant whose execution a retained session binds.\<close>

definition session_paused :: "AggregateNetwork \<Rightarrow> RuntimeParticipant list \<Rightarrow> time \<Rightarrow> InstanceIdentity \<Rightarrow> WorkerSession \<Rightarrow> bool" where
  "session_paused root participants now identity session =
     (case find (\<lambda>p. bp_UID p = ii_UID identity \<and> owned_by root p) participants of
        None \<Rightarrow> False
      | Some p \<Rightarrow>
          (case bp_Execution p of
             None \<Rightarrow> False
           | Some e \<Rightarrow>
               we_PodUID e = wp_UID (ws_Pod session) \<and> we_ProfileDigest e = ws_ProfileDigest session \<and> we_ProcessNonce e \<noteq> []
               \<and> we_ObservedGeneration e = bp_Generation p \<and> we_NetworkGeneration e = rn_Generation root
               \<and> we_Phase e = ''Paused'' \<and> fresh (we_ObservedAt e) now))"

definition workersPaused :: "AggregateNetwork \<Rightarrow> RuntimeParticipant list \<Rightarrow> time \<Rightarrow> bool" where
  "workersPaused root participants now =
     list_all (\<lambda>i. case ii_Worker i of
         None \<Rightarrow> True
       | Some session \<Rightarrow>
           ii_Removing i \<or> (case ws_Disposal session of Some d \<Rightarrow> dp_Terminated d | None \<Rightarrow> False)
           \<or> session_paused root participants now i session) (rn_Identities root)"

section \<open>Pauses of Bitcoin control (reconciler.go)\<close>

definition cleanDrain :: "BitcoinExecution \<Rightarrow> bool" where
  "cleanDrain record' =
     (case Drain record' of
        None \<Rightarrow> False
      | Some d \<Rightarrow>
          Armed record' = None \<and> dr_ProcessNonce d \<noteq> [] \<and> dr_Outcome d = ''Drained''
          \<and> dr_Reason d \<in> {''ParticipantRemoved'', ''NetworkStopped'', ''NetworkDeleting'', ''NetworkFailed''})"

definition active_uids :: "AggregateNetwork \<Rightarrow> string list" where
  "active_uids root =
     map ii_UID (filter (\<lambda>i. ii_Name i \<in> set (map entry_Name (rn_Participants root)) \<and> \<not> ii_Removing i) (rn_Identities root))"

text \<open>An acknowledged pause; the two clocks are those of the comparison and of the age.\<close>

definition pause_acknowledged :: "AggregateNetwork \<Rightarrow> time \<Rightarrow> time \<Rightarrow> BitcoinExecution \<Rightarrow> bool" where
  "pause_acknowledged root now now' record' =
     (case Control record' of
        None \<Rightarrow> False
      | Some ack \<Rightarrow>
          Armed record' = None \<and> ca_NetworkGeneration ack = rn_Generation root \<and> ca_Operation ack = ''Paused'' \<and> ca_ProcessNonce ack \<noteq> []
          \<and> ca_ObservedAt ack \<noteq> 0 \<and> \<not> ca_ObservedAt ack > ca_HeartbeatAt ack \<and> \<not> ca_HeartbeatAt ack > now
          \<and> \<not> now' - ca_HeartbeatAt ack > ObservationFreshness)"

record pause_reads =
  pz_execution :: "string \<Rightarrow> BitcoinExecution get"
  pz_now :: "string \<Rightarrow> time"
  pz_since :: "string \<Rightarrow> time"

fun executions_paused :: "pause_reads \<Rightarrow> AggregateNetwork \<Rightarrow> Binding list \<Rightarrow> bool result" where
  "executions_paused Z root [] = Inr True"
| "executions_paused Z root (ref # rest) =
     rbind (fetched (pz_execution Z (Name ref))) (\<lambda>record'.
       if exec_UID record' \<noteq> UID ref \<or> exec_NetworkUID record' \<noteq> rn_UID root \<or> exec_Owner record' \<noteq> rn_UID root then Inr False
       else if UID (exec_Participant record') \<notin> set (active_uids root) \<and> cleanDrain record' then executions_paused Z root rest
       else if pause_acknowledged root (pz_now Z (Name ref)) (pz_since Z (Name ref)) record' then executions_paused Z root rest
       else Inr False)"

definition bitcoinPaused :: "pause_reads \<Rightarrow> AggregateNetwork \<Rightarrow> bool result" where
  "bitcoinPaused Z root =
     (case rn_Bitcoin root of
        None \<Rightarrow> Inr False
      | Some b \<Rightarrow> if bs_ExecutionRefs b = [] then Inr False else executions_paused Z root (bs_ExecutionRefs b))"

section \<open>Termination and preparation\<close>

definition actorKind :: "string list \<Rightarrow> string \<Rightarrow> bool" where
  "actorKind kinds kind \<longleftrightarrow> (if kinds = [] then kind = ''BitcoinNode'' else kind \<in> set kinds)"

definition worker_terminated :: "AggregateNetwork \<Rightarrow> string list \<Rightarrow> RuntimeParticipant \<Rightarrow> bool" where
  "worker_terminated root unstarted p =
     (case Session (ledger_view root) (session_participant p) of
        Inl _ \<Rightarrow> bp_UID p \<in> set unstarted
      | Inr identity \<Rightarrow>
          (case ii_Worker identity of
             None \<Rightarrow> True
           | Some session \<Rightarrow> (case ws_Disposal session of Some d \<Rightarrow> dp_Terminated d | None \<Rightarrow> False)))"

definition actor_terminated :: "RuntimeParticipant \<Rightarrow> bool" where
  "actor_terminated p =
     (case bp_Runtime p of None \<Rightarrow> False | Some rt \<Rightarrow> rt_Terminated rt \<and> rt_ObservedGeneration rt = bp_Generation p)"

definition control_terminated :: "AggregateNetwork \<Rightarrow> RuntimeParticipant \<Rightarrow> bool" where
  "control_terminated root p =
     (case bp_BitcoinControl p of
        None \<Rightarrow> False
      | Some c \<Rightarrow>
          ctl_Terminated c \<and> ctl_ObservedGeneration c = bp_Generation p \<and> ctl_NetworkGeneration c = rn_Generation root)"

definition participant_terminated :: "string list \<Rightarrow> AggregateNetwork \<Rightarrow> string list \<Rightarrow> RuntimeParticipant \<Rightarrow> bool" where
  "participant_terminated kinds root unstarted p \<longleftrightarrow>
     (ManagementKind (bp_Kind p) \<longrightarrow> worker_terminated root unstarted p)
     \<and> (actorKind kinds (bp_Kind p) \<longrightarrow> actor_terminated p)
     \<and> (bp_Kind p = ''BitcoinNode'' \<longrightarrow> control_terminated root p)"

definition all_terminated :: "string list \<Rightarrow> AggregateNetwork \<Rightarrow> string list \<Rightarrow> RuntimeParticipant list \<Rightarrow> bool" where
  "all_terminated kinds root unstarted participants \<longleftrightarrow>
     (let owned = filter (owned_by root) participants in
      list_all (participant_terminated kinds root unstarted) owned
      \<and> list_all (\<lambda>i. ii_Removing i \<or> ii_UID i \<in> set (map bp_UID owned)) (rn_Identities root))"

definition any_activated :: "AggregateNetwork \<Rightarrow> RuntimeParticipant list \<Rightarrow> bool" where
  "any_activated root participants \<longleftrightarrow>
     list_ex (\<lambda>p. owned_by root p \<and> bp_Runtime p \<noteq> None \<and> np_WorkloadRefs p \<noteq> []) participants"

definition projectPreparation :: "AggregateNetwork \<Rightarrow> BitcoinInitialization \<Rightarrow> AggregateNetwork \<times> bool" where
  "projectPreparation root record' =
     (let reason = init_Reason record' in
      if reason \<in> {''PrepareBitcoinObservationDeadline'', ''FrozenCeilingExceeded'', ''PreparedChainRegressed''}
      then (set_condition ''Operational'' ConditionFalse reason (set_condition ''Running'' ConditionFalse reason (fail_network reason root)), True)
      else if PreparedAt record' \<noteq> None
      then (set_condition ''BitcoinPrepared'' ConditionTrue ''PrepareBitcoinComplete'' root, False)
      else (set_condition ''BitcoinPrepared'' ConditionFalse ''Preparing'' root, False))"

section \<open>The reconciliation\<close>

text \<open>\<open>rr_records\<close> is the outcome of \<open>EnsureRecords\<close>: the execution references and the initialization it allocated or
  validated, with an error that may stand beside them.\<close>

record runtime_reads =
  rr_participants :: "RuntimeParticipant list result"
  rr_workers :: "string \<Rightarrow> worker_reads"
  rr_profile :: "Pod \<Rightarrow> bool"
  rr_records :: "Binding list \<times> Binding option \<times> unit result"
  rr_initialization :: "string \<Rightarrow> BitcoinInitialization get"
  rr_failed :: confirm_reads
  rr_gates :: confirm_reads
  rr_paused :: pause_reads
  rr_workersNow :: time
  rr_operation :: gate_reads
  rr_snapshot :: snapshot
  rr_operationNow :: time

text \<open>The root, whether operation was projected, and the delay of the next look or the error.\<close>

type_synonym runtime_result = "AggregateNetwork \<times> bool \<times> int option result"

definition latch_failure :: "AggregateNetwork \<Rightarrow> AggregateNetwork" where
  "latch_failure root =
     (if rn_Phase root = ''Failed'' \<and> \<not> condition_true root ''Failed''
      then set_condition ''Failed'' ConditionTrue ''ExperimentFailed'' root else root)"

definition refresh_initialized :: "AggregateNetwork \<Rightarrow> AggregateNetwork" where
  "refresh_initialized root =
     (if condition_true root ''Initialized''
      then root\<lparr>rn_Conditions := AList.map_entry ''Initialized'' (\<lambda>c. c\<lparr>cond_ObservedGeneration := rn_Generation root\<rparr>) (rn_Conditions root)\<rparr>
      else root)"

definition runtime_finish ::
  "protocol_code \<Rightarrow> runtime_reads \<Rightarrow> AggregateNetwork \<Rightarrow> RuntimeParticipant list \<Rightarrow> bool \<Rightarrow> runtime_result" where
  "runtime_finish C R root participants workerPending =
     (case projectOperation C (rr_operation R) (rr_snapshot R) root participants (rr_operationNow R) of
        (root', Inl e) \<Rightarrow> (set_condition ''Operational'' ConditionUnknown ''ObservationUnavailable'' root', True, Inl e)
      | (root', Inr _) \<Rightarrow>
          (root', True, Inr (Some (if workerPending \<or> (case rn_Initialization root' of Some s \<Rightarrow> \<not> ai_Completed s | None \<Rightarrow> False)
                                   then second else 2 * second))))"

text \<open>The pause of a network with activated workloads.\<close>

definition runtime_pause ::
  "runtime_reads \<Rightarrow> AggregateNetwork \<Rightarrow> RuntimeParticipant list \<Rightarrow> bool \<Rightarrow> AggregateNetwork result" where
  "runtime_pause R root participants launched =
     (if rn_Operation root = ''Paused'' \<and> launched
      then rbind (bitcoinPaused (rr_paused R) root) (\<lambda>acknowledged.
        Inr (if acknowledged \<and> workersPaused root participants (rr_workersNow R) then root\<lparr>rn_Phase := ''Paused''\<rparr> else root))
      else Inr root)"

definition runtime_gates ::
  "protocol_code \<Rightarrow> runtime_reads \<Rightarrow> AggregateNetwork \<Rightarrow> RuntimeParticipant list \<Rightarrow> bool \<Rightarrow> bool \<Rightarrow> BitcoinInitialization \<Rightarrow> runtime_result" where
  "runtime_gates C R root participants workerPending launched record' =
     (case projectPreparation root record' of
        (root', True) \<Rightarrow> (root', False, Inr None)
      | (root', False) \<Rightarrow>
          (case reconcileGates C (rr_gates R) root' record' participants of
             (root'', Inl e) \<Rightarrow> (root'', False, Inl e)
           | (root'', Inr True) \<Rightarrow>
               (set_condition ''Operational'' ConditionFalse ''BootstrapFailed'' (set_condition ''Running'' ConditionFalse ''BootstrapFailed'' root''),
                False, Inr None)
           | (root'', Inr False) \<Rightarrow>
               (case runtime_pause R root'' participants launched of
                  Inl e \<Rightarrow> (root'', False, Inl e)
                | Inr root3 \<Rightarrow> runtime_finish C R root3 participants workerPending)))"

text \<open>The initialization record that is captured, read again when it reports a terminal failure.\<close>

definition runtime_initialization ::
  "protocol_code \<Rightarrow> runtime_reads \<Rightarrow> AggregateNetwork \<Rightarrow> RuntimeParticipant list \<Rightarrow> bool \<Rightarrow> bool \<Rightarrow> Binding \<Rightarrow> runtime_result" where
  "runtime_initialization C R root participants workerPending launched ref =
     (case fetched (rr_initialization R (Name ref)) of
        Inl e \<Rightarrow> (set_condition ''BitcoinPrepared'' ConditionUnknown ''ObservationUnavailable'' root, False, Inl e)
      | Inr record' \<Rightarrow>
          if init_UID record' \<noteq> UID ref \<or> init_NetworkUID record' \<noteq> rn_UID root \<or> init_Owner record' \<noteq> rn_UID root
          then (observationUnavailable ''IdentityUnavailable''
                  (set_condition ''BitcoinPrepared'' ConditionUnknown ''IdentityUnavailable'' root), False, Inr (Some second))
          else if snd (projectPreparation root record')
          then (case currentInitialization (rr_failed R) root record' of
                  Inl e \<Rightarrow> (root, False, Inl e)
                | Inr current \<Rightarrow> runtime_gates C R root participants workerPending launched current)
          else runtime_gates C R root participants workerPending launched record')"

definition runtime_records ::
  "protocol_code \<Rightarrow> runtime_reads \<Rightarrow> AggregateNetwork \<Rightarrow> RuntimeParticipant list \<Rightarrow> bool \<Rightarrow> bool \<Rightarrow> runtime_result" where
  "runtime_records C R root participants workerPending launched =
     (case rr_records R of (refs, initialization, err) \<Rightarrow>
        let allocated = root\<lparr>rn_Bitcoin := Some \<lparr>bs_InitializationRef = initialization, bs_ExecutionRefs = refs\<rparr>\<rparr> in
        case err of
          Inl e \<Rightarrow> (set_condition ''BitcoinPrepared'' ConditionUnknown ''RecordsUnavailable'' allocated, False, Inl e)
        | Inr _ \<Rightarrow>
            let known = projectKnownOperation (allocated\<lparr>rn_Phase := ''Initializing''\<rparr>);
                held = (if rn_Operation root = ''Paused''
                        then set_condition ''Running'' ConditionFalse ''DesiredPause''
                               (known\<lparr>rn_Phase := (if launched then ''Pausing'' else ''Uninitialized'')\<rparr>)
                        else known)
            in case initialization of
              None \<Rightarrow> (held, False, Inr None)
            | Some ref \<Rightarrow> runtime_initialization C R held participants workerPending launched ref)"

definition awaiting :: "AggregateNetwork \<Rightarrow> AggregateNetwork" where
  "awaiting root =
     (let booting = (if condition_true root ''Initialized'' then root
                     else set_condition ''Initialized'' ConditionFalse ''BootstrapPending'' root);
          known = projectKnownOperation (set_condition ''Running'' ConditionFalse ''Initializing'' booting)
      in set_condition ''Operational'' ConditionFalse ''Initializing'' known)"

definition runtime_operate ::
  "protocol_code \<Rightarrow> runtime_reads \<Rightarrow> AggregateNetwork \<Rightarrow> RuntimeParticipant list \<Rightarrow> bool \<Rightarrow> bool \<Rightarrow> runtime_result" where
  "runtime_operate C R root participants workerPending launched =
     (let waiting = awaiting root in
      if rn_GenesisRef waiting = None
      then (if rn_Operation waiting = ''Paused'' \<and> condition_true waiting ''Resolved''
            then waiting\<lparr>rn_Phase := ''Uninitialized''\<rparr> else waiting, False, Inr None)
      else runtime_records C R waiting participants workerPending launched)"

definition stop_network :: "bool \<Rightarrow> bool \<Rightarrow> AggregateNetwork \<Rightarrow> runtime_result" where
  "stop_network terminated workerPending root =
     (let phase = (if terminated then ''Stopped'' else ''Stopping'');
          stopping = set_condition ''Operational'' ConditionFalse ''Stopped''
                       (set_condition ''Running'' ConditionFalse phase (root\<lparr>rn_Phase := phase\<rparr>))
      in (stopping, False, Inr (if \<not> terminated \<or> workerPending then Some second else None)))"

definition runtime_phases ::
  "protocol_code \<Rightarrow> string list \<Rightarrow> runtime_reads \<Rightarrow> AggregateNetwork \<Rightarrow> bool \<Rightarrow> RuntimeParticipant list \<Rightarrow> bool \<Rightarrow> string list \<Rightarrow> runtime_result" where
  "runtime_phases C kinds R root failed participants workerPending unstarted =
     (if rn_Deleted root
      then (set_condition ''Operational'' ConditionFalse ''Deleting''
              (set_condition ''Running'' ConditionFalse ''Deleting'' (root\<lparr>rn_Phase := ''Destroying''\<rparr>)), False, Inr (Some second))
      else if rn_Operation root = ''Stopped'' then stop_network (all_terminated kinds root unstarted participants) workerPending root
      else if failed \<or> condition_true root ''Failed''
      then (known_unavailable ''ExperimentFailed'' (root\<lparr>rn_Phase := ''Failed''\<rparr>), False, Inr None)
      else runtime_operate C R root participants workerPending (any_activated root participants))"

definition runtime_body :: "protocol_code \<Rightarrow> string list \<Rightarrow> runtime_reads \<Rightarrow> AggregateNetwork \<Rightarrow> runtime_result" where
  "runtime_body C kinds R root =
     (let root1 = latch_failure (refresh_initialized root);
          failed = (rn_Phase root1 = ''Failed'' \<or> condition_true root1 ''Failed'')
      in case rr_participants R of
        Inl e \<Rightarrow>
          (set_condition ''Operational'' ConditionUnknown ''ObservationUnavailable''
             (projectKnownOperation (set_condition ''Running'' ConditionUnknown ''ObservationUnavailable'' root1)), False, Inl e)
      | Inr participants \<Rightarrow>
          if length participants > 1000
          then (observationUnavailable ''ObservationIncomplete''
                  (set_condition ''Running'' ConditionUnknown ''ObservationIncomplete'' root1), False, Inr (Some (5 * second)))
          else case projectWorkers (rr_profile R) (rr_workers R) root1 False [] participants of
            (root2, Inl e) \<Rightarrow> (root2, False, Inl e)
          | (root2, Inr (workerPending, unstarted)) \<Rightarrow>
              runtime_phases C kinds R root2 failed participants workerPending unstarted)"

text \<open>\<open>Reconcile\<close> with its deferred functions: an error withdraws what is known of the operation, and burnchain observations are
  kept only when operation was projected.\<close>

definition network_Reconcile :: "protocol_code \<Rightarrow> string list \<Rightarrow> runtime_reads \<Rightarrow> AggregateNetwork \<Rightarrow> AggregateNetwork \<times> int option result" where
  "network_Reconcile C kinds R root =
     (case runtime_body C kinds R root of (root', projected, result) \<Rightarrow>
        let reported = (case result of Inl _ \<Rightarrow> observationUnavailable ''ObservationUnavailable'' root' | Inr _ \<Rightarrow> root')
        in (if projected then reported else reported\<lparr>rn_Burnchain := None\<rparr>, result))"

section \<open>What a reconciliation keeps\<close>

text \<open>Initialization is reported only for completed gates.\<close>

definition initialized_completed :: "AggregateNetwork \<Rightarrow> bool" where
  "initialized_completed root \<longleftrightarrow>
     (condition_true root ''Initialized'' \<longrightarrow> (\<exists>s. rn_Initialization root = Some s \<and> ai_Completed s))"

text \<open>Terminal failure and completed initialization stay.\<close>

definition latched :: "AggregateNetwork \<Rightarrow> AggregateNetwork \<Rightarrow> bool" where
  "latched a b \<longleftrightarrow>
     (condition_true a ''Failed'' \<longrightarrow> condition_true b ''Failed'') \<and> (condition_true a ''Initialized'' \<longrightarrow> condition_true b ''Initialized'')"

text \<open>A part of the reconciliation keeps the declared intent, both latches, and moves the phase only to one of those given.\<close>

definition moves :: "string set \<Rightarrow> AggregateNetwork \<Rightarrow> AggregateNetwork \<Rightarrow> bool" where
  "moves phases a b \<longleftrightarrow>
     (initialized_completed a \<longrightarrow> initialized_completed b \<and> latched a b) \<and> rn_Phase b \<in> insert (rn_Phase a) phases
     \<and> rn_UID b = rn_UID a \<and> rn_Operation b = rn_Operation a \<and> rn_Generation b = rn_Generation a
     \<and> rn_Participants b = rn_Participants a \<and> rn_Deleted b = rn_Deleted a"

abbreviation quiet :: "AggregateNetwork \<Rightarrow> AggregateNetwork \<Rightarrow> bool" where
  "quiet \<equiv> moves {''Running'', ''Failed'', ''Destroying'', ''Initializing'', ''Uninitialized'', ''Pausing''}"

lemma moves_refl [simp]: "moves phases a a"
  by (simp add: moves_def latched_def)

lemma moves_trans: "moves phases a b \<Longrightarrow> moves phases b c \<Longrightarrow> moves phases a c"
  by (auto simp: moves_def latched_def)

lemma moves_mono: "moves phases a b \<Longrightarrow> phases \<subseteq> phases' \<Longrightarrow> moves phases' a b"
  by (auto simp: moves_def)

lemma condition_fields [simp]:
  "condition_true (root\<lparr>rn_Bitcoin := b\<rparr>) k = condition_true root k"
  "condition_true (root\<lparr>rn_Identities := ids\<rparr>) k = condition_true root k"
  "condition_true (root\<lparr>rn_Initialization := s\<rparr>) k = condition_true root k"
  "rn_UID (set_condition k st r root) = rn_UID root" "rn_Generation (set_condition k st r root) = rn_Generation root"
  "rn_Participants (set_condition k st r root) = rn_Participants root" "rn_Deleted (set_condition k st r root) = rn_Deleted root"
  "rn_Identities (set_condition k st r root) = rn_Identities root" "rn_Bitcoin (set_condition k st r root) = rn_Bitcoin root"
  by (simp_all add: condition_true_def set_condition_def)

lemma condition_refreshed [simp]:
  "condition_true (root\<lparr>rn_Conditions := AList.map_entry k f (rn_Conditions root)\<rparr>) k' = condition_true root k'"
  if "\<And>c. cond_Status (f c) = cond_Status c"
  using that by (auto simp: condition_true_def map_of_map_entry split: option.splits)

lemmas move_defs = moves_def latched_def initialized_completed_def

lemma moves_condition: "k \<noteq> ''Failed'' \<Longrightarrow> k \<noteq> ''Initialized'' \<Longrightarrow> moves phases a (set_condition k st r a)"
  by (auto simp: move_defs)

lemma moves_update [simp]:
  "moves phases a (a\<lparr>rn_Burnchain := bo\<rparr>)" "moves phases a (a\<lparr>rn_Bitcoin := b\<rparr>)" "moves phases a (a\<lparr>rn_Identities := ids\<rparr>)"
  "ph \<in> phases \<Longrightarrow> moves phases a (a\<lparr>rn_Phase := ph\<rparr>)"
  by (auto simp: move_defs)

text \<open>Closure of the relation under what follows a part.\<close>

lemma moves_then:
  "k \<noteq> ''Failed'' \<Longrightarrow> k \<noteq> ''Initialized'' \<Longrightarrow> moves phases a b \<Longrightarrow> moves phases a (set_condition k st r b)"
  "moves phases a b \<Longrightarrow> moves phases a (b\<lparr>rn_Burnchain := bo\<rparr>)"
  "moves phases a b \<Longrightarrow> moves phases a (b\<lparr>rn_Bitcoin := bi\<rparr>)"
  "moves phases a b \<Longrightarrow> moves phases a (b\<lparr>rn_Identities := ids\<rparr>)"
  "ph \<in> phases \<Longrightarrow> moves phases a b \<Longrightarrow> moves phases a (b\<lparr>rn_Phase := ph\<rparr>)"
  by (auto intro: moves_trans moves_condition)

lemma moves_initialized:
  "\<not> condition_true a ''Initialized'' \<Longrightarrow> st \<noteq> ConditionTrue \<Longrightarrow> moves phases a (set_condition ''Initialized'' st r a)"
  by (auto simp: move_defs)

lemma fail_moves: "''Failed'' \<in> phases \<Longrightarrow> moves phases a (fail_network reason a)"
  by (auto simp: fail_network_def move_defs)

lemma known_moves: "quiet a (projectKnownOperation a)"
  by (auto simp: projectKnownOperation_def intro!: moves_then)

lemma unavailable_moves: "quiet a (observationUnavailable reason a)"
  by (auto simp: observationUnavailable_def known_unavailable_def known_moves intro!: moves_then)

lemma initialize_moves: "quiet a (latch_failure (refresh_initialized a))"
  by (auto simp: latch_failure_def refresh_initialized_def move_defs)

lemma confirmed_pass:
  "confirmed_gates C R a record' ps = Inr (failed, c) \<Longrightarrow> \<exists>G current qs. projectGates C G a current qs = Inr (failed, c)"
  by (auto simp: confirmed_gates_def result_simps split: prod.splits if_splits)

lemma projectGates_shape:
  assumes "projectGates C G a current qs = Inr (failed, c)"
  shows "\<exists>t. c = a\<lparr>rn_Initialization := t\<rparr> \<or> (\<exists>reason. c = fail_network reason (a\<lparr>rn_Initialization := t\<rparr>))
    \<or> c = set_condition ''Initialized'' ConditionFalse ''GateRuntimeNotImplemented'' (a\<lparr>rn_Initialization := t\<rparr>)"
  using assms by (auto simp: projectGates_def project_gate_def Let_def result_simps split: if_splits)

lemma gates_moves: "reconcileGates C R a record' ps = (b, result) \<Longrightarrow> quiet a b"
proof -
  assume r: "reconcileGates C R a record' ps = (b, result)"
  have pass: "quiet a c" if p: "projectGates C G a current qs = Inr (failed, c)" for G current qs failed c
  proof -
    from p obtain g s where g: "frozenGenesis G a = Inr g" "initializeGates a g = Inr s" by (auto simp: projectGates_def result_simps)
    have same: "rn_Initialization a = Some t \<Longrightarrow> s = t" for t
      using g(2) by (auto simp: initializeGates_def Let_def split: if_splits)
    show ?thesis
    proof (cases "ai_Completed s")
      case True
      with p g have "c = a\<lparr>rn_Initialization := Some s\<rparr>" by (simp add: projectGates_def Let_def)
      with True show ?thesis by (auto simp: move_defs)
    next
      case False
      then have open': "initialized_completed a \<Longrightarrow> \<not> condition_true a ''Initialized''"
        using same by (auto simp: initialized_completed_def)
      from projectGates_shape [OF p] show ?thesis using open' by (elim exE disjE) (auto simp: move_defs fail_network_def)
    qed
  qed
  show ?thesis
  proof (cases "confirmed_gates C R a record' ps")
    case (Inl e)
    let ?reported = "if condition_true a ''Initialized'' then a
                           else set_condition ''Initialized'' ConditionUnknown ''GateObservationUnavailable'' a"
    have "quiet a ?reported" by (simp add: moves_initialized)
    with Inl r show ?thesis using unavailable_moves [of ?reported] by (auto simp: reconcileGates_def Let_def intro: moves_trans)
  next
    case (Inr x)
    obtain failed c where x: "x = (failed, c)" by (cases x)
    from Inr x have "\<exists>G current qs. projectGates C G a current qs = Inr (failed, c)" by (simp add: confirmed_pass)
    with pass Inr x r show ?thesis by (auto simp: reconcileGates_def)
  qed
qed

lemma operation_moves: "projectOperation C R S a ps now = (b, result) \<Longrightarrow> quiet a b"
proof -
  assume r: "projectOperation C R S a ps now = (b, result)"
  have running: "quiet c (project_running C S c g ps now traffic)" for c g traffic
    by (auto simp: project_running_def Let_def intro!: moves_then)
  show ?thesis
  proof (cases "case rn_Initialization a of None \<Rightarrow> True | Some state \<Rightarrow> \<not> ai_Completed state")
    case True
    with r show ?thesis by (auto simp: projectOperation_def)
  next
    case False
    then obtain s where s: "rn_Initialization a = Some s" "ai_Completed s" by (auto split: option.splits)
    have init: "quiet (a\<lparr>rn_Burnchain := bo\<rparr>) (set_condition ''Initialized'' ConditionTrue reason (a\<lparr>rn_Burnchain := bo\<rparr>))" for bo reason
      using s by (auto simp: move_defs)
    from r False show ?thesis
      by (auto simp: projectOperation_def Let_def split: sum.splits if_splits
          intro: moves_trans [OF moves_update(1) running] moves_trans [OF moves_update(1) moves_trans [OF init running]])
  qed
qed

lemma workers_moves: "projectWorkers profile_ok W a pend unstarted ps = (b, result) \<Longrightarrow> quiet a b"
proof (induction ps arbitrary: a pend unstarted)
  case (Cons p ps)
  show ?case
  proof (cases "managed a p")
    case False
    with Cons show ?thesis by simp
  next
    case True
    show ?thesis
    proof (cases "project_worker profile_ok (W (bp_Name p)) a p")
      case (Inl x)
      with Cons.prems True show ?thesis by (auto split: sum.splits)
    next
      case (Inr x)
      obtain c q err seen where x: "x = (c, q, err, seen)" by (cases x)
      have "quiet a c" using Inr x by (auto simp: project_worker_def Let_def split: prod.splits if_splits sum.splits)
      moreover have "quiet c (if Failed seen then fail_network (FactReason seen) c else c)" by (simp add: fail_moves)
      moreover have "quiet (if Failed seen then fail_network (FactReason seen) c else c) b"
        using Cons.prems True Inr x by (auto simp: Let_def intro!: Cons.IH)
      ultimately show ?thesis by (blast intro: moves_trans)
    qed
  qed
qed simp

lemma gates_kept:
  assumes "reconcileGates C R a record' ps = (b, result)"
  shows "rn_Identities b = rn_Identities a" and "rn_Bitcoin b = rn_Bitcoin a"
proof -
  have unavailable: "rn_Identities (observationUnavailable reason c) = rn_Identities c" "rn_Bitcoin (observationUnavailable reason c) = rn_Bitcoin c"
    for reason c by (auto simp: observationUnavailable_def known_unavailable_def projectKnownOperation_def)
  have pass: "rn_Identities c = rn_Identities a \<and> rn_Bitcoin c = rn_Bitcoin a"
    if "projectGates C G a current qs = Inr (failed, c)" for G current qs failed c
    using projectGates_shape [OF that] by (elim exE disjE) (simp_all add: fail_network_def)
  have "rn_Identities b = rn_Identities a \<and> rn_Bitcoin b = rn_Bitcoin a"
  proof (cases "confirmed_gates C R a record' ps")
    case (Inl e)
    with assms show ?thesis by (auto simp: reconcileGates_def Let_def unavailable)
  next
    case (Inr x)
    obtain failed c where x: "x = (failed, c)" by (cases x)
    from confirmed_pass [OF Inr [unfolded x]] pass have "rn_Identities c = rn_Identities a \<and> rn_Bitcoin c = rn_Bitcoin a" by blast
    with assms Inr x show ?thesis by (simp add: reconcileGates_def)
  qed
  then show "rn_Identities b = rn_Identities a" "rn_Bitcoin b = rn_Bitcoin a" by simp_all
qed

text \<open>The pause moves the phase to \<open>Paused\<close>, and only on acknowledgements.\<close>

abbreviation pausing :: "AggregateNetwork \<Rightarrow> AggregateNetwork \<Rightarrow> bool" where
  "pausing \<equiv> moves (insert ''Paused'' {''Running'', ''Failed'', ''Destroying'', ''Initializing'', ''Uninitialized'', ''Pausing''})"

lemma quiet_pausing: "quiet a b \<Longrightarrow> pausing a b"
  by (rule moves_mono) auto

lemma pause_moves: "runtime_pause R a ps launched = Inr b \<Longrightarrow> pausing a b"
  by (auto simp: runtime_pause_def result_simps split: if_splits intro: moves_then)

lemma finish_moves: "runtime_finish C R a ps wp = (b, projected, result) \<Longrightarrow> quiet a b"
  using operation_moves [of C "rr_operation R" "rr_snapshot R" a ps "rr_operationNow R"]
  by (auto simp: runtime_finish_def split: prod.splits sum.splits intro!: moves_then)

lemma preparation_moves: "quiet a (fst (projectPreparation a record'))"
  by (auto simp: projectPreparation_def Let_def intro!: moves_then fail_moves)

text \<open>The acknowledgements a pause rests on, for a root whose ledger and records are those of \<open>a\<close>.\<close>

definition paused_on :: "runtime_reads \<Rightarrow> RuntimeParticipant list \<Rightarrow> AggregateNetwork \<Rightarrow> bool" where
  "paused_on R ps a \<longleftrightarrow>
     (\<exists>c. quiet a c \<and> rn_Identities c = rn_Identities a \<and> rn_Bitcoin c = rn_Bitcoin a \<and> rn_Operation c = ''Paused''
        \<and> bitcoinPaused (rr_paused R) c = Inr True \<and> workersPaused c ps (rr_workersNow R))"

lemma pause_evidence:
  assumes "runtime_pause R c ps launched = Inr d" and "quiet a c" "rn_Identities c = rn_Identities a" "rn_Bitcoin c = rn_Bitcoin a"
  shows "quiet a d \<or> pausing a d \<and> paused_on R ps a"
proof -
  have "d = c \<or> pausing c d \<and> rn_Operation c = ''Paused'' \<and> bitcoinPaused (rr_paused R) c = Inr True \<and> workersPaused c ps (rr_workersNow R)"
    using assms(1) by (auto simp: runtime_pause_def result_simps split: if_splits intro: moves_then)
  then show ?thesis using assms(2-) quiet_pausing [OF assms(2)] by (auto simp: paused_on_def intro: moves_trans)
qed

lemma preparation_kept:
  assumes "projectPreparation a record' = (b, failed)"
  shows "quiet a b" and "rn_Identities b = rn_Identities a" and "rn_Bitcoin b = rn_Bitcoin a"
  using preparation_moves [of a record'] assms by (auto simp: projectPreparation_def Let_def fail_network_def split: if_splits)

lemma gates_part_moves:
  assumes "runtime_gates C R a ps wp launched record' = (b, projected, result)"
  shows "quiet a b \<or> pausing a b \<and> paused_on R ps a"
proof -
  obtain a1 failed where prep: "projectPreparation a record' = (a1, failed)" by (cases "projectPreparation a record'")
  obtain a2 res where gates: "reconcileGates C (rr_gates R) a1 record' ps = (a2, res)"
    by (cases "reconcileGates C (rr_gates R) a1 record' ps")
  note p = preparation_kept [OF prep] and g = gates_kept [OF gates]
  have q: "quiet a a2" using p(1) gates_moves [OF gates] by (rule moves_trans)
  have failed: "quiet a (set_condition ''Operational'' ConditionFalse r (set_condition ''Running'' ConditionFalse r a2))" for r
    using q by (auto intro!: moves_then)
  show ?thesis
  proof (cases "\<exists>a3. \<not> failed \<and> res = Inr False \<and> runtime_pause R a2 ps launched = Inr a3")
    case True
    then obtain a3 where a3: "\<not> failed" "res = Inr False" "runtime_pause R a2 ps launched = Inr a3" by blast
    have "quiet a3 b" using assms prep gates a3 by (simp add: runtime_gates_def finish_moves)
    moreover have "quiet a a3 \<or> pausing a a3 \<and> paused_on R ps a" using pause_evidence [OF a3(3) q] p g by simp
    ultimately show ?thesis using quiet_pausing [of a3 b] by (blast intro: moves_trans)
  next
    case False
    then have "b = a1 \<or> b = a2 \<or> (\<exists>r. b = set_condition ''Operational'' ConditionFalse r (set_condition ''Running'' ConditionFalse r a2))"
      using assms prep gates by (auto simp: runtime_gates_def split: bool.splits sum.splits)
    then show ?thesis using p(1) q failed by blast
  qed
qed

lemma initialization_part_moves:
  "runtime_initialization C R a ps wp launched ref = (b, projected, result) \<Longrightarrow> quiet a b \<or> pausing a b \<and> paused_on R ps a"
  unfolding runtime_initialization_def
  by (auto split: sum.splits if_splits dest!: gates_part_moves
      intro!: moves_then moves_condition moves_trans [OF moves_condition unavailable_moves])

lemma known_kept [simp]:
  "rn_Identities (projectKnownOperation a) = rn_Identities a" "rn_Bitcoin (projectKnownOperation a) = rn_Bitcoin a"
  by (simp_all add: projectKnownOperation_def)

definition pause_claim :: "runtime_reads \<Rightarrow> RuntimeParticipant list \<Rightarrow> AggregateNetwork \<Rightarrow> bool" where
  "pause_claim R ps a \<longleftrightarrow>
     (\<exists>refs initialization c. rr_records R = (refs, initialization, Inr ()) \<and> quiet a c \<and> rn_Identities c = rn_Identities a
        \<and> rn_Bitcoin c = Some \<lparr>bs_InitializationRef = initialization, bs_ExecutionRefs = refs\<rparr> \<and> rn_Operation c = ''Paused''
        \<and> bitcoinPaused (rr_paused R) c = Inr True \<and> workersPaused c ps (rr_workersNow R))"

lemma pause_claim_quiet: "quiet a c \<Longrightarrow> rn_Identities c = rn_Identities a \<Longrightarrow> pause_claim R ps c \<Longrightarrow> pause_claim R ps a"
  unfolding pause_claim_def
  by (elim exE conjE, intro exI conjI, assumption, erule moves_trans, assumption) simp_all

lemma claim_after:
  assumes "quiet a c" "rn_Identities c = rn_Identities a" and "quiet c b \<or> pausing c b \<and> pause_claim R ps c"
  shows "quiet a b \<or> pausing a b \<and> pause_claim R ps a"
  using assms quiet_pausing [OF assms(1)] pause_claim_quiet [OF assms(1,2)] by (blast intro: moves_trans)

lemma records_part_moves:
  assumes "runtime_records C R a ps wp launched = (b, projected, result)"
  shows "quiet a b \<or> pausing a b \<and> pause_claim R ps a"
proof -
  obtain refs initialization err where rr: "rr_records R = (refs, initialization, err)" by (cases "rr_records R") auto
  define allocated where "allocated = a\<lparr>rn_Bitcoin := Some \<lparr>bs_InitializationRef = initialization, bs_ExecutionRefs = refs\<rparr>\<rparr>"
  define held where "held = (let known = projectKnownOperation (allocated\<lparr>rn_Phase := ''Initializing''\<rparr>) in
    if rn_Operation a = ''Paused'' then set_condition ''Running'' ConditionFalse ''DesiredPause''
      (known\<lparr>rn_Phase := (if launched then ''Pausing'' else ''Uninitialized'')\<rparr>) else known)"
  have alloc: "quiet a allocated" by (simp add: allocated_def)
  have "quiet allocated (projectKnownOperation (allocated\<lparr>rn_Phase := ''Initializing''\<rparr>))"
    by (rule moves_trans [OF _ known_moves]) simp
  with alloc have "quiet a (projectKnownOperation (allocated\<lparr>rn_Phase := ''Initializing''\<rparr>))" by (rule moves_trans)
  then have held: "quiet a held" by (auto simp: held_def Let_def intro!: moves_then)
  have fields: "rn_Identities held = rn_Identities a"
    "rn_Bitcoin held = Some \<lparr>bs_InitializationRef = initialization, bs_ExecutionRefs = refs\<rparr>"
    by (simp_all add: held_def Let_def allocated_def)
  show ?thesis
  proof (cases err)
    case (Inl e)
    with assms rr alloc show ?thesis by (auto simp: runtime_records_def allocated_def intro!: moves_then)
  next
    case (Inr u)
    show ?thesis
    proof (cases initialization)
      case None
      with assms rr Inr have "b = held" by (simp add: runtime_records_def Let_def held_def allocated_def)
      with held show ?thesis by simp
    next
      case (Some ref)
      with assms rr Inr have "runtime_initialization C R held ps wp launched ref = (b, projected, result)"
        by (simp add: runtime_records_def Let_def held_def allocated_def)
      from initialization_part_moves [OF this] consider "quiet held b" | "pausing held b" "paused_on R ps held" by blast
      then show ?thesis
      proof cases
        case 1
        with held show ?thesis by (blast intro: moves_trans)
      next
        case 2
        then obtain c where "quiet held c" "rn_Identities c = rn_Identities held" "rn_Bitcoin c = rn_Bitcoin held" "rn_Operation c = ''Paused''"
          "bitcoinPaused (rr_paused R) c = Inr True" "workersPaused c ps (rr_workersNow R)" unfolding paused_on_def by blast
        then have "pause_claim R ps held" unfolding pause_claim_def using rr Inr fields by (intro exI [of _ refs] exI [of _ initialization] exI [of _ c]) simp
        with claim_after [OF held fields(1)] 2(1) show ?thesis by blast
      qed
    qed
  qed
qed

lemma awaiting_moves: "quiet a (awaiting a)" and awaiting_kept: "rn_Identities (awaiting a) = rn_Identities a"
proof -
  define booting where "booting = (if condition_true a ''Initialized'' then a
    else set_condition ''Initialized'' ConditionFalse ''BootstrapPending'' a)"
  have "quiet a booting" by (auto simp: booting_def moves_initialized)
  moreover have "quiet booting (projectKnownOperation (set_condition ''Running'' ConditionFalse ''Initializing'' booting))"
    by (rule moves_trans [OF _ known_moves]) (simp add: moves_condition)
  ultimately have "quiet a (projectKnownOperation (set_condition ''Running'' ConditionFalse ''Initializing'' booting))"
    by (rule moves_trans)
  then show "quiet a (awaiting a)" by (auto simp: awaiting_def Let_def booting_def intro!: moves_then)
  show "rn_Identities (awaiting a) = rn_Identities a" by (simp add: awaiting_def Let_def)
qed

lemma operate_part_moves:
  assumes "runtime_operate C R a ps wp launched = (b, projected, result)"
  shows "quiet a b \<or> pausing a b \<and> pause_claim R ps a"
proof (rule claim_after [OF awaiting_moves awaiting_kept])
  show "quiet (awaiting a) b \<or> pausing (awaiting a) b \<and> pause_claim R ps (awaiting a)"
    using assms records_part_moves [of C R "awaiting a"]
    by (cases "rn_GenesisRef (awaiting a) = None") (auto simp: runtime_operate_def Let_def split: if_splits)
qed

section \<open>What the phases claim\<close>

lemma body_moves:
  assumes "runtime_body C kinds R a = (b, projected, result)"
  shows "quiet a b
    \<or> (\<exists>ps c wp unstarted. rr_participants R = Inr ps \<and> quiet a c
        \<and> projectWorkers (rr_profile R) (rr_workers R) (latch_failure (refresh_initialized a)) False [] ps = (c, Inr (wp, unstarted))
        \<and> (pausing c b \<and> pause_claim R ps c
           \<or> rn_Operation c = ''Stopped'' \<and> b = fst (stop_network (all_terminated kinds c unstarted ps) wp c)))"
proof -
  let ?a = "latch_failure (refresh_initialized a)"
  have q: "quiet a ?a" by (rule initialize_moves)
  have unknown: "quiet a (set_condition ''Running'' ConditionUnknown r ?a)" for r using q by (auto intro!: moves_then)
  show ?thesis
  proof (cases "rr_participants R")
    case (Inl e)
    have "quiet a (projectKnownOperation (set_condition ''Running'' ConditionUnknown ''ObservationUnavailable'' ?a))"
      using unknown known_moves by (rule moves_trans)
    with Inl assms show ?thesis by (auto simp: runtime_body_def Let_def intro!: moves_then)
  next
    case (Inr ps)
    show ?thesis
    proof (cases "length ps > 1000")
      case True
      with Inr assms show ?thesis using moves_trans [OF unknown unavailable_moves] by (auto simp: runtime_body_def Let_def)
    next
      case False
      obtain c res where w: "projectWorkers (rr_profile R) (rr_workers R) ?a False [] ps = (c, res)"
        by (cases "projectWorkers (rr_profile R) (rr_workers R) ?a False [] ps")
      have c: "quiet a c" using q workers_moves [OF w] by (rule moves_trans)
      show ?thesis
      proof (cases res)
        case (Inl e)
        with w Inr False assms c show ?thesis by (simp add: runtime_body_def Let_def)
      next
        case res: (Inr x)
        obtain wp unstarted where x: "x = (wp, unstarted)" by (cases x)
        obtain failed where phases: "runtime_phases C kinds R c failed ps wp unstarted = (b, projected, result)"
          using assms Inr False w res x by (auto simp: runtime_body_def Let_def)
        have "quiet c b \<or> pausing c b \<and> pause_claim R ps c
            \<or> rn_Operation c = ''Stopped'' \<and> b = fst (stop_network (all_terminated kinds c unstarted ps) wp c)"
          using phases operate_part_moves [of C R c ps wp "any_activated c ps" b projected result]
          by (auto simp: runtime_phases_def known_unavailable_def split: if_splits intro!: moves_then)
        with c Inr w res x show ?thesis by (blast intro: moves_trans)
      qed
    qed
  qed
qed

text \<open>The reconciliation itself adds what an error withdraws.\<close>

lemma reconcile_moves:
  assumes "network_Reconcile C kinds R a = (b, result)"
  shows "\<exists>c projected. runtime_body C kinds R a = (c, projected, result) \<and> quiet c b \<and> (is_ok result \<longrightarrow> rn_Phase b = rn_Phase c)"
proof -
  obtain c projected res where body: "runtime_body C kinds R a = (c, projected, res)" by (cases "runtime_body C kinds R a") auto
  have "quiet c (observationUnavailable ''ObservationUnavailable'' c)" by (rule unavailable_moves)
  with assms body show ?thesis
    by (intro exI [of _ c] exI [of _ projected])
      (auto simp: network_Reconcile_def Let_def is_ok_def split: sum.splits if_splits intro: moves_then)
qed

lemma stop_moves: "moves {''Stopped'', ''Stopping''} a (fst (stop_network terminated wp a))"
  by (auto simp: stop_network_def Let_def intro!: moves_then)

lemma reconcile_latched:
  assumes "network_Reconcile C kinds R a = (b, result)" and "initialized_completed a"
  shows "initialized_completed b \<and> latched a b"
proof -
  from reconcile_moves [OF assms(1)] obtain c projected where body: "runtime_body C kinds R a = (c, projected, result)" "quiet c b" by blast
  have trans: "latched x y \<Longrightarrow> latched y z \<Longrightarrow> latched x z" for x y z by (simp add: latched_def)
  from body_moves [OF body(1)] obtain d where "quiet a d" "d = c \<or> pausing d c \<or> moves {''Stopped'', ''Stopping''} d c"
    using stop_moves by (metis moves_refl)
  with assms(2) body(2) trans show ?thesis unfolding moves_def by metis
qed

text \<open>Histories of the root: reconciliations of the aggregate, whose writes may be lost, among changes by users and other
  controllers, which leave the aggregate's own records alone.\<close>

definition runtime_start :: "AggregateNetwork \<Rightarrow> bool" where
  "runtime_start root \<longleftrightarrow> \<not> condition_true root ''Initialized''"

definition runtime_step :: "AggregateNetwork \<Rightarrow> AggregateNetwork \<Rightarrow> AggregateNetwork \<Rightarrow> bool" where
  "runtime_step a e b \<longleftrightarrow>
     e = b \<and> ((\<exists>C kinds R result. network_Reconcile C kinds R a = (b, result))
       \<or> rn_Initialization b = rn_Initialization a \<and> condition_true b ''Failed'' = condition_true a ''Failed''
         \<and> condition_true b ''Initialized'' = condition_true a ''Initialized'')"

definition runtime_hinv :: "AggregateNetwork \<Rightarrow> AggregateNetwork list \<Rightarrow> bool" where
  "runtime_hinv root es \<longleftrightarrow>
     initialized_completed root \<and> (\<forall>x \<in> set es. latched x root \<and> initialized_completed x) \<and> sorted_wrt latched es"

interpretation runtime: history_system runtime_start runtime_step runtime_hinv
proof unfold_locales
  show "runtime_hinv s []" if "runtime_start s" for s
    using that by (simp add: runtime_start_def runtime_hinv_def initialized_completed_def)
  show "runtime_hinv s' (es @ [e])" if h: "runtime_hinv s es" and step: "runtime_step s e s'" for s es e s'
  proof -
    have s: "initialized_completed s" using h by (simp add: runtime_hinv_def)
    have "initialized_completed s' \<and> latched s s'"
      using step s reconcile_latched by (auto simp: runtime_step_def initialized_completed_def latched_def)
    moreover have "latched x s'" if "latched x s" "latched s s'" for x using that by (simp add: latched_def)
    moreover have "e = s'" "latched s' s'" using step by (auto simp: runtime_step_def latched_def)
    ultimately show ?thesis using h by (auto simp: runtime_hinv_def sorted_wrt_append)
  qed
qed

text \<open>C19: Terminal failure and completed initialization are latched. Along every history of the root, over any reads, errors, lost
  writes and changes of the declared intent: once the aggregate has reported failure it reports it in every later
  root, once it has reported initialization it reports it in every later root, and it reports
  initialization only while the recorded progress has completed every frozen gate.\<close>

theorem network_latched:
  assumes "runs runtime_start runtime_step root es"
  shows "sorted_wrt latched es \<and> (\<forall>x \<in> set es. initialized_completed x)"
  using runtime.hinv_runs [OF assms] by (simp add: runtime_hinv_def)

lemma reconcile_evidence:
  assumes "network_Reconcile C kinds R a = (b, result)" and "rn_Phase b = ph" and "rn_Phase a \<noteq> ph" and "ph = ''Stopped'' \<or> ph = ''Paused''"
  shows "\<exists>ps c wp unstarted. rr_participants R = Inr ps \<and> quiet a c
    \<and> projectWorkers (rr_profile R) (rr_workers R) (latch_failure (refresh_initialized a)) False [] ps = (c, Inr (wp, unstarted))
    \<and> (if ph = ''Stopped'' then rn_Operation c = ''Stopped'' \<and> all_terminated kinds c unstarted ps else pause_claim R ps c)"
proof -
  from reconcile_moves [OF assms(1)] obtain d projected where body: "runtime_body C kinds R a = (d, projected, result)" "quiet d b" by blast
  have other: "\<not> quiet x y" if "rn_Phase y = ph" "rn_Phase x \<noteq> ph" for x y using that assms(4) by (auto simp: moves_def)
  have d: "rn_Phase d = ph" using other body(2) assms(2) by blast
  then have no: "\<not> quiet a d" using other assms(3) by blast
  from body_moves [OF body(1)] no obtain ps c wp unstarted where c: "rr_participants R = Inr ps" "quiet a c"
    "projectWorkers (rr_profile R) (rr_workers R) (latch_failure (refresh_initialized a)) False [] ps = (c, Inr (wp, unstarted))"
    and cases: "pausing c d \<and> pause_claim R ps c
      \<or> rn_Operation c = ''Stopped'' \<and> d = fst (stop_network (all_terminated kinds c unstarted ps) wp c)" by blast
  have start: "rn_Phase c \<noteq> ph" using c(2) assms(3,4) by (auto simp: moves_def)
  have "if ph = ''Stopped'' then rn_Operation c = ''Stopped'' \<and> all_terminated kinds c unstarted ps else pause_claim R ps c"
    using cases d start assms(4) by (auto simp: moves_def stop_network_def Let_def split: if_splits)
  with c show ?thesis by blast
qed

text \<open>C10: A network is reported stopped only when everything it owns has ended. When a reconciliation newly reports the phase
  Stopped, terminal shutdown is declared, and in the participants just listed: every Bitcoin node has terminated control
  processes for its current generation and that of the network, every actor has terminated workloads for its current
  generation, every management worker has a terminated session or was never started, and every allocated identity that is not being
  removed belongs to a listed participant.\<close>

theorem stopped_evidence:
  assumes "network_Reconcile C kinds R root = (root', result)" and "rn_Phase root' = ''Stopped''" and "rn_Phase root \<noteq> ''Stopped''"
  shows "rn_Operation root = ''Stopped''
    \<and> (\<exists>ps c wp unstarted. rr_participants R = Inr ps
        \<and> projectWorkers (rr_profile R) (rr_workers R) (latch_failure (refresh_initialized root)) False [] ps = (c, Inr (wp, unstarted))
        \<and> (\<forall>p \<in> set ps. owned_by root p \<longrightarrow> (bp_Kind p = ''BitcoinNode'' \<longrightarrow> control_terminated root p)
             \<and> (actorKind kinds (bp_Kind p) \<longrightarrow> actor_terminated p) \<and> (ManagementKind (bp_Kind p) \<longrightarrow> worker_terminated c unstarted p))
        \<and> (\<forall>i \<in> set (rn_Identities c). ii_Removing i \<or> (\<exists>p \<in> set ps. owned_by root p \<and> bp_UID p = ii_UID i)))"
proof -
  from reconcile_evidence [OF assms(1,2,3)] obtain ps c wp unstarted where c: "rr_participants R = Inr ps" "quiet root c"
    "projectWorkers (rr_profile R) (rr_workers R) (latch_failure (refresh_initialized root)) False [] ps = (c, Inr (wp, unstarted))"
    "rn_Operation c = ''Stopped''" "all_terminated kinds c unstarted ps" by auto
  have same: "owned_by c p = owned_by root p" "control_terminated c p = control_terminated root p" for p :: RuntimeParticipant
    using c(2) by (simp_all add: moves_def owned_by_def control_terminated_def split: option.splits)
  have all: "participant_terminated kinds c unstarted p" if "p \<in> set ps" "owned_by root p" for p
    using c(5) that same(1) by (auto simp: all_terminated_def Let_def list_all_iff)
  have ids: "ii_Removing i \<or> (\<exists>p \<in> set ps. owned_by root p \<and> bp_UID p = ii_UID i)" if "i \<in> set (rn_Identities c)" for i
  proof -
    have "ii_Removing i \<or> ii_UID i \<in> set (map bp_UID (filter (owned_by c) ps))"
      using c(5) that by (simp add: all_terminated_def Let_def list_all_iff)
    then show ?thesis using same(1) by auto
  qed
  have "rn_Operation root = ''Stopped''" using c(2,4) by (simp add: moves_def)
  with c(1,3) all ids same(2) show ?thesis by (fastforce simp: participant_terminated_def)
qed

lemma executions_paused_all:
  "executions_paused Z c refs = Inr True \<Longrightarrow> ref \<in> set refs \<Longrightarrow>
     \<exists>e. pz_execution Z (Name ref) = Got e \<and> exec_UID e = UID ref \<and> exec_Owner e = rn_UID c
       \<and> (pause_acknowledged c (pz_now Z (Name ref)) (pz_since Z (Name ref)) e
          \<or> UID (exec_Participant e) \<notin> set (active_uids c) \<and> cleanDrain e)"
  by (induction refs) (auto simp: result_simps split: if_splits)

text \<open>C30: A network is reported paused only on acknowledgements. When a reconciliation newly reports the phase Paused, the pause
  is declared, there are execution records, and each of them, read with the identity the aggregate allocated, either carries a
  current acknowledgement of the pause for this generation of the network with no request armed, or is the cleanly drained
  record of a participant that is no longer active; and every bound worker session that is neither being removed nor
  disposed of shows a fresh paused execution of exactly its process.\<close>

theorem paused_evidence:
  assumes "network_Reconcile C kinds R root = (root', result)" and "rn_Phase root' = ''Paused''" and "rn_Phase root \<noteq> ''Paused''"
  shows "rn_Operation root = ''Paused''
    \<and> (\<exists>ps c wp unstarted refs initialization. rr_participants R = Inr ps
        \<and> projectWorkers (rr_profile R) (rr_workers R) (latch_failure (refresh_initialized root)) False [] ps = (c, Inr (wp, unstarted))
        \<and> rr_records R = (refs, initialization, Inr ()) \<and> refs \<noteq> []
        \<and> (\<forall>ref \<in> set refs. \<exists>e. pz_execution (rr_paused R) (Name ref) = Got e \<and> exec_UID e = UID ref \<and> exec_Owner e = rn_UID root
             \<and> (pause_acknowledged root (pz_now (rr_paused R) (Name ref)) (pz_since (rr_paused R) (Name ref)) e
                \<or> UID (exec_Participant e) \<notin> set (active_uids c) \<and> cleanDrain e))
        \<and> (\<forall>i \<in> set (rn_Identities c). \<forall>session. ii_Worker i = Some session \<longrightarrow>
             ii_Removing i \<or> (\<exists>d. ws_Disposal session = Some d \<and> dp_Terminated d)
             \<or> session_paused root ps (rr_workersNow R) i session))"
proof -
  from reconcile_evidence [OF assms(1,2,3)] obtain ps c wp unstarted where c: "rr_participants R = Inr ps" "quiet root c"
    "projectWorkers (rr_profile R) (rr_workers R) (latch_failure (refresh_initialized root)) False [] ps = (c, Inr (wp, unstarted))"
    "pause_claim R ps c" by auto
  from c(4) obtain refs initialization d where d: "rr_records R = (refs, initialization, Inr ())" "quiet c d" "rn_Identities d = rn_Identities c"
    "rn_Bitcoin d = Some \<lparr>bs_InitializationRef = initialization, bs_ExecutionRefs = refs\<rparr>" "rn_Operation d = ''Paused''"
    "bitcoinPaused (rr_paused R) d = Inr True" "workersPaused d ps (rr_workersNow R)"
    unfolding pause_claim_def by (elim exE conjE) (rule that)
  have same: "rn_UID d = rn_UID root" "rn_Operation d = rn_Operation root" "rn_Generation d = rn_Generation root" "rn_Participants d = rn_Participants c"
    using c(2) d(2) by (simp_all add: moves_def)
  have ack: "pause_acknowledged d = pause_acknowledged root" "active_uids d = active_uids c"
    using same d(3) by (simp_all add: fun_eq_iff pause_acknowledged_def active_uids_def split: option.splits)
  have owned: "owned_by d = (owned_by root :: RuntimeParticipant \<Rightarrow> bool)" using same by (simp add: fun_eq_iff owned_by_def)
  have sessions: "session_paused d = session_paused root"
    using same(3) by (intro ext) (simp only: session_paused_def owned)
  have refs: "refs \<noteq> []" "executions_paused (rr_paused R) d refs = Inr True"
    using d(4,6) by (auto simp: bitcoinPaused_def split: if_splits)
  have "\<forall>ref \<in> set refs. \<exists>e. pz_execution (rr_paused R) (Name ref) = Got e \<and> exec_UID e = UID ref \<and> exec_Owner e = rn_UID root
      \<and> (pause_acknowledged root (pz_now (rr_paused R) (Name ref)) (pz_since (rr_paused R) (Name ref)) e
         \<or> UID (exec_Participant e) \<notin> set (active_uids c) \<and> cleanDrain e)"
    using executions_paused_all [OF refs(2)] unfolding ack same by blast
  moreover have "\<forall>i \<in> set (rn_Identities c). \<forall>session. ii_Worker i = Some session \<longrightarrow>
      ii_Removing i \<or> (\<exists>d. ws_Disposal session = Some d \<and> dp_Terminated d) \<or> session_paused root ps (rr_workersNow R) i session"
    using d(7) unfolding workersPaused_def sessions d(3) list_all_iff by (fastforce split: option.splits)
  ultimately show ?thesis
    using c(1,3) d(1) refs(1) d(5) same(2)
    by (intro conjI exI [of _ ps] exI [of _ c] exI [of _ wp] exI [of _ unstarted] exI [of _ refs] exI [of _ initialization]) simp_all
qed

section \<open>Sample objects\<close>

definition sample_actor :: RuntimeParticipant where
  "sample_actor = (sample_member ''node'' ''BitcoinNode'')
     \<lparr>bp_Runtime := Some \<lparr>rt_Protocol = None, rt_ObservedGeneration = 1, rt_PolicyDigest = ''policy'', rt_ConfigRef = None,
                          rt_ConfigurationDigest = [], rt_RPCSecretRef = None, rt_PodRef = None, rt_ContainerID = [], rt_Terminated = True\<rparr>,
      np_WorkloadRefs := [bind ''StatefulSet'' ''node'' ''set''],
      bp_BitcoinControl := Some \<lparr>ctl_ObservedGeneration = 1, ctl_NetworkGeneration = 3, ctl_DeploymentRef = None, ctl_Pods = [],
                                 ctl_Terminated = True, ctl_Reason = []\<rparr>\<rparr>"

definition sample_paused_execution :: BitcoinExecution where
  "sample_paused_execution = sample_execution
     \<lparr>exec_UID := ''e'', exec_NetworkUID := ''net'', exec_Owner := ''net'', Armed := None, Observation := None,
      Control := Some \<lparr>ca_NetworkGeneration = 3, ca_ProcessNonce = ''x'', ca_Operation = ''Paused'', ca_ObservedAt = 80 * second,
                       ca_HeartbeatAt = 95 * second\<rparr>\<rparr>"

definition sample_runtime_reads :: "RuntimeParticipant list result \<Rightarrow> runtime_reads" where
  "sample_runtime_reads participants =
     \<lparr>rr_participants = participants,
      rr_workers = (\<lambda>_. \<lparr>wr_pod = (None, ReadNotFound), wr_now = 0, wr_participant = NotFound, wr_currentPod = (None, ReadNotFound),
                        wr_currentNow = 0\<rparr>),
      rr_profile = (\<lambda>_. True),
      rr_records = ([bind ''BitcoinExecution'' ''exec'' ''e''], Some (initialization_ref sample_initialization), Inr ()),
      rr_initialization = (\<lambda>_. Got sample_initialization), rr_failed = sample_confirm False,
      rr_gates = (sample_confirm False)
        \<lparr>cf_cached := sample_gate_reads\<lparr>gr_execution := (\<lambda>_. Got sample_paused_execution)\<rparr>, cf_participant := (\<lambda>_. Got sample_actor),
         cf_current := sample_gate_reads\<lparr>gr_execution := (\<lambda>_. Got sample_paused_execution)\<rparr>\<rparr>,
      rr_paused = \<lparr>pz_execution = (\<lambda>_. Got sample_paused_execution), pz_now = (\<lambda>_. 100 * second), pz_since = (\<lambda>_. 100 * second)\<rparr>,
      rr_workersNow = 100 * second, rr_operation = sample_gate_reads, rr_snapshot = sample_quiet, rr_operationNow = 100 * second\<rparr>"

definition sample_declared :: "string \<Rightarrow> string \<Rightarrow> AggregateNetwork" where
  "sample_declared operation phase = (sample_aggregate None)
     \<lparr>rn_Operation := operation, rn_Phase := phase,
      rn_Participants := [\<lparr>entry_Name = ''node'', entry_Kind = ''BitcoinNode'', entry_Paused = None, entry_Suspended = False\<rparr>],
      rn_Identities := [\<lparr>ii_Name = ''node'', ii_UID = ''node'', ii_Removing = False, ii_Worker = None\<rparr>]\<rparr>"

definition sample_after :: "RuntimeParticipant list result \<Rightarrow> string \<Rightarrow> string \<Rightarrow> AggregateNetwork" where
  "sample_after participants operation phase =
     fst (network_Reconcile sample_code [] (sample_runtime_reads participants) (sample_declared operation phase))"

lemma runtime_reconciles:
  "runtime_step a (fst (network_Reconcile C kinds R a)) (fst (network_Reconcile C kinds R a))"
  unfolding runtime_step_def by (metis prod.collapse)

lemma two_runtime_steps:
  assumes "runtime_start a" "runtime_step a b b" "runtime_step b c c"
  shows "runs runtime_start runtime_step c [b, c]"
proof -
  from assms(1) have "runs runtime_start runtime_step a []" by (rule runs_start)
  from runs_step [where step = runtime_step, OF runs_step [where step = runtime_step, OF this assms(2)] assms(3)]
  show ?thesis by simp
qed

theorem network_latched_witness:
  "condition_true (sample_after (Inl ''timeout'') ''Running'' ''Failed'') ''Failed''
   \<and> condition_true ((sample_after (Inl ''timeout'') ''Running'' ''Failed'')\<lparr>rn_Operation := ''Stopped''\<rparr>) ''Failed''"
proof -
  let ?a = "sample_declared ''Running'' ''Failed''" and ?b = "sample_after (Inl ''timeout'') ''Running'' ''Failed''"
  let ?c = "?b\<lparr>rn_Operation := ''Stopped''\<rparr>"
  have same: "condition_true ?c k = condition_true ?b k" for k by (simp add: condition_true_def)
  have "runtime_start ?a" by (simp add: runtime_start_def sample_declared_def sample_aggregate_def condition_true_def)
  moreover have "runtime_step ?a ?b ?b" unfolding sample_after_def by (rule runtime_reconciles)
  moreover have "runtime_step ?b ?c ?c" unfolding runtime_step_def using same by simp
  ultimately have "runs runtime_start runtime_step ?c [?b, ?c]" by (rule two_runtime_steps)
  from network_latched [OF this] have "latched ?b ?c" by simp
  moreover have "condition_true ?b ''Failed''" by code_simp
  ultimately show ?thesis by (simp add: latched_def)
qed

theorem stopped_evidence_witness:
  "rn_Phase (sample_after (Inr [sample_actor]) ''Stopped'' ''Stopping'') = ''Stopped''
   \<and> control_terminated (sample_declared ''Stopped'' ''Stopping'') sample_actor"
proof -
  let ?root = "sample_declared ''Stopped'' ''Stopping''" and ?R = "sample_runtime_reads (Inr [sample_actor])"
  have run: "network_Reconcile sample_code [] ?R ?root = (sample_after (Inr [sample_actor]) ''Stopped'' ''Stopping'', snd (network_Reconcile sample_code [] ?R ?root))"
    by (simp add: sample_after_def)
  have stopped: "rn_Phase (sample_after (Inr [sample_actor]) ''Stopped'' ''Stopping'') = ''Stopped''" by code_simp
  have "rn_Phase ?root \<noteq> ''Stopped''" by (simp add: sample_declared_def)
  note evidence = stopped_evidence [OF run stopped this]
  have "rr_participants ?R = Inr [sample_actor]" "owned_by ?root sample_actor" "bp_Kind sample_actor = ''BitcoinNode''"
    by (simp_all add: sample_runtime_reads_def owned_by_def sample_declared_def sample_aggregate_def sample_actor_def sample_member_def)
  with evidence stopped show ?thesis by auto
qed

theorem paused_evidence_witness:
  "rn_Phase (sample_after (Inr [sample_actor]) ''Paused'' ''Pausing'') = ''Paused''
   \<and> pause_acknowledged (sample_declared ''Paused'' ''Pausing'') (100 * second) (100 * second) sample_paused_execution"
proof -
  let ?root = "sample_declared ''Paused'' ''Pausing''" and ?R = "sample_runtime_reads (Inr [sample_actor])"
  have run: "network_Reconcile sample_code [] ?R ?root = (sample_after (Inr [sample_actor]) ''Paused'' ''Pausing'', snd (network_Reconcile sample_code [] ?R ?root))"
    by (simp add: sample_after_def)
  have paused: "rn_Phase (sample_after (Inr [sample_actor]) ''Paused'' ''Pausing'') = ''Paused''" by code_simp
  have "rn_Phase ?root \<noteq> ''Paused''" by (simp add: sample_declared_def)
  note evidence = paused_evidence [OF run paused this]
  have "\<not> cleanDrain sample_paused_execution" by code_simp
  with evidence paused show ?thesis by (auto simp: sample_runtime_reads_def)
qed

end
