(* ===== verification/Spec2Isabelle.thy ===== *)
theory Spec2Isabelle
  imports Transfer_Role Faucet_Role Override_Lifecycle Read_Scope Control_Lifecycle Baseline_Types Network_Runtime
begin

text \<open>
  A verification library for the Stacks network operators of this repository. The program is a set of Kubernetes
  controllers and worker processes, written in Go, that run private Stacks and Bitcoin networks: controllers
  admit participants and requests into status records, workers hold the keys and transmit transactions, and every
  side effect on a chain is fenced by records in the API server that survive lost replies and restarts.

  \<^bold>\<open>Parts and theories.\<close>

  \<^item> \<open>Prelude\<close>: results as sums (\<open>Inl\<close> the error), the wrap-around arithmetic of 64-bit
    counters, lemmas on lists and options shared by the components. \<open>Runs\<close>: finite executions of a labelled step
    relation and the locales \<open>history_system\<close>, \<open>invariant_system\<close> and \<open>serial_submitter\<close>, the contract a
    serial submitter gives its clients.
  \<^item> \<open>Go_Encoding\<close>, \<open>Sha2\<close>: the parts of Go's standard library the sources use (hexadecimal, big-endian
    integers, UTF-8, decimal parsing, SHA-256 and SHA-512/256), executable.
  \<^item> \<open>Identity\<close> (\<open>libs/stacks/identity\<close>, \<open>libs/stacks/internal/keys\<close>): c32check and base58 text,
    key parsing, addresses. The curve and RIPEMD-160 are fields of the record \<open>crypto\<close>.
  \<^item> \<open>Clarity_Value\<close>, \<open>Clarity_Decode\<close> (\<open>libs/stacks/clarity\<close>): the consensus codec with its limits.
    The locales \<open>prefix_codec\<close> and \<open>canonical_codec\<close> state what a self-delimiting canonical codec promises and are
    interpreted on the encoder and decoder.
  \<^item> \<open>Transaction\<close>, \<open>Signing\<close> (\<open>libs/stacks/transaction\<close>, \<open>libs/stacks/signing\<close>): transfers, contract calls,
    deployments, structured messages and PoX authorizations.
  \<^item> \<open>Stacks_Rpc\<close> (\<open>libs/stacks/rpc\<close>): how the replies of a node are validated and classified. A reply is the
    parsed document together with its status and length.
  \<^item> \<open>Nonce_Stream\<close> (\<open>stacksoperation/nonce.go\<close>): the serial account stream; \<open>Transfer_Role\<close>
    (\<open>traffic.go\<close>, \<open>traffic_observation.go\<close>, \<open>applied_inputs.go\<close>): the periodic transfer worker, a client of it.
  \<^item> \<open>Block_Offers\<close> and \<open>Bitcoin_Worker\<close> (\<open>bitcoincontrol/generation_batch.go\<close>, \<open>bootstrap_receipts.go\<close>,
    \<open>wallets.go\<close>, \<open>worker.go\<close>, \<open>cadence/cadence.go\<close>): batch sizes and receipts of block production, and
    the arm, transmit, collect and account protocol of the worker as a step relation over worlds with any
    number of processes, lost replies and updates that land late.
  \<^item> \<open>Foundation_Policy\<close> (\<open>foundation/observation.go\<close>): the timing profile. \<open>Bitcoin_Gates\<close> (\<open>gates.go\<close>,
    \<open>production_binding.go\<close>, identities of \<open>admission.go\<close>), \<open>Bitcoin_Scheduler\<close> (\<open>scheduler.go\<close>, \<open>overrides.go\<close>) and
    \<open>Bitcoin_Baseline\<close> (\<open>baseline.go\<close>, \<open>baseline_inputs.go\<close>): the scheduler of block production, up to its whole
    reconciliation \<open>scheduler_Reconcile\<close> with its writes in order. A reconciliation reads through \<open>reads\<close>, a snapshot
    for every place of the code that reads, so that nothing read twice need agree. \<open>Scheduler_Runs\<close>: its executions.
  \<^item> \<open>Override_Lifecycle\<close> (\<open>override_controller.go\<close>): the controller of schedule override requests and its protocol
    with the scheduler, a step relation over overlapping reconciliations and users. \<open>Baseline_Types\<close>: the type of
    the inputs \<open>baseline_inputs.go\<close> admits.
  \<^item> \<open>Read_Scope\<close> (\<open>read_scope.go\<close>): the bounded search that gives a worker the public objects it may read.
    \<open>Control_Lifecycle\<close> (\<open>control_lifecycle.go\<close>, \<open>drain.go\<close>): the retained evidence about the Pods of a control process, and
    the drain of a worker with the check of its acknowledgement.
  \<^item> \<open>Gate_Evidence\<close>, \<open>Network_Gates\<close>, \<open>Network_Operational\<close>, \<open>Network_Runtime\<close> (\<open>networkruntime\<close>,
    \<open>foundation/bootstrap_policy.go\<close>): the aggregate. The cohorts a bootstrap gate asks for (\<open>cohort.go\<close>, \<open>prepared.go\<close>,
    \<open>contracts.go\<close>), the pass over the frozen gates and its confirmation (\<open>gates.go\<close>, \<open>bitcoin_observation.go\<close>), the
    predicates of baseline operation and the height samples (\<open>operational.go\<close>, \<open>burnchain.go\<close>), and the reconciliation of
    the root that runs them, \<open>network_Reconcile\<close> (\<open>workers.go\<close>, \<open>reconciler.go\<close>). It reads the session ledger through
    \<open>ledger_view\<close>, and the scheduler reads its progress through \<open>scheduler_view\<close>.
  \<^item> \<open>Naming\<close>, \<open>Worker_Session\<close> (\<open>naming\<close>, \<open>stacksworker/session.go\<close>, \<open>foundation/worker_allocation.go\<close>): stable
    object names and the ledger of worker sessions.
  \<^item> \<open>Faucet_Request\<close> (\<open>faucetrequest/status.go\<close>, \<open>controller.go\<close>, \<open>watches.go\<close>): admission, capacity and the phase shown
    for a request; \<open>Faucet_Role\<close> (\<open>stacksoperation/faucet.go\<close>, \<open>faucet_queue.go\<close>): the worker that pays admitted
    requests, over an API server that may answer every call differently.

  \<^bold>\<open>State and operations.\<close> A struct is a record with the fields the code reads, an operation a function
  that returns the updated state beside its result; what it sends or asks of the API server is part
  of the result, so that safety is stated about histories of calls and transmissions. The clock, the node, the
  API server and the resolvers of inputs are arguments; a value the code reads twice is two
  components of the argument. Every early return and error of the source is a branch.

  \<^bold>\<open>What is shown.\<close> For the codecs and addresses: decoding is exact and inverts encoding in both
  directions. For transactions: the layout of the signed bytes. For the nonce stream: accounting of everything offered, a nonce is
  used again only after definite refusals, one transmission at a time; the transfer role refines it and keeps its
  cadence. For block production: requests are serialized and transmitted in order within their ceiling, receipts are
  counted once, also when several processes race and updates arrive late. For the scheduler: every baseline opportunity
  is accounted for in exactly one way, offers carry rising numbers, a bootstrap offer keeps within the frozen ceiling and
  is one the worker accepts, admitted inputs have a type under which a due opportunity is always decided, and a schedule
  override is activated at most once. For the read scope: the search ends and finds exactly what admitted dependencies
  reach. For control processes: termination is reported only on confirmed exits, evidence is recorded before
  it is released, and a drain is acknowledged. For the aggregate: gates progress monotonically on evidence confirmed by current
  reads, and the progress is one the scheduler and the admission of policies accept; failure and initialization are
  latched; an operational, stopped or paused network rests on current observations of its participants. One of these
  theorems, \<open>scheduler_window_accepted\<close>, delimits a defect: for a cadence whose progress window is not a whole number of
  seconds the aggregate rejects the window the scheduler publishes. For sessions: a bound
  worker is never replaced and every disposal rests on evidence about the exact Pod. For the
  faucet: grants stay within policy and capacity, phases follow execution evidence, one process pays a request
  at most once and exactly as admitted, and a finished drain leaves nothing unpublished. Invariants are proved
  through the locales of \<open>Runs\<close>, interpreted on the step relation of each component.

  \<^bold>\<open>Bounds and termination.\<close> No definition uses fuel. Recursion is structural or on a measure: the decoder consumes
  bytes, base conversion divides, and the drain loop of the faucet role removes a notice in every
  iteration, and the search of the read scope a lexicographic measure: at most 1000 keys
  are ever marked as seen, and a step that marks none shortens the work list. Counters are 64-bit words, or integers shown to stay in the range of their type, where the code guards
  them against wrapping; times are integers of nanoseconds, as the code holds them before the API server rounds them.

  \<^bold>\<open>Not modelled.\<close> HTTP and JSON transport, the construction of Pods, StatefulSets, Services and configuration
  files, watches, leases and process wiring are input and output or Kubernetes object data, and generated code is
  generated. The reconciler of \<open>foundation\<close> compiles participants and the genesis document out of such objects and of protocol
  releases embedded in the binary; what other parts read of its results (allocations, timing, bootstrap policies) is
  modelled. The controllers of finite actions and the PoX and contract roles are clients of protocols modelled here (the requests of
  \<open>Bitcoin_Worker\<close>, the serial stream of \<open>Nonce_Stream\<close>), without a model of their own. The observer of Bitcoin
  reorganizations, the observability operator and the tools run beside the network and decide nothing in it.
\<close>

end
